(* ===== verification/Prelude.thy ===== *)
theory Prelude
  imports Main "HOL-Library.List_Lexorder"
begin

text \<open>
  What every component of the development shares: JavaScript strings, the \<open>Map\<close> of
  JavaScript with its insertion order, and the interface (a locale) under which the
  components use such a map.

  A JavaScript string is the list of its UTF-16 code units, each a natural number below
  65536.  The length of the list is the \<open>length\<close> property of the string, and
  \<open>str\<close> lifts an ASCII literal.  The order of \<open>HOL-Library.List_Lexorder\<close> on such lists is
  the order of \<open>Array.prototype.sort\<close> without a comparator: code unit by code unit.
\<close>

named_theorems js_simps \<open>evaluation of the JavaScript library operations\<close>

type_synonym js_string = "nat list"

definition str :: "string \<Rightarrow> js_string" where
  "str s = map of_char s"

lemma str_eq_iff [simp]: "str s = str t \<longleftrightarrow> s = t"
  by (simp add: str_def inj_map_eq_map inj_def)

lemma str_eq_Nil_iff [simp]: "str s = [] \<longleftrightarrow> s = []" "[] = str s \<longleftrightarrow> s = []"
  by (auto simp: str_def)

lemma str_Nil [simp]: "str [] = []"
  by (simp add: str_def)

lemma length_str [simp]: "length (str s) = length s"
  by (simp add: str_def)

subsection \<open>Trimming, splitting and joining\<close>

text \<open>The white space and line terminators of ECMAScript, which \<open>trim\<close> removes.\<close>

definition js_space :: "nat \<Rightarrow> bool" where
  "js_space c \<longleftrightarrow> (9 \<le> c \<and> c \<le> 13) \<or> c = 32 \<or> c = 160 \<or> c = 5760 \<or> (8192 \<le> c \<and> c \<le> 8202)
     \<or> c = 8232 \<or> c = 8233 \<or> c = 8239 \<or> c = 8287 \<or> c = 12288 \<or> c = 65279"

definition trim_start :: "js_string \<Rightarrow> js_string" where
  "trim_start s = dropWhile js_space s"

definition trim_end :: "js_string \<Rightarrow> js_string" where
  "trim_end s = rev (dropWhile js_space (rev s))"

definition trim :: "js_string \<Rightarrow> js_string" where
  "trim s = trim_end (trim_start s)"

lemma trim_eq_Nil_iff: "trim s = [] \<longleftrightarrow> (\<forall>c \<in> set s. js_space c)"
proof -
  have "trim s = [] \<longleftrightarrow> (\<forall>c \<in> set (dropWhile js_space s). js_space c)"
    by (simp add: trim_def trim_end_def trim_start_def dropWhile_eq_Nil_conv)
  also have "\<dots> \<longleftrightarrow> (\<forall>c \<in> set s. js_space c)"
    by (induction s) auto
  finally show ?thesis .
qed

lemma trim_Nil [simp]: "trim [] = []"
  by (simp add: trim_eq_Nil_iff)

lemma dropWhile_idem_last: "dropWhile P (rev (dropWhile P (rev xs))) = rev (dropWhile P (rev (dropWhile P xs)))"
proof (induction xs)
  case Nil
  then show ?case by simp
next
  case (Cons x xs)
  show ?case
  proof (cases "P x")
    case True
    show ?thesis
    proof (cases "\<forall>y \<in> set xs. P y")
      case True
      then have "\<forall>y \<in> set (rev xs @ [x]). P y" using \<open>P x\<close> by simp
      then have "dropWhile P (rev xs @ [x]) = []" by (simp only: dropWhile_eq_Nil_conv)
      moreover have "dropWhile P (x # xs) = []" using True \<open>P x\<close>
        by (simp add: dropWhile_eq_Nil_conv)
      ultimately show ?thesis by (metis rev.simps dropWhile.simps(1))
    next
      case False
      then have "dropWhile P (rev xs @ [x]) = dropWhile P (rev xs) @ [x]"
        by (metis dropWhile_append1 set_rev)
      then show ?thesis using Cons \<open>P x\<close> by simp
    qed
  next
    case False
    then have "dropWhile P (rev xs @ [x]) = dropWhile P (rev xs) @ [x]"
      by (induction xs rule: rev_induct) auto
    then show ?thesis using False by simp
  qed
qed

lemma trim_idem [simp]: "trim (trim s) = trim s"
  by (simp add: trim_def trim_end_def trim_start_def dropWhile_idem_last)

fun js_join :: "js_string \<Rightarrow> js_string list \<Rightarrow> js_string" where
  "js_join sep [] = []"
| "js_join sep [x] = x"
| "js_join sep (x # y # xs) = x @ sep @ js_join sep (y # xs)"

text \<open>\<open>split\<close> with a one-character separator: never the empty list.\<close>

fun js_split :: "nat \<Rightarrow> js_string \<Rightarrow> js_string list" where
  "js_split sep [] = [[]]"
| "js_split sep (c # cs) =
     (if c = sep then [] # js_split sep cs
      else (case js_split sep cs of [] \<Rightarrow> [[c]] | l # ls \<Rightarrow> (c # l) # ls))"

lemma js_split_not_Nil [simp]: "js_split sep s \<noteq> []"
  by (cases s) (auto split: list.splits)

lemma js_join_Cons_not_Nil: "ls \<noteq> [] \<Longrightarrow> js_join sep (l # ls) = l @ sep @ js_join sep ls"
  by (cases ls) auto

lemma js_join_split: "js_join [sep] (js_split sep s) = s"
proof (induction s)
  case Nil
  then show ?case by simp
next
  case (Cons c s)
  obtain l ls where ls: "js_split sep s = l # ls"
    by (cases "js_split sep s") auto
  then show ?case
    using Cons by (cases ls) (auto simp: js_join_Cons_not_Nil)
qed

lemma js_split_no_sep: "l \<in> set (js_split sep s) \<Longrightarrow> sep \<notin> set l"
  by (induction s arbitrary: l) (auto split: if_splits list.splits)

lemma js_split_single: "sep \<notin> set l \<Longrightarrow> js_split sep l = [l]"
  by (induction l) auto

lemma js_split_append: "sep \<notin> set l \<Longrightarrow> js_split sep (l @ sep # s) = l # js_split sep s"
  by (induction l) auto

lemma js_split_join:
  "ls \<noteq> [] \<Longrightarrow> (\<And>l. l \<in> set ls \<Longrightarrow> sep \<notin> set l) \<Longrightarrow> js_split sep (js_join [sep] ls) = ls"
  by (induction "[sep]" ls rule: js_join.induct) (auto simp: js_split_append js_split_single)

subsection \<open>Surrogates and code points\<close>

definition high_surrogate :: "nat \<Rightarrow> bool" where
  "high_surrogate c \<longleftrightarrow> 0xd800 \<le> c \<and> c \<le> 0xdbff"

definition low_surrogate :: "nat \<Rightarrow> bool" where
  "low_surrogate c \<longleftrightarrow> 0xdc00 \<le> c \<and> c \<le> 0xdfff"

definition starts_low :: "js_string \<Rightarrow> bool" where
  "starts_low s \<longleftrightarrow> s \<noteq> [] \<and> low_surrogate (hd s)"

lemma starts_low_Nil [simp]: "\<not> starts_low []"
  by (simp add: starts_low_def)

lemma starts_low_Cons [simp]: "starts_low (c # s) = low_surrogate c"
  by (simp add: starts_low_def)

lemma not_low_and_high: "low_surrogate c \<Longrightarrow> \<not> high_surrogate c"
  by (simp add: low_surrogate_def high_surrogate_def)

text \<open>A string is read unit by unit, but for a high surrogate before a low one.\<close>

lemma utf16_induct [case_names Nil Pair Unit]:
  assumes "P []"
    and "\<And>c d s. high_surrogate c \<Longrightarrow> low_surrogate d \<Longrightarrow> P s \<Longrightarrow> P (c # d # s)"
    and "\<And>c s. \<not> (high_surrogate c \<and> starts_low s) \<Longrightarrow> P s \<Longrightarrow> P (c # s)"
  shows "P s"
proof (induction s rule: length_induct)
  case (1 s)
  show ?case
  proof (cases s)
    case Nil
    then show ?thesis using assms(1) by simp
  next
    case (Cons c cs)
    show ?thesis
    proof (cases "high_surrogate c \<and> starts_low cs")
      case True
      then obtain d ds where "cs = d # ds" "low_surrogate d" by (cases cs) auto
      then show ?thesis using 1 Cons True assms(2) by simp
    next
      case False
      then show ?thesis using 1 Cons assms(3) by simp
    qed
  qed
qed

subsection \<open>Times\<close>

text \<open>A time in milliseconds as \<open>Date.parse\<close> gives it; None is \<open>NaN\<close>.\<close>

type_synonym ms = "int option"

subsection \<open>Maps in insertion order\<close>

text \<open>
  A JavaScript \<open>Map\<close> iterates over its keys in the order of their first insertion; writing
  a key that is present keeps its place.  It is modelled by the list of its entries.
\<close>

type_synonym ('k, 'v) js_map = "('k \<times> 'v) list"

definition map_get :: "('k, 'v) js_map \<Rightarrow> 'k \<Rightarrow> 'v option" where
  "map_get m k = map_of m k"

fun map_set :: "('k, 'v) js_map \<Rightarrow> 'k \<Rightarrow> 'v \<Rightarrow> ('k, 'v) js_map" where
  "map_set [] k v = [(k, v)]"
| "map_set ((k', v') # m) k v = (if k' = k then (k, v) # m else (k', v') # map_set m k v)"

definition map_delete :: "('k, 'v) js_map \<Rightarrow> 'k \<Rightarrow> ('k, 'v) js_map" where
  "map_delete m k = filter (\<lambda>e. fst e \<noteq> k) m"

definition map_keep :: "('k \<Rightarrow> 'v \<Rightarrow> bool) \<Rightarrow> ('k, 'v) js_map \<Rightarrow> ('k, 'v) js_map" where
  "map_keep P m = filter (\<lambda>e. P (fst e) (snd e)) m"

definition map_wf :: "('k, 'v) js_map \<Rightarrow> bool" where
  "map_wf m \<longleftrightarrow> distinct (map fst m)"

definition map_of_entries :: "('k \<times> 'v) list \<Rightarrow> ('k, 'v) js_map" where
  "map_of_entries es = fold (\<lambda>e m. map_set m (fst e) (snd e)) es []"

lemma map_get_Nil [simp]: "map_get [] k = None"
  by (simp add: map_get_def)

lemma map_wf_Nil [simp]: "map_wf []"
  by (simp add: map_wf_def)

lemma map_get_set [simp]: "map_get (map_set m k v) k' = (if k' = k then Some v else map_get m k')"
  by (induction m) (auto simp: map_get_def)

lemma map_get_delete [simp]: "map_get (map_delete m k) k' = (if k' = k then None else map_get m k')"
  by (induction m) (auto simp: map_get_def map_delete_def)

lemma dom_map_set: "set (map fst (map_set m k v)) = insert k (set (map fst m))"
proof (induction m)
  case (Cons e m)
  then show ?case by (cases e) (simp add: insert_commute)
qed simp

lemma map_wf_set [simp]: "map_wf m \<Longrightarrow> map_wf (map_set m k v)"
proof (induction m)
  case (Cons e m)
  then show ?case using dom_map_set [of m k v]
    by (cases e) (auto simp: map_wf_def simp del: set_map)
qed (simp add: map_wf_def)

lemma distinct_map_fst_filter: "distinct (map fst m) \<Longrightarrow> distinct (map fst (filter P m))"
  by (induction m) auto

lemma map_wf_delete [simp]: "map_wf m \<Longrightarrow> map_wf (map_delete m k)"
  by (simp add: map_wf_def map_delete_def distinct_map_fst_filter)

lemma map_wf_keep [simp]: "map_wf m \<Longrightarrow> map_wf (map_keep P m)"
  by (simp add: map_wf_def map_keep_def distinct_map_fst_filter)

lemma map_get_keep:
  "map_wf m \<Longrightarrow> map_get (map_keep P m) k =
     (case map_get m k of None \<Rightarrow> None | Some v \<Rightarrow> if P k v then Some v else None)"
proof (induction m)
  case Nil
  then show ?case by (simp add: map_keep_def)
next
  case (Cons e m)
  obtain k' v' where e: "e = (k', v')" by (cases e)
  have "map_wf m" "k' \<notin> set (map fst m)" using Cons.prems e by (auto simp: map_wf_def)
  moreover have "k' \<notin> set (map fst m) \<Longrightarrow> map_get (filter Q m) k' = None" for Q
    by (induction m) (auto simp: map_get_def)
  ultimately show ?case using Cons.IH e by (auto simp: map_keep_def map_get_def)
qed

lemma map_get_in_set: "map_get m k = Some v \<Longrightarrow> (k, v) \<in> set m"
  by (simp add: map_get_def map_of_SomeD)

lemma map_in_set_get: "map_wf m \<Longrightarrow> (k, v) \<in> set m \<Longrightarrow> map_get m k = Some v"
  by (simp add: map_get_def map_wf_def)

lemma length_map_set:
  "length (map_set m k v) = (if map_get m k = None then Suc (length m) else length m)"
  by (induction m) (auto simp: map_get_def)

lemma map_set_keys_present: "map_get m k \<noteq> None \<Longrightarrow> map fst (map_set m k v) = map fst m"
  by (induction m) (auto simp: map_get_def)

lemma fold_map_set_wf: "map_wf m \<Longrightarrow> map_wf (fold (\<lambda>e m. map_set m (fst e) (snd e)) es m)"
  by (induction es arbitrary: m) auto

lemma fold_map_set_get:
  "map_get (fold (\<lambda>e m. map_set m (fst e) (snd e)) es m) k =
     (case map_of (rev es) k of None \<Rightarrow> map_get m k | Some v \<Rightarrow> Some v)"
  by (induction es arbitrary: m) (auto simp: map_add_def split: option.splits)

lemma map_wf_of_entries [simp]: "map_wf (map_of_entries es)"
  by (simp add: map_of_entries_def fold_map_set_wf)

lemma map_get_of_entries: "map_get (map_of_entries es) k = map_of (rev es) k"
  by (simp add: map_of_entries_def fold_map_set_get split: option.splits)

subsection \<open>The interface of a keyed store\<close>

text \<open>
  The components look entries up, write and delete them, and drop the entries that fail a
  test; they rely on the laws below and not on the list.
\<close>

locale keyed_store =
  fixes empty :: 'm
    and get :: "'m \<Rightarrow> 'k \<Rightarrow> 'v option"
    and put :: "'m \<Rightarrow> 'k \<Rightarrow> 'v \<Rightarrow> 'm"
    and del :: "'m \<Rightarrow> 'k \<Rightarrow> 'm"
    and keep :: "('k \<Rightarrow> 'v \<Rightarrow> bool) \<Rightarrow> 'm \<Rightarrow> 'm"
    and wf :: "'m \<Rightarrow> bool"
  assumes get_empty: "get empty k = None"
    and get_put: "get (put m k v) k' = (if k' = k then Some v else get m k')"
    and get_del: "get (del m k) k' = (if k' = k then None else get m k')"
    and get_keep: "wf m \<Longrightarrow> get (keep P m) k =
       (case get m k of None \<Rightarrow> None | Some v \<Rightarrow> if P k v then Some v else None)"
    and wf_empty: "wf empty"
    and wf_put: "wf m \<Longrightarrow> wf (put m k v)"
    and wf_del: "wf m \<Longrightarrow> wf (del m k)"
    and wf_keep: "wf m \<Longrightarrow> wf (keep P m)"
begin

lemma get_put_same: "get (put m k v) k = Some v"
  by (simp add: get_put)

lemma get_put_other: "k' \<noteq> k \<Longrightarrow> get (put m k v) k' = get m k'"
  by (simp add: get_put)

lemma get_keep_Some_iff: "wf m \<Longrightarrow> get (keep P m) k = Some v \<longleftrightarrow> get m k = Some v \<and> P k v"
  by (auto simp: get_keep split: option.splits)

lemma get_keep_None_iff:
  "wf m \<Longrightarrow> get (keep P m) k = None \<longleftrightarrow> (\<forall>v. get m k = Some v \<longrightarrow> \<not> P k v)"
  by (auto simp: get_keep split: option.splits)

text \<open>Writing keeps a property of all entries that the new entry has.\<close>

lemma put_all:
  "(\<And>k v. get m k = Some v \<Longrightarrow> Q k v) \<Longrightarrow> Q k0 v0 \<Longrightarrow> get (put m k0 v0) k = Some v \<Longrightarrow> Q k v"
  by (auto simp: get_put split: if_splits)

lemma keep_all:
  "wf m \<Longrightarrow> (\<And>k v. get m k = Some v \<Longrightarrow> Q k v) \<Longrightarrow> get (keep P m) k = Some v \<Longrightarrow> Q k v"
  by (auto simp: get_keep_Some_iff)

end

interpretation jm: keyed_store "[]" map_get map_set map_delete map_keep map_wf
  by unfold_locales (auto simp: map_get_keep)

end
