(* ===== verification/Json.thy ===== *)
theory Json
  imports Prelude "HOL-Library.Multiset"
begin

text \<open>
  JSON values as the program handles them (the type \<open>unknown\<close> of the wire boundaries, tool
  arguments and details).  An object is the list of its members in insertion order; a value
  obtained by \<open>JSON.parse\<close> has distinct member names.  Numbers are the integers: fractions
  and the exponent notation of \<open>Number.prototype.toString\<close> are not modelled.
\<close>

datatype json =
    JNull
  | JBool bool
  | JNum int
  | JStr js_string
  | JArr "json list"
  | JObj "(js_string \<times> json) list"

text \<open>Reading a member: \<open>value.name\<close> of an object, \<open>undefined\<close> (None) when absent.\<close>

fun json_get :: "json \<Rightarrow> js_string \<Rightarrow> json option" where
  "json_get (JObj ms) k = map_get ms k"
| "json_get _ k = None"

fun json_string :: "json option \<Rightarrow> js_string option" where
  "json_string (Some (JStr s)) = Some s"
| "json_string _ = None"

text \<open>Every object inside a value has distinct member names.\<close>

fun json_wf :: "json \<Rightarrow> bool" where
  "json_wf (JArr vs) = (\<forall>v \<in> set vs. json_wf v)"
| "json_wf (JObj ms) = (distinct (map fst ms) \<and> (\<forall>m \<in> set ms. json_wf (snd m)))"
| "json_wf _ = True"

subsection \<open>JSON.stringify\<close>

fun show_nat :: "nat \<Rightarrow> js_string" where
  "show_nat n = (if n < 10 then [48 + n] else show_nat (n div 10) @ [48 + n mod 10])"

declare show_nat.simps [simp del]

definition show_int :: "int \<Rightarrow> js_string" where
  "show_int i = (if i < 0 then 45 # show_nat (nat (- i)) else show_nat (nat i))"

definition hex_digit :: "nat \<Rightarrow> nat" where
  "hex_digit n = (if n < 10 then 48 + n else 87 + n)"

definition hex4 :: "nat \<Rightarrow> js_string" where
  "hex4 c = [hex_digit (c div 4096 mod 16), hex_digit (c div 256 mod 16),
             hex_digit (c div 16 mod 16), hex_digit (c mod 16)]"

definition unicode_escape :: "nat \<Rightarrow> js_string" where
  "unicode_escape c = 92 # 117 # hex4 c"

definition quote_unit :: "nat \<Rightarrow> js_string" where
  "quote_unit c =
     (if c = 8 then [92, 98] else if c = 9 then [92, 116] else if c = 10 then [92, 110]
      else if c = 12 then [92, 102] else if c = 13 then [92, 114]
      else if c = 34 then [92, 34] else if c = 92 then [92, 92]
      else if c < 32 \<or> high_surrogate c \<or> low_surrogate c then unicode_escape c
      else [c])"

fun quote_units :: "js_string \<Rightarrow> js_string" where
  "quote_units [] = []"
| "quote_units (c # cs) =
     (if high_surrogate c \<and> starts_low cs then c # hd cs # quote_units (tl cs)
      else quote_unit c @ quote_units cs)"

definition json_quote :: "js_string \<Rightarrow> js_string" where
  "json_quote s = 34 # quote_units s @ [34]"

fun json_stringify :: "json \<Rightarrow> js_string" where
  "json_stringify JNull = str ''null''"
| "json_stringify (JBool True) = str ''true''"
| "json_stringify (JBool False) = str ''false''"
| "json_stringify (JNum i) = show_int i"
| "json_stringify (JStr s) = json_quote s"
| "json_stringify (JArr vs) = 91 # js_join [44] (map json_stringify vs) @ [93]"
| "json_stringify (JObj ms) =
     123 # js_join [44] (map (\<lambda>m. json_quote (fst m) @ [58] @ json_stringify (snd m)) ms) @ [125]"

subsection \<open>JSON.stringify is injective\<close>

definition digit :: "nat \<Rightarrow> bool" where
  "digit c \<longleftrightarrow> 48 \<le> c \<and> c \<le> 57"

definition digits_value :: "js_string \<Rightarrow> nat" where
  "digits_value ds = foldl (\<lambda>a d. 10 * a + (d - 48)) 0 ds"

lemma show_nat_digits: "(\<forall>c \<in> set (show_nat n). digit c) \<and> show_nat n \<noteq> []"
proof (induction n rule: show_nat.induct)
  case (1 n)
  then show ?case by (subst (1 2) show_nat.simps) (auto simp: digit_def)
qed

lemma digits_value_show_nat: "digits_value (show_nat n) = n"
proof (induction n rule: show_nat.induct)
  case (1 n)
  then show ?case
    by (subst show_nat.simps) (auto simp: digits_value_def)
qed

definition json_delim :: "js_string \<Rightarrow> bool" where
  "json_delim x \<longleftrightarrow> x = [] \<or> hd x = 44 \<or> hd x = 93 \<or> hd x = 125"

lemma json_delim_simps [simp]: "json_delim []" "json_delim (44 # x)" "json_delim (93 # x)"
  "json_delim (125 # x)"
  by (simp_all add: json_delim_def)

lemma takeWhile_digit_show_nat:
  "json_delim x \<Longrightarrow> takeWhile digit (show_nat n @ x) = show_nat n"
  using show_nat_digits [of n]
  by (cases x) (auto simp: takeWhile_append json_delim_def digit_def)

lemma show_nat_prefix_free:
  assumes "show_nat m @ x = show_nat n @ y" "json_delim x" "json_delim y"
  shows "m = n \<and> x = y"
proof -
  have "show_nat m = show_nat n"
    using assms takeWhile_digit_show_nat by metis
  then show ?thesis using assms(1) digits_value_show_nat by (metis same_append_eq)
qed

lemma hd_show_nat: "digit (hd (show_nat n @ x))"
  using show_nat_digits [of n] by (cases "show_nat n") auto

lemma show_nat_not_minus: "show_nat n @ x \<noteq> 45 # y"
  using hd_show_nat [of n x] by (auto simp: digit_def)

lemma show_int_prefix_free:
  assumes "show_int m @ x = show_int n @ y" "json_delim x" "json_delim y"
  shows "m = n \<and> x = y"
proof (cases "m < 0"; cases "n < 0")
  assume "m < 0" "n < 0"
  then have "nat (- m) = nat (- n) \<and> x = y"
    using assms by (intro show_nat_prefix_free) (simp_all add: show_int_def)
  then show ?thesis using \<open>m < 0\<close> \<open>n < 0\<close> by linarith
next
  assume "\<not> m < 0" "\<not> n < 0"
  then have "nat m = nat n \<and> x = y"
    using assms by (intro show_nat_prefix_free) (simp_all add: show_int_def)
  then show ?thesis using \<open>\<not> m < 0\<close> \<open>\<not> n < 0\<close> by linarith
next
  assume "m < 0" "\<not> n < 0"
  then show ?thesis
    using assms(1) [symmetric] show_nat_not_minus [of "nat n" y] by (simp add: show_int_def)
next
  assume "\<not> m < 0" "n < 0"
  then show ?thesis using assms(1) show_nat_not_minus [of "nat m" x] by (simp add: show_int_def)
qed

text \<open>Reading a quoted string back.\<close>

definition unhex :: "nat \<Rightarrow> nat" where
  "unhex d = (if d < 58 then d - 48 else d - 87)"

function unquote :: "js_string \<Rightarrow> (js_string \<times> js_string) option" where
  "unquote [] = None"
| "unquote (c # cs) =
     (if c = 34 then Some ([], cs)
      else if c = 92 then
        (case cs of
           e # r \<Rightarrow>
             (if e = 117 then
                map_option (\<lambda>(s, t). ((unhex (r ! 0) * 4096 + unhex (r ! 1) * 256 + unhex (r ! 2) * 16
                                        + unhex (r ! 3)) # s, t)) (unquote (drop 4 r))
              else
                map_option (\<lambda>(s, t).
                  ((if e = 98 then 8 else if e = 116 then 9 else if e = 110 then 10
                    else if e = 102 then 12 else if e = 114 then 13 else e) # s, t)) (unquote r))
         | [] \<Rightarrow> None)
      else map_option (\<lambda>(s, t). (c # s, t)) (unquote cs))"
  by pat_completeness auto
termination
  by (relation "measure length") auto

lemma unhex_hex_digit: "n < 16 \<Longrightarrow> unhex (hex_digit n) = n"
  by (auto simp: unhex_def hex_digit_def)

lemma hex4_value:
  fixes c :: nat
  assumes "c < 65536"
  shows "(c div 4096 mod 16) * 4096 + (c div 256 mod 16) * 256 + (c div 16 mod 16) * 16
     + c mod 16 = c"
proof -
  have 1: "c = 16 * (c div 16) + c mod 16" by simp
  have 2: "c div 16 = 16 * (c div 256) + c div 16 mod 16"
    using div_mult2_eq [of c 16 16] by simp
  have 3: "c div 256 = 16 * (c div 4096) + c div 256 mod 16"
    using div_mult2_eq [of c 256 16] by simp
  have 4: "c div 4096 mod 16 = c div 4096" using assms by simp
  show ?thesis using 1 2 3 4 by linarith
qed

lemma unquote_stop: "unquote (34 # r) = Some ([], r)"
  by simp

lemma unquote_hex:
  "unquote (92 # 117 # a # b # c # d # r) =
     map_option (\<lambda>(s, t). ((unhex a * 4096 + unhex b * 256 + unhex c * 16 + unhex d) # s, t)) (unquote r)"
  by (subst unquote.simps(2)) simp

lemma unquote_esc:
  "e \<noteq> 117 \<Longrightarrow> unquote (92 # e # r) =
     map_option (\<lambda>(s, t).
       ((if e = 98 then 8 else if e = 116 then 9 else if e = 110 then 10
         else if e = 102 then 12 else if e = 114 then 13 else e) # s, t)) (unquote r)"
  by (subst unquote.simps(2)) simp

lemma unquote_raw:
  "c \<noteq> 34 \<Longrightarrow> c \<noteq> 92 \<Longrightarrow> unquote (c # cs) = map_option (\<lambda>(s, t). (c # s, t)) (unquote cs)"
  by (subst unquote.simps(2)) simp

declare unquote.simps(2) [simp del]

lemma unquote_unicode_escape:
  "c < 65536 \<Longrightarrow>
     unquote (unicode_escape c @ r) = map_option (\<lambda>(s, t). (c # s, t)) (unquote r)"
  using hex4_value [of c]
  by (simp add: unicode_escape_def hex4_def unquote_hex unhex_hex_digit)

lemma unquote_unit:
  assumes "c < 65536"
  shows "unquote (quote_unit c @ r) = map_option (\<lambda>(s, t). (c # s, t)) (unquote r)"
proof (cases "c \<in> {8, 9, 10, 12, 13, 34, 92}")
  case True
  then show ?thesis by (auto simp: quote_unit_def unquote_esc)
next
  case False
  then show ?thesis
    using assms by (auto simp: quote_unit_def unquote_unicode_escape unquote_raw)
qed

definition js_units :: "js_string \<Rightarrow> bool" where
  "js_units s \<longleftrightarrow> (\<forall>c \<in> set s. c < 65536)"

lemma unquote_quote_units:
  "js_units s \<Longrightarrow> unquote (quote_units s @ 34 # r) = Some (s, r)"
proof (induction s rule: utf16_induct)
  case (Pair c d s)
  then have "c \<noteq> 34" "c \<noteq> 92" "d \<noteq> 34" "d \<noteq> 92" "js_units s"
    by (auto simp: high_surrogate_def low_surrogate_def js_units_def)
  with Pair show ?case by (simp add: unquote_raw)
next
  case (Unit c s)
  then show ?case by (auto simp: unquote_unit js_units_def)
qed (simp add: unquote_stop)

lemma json_quote_prefix_free:
  assumes "json_quote a @ x = json_quote b @ y" "js_units a" "js_units b"
  shows "a = b \<and> x = y"
proof -
  have "quote_units a @ 34 # x = quote_units b @ 34 # y"
    using assms(1) by (simp add: json_quote_def)
  then have "Some (a, x) = Some (b, y)"
    using unquote_quote_units [OF assms(2), of x] unquote_quote_units [OF assms(3), of y] by metis
  then show ?thesis by simp
qed

text \<open>All strings inside a value hold UTF-16 code units.\<close>

fun json_units :: "json \<Rightarrow> bool" where
  "json_units (JStr s) = js_units s"
| "json_units (JArr vs) = (\<forall>v \<in> set vs. json_units v)"
| "json_units (JObj ms) = (\<forall>m \<in> set ms. js_units (fst m) \<and> json_units (snd m))"
| "json_units _ = True"

lemma js_join_Cons: "js_join sep (l # ls) = l @ (if ls = [] then [] else sep @ js_join sep ls)"
  by (cases ls) auto

text \<open>The parts of an array or object, separated by commas and closed by \<open>close\<close>.\<close>

lemma join_prefix_free:
  assumes "js_join [44] (map f as) @ close # x = js_join [44] (map g bs) @ close # y"
    and "close = 93 \<or> close = 125"
    and step: "\<And>a b x y. a \<in> set as \<Longrightarrow> b \<in> set bs \<Longrightarrow> f a @ x = g b @ y \<Longrightarrow> json_delim x \<Longrightarrow>
        json_delim y \<Longrightarrow> h a = k b \<and> x = y"
    and nonempty: "\<And>a x. a \<in> set as \<Longrightarrow> f a @ x \<noteq> close # y" "\<And>b y. b \<in> set bs \<Longrightarrow> close # x \<noteq> g b @ y"
  shows "map h as = map k bs \<and> x = y"
  using assms
proof (induction as arbitrary: bs)
  case Nil
  then show ?case by (cases bs) (auto simp: js_join_Cons)
next
  case (Cons a as)
  show ?case
  proof (cases bs)
    case Nil
    then show ?thesis using Cons.prems(1,4) by (auto simp: js_join_Cons)
  next
    case (Cons b bs')
    let ?x = "if as = [] then close # x else 44 # js_join [44] (map f as) @ close # x"
    let ?y = "if bs' = [] then close # y else 44 # js_join [44] (map g bs') @ close # y"
    have eq: "f a @ ?x = g b @ ?y" using Cons.prems(1) Cons by (auto simp: js_join_Cons split: if_splits)
    have "h a = k b \<and> ?x = ?y"
      using Cons.prems(2) Cons by (intro Cons.prems(3) [OF _ _ eq]) auto
    then have ab: "h a = k b" and xy: "?x = ?y" by blast+
    show ?thesis
    proof (cases "as = []")
      case True
      then show ?thesis using ab xy Cons Cons.prems(2) by (auto split: if_splits)
    next
      case False
      then have "bs' \<noteq> []" "js_join [44] (map f as) @ close # x = js_join [44] (map g bs') @ close # y"
        using xy Cons.prems(2) by (auto split: if_splits)
      then have "map h as = map k bs' \<and> x = y"
        using Cons.prems(2-5) Cons by (intro Cons.IH) auto
      then show ?thesis using ab Cons by simp
    qed
  qed
qed

text \<open>The first character tells the kind of a value.\<close>

fun json_head :: "json \<Rightarrow> nat \<Rightarrow> bool" where
  "json_head JNull c = (c = 110)"
| "json_head (JBool b) c = (c = (if b then 116 else 102))"
| "json_head (JNum i) c = (c = 45 \<or> digit c)"
| "json_head (JStr s) c = (c = 34)"
| "json_head (JArr vs) c = (c = 91)"
| "json_head (JObj ms) c = (c = 123)"

lemma json_stringify_head: "\<exists>c cs. json_stringify v @ x = c # cs \<and> json_head v c"
proof (cases v)
  case (JNum i)
  have "show_nat n @ x = c # cs \<Longrightarrow> digit c" for n c cs
    using hd_show_nat [of n x] by simp
  moreover have "show_nat n @ x \<noteq> []" for n using show_nat_digits [of n] by auto
  ultimately show ?thesis using JNum
    by (cases "show_nat (nat i) @ x") (auto simp: show_int_def)
next
  case (JBool b)
  then show ?thesis by (cases b) (auto simp: str_def)
qed (auto simp: str_def json_quote_def)

lemma json_stringify_not_delim:
  "json_delim y \<Longrightarrow> json_stringify v @ x \<noteq> y"
  using json_stringify_head [of v x]
  by (cases v) (auto simp: json_delim_def digit_def split: if_splits)

lemma json_head_disjoint:
  "json_head v c \<Longrightarrow> json_head w c \<Longrightarrow>
     (case (v, w) of (JNull, JNull) \<Rightarrow> True | (JBool a, JBool b) \<Rightarrow> a = b | (JNum _, JNum _) \<Rightarrow> True
      | (JStr _, JStr _) \<Rightarrow> True | (JArr _, JArr _) \<Rightarrow> True | (JObj _, JObj _) \<Rightarrow> True | _ \<Rightarrow> False)"
  by (cases v; cases w) (auto simp: digit_def split: if_splits)

lemma json_stringify_same_kind:
  assumes "json_stringify v @ x = json_stringify w @ y"
  shows "case (v, w) of (JNull, JNull) \<Rightarrow> True | (JBool a, JBool b) \<Rightarrow> a = b | (JNum _, JNum _) \<Rightarrow> True
      | (JStr _, JStr _) \<Rightarrow> True | (JArr _, JArr _) \<Rightarrow> True | (JObj _, JObj _) \<Rightarrow> True | _ \<Rightarrow> False"
proof -
  obtain c cs where "json_stringify v @ x = c # cs" "json_head v c"
    using json_stringify_head by blast
  moreover obtain d ds where "json_stringify w @ y = d # ds" "json_head w d"
    using json_stringify_head by blast
  ultimately show ?thesis using assms json_head_disjoint by simp
qed

lemma json_stringify_prefix_free:
  "json_stringify v @ x = json_stringify w @ y \<Longrightarrow> json_units v \<Longrightarrow> json_units w \<Longrightarrow>
     json_delim x \<Longrightarrow> json_delim y \<Longrightarrow> v = w \<and> x = y"
proof (induction v arbitrary: w x y)
  case JNull
  then show ?case using json_stringify_same_kind [OF JNull(1)] by (cases w) auto
next
  case (JBool b)
  then show ?case using json_stringify_same_kind [OF JBool(1)] by (cases w; cases b) auto
next
  case (JNum i)
  then show ?case
    using json_stringify_same_kind [OF JNum(1)] by (cases w) (auto dest: show_int_prefix_free)
next
  case (JStr s)
  then show ?case
    using json_stringify_same_kind [OF JStr(1)] by (cases w) (auto dest: json_quote_prefix_free)
next
  case (JArr vs)
  then obtain ws where w: "w = JArr ws"
    using json_stringify_same_kind [OF JArr(2)] by (cases w) auto
  have "map (\<lambda>v. v) vs = map (\<lambda>v. v) ws \<and> x = y"
  proof (rule join_prefix_free [where f = json_stringify and g = json_stringify and close = 93])
    show "js_join [44] (map json_stringify vs) @ 93 # x =
        js_join [44] (map json_stringify ws) @ 93 # y"
      using JArr.prems(1) w by simp
  next
    fix a b x y
    assume "a \<in> set vs" "b \<in> set ws" "json_stringify a @ x = json_stringify b @ y"
      "json_delim x" "json_delim y"
    then show "a = b \<and> x = y" using JArr w by auto
  qed (use json_stringify_not_delim in \<open>auto dest: sym\<close>)
  then show ?case using w by simp
next
  case (JObj ms)
  then obtain ns where w: "w = JObj ns"
    using json_stringify_same_kind [OF JObj(2)] by (cases w) auto
  let ?f = "\<lambda>m. json_quote (fst m) @ [58] @ json_stringify (snd m)"
  have "map (\<lambda>m. m) ms = map (\<lambda>m. m) ns \<and> x = y"
  proof (rule join_prefix_free [where f = ?f and g = ?f and close = 125])
    show "js_join [44] (map ?f ms) @ 125 # x = js_join [44] (map ?f ns) @ 125 # y"
      using JObj.prems(1) w by simp
  next
    fix a b x y
    assume a: "a \<in> set ms" "b \<in> set ns" "?f a @ x = ?f b @ y" "json_delim x" "json_delim y"
    then have "js_units (fst a)" "js_units (fst b)" "json_units (snd a)" "json_units (snd b)"
      using JObj.prems(2,3) w by auto
    moreover from this a(3) have
      "fst a = fst b \<and> [58] @ json_stringify (snd a) @ x = [58] @ json_stringify (snd b) @ y"
      by (intro json_quote_prefix_free) simp_all
    moreover have "snd a \<in> Basic_BNFs.snds a" by (simp add: Basic_BNFs.snds.simps)
    ultimately show "a = b \<and> x = y"
      using JObj.IH [OF a(1), of "snd a" x "snd b" y] a(4,5) by (auto simp: prod_eq_iff)
  qed (auto simp: json_quote_def)
  then show ?case using w by simp
qed

lemma json_stringify_inj:
  "json_stringify v = json_stringify w \<Longrightarrow> json_units v \<Longrightarrow> json_units w \<Longrightarrow> v = w"
  using json_stringify_prefix_free [of v "[]" w "[]"] by simp

subsection \<open>Canonical JSON\<close>

text \<open>
  \<open>canonicalizeJson\<close> of \<open>packages/agent/src/agent-loop.ts\<close>: members sorted by name, arrays in
  order, no white space; leaves as \<open>JSON.stringify\<close> prints them.
\<close>

fun canonicalizeJson :: "json \<Rightarrow> js_string" where
  "canonicalizeJson (JArr vs) = [91] @ js_join [44] (map canonicalizeJson vs) @ [93]"
| "canonicalizeJson (JObj ms) =
     [123] @ js_join [44]
       (map (\<lambda>m. json_quote (fst m) @ [58] @ snd m)
          (sort_key fst (map (\<lambda>m. (fst m, canonicalizeJson (snd m))) ms))) @ [125]"
| "canonicalizeJson v = json_stringify v"

text \<open>The value with the members of every object sorted by name.\<close>

fun sort_members :: "json \<Rightarrow> json" where
  "sort_members (JArr vs) = JArr (map sort_members vs)"
| "sort_members (JObj ms) = JObj (sort_key fst (map (\<lambda>m. (fst m, sort_members (snd m))) ms))"
| "sort_members v = v"

lemma insort_key_map_snd:
  "insort_key fst (k, f v) (map (\<lambda>m. (fst m, f (snd m))) xs) =
     map (\<lambda>m. (fst m, f (snd m))) (insort_key fst (k, v) xs)"
  by (induction xs) auto

lemma sort_key_map_snd:
  "sort_key fst (map (\<lambda>m. (fst m, f (snd m))) xs) = map (\<lambda>m. (fst m, f (snd m))) (sort_key fst xs)"
proof (induction xs)
  case (Cons x xs)
  then show ?case using insort_key_map_snd [of "fst x" f "snd x"] by (simp add: sort_key_def)
qed simp

lemma canonicalizeJson_eq: "canonicalizeJson v = json_stringify (sort_members v)"
proof (induction v)
  case (JArr vs)
  then have "map canonicalizeJson vs = map (\<lambda>v. json_stringify (sort_members v)) vs" by simp
  then show ?case by (simp add: comp_def del: map_eq_conv)
next
  case (JObj ms)
  have eq: "map (\<lambda>m. (fst m, canonicalizeJson (snd m))) ms =
        map (\<lambda>m. (fst m, json_stringify (sort_members (snd m)))) ms"
    using JObj by (auto simp: Basic_BNFs.snds.simps)
  have "sort_key fst (map (\<lambda>m. (fst m, json_stringify (sort_members (snd m)))) ms) =
    map (\<lambda>m. (fst m, json_stringify (snd m))) (sort_key fst (map (\<lambda>m. (fst m, sort_members (snd m))) ms))"
    using sort_key_map_snd [of json_stringify "map (\<lambda>m. (fst m, sort_members (snd m))) ms"]
    by (simp add: comp_def)
  then show ?case
    unfolding canonicalizeJson.simps eq by (simp add: comp_def)
qed auto

lemma json_units_sort_members: "json_units v \<Longrightarrow> json_units (sort_members v)"
proof (induction v)
  case (JObj ms)
  then show ?case by (fastforce simp: Basic_BNFs.snds.simps)
qed auto

lemma canonicalizeJson_inj:
  assumes "json_units v" "json_units w"
  shows "canonicalizeJson v = canonicalizeJson w \<longleftrightarrow> sort_members v = sort_members w"
proof
  assume "canonicalizeJson v = canonicalizeJson w"
  then have "json_stringify (sort_members v) = json_stringify (sort_members w)"
    by (simp add: canonicalizeJson_eq)
  then show "sort_members v = sort_members w"
    using assms by (intro json_stringify_inj) (simp_all add: json_units_sort_members)
qed (simp add: canonicalizeJson_eq)



text \<open>
  the canonical form of an object with distinct member names does not depend on the order
  of its members.
\<close>

theorem canonicalizeJson_member_order:
  assumes "mset ms = mset ns" "distinct (map fst ms)"
  shows "canonicalizeJson (JObj ms) = canonicalizeJson (JObj ns)"
proof -
  let ?f = "\<lambda>m. (fst m, canonicalizeJson (snd m))"
  have "mset (map ?f ms) = mset (map ?f ns)" using assms(1) by (simp only: mset_map)
  moreover have "distinct (map fst (map ?f ms))" using assms(2) by (simp add: comp_def)
  then have "inj_on fst (set (map ?f ms))" by (simp only: distinct_map)
  moreover have "mset (map ?f ns) = mset (sort_key fst (map ?f ns))" by simp
  ultimately have "sort_key fst (map ?f ms) = sort_key fst (map ?f ns)"
    by (intro sort_key_inj_key_eq) (simp_all only: sorted_sort_key)
  then show ?thesis by simp
qed

theorem canonicalizeJson_member_order_witness:
  "canonicalizeJson (JObj [(str ''b'', JNull), (str ''a'', JBool True)]) =
   canonicalizeJson (JObj [(str ''a'', JBool True), (str ''b'', JNull)])"
  by (rule canonicalizeJson_member_order) (simp_all add: add_mset_commute)

end
