(* ===== verification/Trigger.thy ===== *)
theory Trigger
  imports Json
begin

text \<open>
  \<open>packages/agent/src/harness/trigger.ts\<close>: the envelope of an external event, its lifecycle
  state and the audit record that is persisted for it.
\<close>

datatype trigger_source =
    McpSource js_string js_string          \<comment> \<open>\<open>server_name\<close>, \<open>method\<close>\<close>
  | LocalSource js_string                  \<comment> \<open>\<open>subkind\<close>\<close>
  | AgentDelegate js_string js_string      \<comment> \<open>\<open>agent_id\<close>, \<open>delegation_id\<close>\<close>

datatype source_kind = SKLocal | SKMcp

datatype payload_visibility = PVLocal | PVShared | PVRedacted

datatype replacement_policy = LatestReplaces | Coalesce | Drop

datatype credential_scope = ScopeUser | ScopeProject | ScopeTeam | ScopeAgent | ScopeNone

record trigger_authority =
  principal_id :: js_string
  principal_label :: js_string
  credential_scope :: credential_scope
  allowed_source_actions :: "js_string list"
  expires_at :: "js_string option"

record trigger =
  source :: trigger_source
  source_kind :: source_kind
  source_label :: js_string
  event_label :: js_string
  payload_visibility :: payload_visibility
  payload_summary :: "js_string option"    \<comment> \<open>\<open>null\<close> is None\<close>
  payload :: "json option"
  idempotency_key :: js_string
  replacement_policy :: replacement_policy
  trace_id :: js_string
  authority :: trigger_authority
  received_at :: js_string

datatype trigger_state =
    Received | Accepted | Deduped | CycleSuppressed | PermissionDenied | NeedsApproval
  | Running | Failed | Completed

definition TERMINAL_TRIGGER_STATES :: "trigger_state list" where
  "TERMINAL_TRIGGER_STATES =
     [Deduped, CycleSuppressed, PermissionDenied, NeedsApproval, Failed, Completed]"

definition isTriggerStateTerminal :: "trigger_state \<Rightarrow> bool" where
  "isTriggerStateTerminal s = List.member TERMINAL_TRIGGER_STATES s"

record trigger_record =
  schema_version :: int
  rec_source :: trigger_source
  rec_source_kind :: source_kind
  rec_source_label :: js_string
  rec_event_label :: js_string
  rec_trace_id :: js_string
  rec_authority :: trigger_authority
  rec_idempotency_key :: js_string
  rec_replacement_policy :: replacement_policy
  rec_received_at :: js_string
  rec_state :: trigger_state
  rec_payload_visibility :: payload_visibility
  rec_payload_summary :: "js_string option"
  evaluator_decision :: "json option"
  result_link :: "js_string option"
  rule_name :: "js_string option"

definition TRIGGER_RECORD_SCHEMA_VERSION :: int where
  "TRIGGER_RECORD_SCHEMA_VERSION = 1"

definition TRIGGER_RECORD_CUSTOM_TYPE :: js_string where
  "TRIGGER_RECORD_CUSTOM_TYPE = str ''trigger''"

definition triggerRecordReceivedFrom :: "trigger \<Rightarrow> trigger_record" where
  "triggerRecordReceivedFrom t =
     \<lparr>schema_version = TRIGGER_RECORD_SCHEMA_VERSION,
      rec_source = source t,
      rec_source_kind = source_kind t,
      rec_source_label = source_label t,
      rec_event_label = event_label t,
      rec_trace_id = trace_id t,
      rec_authority = authority t,
      rec_idempotency_key = idempotency_key t,
      rec_replacement_policy = replacement_policy t,
      rec_received_at = received_at t,
      rec_state = Received,
      rec_payload_visibility = payload_visibility t,
      rec_payload_summary = payload_summary t,
      evaluator_decision = None,
      result_link = None,
      rule_name = None\<rparr>"

lemma isTriggerStateTerminal_iff [simp]:
  "isTriggerStateTerminal s \<longleftrightarrow> s \<notin> {Received, Accepted, Running}"
  by (cases s) (auto simp: isTriggerStateTerminal_def TERMINAL_TRIGGER_STATES_def)

end
