(* ===== verification/TriggerRuntime.thy ===== *)
theory TriggerRuntime
  imports Trigger
begin

text \<open>
  \<open>packages/agent/src/harness/trigger-runtime.ts\<close>: the deduplication window and the cycle
  suppression of triggers.  \<open>Date.parse\<close> is an argument (\<open>date_parse\<close>, None for \<open>NaN\<close>); the
  comparisons with \<open>NaN\<close> are written out in \<open>ms_less\<close>.
\<close>

fun ms_less :: "ms \<Rightarrow> ms \<Rightarrow> bool" where
  "ms_less (Some a) (Some b) = (a < b)"
| "ms_less _ _ = False"

fun ms_sub :: "ms \<Rightarrow> int \<Rightarrow> ms" where
  "ms_sub (Some a) w = Some (a - w)"
| "ms_sub None w = None"

definition DEFAULT_DEDUP_WINDOW_MS :: int where
  "DEFAULT_DEDUP_WINDOW_MS = 5 * 60 * 1000"

definition DEFAULT_CYCLE_HOP_LIMIT :: nat where
  "DEFAULT_CYCLE_HOP_LIMIT = 5"

definition MAX_DEDUP_WINDOW_MS :: int where
  "MAX_DEDUP_WINDOW_MS = 24 * 60 * 60 * 1000"

definition MAX_SAFE_INTEGER :: nat where
  "MAX_SAFE_INTEGER = 9007199254740991"

record trigger_runtime_config =
  dedupWindowMs :: int
  cycleHopLimit :: nat

datatype evaluation_outcome =
    Accept
  | DedupedOutcome replacement_policy js_string   \<comment> \<open>\<open>replacementPolicy\<close>, \<open>previousTraceId\<close>\<close>
  | CycleSuppressedOutcome nat                    \<comment> \<open>\<open>hopCount\<close>\<close>

record dedup_entry =
  receivedAtMs :: ms
  dedupPolicy :: replacement_policy
  dedupTraceId :: js_string

record cycle_entry =
  lastSeenAtMs :: ms
  hopCount :: nat

record trigger_runtime =
  dedup :: "(js_string, dedup_entry) js_map"
  cycle :: "(js_string, cycle_entry) js_map"
  dedupedTotal :: nat
  cycleSuppressedTotal :: nat
  acceptedTotal :: nat
  runtimeConfig :: trigger_runtime_config

record trigger_runtime_snapshot =
  dedupEntries :: nat
  activeTraces :: nat
  snapAcceptedTotal :: nat
  snapDedupedTotal :: nat
  snapCycleSuppressedTotal :: nat

definition saturatingIncrement :: "nat \<Rightarrow> nat" where
  "saturatingIncrement n = (if n < MAX_SAFE_INTEGER then n + 1 else MAX_SAFE_INTEGER)"

definition pruneExpired ::
  "(js_string, dedup_entry) js_map \<Rightarrow> ms \<Rightarrow> int \<Rightarrow> (js_string, dedup_entry) js_map" where
  "pruneExpired m nowMs windowMs =
     (let cutoff = ms_sub nowMs windowMs
      in map_keep (\<lambda>_ e. \<not> ms_less (receivedAtMs e) cutoff) m)"

definition pruneExpiredCycle ::
  "(js_string, cycle_entry) js_map \<Rightarrow> ms \<Rightarrow> int \<Rightarrow> (js_string, cycle_entry) js_map" where
  "pruneExpiredCycle m nowMs windowMs =
     (let cutoff = ms_sub nowMs windowMs
      in map_keep (\<lambda>_ e. \<not> ms_less (lastSeenAtMs e) cutoff) m)"

text \<open>The constructor: absent members of the partial configuration take their defaults.\<close>

definition new_TriggerRuntime :: "int option \<Rightarrow> nat option \<Rightarrow> trigger_runtime" where
  "new_TriggerRuntime win lim =
     \<lparr>dedup = [], cycle = [], dedupedTotal = 0, cycleSuppressedTotal = 0, acceptedTotal = 0,
      runtimeConfig =
        \<lparr>dedupWindowMs = min (case win of None \<Rightarrow> DEFAULT_DEDUP_WINDOW_MS | Some w \<Rightarrow> w)
                            MAX_DEDUP_WINDOW_MS,
         cycleHopLimit = (case lim of None \<Rightarrow> DEFAULT_CYCLE_HOP_LIMIT | Some l \<Rightarrow> l)\<rparr>\<rparr>"

definition snapshot :: "trigger_runtime \<Rightarrow> trigger_runtime_snapshot" where
  "snapshot r =
     \<lparr>dedupEntries = length (dedup r), activeTraces = length (cycle r),
      snapAcceptedTotal = acceptedTotal r, snapDedupedTotal = dedupedTotal r,
      snapCycleSuppressedTotal = cycleSuppressedTotal r\<rparr>"

text \<open>One hop of a trace: \<open>hopCount += 1\<close> in place, or a new entry.\<close>

definition bump_hop ::
  "(js_string, cycle_entry) js_map \<Rightarrow> js_string \<Rightarrow> ms \<Rightarrow> (js_string, cycle_entry) js_map" where
  "bump_hop m tid nowMs =
     (case map_get m tid of
        Some e \<Rightarrow> map_set m tid (e\<lparr>hopCount := hopCount e + 1, lastSeenAtMs := nowMs\<rparr>)
      | None \<Rightarrow> map_set m tid \<lparr>lastSeenAtMs = nowMs, hopCount = 1\<rparr>)"

definition evaluate ::
  "(js_string \<Rightarrow> ms) \<Rightarrow> trigger_runtime \<Rightarrow> trigger \<Rightarrow> trigger_runtime \<times> evaluation_outcome" where
  "evaluate date_parse r0 t =
     (let nowMs = date_parse (received_at t);
          win = dedupWindowMs (runtimeConfig r0);
          r = r0\<lparr>dedup := pruneExpired (dedup r0) nowMs win,
                cycle := pruneExpiredCycle (cycle r0) nowMs win\<rparr>
      in case map_get (dedup r) (idempotency_key t) of
           Some prev \<Rightarrow>
             (r\<lparr>dedupedTotal := saturatingIncrement (dedupedTotal r),
                dedup := (if dedupPolicy prev = LatestReplaces
                          then map_set (dedup r) (idempotency_key t)
                                 (prev\<lparr>dedupTraceId := trace_id t\<rparr>)
                          else dedup r)\<rparr>,
              DedupedOutcome (dedupPolicy prev) (dedupTraceId prev))
         | None \<Rightarrow>
             (case map_get (cycle r) (trace_id t) of
                Some e \<Rightarrow>
                  (if cycleHopLimit (runtimeConfig r) \<le> hopCount e
                   then (r\<lparr>cycleSuppressedTotal := saturatingIncrement (cycleSuppressedTotal r)\<rparr>,
                         CycleSuppressedOutcome (hopCount e))
                   else (r\<lparr>dedup := map_set (dedup r) (idempotency_key t)
                                     \<lparr>receivedAtMs = nowMs,
                                      dedupPolicy = replacement_policy t,
                                      dedupTraceId = trace_id t\<rparr>,
                           cycle := bump_hop (cycle r) (trace_id t) nowMs,
                           acceptedTotal := saturatingIncrement (acceptedTotal r)\<rparr>, Accept))
              | None \<Rightarrow>
                  (r\<lparr>dedup := map_set (dedup r) (idempotency_key t)
                               \<lparr>receivedAtMs = nowMs,
                                dedupPolicy = replacement_policy t,
                                dedupTraceId = trace_id t\<rparr>,
                     cycle := bump_hop (cycle r) (trace_id t) nowMs,
                     acceptedTotal := saturatingIncrement (acceptedTotal r)\<rparr>, Accept)))"

definition recordFollowUpHop :: "trigger_runtime \<Rightarrow> js_string \<Rightarrow> ms \<Rightarrow> trigger_runtime" where
  "recordFollowUpHop r traceId nowMs =
     r\<lparr>cycle := bump_hop (pruneExpiredCycle (cycle r) nowMs (dedupWindowMs (runtimeConfig r)))
                 traceId nowMs\<rparr>"

text \<open>A run of calls, with the outcome of each evaluation.\<close>

datatype runtime_call = Evaluate trigger | FollowUp js_string ms

fun call_ms :: "(js_string \<Rightarrow> ms) \<Rightarrow> runtime_call \<Rightarrow> ms" where
  "call_ms dp (Evaluate t) = dp (received_at t)"
| "call_ms dp (FollowUp tid nowMs) = nowMs"

fun runtime_step ::
  "(js_string \<Rightarrow> ms) \<Rightarrow> trigger_runtime \<Rightarrow> runtime_call \<Rightarrow> trigger_runtime \<times> evaluation_outcome option" where
  "runtime_step dp r (Evaluate t) = (let (r', out) = evaluate dp r t in (r', Some out))"
| "runtime_step dp r (FollowUp tid nowMs) = (recordFollowUpHop r tid nowMs, None)"

fun runtime_run ::
  "(js_string \<Rightarrow> ms) \<Rightarrow> trigger_runtime \<Rightarrow> runtime_call list
     \<Rightarrow> trigger_runtime \<times> evaluation_outcome option list" where
  "runtime_run dp r [] = (r, [])"
| "runtime_run dp r (c # cs) =
     (let (r1, o1) = runtime_step dp r c; (r2, os) = runtime_run dp r1 cs in (r2, o1 # os))"


subsection \<open>Well-formed bookkeeping\<close>

definition runtime_wf :: "trigger_runtime \<Rightarrow> bool" where
  "runtime_wf r \<longleftrightarrow> map_wf (dedup r) \<and> map_wf (cycle r)"

lemma runtime_wf_new [simp]: "runtime_wf (new_TriggerRuntime w l)"
  by (simp add: runtime_wf_def new_TriggerRuntime_def)

lemma map_wf_prune [simp]:
  "map_wf m \<Longrightarrow> map_wf (pruneExpired m n w)" "map_wf c \<Longrightarrow> map_wf (pruneExpiredCycle c n w)"
  by (simp_all add: pruneExpired_def pruneExpiredCycle_def Let_def)

lemma map_wf_bump_hop [simp]: "map_wf m \<Longrightarrow> map_wf (bump_hop m k n)"
  by (simp add: bump_hop_def split: option.splits)

lemma get_pruneExpired:
  "map_wf m \<Longrightarrow> map_get (pruneExpired m n w) k = Some e \<longleftrightarrow>
     map_get m k = Some e \<and> \<not> ms_less (receivedAtMs e) (ms_sub n w)"
  by (simp add: pruneExpired_def Let_def jm.get_keep_Some_iff)

lemma get_pruneExpiredCycle:
  "map_wf m \<Longrightarrow> map_get (pruneExpiredCycle m n w) k = Some e \<longleftrightarrow>
     map_get m k = Some e \<and> \<not> ms_less (lastSeenAtMs e) (ms_sub n w)"
  by (simp add: pruneExpiredCycle_def Let_def jm.get_keep_Some_iff)

lemma map_get_bump_hop:
  "map_get (bump_hop m k n) k' =
     (if k' = k
      then Some \<lparr>lastSeenAtMs = n,
                 hopCount = (case map_get m k of None \<Rightarrow> 1 | Some e \<Rightarrow> Suc (hopCount e))\<rparr>
      else map_get m k')"
  by (auto simp: bump_hop_def split: option.splits)

lemma runtime_wf_evaluate: "runtime_wf r \<Longrightarrow> runtime_wf (fst (evaluate dp r t))"
  by (auto simp: runtime_wf_def evaluate_def Let_def split: option.splits)

lemma runtimeConfig_evaluate [simp]: "runtimeConfig (fst (evaluate dp r t)) = runtimeConfig r"
  by (auto simp: evaluate_def Let_def split: option.splits)

lemma runtime_step_Evaluate [simp]:
  "fst (runtime_step dp r (Evaluate t)) = fst (evaluate dp r t)"
  "snd (runtime_step dp r (Evaluate t)) = Some (snd (evaluate dp r t))"
  by (simp_all split: prod.splits)

declare runtime_step.simps(1) [simp del]

lemma runtimeConfig_followUp [simp]: "runtimeConfig (recordFollowUpHop r tid n) = runtimeConfig r"
  by (simp add: recordFollowUpHop_def)

lemma runtime_step_wf: "runtime_wf r \<Longrightarrow> runtime_wf (fst (runtime_step dp r c))"
  using runtime_wf_evaluate [of r dp]
  by (cases c) (auto simp: runtime_wf_def recordFollowUpHop_def)

lemma runtimeConfig_step [simp]: "runtimeConfig (fst (runtime_step dp r c)) = runtimeConfig r"
  by (cases c) simp_all

lemma runtime_run_Cons:
  "runtime_run dp r (c # cs) =
     (fst (runtime_run dp (fst (runtime_step dp r c)) cs),
      snd (runtime_step dp r c) # snd (runtime_run dp (fst (runtime_step dp r c)) cs))"
  by (simp add: Let_def split: prod.splits)

declare runtime_run.simps(2) [simp del]

lemma runtime_run_wf: "runtime_wf r \<Longrightarrow> runtime_wf (fst (runtime_run dp r cs))"
  by (induction cs arbitrary: r) (simp_all add: runtime_run_Cons runtime_step_wf)

lemma length_runtime_run [simp]: "length (snd (runtime_run dp r cs)) = length cs"
  by (induction cs arbitrary: r) (simp_all add: runtime_run_Cons)

subsection \<open>The deduplication window\<close>

lemma evaluate_accept_inserts:
  assumes "snd (evaluate dp r t) = Accept"
  shows "map_get (dedup (fst (evaluate dp r t))) (idempotency_key t) =
           Some \<lparr>receivedAtMs = dp (received_at t), dedupPolicy = replacement_policy t,
                 dedupTraceId = trace_id t\<rparr>"
  using assms by (auto simp: evaluate_def Let_def split: option.splits if_splits)

lemma evaluate_accept_was_expired:
  assumes "runtime_wf r" "snd (evaluate dp r t) = Accept"
    and "map_get (dedup r) (idempotency_key t) = Some e"
  shows "ms_less (receivedAtMs e) (ms_sub (dp (received_at t)) (dedupWindowMs (runtimeConfig r)))"
proof (rule ccontr)
  assume "\<not> ?thesis"
  then have "map_get (pruneExpired (dedup r) (dp (received_at t))
               (dedupWindowMs (runtimeConfig r))) (idempotency_key t) = Some e"
    using assms(1,3) by (simp add: runtime_wf_def get_pruneExpired)
  then show False using assms(2) by (simp add: evaluate_def Let_def)
qed

text \<open>A live entry keeps its admission time, whatever the evaluated trigger is.\<close>

lemma evaluate_keeps_live:
  assumes "runtime_wf r" and e: "map_get (dedup r) k = Some e"
    and live: "\<not> ms_less (receivedAtMs e) (ms_sub (dp (received_at t)) (dedupWindowMs (runtimeConfig r)))"
  shows "\<exists>e'. map_get (dedup (fst (evaluate dp r t))) k = Some e' \<and>
           receivedAtMs e' = receivedAtMs e \<and> dedupPolicy e' = dedupPolicy e \<and>
           dedupTraceId e' =
             (if idempotency_key t = k \<and> dedupPolicy e = LatestReplaces
              then trace_id t else dedupTraceId e)"
proof -
  have "map_get (pruneExpired (dedup r) (dp (received_at t)) (dedupWindowMs (runtimeConfig r))) k
          = Some e"
    using assms by (simp add: runtime_wf_def get_pruneExpired)
  then show ?thesis
    by (auto simp: evaluate_def Let_def split: option.splits)
qed

lemma runtime_step_keeps_live:
  assumes "runtime_wf r" "map_get (dedup r) k = Some e"
    and "\<not> ms_less (receivedAtMs e) (ms_sub (call_ms dp c) (dedupWindowMs (runtimeConfig r)))"
  shows "\<exists>e'. map_get (dedup (fst (runtime_step dp r c))) k = Some e' \<and> receivedAtMs e' = receivedAtMs e"
  using assms evaluate_keeps_live [of r k e dp]
  by (cases c) (fastforce simp: recordFollowUpHop_def)+

lemma no_accept_while_live:
  assumes "runtime_wf r" "map_get (dedup r) k = Some e" "receivedAtMs e = Some t0"
    and "map (call_ms dp) cs = map Some tms" "sorted tms"
    and "j < length cs" "cs ! j = Evaluate t" "idempotency_key t = k"
    and "snd (runtime_run dp r cs) ! j = Some Accept"
  shows "t0 + dedupWindowMs (runtimeConfig r) < tms ! j"
  using assms
proof (induction cs arbitrary: r e j tms)
  case Nil
  then show ?case by simp
next
  case (Cons c cs)
  let ?w = "dedupWindowMs (runtimeConfig r)" and ?r = "fst (runtime_step dp r c)"
  obtain n tms' where tms: "tms = n # tms'" "call_ms dp c = Some n" "map (call_ms dp) cs = map Some tms'"
    using Cons.prems(4) by (cases tms) auto
  have len: "length tms' = length cs" using tms(3) by (metis length_map)
  show ?case
  proof (cases "t0 + ?w < n")
    case True
    moreover have "n \<le> tms ! j"
      using Cons.prems(5,6) tms(1) len by (cases j) auto
    ultimately show ?thesis by simp
  next
    case False
    then have live: "\<not> ms_less (receivedAtMs e) (ms_sub (call_ms dp c) ?w)"
      using Cons.prems(3) tms(2) by simp
    show ?thesis
    proof (cases j)
      case 0
      then have "c = Evaluate t" "snd (evaluate dp r t) = Accept"
        using Cons.prems(7,9) by (simp_all add: runtime_run_Cons)
      then show ?thesis
        using evaluate_accept_was_expired [of r dp t e] Cons.prems(1,2,8) live by simp
    next
      case (Suc j')
      obtain e' where e': "map_get (dedup ?r) k = Some e'" "receivedAtMs e' = Some t0"
        using runtime_step_keeps_live [OF Cons.prems(1,2) live] Cons.prems(3) by auto
      have "t0 + dedupWindowMs (runtimeConfig ?r) < tms' ! j'"
        by (rule Cons.IH [OF runtime_step_wf [OF Cons.prems(1)] e' tms(3)])
          (use Cons.prems Suc tms(1) in \<open>auto simp: runtime_run_Cons\<close>)
      then show ?thesis using Suc tms(1) by simp
    qed
  qed
qed

text \<open>
  C28: Two accepted triggers with the same idempotency key are more than the deduplication window
  apart, whatever other triggers and follow-up hops come between them, when time does not go back.
\<close>

theorem accepted_triggers_apart:
  assumes "runtime_wf r" "map (call_ms dp) cs = map Some tms" "sorted tms"
    and "i < j" "j < length cs" "cs ! i = Evaluate t" "cs ! j = Evaluate t'"
    and "idempotency_key t = idempotency_key t'"
    and "snd (runtime_run dp r cs) ! i = Some Accept" "snd (runtime_run dp r cs) ! j = Some Accept"
  shows "tms ! i + dedupWindowMs (runtimeConfig r) < tms ! j"
  using assms
proof (induction cs arbitrary: r i j tms)
  case Nil
  then show ?case by simp
next
  case (Cons c cs)
  let ?r = "fst (runtime_step dp r c)"
  have wf: "runtime_wf ?r" using Cons.prems(1) by (rule runtime_step_wf)
  obtain n tms' where tms: "tms = n # tms'" "call_ms dp c = Some n" "map (call_ms dp) cs = map Some tms'"
    using Cons.prems(2) by (cases tms) auto
  obtain j' where j: "j = Suc j'" using Cons.prems(4) by (cases j) auto
  show ?case
  proof (cases i)
    case 0
    then have acc: "c = Evaluate t" "snd (evaluate dp r t) = Accept"
      using Cons.prems(6,9) by (simp_all add: runtime_run_Cons)
    show ?thesis
      using no_accept_while_live [OF _ evaluate_accept_inserts [OF acc(2)], of n dp cs tms' j' t']
        Cons.prems j 0 tms acc(1) wf by (simp add: runtime_run_Cons)
  next
    case (Suc i')
    then show ?thesis
      using Cons.IH [OF wf tms(3), of i' j'] Cons.prems j tms(1) by (simp add: runtime_run_Cons)
  qed
qed

subsection \<open>Cycle suppression\<close>

text \<open>The accepted evaluations of a trace in a run.\<close>

fun accepts_of :: "js_string \<Rightarrow> runtime_call list \<Rightarrow> evaluation_outcome option list \<Rightarrow> nat" where
  "accepts_of tid (Evaluate t # cs) (o1 # os) =
     (if trace_id t = tid \<and> o1 = Some Accept then 1 else 0) + accepts_of tid cs os"
| "accepts_of tid (FollowUp _ _ # cs) (o1 # os) = accepts_of tid cs os"
| "accepts_of tid _ _ = 0"

text \<open>At least \<open>k\<close> hops of the trace are on record, seen at \<open>n0\<close> or later.\<close>

definition hops_since :: "trigger_runtime \<Rightarrow> js_string \<Rightarrow> int \<Rightarrow> nat \<Rightarrow> bool" where
  "hops_since r tid n0 k \<longleftrightarrow>
     k = 0 \<or> (\<exists>e n. map_get (cycle r) tid = Some e \<and> lastSeenAtMs e = Some n \<and> n0 \<le> n \<and> k \<le> hopCount e)"

definition in_window :: "(js_string \<Rightarrow> ms) \<Rightarrow> trigger_runtime \<Rightarrow> int \<Rightarrow> runtime_call \<Rightarrow> bool" where
  "in_window dp r n0 c \<longleftrightarrow>
     (\<exists>n. call_ms dp c = Some n \<and> n0 \<le> n \<and> n \<le> n0 + dedupWindowMs (runtimeConfig r))"

lemma hops_since_pruned:
  assumes "runtime_wf r" "hops_since r tid n0 k" "n \<le> n0 + dedupWindowMs (runtimeConfig r)"
  shows "k = 0 \<or> (\<exists>e n'. map_get (pruneExpiredCycle (cycle r) (Some n) (dedupWindowMs (runtimeConfig r))) tid
            = Some e \<and> lastSeenAtMs e = Some n' \<and> n0 \<le> n' \<and> k \<le> hopCount e)"
  using assms by (auto simp: hops_since_def runtime_wf_def get_pruneExpiredCycle)

lemma hops_since_bump:
  assumes "k = 0 \<or> (\<exists>e n'. map_get m tid = Some e \<and> lastSeenAtMs e = Some n' \<and> n0 \<le> n' \<and> k \<le> hopCount e)"
    and "n0 \<le> n"
  shows "k + (if tid' = tid then 1 else 0) = 0 \<or>
    (\<exists>e n'. map_get (bump_hop m tid' (Some n)) tid = Some e \<and> lastSeenAtMs e = Some n' \<and> n0 \<le> n' \<and>
       k + (if tid' = tid then 1 else 0) \<le> hopCount e)"
  using assms by (auto simp: map_get_bump_hop split: option.splits)

lemma evaluate_hops:
  assumes wf: "runtime_wf r" and h: "hops_since r tid n0 k" and w: "in_window dp r n0 (Evaluate t)"
  shows "hops_since (fst (evaluate dp r t)) tid n0
      (k + (if trace_id t = tid \<and> snd (evaluate dp r t) = Accept then 1 else 0))"
    "trace_id t = tid \<and> snd (evaluate dp r t) = Accept \<longrightarrow> k = 0 \<or> k < cycleHopLimit (runtimeConfig r)"
proof -
  obtain n where n: "dp (received_at t) = Some n" "n0 \<le> n" "n \<le> n0 + dedupWindowMs (runtimeConfig r)"
    using w by (auto simp: in_window_def)
  let ?m = "pruneExpiredCycle (cycle r) (Some n) (dedupWindowMs (runtimeConfig r))"
  note old = hops_since_pruned [OF wf h n(3)]
  note new = hops_since_bump [OF old n(2), of "trace_id t"]
  show "hops_since (fst (evaluate dp r t)) tid n0
      (k + (if trace_id t = tid \<and> snd (evaluate dp r t) = Accept then 1 else 0))"
    unfolding hops_since_def using old new n(1)
    by (simp add: evaluate_def Let_def split: option.splits if_splits)
  show "trace_id t = tid \<and> snd (evaluate dp r t) = Accept \<longrightarrow> k = 0 \<or> k < cycleHopLimit (runtimeConfig r)"
    using old n(1) by (auto simp: evaluate_def Let_def split: option.splits if_splits)
qed

lemma followUp_hops:
  assumes "runtime_wf r" "hops_since r tid n0 k" "in_window dp r n0 (FollowUp tid' nowMs)"
  shows "hops_since (recordFollowUpHop r tid' nowMs) tid n0 k"
proof -
  obtain n where n: "nowMs = Some n" "n0 \<le> n" "n \<le> n0 + dedupWindowMs (runtimeConfig r)"
    using assms(3) by (auto simp: in_window_def)
  show ?thesis
    using hops_since_bump [OF hops_since_pruned [OF assms(1,2) n(3)] n(2), of tid'] n(1)
    by (auto simp: hops_since_def recordFollowUpHop_def split: if_splits)
qed

lemma accepts_bounded:
  assumes "runtime_wf r" "hops_since r tid n0 k" "k \<le> max 1 (cycleHopLimit (runtimeConfig r))"
    and "\<forall>c \<in> set cs. in_window dp r n0 c"
  shows "k + accepts_of tid cs (snd (runtime_run dp r cs)) \<le> max 1 (cycleHopLimit (runtimeConfig r))"
  using assms
proof (induction cs arbitrary: r k)
  case (Cons c cs)
  let ?r = "fst (runtime_step dp r c)"
  have wf: "runtime_wf ?r" using Cons.prems(1) by (rule runtime_step_wf)
  have win: "\<forall>c \<in> set cs. in_window dp ?r n0 c"
    using Cons.prems(4) by (simp add: in_window_def)
  show ?case
  proof (cases c)
    case (Evaluate t)
    let ?k = "k + (if trace_id t = tid \<and> snd (evaluate dp r t) = Accept then 1 else 0)"
    have w: "in_window dp r n0 (Evaluate t)" using Cons.prems(4) Evaluate by simp
    have "?k \<le> max 1 (cycleHopLimit (runtimeConfig r))"
      using evaluate_hops(2) [OF Cons.prems(1,2) w] Cons.prems(3) by auto
    then show ?thesis
      using Cons.IH [OF wf _ _ win, of ?k] evaluate_hops(1) [OF Cons.prems(1,2) w] Evaluate
      by (simp add: runtime_run_Cons)
  next
    case (FollowUp tid' nowMs)
    then show ?thesis
      using Cons.IH [OF wf _ _ win, of k] followUp_hops [OF Cons.prems(1,2), of dp tid' nowMs] Cons.prems(3,4)
      by (simp add: runtime_run_Cons)
  qed
qed simp

text \<open>
  C19: A causal chain cannot wake the agent for ever: among calls within one deduplication window
  at most \<open>cycleHopLimit\<close> triggers of one trace are accepted (one, when the limit is zero),
  whatever their idempotency keys and the order of the calls are.
\<close>

theorem cycle_accepts_bounded:
  assumes "runtime_wf r" "\<forall>c \<in> set cs. in_window dp r n0 c"
  shows "accepts_of tid cs (snd (runtime_run dp r cs)) \<le> max 1 (cycleHopLimit (runtimeConfig r))"
  using accepts_bounded [OF assms(1) _ _ assms(2), of tid 0] by (simp add: hops_since_def)

subsection \<open>The lifetime counters\<close>

definition total_evaluations :: "trigger_runtime \<Rightarrow> nat" where
  "total_evaluations r = acceptedTotal r + dedupedTotal r + cycleSuppressedTotal r"

fun evaluations :: "runtime_call list \<Rightarrow> nat" where
  "evaluations [] = 0"
| "evaluations (Evaluate t # cs) = Suc (evaluations cs)"
| "evaluations (FollowUp _ _ # cs) = evaluations cs"

lemma total_evaluations_step:
  "total_evaluations r < MAX_SAFE_INTEGER \<Longrightarrow>
     total_evaluations (fst (evaluate dp r t)) = Suc (total_evaluations r)"
  by (auto simp: total_evaluations_def evaluate_def saturatingIncrement_def Let_def
      split: option.splits)

lemma total_evaluations_run:
  "total_evaluations r + evaluations cs \<le> MAX_SAFE_INTEGER \<Longrightarrow>
     total_evaluations (fst (runtime_run dp r cs)) = total_evaluations r + evaluations cs"
proof (induction cs arbitrary: r)
  case (Cons c cs)
  show ?case
  proof (cases c)
    case (Evaluate t)
    then have "total_evaluations (fst (evaluate dp r t)) = Suc (total_evaluations r)"
      using Cons.prems by (intro total_evaluations_step) simp
    then show ?thesis using Cons Evaluate by (simp add: runtime_run_Cons)
  next
    case (FollowUp tid n)
    then show ?thesis
      using Cons.IH [of "recordFollowUpHop r tid n"] Cons.prems
      by (simp add: runtime_run_Cons total_evaluations_def recordFollowUpHop_def)
  qed
qed simp

subsection \<open>Witnesses\<close>

definition demo_trigger :: "string \<Rightarrow> string \<Rightarrow> string \<Rightarrow> trigger" where
  "demo_trigger key trace at =
     \<lparr>source = LocalSource (str ''cron''), source_kind = SKLocal, source_label = str ''cron'',
      event_label = str ''tick'', payload_visibility = PVLocal, payload_summary = None, payload = None,
      idempotency_key = str key, replacement_policy = LatestReplaces, trace_id = str trace,
      authority = \<lparr>principal_id = str ''p'', principal_label = str ''p'', credential_scope = ScopeUser,
        allowed_source_actions = [], expires_at = None\<rparr>,
      received_at = str at\<rparr>"

text \<open>The clock of the demonstration: a date is written in unary.\<close>

definition demo_parse :: "js_string \<Rightarrow> ms" where
  "demo_parse s = Some (int (length s))"

definition demo_calls :: "runtime_call list" where
  "demo_calls = [Evaluate (demo_trigger ''k'' ''a'' ''x''), FollowUp (str ''a'') (Some 1),
     Evaluate (demo_trigger ''k'' ''b'' ''xx''), Evaluate (demo_trigger ''m'' ''a'' ''xxx''),
     Evaluate (demo_trigger ''k'' ''b'' ''xxxxx'')]"

lemmas trigger_eval = demo_calls_def demo_trigger_def demo_parse_def str_def runtime_run.simps
  runtime_step.simps evaluate_def recordFollowUpHop_def bump_hop_def pruneExpired_def pruneExpiredCycle_def
  new_TriggerRuntime_def saturatingIncrement_def MAX_SAFE_INTEGER_def MAX_DEDUP_WINDOW_MS_def
  map_keep_def map_get_def Let_def

lemma demo_outcomes:
  "snd (runtime_run demo_parse (new_TriggerRuntime (Some 2) (Some 2)) demo_calls) =
     [Some Accept, None, Some (DedupedOutcome LatestReplaces (str ''a'')),
      Some (CycleSuppressedOutcome 2), Some Accept]"
  by (simp add: trigger_eval)

theorem accepted_triggers_apart_witness:
  "(1 :: int) + dedupWindowMs (runtimeConfig (new_TriggerRuntime (Some 2) (Some 2))) < 5"
  using accepted_triggers_apart [of "new_TriggerRuntime (Some 2) (Some 2)" demo_parse demo_calls
      "[1, 1, 2, 3, 5]" 0 4 "demo_trigger ''k'' ''a'' ''x''" "demo_trigger ''k'' ''b'' ''xxxxx''"]
  by (simp add: demo_outcomes) (simp add: demo_calls_def demo_trigger_def demo_parse_def str_def)

lemma demo_window:
  "\<forall>c \<in> set (take 4 demo_calls). in_window demo_parse (new_TriggerRuntime (Some 2) (Some 2)) 1 c"
  by (simp add: in_window_def demo_calls_def demo_trigger_def demo_parse_def str_def
      new_TriggerRuntime_def MAX_DEDUP_WINDOW_MS_def)

theorem cycle_accepts_bounded_witness:
  "accepts_of (str ''a'') (take 4 demo_calls)
     (snd (runtime_run demo_parse (new_TriggerRuntime (Some 2) (Some 2)) (take 4 demo_calls)))
   \<le> max 1 (cycleHopLimit (runtimeConfig (new_TriggerRuntime (Some 2) (Some 2))))"
  by (rule cycle_accepts_bounded [OF runtime_wf_new demo_window])

end
