(* ===== verification/AsyncQueue.thy ===== *)
theory AsyncQueue
  imports Prelude "HOL-Library.Multiset"
begin

text \<open>
  \<open>packages/agent/src/harness/async-queue.ts\<close>: the unbounded queue with promised reads and
  the one-permit signal.  A call of \<open>next\<close> or \<open>wait\<close> that has to wait is named by a number
  (its promise); the operations return the settlements of promises they cause.
\<close>

subsection \<open>AsyncQueue\<close>

record 'a async_queue =
  buffer :: "'a list"
  waiters :: "nat list"
  closed :: bool

text \<open>How a promise of \<open>next\<close> settles: with a value, with \<open>undefined\<close>, or rejected.\<close>

datatype 'a settled = Value nat 'a | Undefined nat | Rejected nat

definition new_queue :: "'a async_queue" where
  "new_queue = \<lparr>buffer = [], waiters = [], closed = False\<rparr>"

definition push :: "'a async_queue \<Rightarrow> 'a \<Rightarrow> 'a async_queue \<times> bool \<times> 'a settled list" where
  "push q v =
     (if closed q then (q, False, [])
      else (case waiters q of
              w # ws \<Rightarrow> (q\<lparr>waiters := ws\<rparr>, True, [Value w v])
            | [] \<Rightarrow> (q\<lparr>buffer := buffer q @ [v]\<rparr>, True, [])))"

text \<open>\<open>next(signal)\<close> by the promise \<open>p\<close>; \<open>aborted\<close> is \<open>signal?.aborted\<close> at the call.\<close>

definition next_value :: "'a async_queue \<Rightarrow> nat \<Rightarrow> bool \<Rightarrow> 'a async_queue \<times> 'a settled list" where
  "next_value q p aborted =
     (case buffer q of
        v # vs \<Rightarrow> (q\<lparr>buffer := vs\<rparr>, [Value p v])
      | [] \<Rightarrow>
          (if closed q then (q, [Undefined p])
           else if aborted then (q, [Rejected p])
           else (q\<lparr>waiters := waiters q @ [p]\<rparr>, [])))"

text \<open>The abort listener of a waiting call; a settled call has removed its listener.\<close>

definition abort_waiter :: "'a async_queue \<Rightarrow> nat \<Rightarrow> 'a async_queue \<times> 'a settled list" where
  "abort_waiter q p =
     (if List.member (waiters q) p then (q\<lparr>waiters := remove1 p (waiters q)\<rparr>, [Rejected p])
      else (q, []))"

definition close_queue :: "'a async_queue \<Rightarrow> 'a async_queue \<times> 'a settled list" where
  "close_queue q =
     (if closed q then (q, [])
      else (q\<lparr>closed := True, waiters := []\<rparr>, map Undefined (waiters q)))"

definition isClosed :: "'a async_queue \<Rightarrow> bool" where
  "isClosed q = closed q"

definition queue_size :: "'a async_queue \<Rightarrow> nat" where
  "queue_size q = length (buffer q)"

text \<open>A run of calls: what was accepted, and what settled, in order.\<close>

datatype 'a queue_call = Push 'a | Next nat bool | Abort nat | Close

fun queue_step :: "'a async_queue \<Rightarrow> 'a queue_call \<Rightarrow> 'a async_queue \<times> 'a list \<times> 'a settled list" where
  "queue_step q (Push v) =
     (let (q', ok, ss) = push q v in (q', if ok then [v] else [], ss))"
| "queue_step q (Next p a) = (let (q', ss) = next_value q p a in (q', [], ss))"
| "queue_step q (Abort p) = (let (q', ss) = abort_waiter q p in (q', [], ss))"
| "queue_step q Close = (let (q', ss) = close_queue q in (q', [], ss))"

fun queue_run ::
  "'a async_queue \<Rightarrow> 'a queue_call list \<Rightarrow> 'a async_queue \<times> 'a list \<times> 'a settled list" where
  "queue_run q [] = (q, [], [])"
| "queue_run q (c # cs) =
     (let (q1, acc1, ss1) = queue_step q c; (q2, acc2, ss2) = queue_run q1 cs
      in (q2, acc1 @ acc2, ss1 @ ss2))"

fun delivered :: "'a settled list \<Rightarrow> 'a list" where
  "delivered [] = []"
| "delivered (Value p v # ss) = v # delivered ss"
| "delivered (_ # ss) = delivered ss"

fun settled_of :: "'a settled \<Rightarrow> nat" where
  "settled_of (Value p v) = p"
| "settled_of (Undefined p) = p"
| "settled_of (Rejected p) = p"

lemma delivered_append [simp]: "delivered (xs @ ys) = delivered xs @ delivered ys"
  by (induction xs rule: delivered.induct) auto

lemma delivered_map_Undefined [simp]: "delivered (map Undefined ps) = []"
  by (induction ps) auto

text \<open>A waiting reader and a buffered value never coexist; a closed queue has no reader.\<close>

definition queue_inv :: "'a async_queue \<Rightarrow> bool" where
  "queue_inv q \<longleftrightarrow> (buffer q \<noteq> [] \<longrightarrow> waiters q = []) \<and> (closed q \<longrightarrow> waiters q = [])"

lemma queue_inv_new [simp]: "queue_inv new_queue"
  by (simp add: queue_inv_def new_queue_def)

lemma queue_inv_step: "queue_inv q \<Longrightarrow> queue_inv (fst (queue_step q c))"
  by (cases c)
    (auto simp: queue_inv_def push_def next_value_def abort_waiter_def close_queue_def
      split: list.splits if_splits)

lemma queue_step_fifo:
  "queue_inv q \<Longrightarrow> queue_step q c = (q', acc, ss) \<Longrightarrow> buffer q @ acc = delivered ss @ buffer q'"
  by (cases c)
    (auto simp: queue_inv_def push_def next_value_def abort_waiter_def close_queue_def
      split: list.splits if_splits)

lemma queue_run_fifo:
  "queue_inv q \<Longrightarrow> queue_run q cs = (q', acc, ss) \<Longrightarrow>
     queue_inv q' \<and> buffer q @ acc = delivered ss @ buffer q'"
proof (induction cs arbitrary: q acc ss)
  case Nil
  then show ?case by simp
next
  case (Cons c cs)
  obtain q1 acc1 ss1 where 1: "queue_step q c = (q1, acc1, ss1)" by (cases "queue_step q c")
  obtain acc2 ss2 where 2: "queue_run q1 cs = (q', acc2, ss2)" "acc = acc1 @ acc2" "ss = ss1 @ ss2"
    using Cons.prems(2) 1 by (auto split: prod.splits)
  have "queue_inv q1" using queue_inv_step [OF Cons.prems(1), of c] 1 by simp
  then have "queue_inv q' \<and> buffer q1 @ acc2 = delivered ss2 @ buffer q'"
    using Cons.IH 2(1) by blast
  moreover have "buffer q @ acc1 = delivered ss1 @ buffer q1"
    using queue_step_fifo [OF Cons.prems(1) 1] .
  ultimately show ?case using 2 by (metis append.assoc delivered_append)
qed

text \<open>Every promise is accounted for: the calls made are those settled and those waiting.\<close>

fun promises :: "'a queue_call list \<Rightarrow> nat list" where
  "promises [] = []"
| "promises (Next p a # cs) = p # promises cs"
| "promises (_ # cs) = promises cs"

lemma settled_of_Undefined [simp]: "image_mset settled_of (image_mset Undefined M) = M"
  by (simp add: image_mset.compositionality comp_def)

lemma queue_step_promises:
  "queue_step q c = (q', acc, ss) \<Longrightarrow>
     mset (waiters q) + mset (promises [c]) = mset (map settled_of ss) + mset (waiters q')"
  by (cases c)
    (auto simp: push_def next_value_def abort_waiter_def close_queue_def comp_def
      split: list.splits if_splits)

lemma queue_run_promises:
  "queue_run q cs = (q', acc, ss) \<Longrightarrow>
     mset (waiters q) + mset (promises cs) = mset (map settled_of ss) + mset (waiters q')"
proof (induction cs arbitrary: q acc ss)
  case Nil
  then show ?case by simp
next
  case (Cons c cs)
  obtain q1 acc1 ss1 where 1: "queue_step q c = (q1, acc1, ss1)" by (cases "queue_step q c")
  obtain acc2 ss2 where 2: "queue_run q1 cs = (q', acc2, ss2)" "acc = acc1 @ acc2" "ss = ss1 @ ss2"
    using Cons.prems 1 by (auto split: prod.splits)
  have "promises (c # cs) = promises [c] @ promises cs" by (cases c) auto
  then show ?case
    using queue_step_promises [OF 1] Cons.IH [OF 2(1)] 2
    by (simp add: union_assoc [symmetric])
qed

text \<open>
  C35: The queue is first-in first-out and loses nothing: in any run of calls, closing and aborting
  included, the accepted values are those delivered, in the same order, followed by those still
  buffered.
\<close>

theorem queue_first_in_first_out:
  "fst (snd (queue_run new_queue cs)) =
     delivered (snd (snd (queue_run new_queue cs))) @ buffer (fst (queue_run new_queue cs))"
  using queue_run_fifo [OF queue_inv_new, of cs "fst (queue_run new_queue cs)"
      "fst (snd (queue_run new_queue cs))" "snd (snd (queue_run new_queue cs))"]
  by (simp add: new_queue_def)

text \<open>
  C36: Every call of \<open>next\<close> settles at most once: in any run the calls made are those settled and
  those that wait, as multisets; and none waits while a value is buffered or the queue is closed.
\<close>

theorem queue_promises_settle_once:
  "mset (promises cs) = mset (map settled_of (snd (snd (queue_run new_queue cs))))
       + mset (waiters (fst (queue_run new_queue cs)))
   \<and> queue_inv (fst (queue_run new_queue cs))"
  using queue_run_promises [of new_queue cs "fst (queue_run new_queue cs)"
      "fst (snd (queue_run new_queue cs))" "snd (snd (queue_run new_queue cs))"]
    queue_run_fifo [OF queue_inv_new, of cs "fst (queue_run new_queue cs)"
      "fst (snd (queue_run new_queue cs))" "snd (snd (queue_run new_queue cs))"]
  by (simp add: new_queue_def)

subsection \<open>Signal\<close>

record notify_signal =
  sig_waiters :: "nat list"
  permit :: bool

definition new_signal :: notify_signal where
  "new_signal = \<lparr>sig_waiters = [], permit = False\<rparr>"

text \<open>The second component: the promises of \<open>wait\<close> that resolve (Inr) or reject (Inl).\<close>

definition notifyOne :: "notify_signal \<Rightarrow> notify_signal \<times> (nat + nat) list" where
  "notifyOne s =
     (case sig_waiters s of
        w # ws \<Rightarrow> (s\<lparr>sig_waiters := ws\<rparr>, [Inr w])
      | [] \<Rightarrow> (s\<lparr>permit := True\<rparr>, []))"

definition notifyAll :: "notify_signal \<Rightarrow> notify_signal \<times> (nat + nat) list" where
  "notifyAll s = (s\<lparr>sig_waiters := []\<rparr>, map Inr (sig_waiters s))"

definition wait_signal :: "notify_signal \<Rightarrow> nat \<Rightarrow> bool \<Rightarrow> notify_signal \<times> (nat + nat) list" where
  "wait_signal s p aborted =
     (if permit s then (s\<lparr>permit := False\<rparr>, [Inr p])
      else if aborted then (s, [Inl p])
      else (s\<lparr>sig_waiters := sig_waiters s @ [p]\<rparr>, []))"

definition abort_wait :: "notify_signal \<Rightarrow> nat \<Rightarrow> notify_signal \<times> (nat + nat) list" where
  "abort_wait s p =
     (if List.member (sig_waiters s) p
      then (s\<lparr>sig_waiters := remove1 p (sig_waiters s)\<rparr>, [Inl p]) else (s, []))"

datatype signal_call = NotifyOne | NotifyAll | Wait nat bool | AbortWait nat

fun signal_step :: "notify_signal \<Rightarrow> signal_call \<Rightarrow> notify_signal \<times> (nat + nat) list" where
  "signal_step s NotifyOne = notifyOne s"
| "signal_step s NotifyAll = notifyAll s"
| "signal_step s (Wait p a) = wait_signal s p a"
| "signal_step s (AbortWait p) = abort_wait s p"

text \<open>A stored permit and a waiting caller never coexist, and at most one permit is stored.\<close>

definition signal_inv :: "notify_signal \<Rightarrow> bool" where
  "signal_inv s \<longleftrightarrow> (permit s \<longrightarrow> sig_waiters s = [])"

lemma signal_inv_step: "signal_inv s \<Longrightarrow> signal_inv (fst (signal_step s c))"
  by (cases c)
    (auto simp: signal_inv_def notifyOne_def notifyAll_def wait_signal_def abort_wait_def
      split: list.splits)

fun signal_run :: "notify_signal \<Rightarrow> signal_call list \<Rightarrow> notify_signal \<times> (nat + nat) list" where
  "signal_run s [] = (s, [])"
| "signal_run s (c # cs) =
     (let (s1, rs1) = signal_step s c; (s2, rs2) = signal_run s1 cs in (s2, rs1 @ rs2))"

lemma signal_run_Cons:
  "signal_run s (c # cs) =
     (fst (signal_run (fst (signal_step s c)) cs),
      snd (signal_step s c) @ snd (signal_run (fst (signal_step s c)) cs))"
  by (simp add: Let_def split: prod.splits)

lemma signal_inv_run: "signal_inv s \<Longrightarrow> signal_inv (fst (signal_run s cs))"
proof (induction cs arbitrary: s)
  case (Cons c cs)
  then show ?case
    using signal_inv_step [OF Cons.prems, of c] by (simp add: signal_run_Cons del: signal_run.simps)
qed simp

fun waits :: "signal_call list \<Rightarrow> nat list" where
  "waits [] = []"
| "waits (Wait p a # cs) = p # waits cs"
| "waits (_ # cs) = waits cs"

definition promise_of :: "nat + nat \<Rightarrow> nat" where
  "promise_of r = (case r of Inl p \<Rightarrow> p | Inr p \<Rightarrow> p)"

lemma signal_step_promises:
  "mset (sig_waiters s) + mset (waits [c]) =
     mset (map promise_of (snd (signal_step s c))) + mset (sig_waiters (fst (signal_step s c)))"
  by (cases c)
    (auto simp: notifyOne_def notifyAll_def wait_signal_def abort_wait_def promise_of_def comp_def
      split: list.splits)

lemma signal_run_promises:
  "mset (sig_waiters s) + mset (waits cs) =
     mset (map promise_of (snd (signal_run s cs))) + mset (sig_waiters (fst (signal_run s cs)))"
proof (induction cs arbitrary: s)
  case (Cons c cs)
  have "waits (c # cs) = waits [c] @ waits cs" by (cases c) auto
  then show ?case
    using signal_step_promises [of s c] Cons.IH [of "fst (signal_step s c)"]
    by (simp add: signal_run_Cons union_assoc [symmetric] del: signal_run.simps)
qed simp

text \<open>
  The signal stores at most one permit and never together with a waiting caller, and every
  call of \<open>wait\<close> settles at most once.
\<close>

theorem signal_wakes_once:
  "signal_inv (fst (signal_run new_signal cs)) \<and>
   mset (waits cs) = mset (map promise_of (snd (signal_run new_signal cs)))
     + mset (sig_waiters (fst (signal_run new_signal cs)))"
  using signal_inv_run [of new_signal cs] signal_run_promises [of new_signal cs]
  by (simp add: new_signal_def signal_inv_def)

end
