(* ===== verification/Truncate.thy ===== *)
theory Truncate
  imports Prelude "HOL-Library.Sublist"
begin

text \<open>
  \<open>packages/agent/src/harness/utils/truncate.ts\<close>: truncation of tool output by lines and by
  UTF-8 bytes, from the head, from the tail and of a single line, on UTF-16 strings with
  unpaired surrogates included.
\<close>

definition DEFAULT_MAX_LINES :: int where
  "DEFAULT_MAX_LINES = 2000"

definition DEFAULT_MAX_BYTES :: int where
  "DEFAULT_MAX_BYTES = 50 * 1024"

definition GREP_MAX_LINE_LENGTH :: nat where
  "GREP_MAX_LINE_LENGTH = 500"

datatype truncated_by = ByLines | ByBytes

record truncation_result =
  content :: js_string
  truncated :: bool
  truncatedBy :: "truncated_by option"
  totalLines :: nat
  totalBytes :: nat
  outputLines :: nat
  outputBytes :: nat
  lastLinePartial :: bool
  firstLineExceedsLimit :: bool
  maxLines :: int
  maxBytes :: int

record truncation_options =
  opt_maxLines :: "int option"
  opt_maxBytes :: "int option"

subsection \<open>UTF-8 length of a UTF-16 string\<close>

text \<open>The loop of \<open>utf8ByteLength\<close>, from the index it starts at.\<close>

fun utf8_loop :: "js_string \<Rightarrow> nat" where
  "utf8_loop [] = 0"
| "utf8_loop (c # cs) =
     (if c \<le> 0x7f then 1 + utf8_loop cs
      else if c \<le> 0x7ff then 2 + utf8_loop cs
      else if high_surrogate c then
        (case cs of
           [] \<Rightarrow> 3
         | d # ds \<Rightarrow> if low_surrogate d then 4 + utf8_loop ds else 3 + utf8_loop cs)
      else 3 + utf8_loop cs)"

text \<open>
  \<open>Buffer.byteLength\<close>, which the code prefers when the runtime has it, counts the same bytes
  as the loop (an unpaired surrogate is encoded as U+FFFD).
\<close>

definition utf8ByteLength :: "js_string \<Rightarrow> nat" where
  "utf8ByteLength s =
     (let firstNonAscii = length (takeWhile (\<lambda>c. c \<le> 0x7f) s)
      in if firstNonAscii = length s then length s
         else firstNonAscii + utf8_loop (drop firstNonAscii s))"

fun replaceUnpairedSurrogates :: "js_string \<Rightarrow> js_string" where
  "replaceUnpairedSurrogates [] = []"
| "replaceUnpairedSurrogates (c # cs) =
     (if high_surrogate c then
        (case cs of
           d # ds \<Rightarrow>
             (if low_surrogate d then c # d # replaceUnpairedSurrogates ds
              else 0xfffd # replaceUnpairedSurrogates cs)
         | [] \<Rightarrow> [0xfffd])
      else if low_surrogate c then 0xfffd # replaceUnpairedSurrogates cs
      else c # replaceUnpairedSurrogates cs)"

subsection \<open>truncateHead\<close>

fun head_loop ::
  "js_string list \<Rightarrow> nat \<Rightarrow> int \<Rightarrow> int \<Rightarrow> js_string list \<Rightarrow> nat \<Rightarrow>
     js_string list \<times> nat \<times> truncated_by" where
  "head_loop [] i mlines mbytes out cnt = (out, cnt, ByLines)"
| "head_loop (line # rest) i mlines mbytes out cnt =
     (if int i < mlines then
        (let lineBytes = utf8ByteLength line + (if i > 0 then 1 else 0)
         in if int (cnt + lineBytes) > mbytes then (out, cnt, ByBytes)
            else head_loop rest (Suc i) mlines mbytes (out @ [line]) (cnt + lineBytes))
      else (out, cnt, ByLines))"

definition truncateHead :: "js_string \<Rightarrow> truncation_options \<Rightarrow> truncation_result" where
  "truncateHead s opts =
     (let mlines = (case opt_maxLines opts of None \<Rightarrow> DEFAULT_MAX_LINES | Some n \<Rightarrow> n);
          mbytes = (case opt_maxBytes opts of None \<Rightarrow> DEFAULT_MAX_BYTES | Some n \<Rightarrow> n);
          total = utf8ByteLength s;
          lines = js_split 10 s;
          n = length lines
      in if int n \<le> mlines \<and> int total \<le> mbytes then
           \<lparr>content = s, truncated = False, truncatedBy = None, totalLines = n,
            totalBytes = total, outputLines = n, outputBytes = total, lastLinePartial = False,
            firstLineExceedsLimit = False, maxLines = mlines, maxBytes = mbytes\<rparr>
         else if int (utf8ByteLength (hd lines)) > mbytes then
           \<lparr>content = [], truncated = True, truncatedBy = Some ByBytes, totalLines = n,
            totalBytes = total, outputLines = 0, outputBytes = 0, lastLinePartial = False,
            firstLineExceedsLimit = True, maxLines = mlines, maxBytes = mbytes\<rparr>
         else
           (let (out, cnt, by0) = head_loop lines 0 mlines mbytes [] 0;
                by1 = (if int (length out) \<ge> mlines \<and> int cnt \<le> mbytes then ByLines else by0);
                outputContent = js_join [10] out
            in \<lparr>content = outputContent, truncated = True, truncatedBy = Some by1,
                totalLines = n, totalBytes = total, outputLines = length out,
                outputBytes = utf8ByteLength outputContent, lastLinePartial = False,
                firstLineExceedsLimit = False, maxLines = mlines, maxBytes = mbytes\<rparr>))"

subsection \<open>truncateTail\<close>

text \<open>
  The backward loop of \<open>truncateStringToBytesFromEnd\<close> over the reversed string; \<open>kept\<close> is the
  part of the string from \<open>start\<close> on.
\<close>

fun from_end_loop :: "js_string \<Rightarrow> nat \<Rightarrow> int \<Rightarrow> js_string \<Rightarrow> bool \<Rightarrow> js_string \<times> bool" where
  "from_end_loop [] outBytes mbytes kept needs = (kept, needs)"
| "from_end_loop (c # before) outBytes mbytes kept needs =
     (if low_surrogate c \<and> before \<noteq> [] \<and> high_surrogate (hd before) then
        (if int (outBytes + 4) > mbytes then (kept, needs)
         else from_end_loop (tl before) (outBytes + 4) mbytes (hd before # c # kept) needs)
      else if low_surrogate c \<or> high_surrogate c then
        (if int (outBytes + 3) > mbytes then (kept, needs)
         else from_end_loop before (outBytes + 3) mbytes (c # kept) True)
      else
        (let characterBytes = (if c \<le> 0x7f then 1 else if c \<le> 0x7ff then 2 else 3)
         in if int (outBytes + characterBytes) > mbytes then (kept, needs)
            else from_end_loop before (outBytes + characterBytes) mbytes (c # kept) needs))"

definition truncateStringToBytesFromEnd :: "js_string \<Rightarrow> int \<Rightarrow> js_string" where
  "truncateStringToBytesFromEnd s mbytes =
     (if mbytes \<le> 0 then []
      else (let (output, needs) = from_end_loop (rev s) 0 mbytes [] False
            in if needs then replaceUnpairedSurrogates output else output))"

text \<open>The loop of \<open>truncateTail\<close> over the lines from the last one to the first.\<close>

fun tail_loop ::
  "js_string list \<Rightarrow> int \<Rightarrow> int \<Rightarrow> js_string list \<Rightarrow> nat \<Rightarrow>
     js_string list \<times> nat \<times> truncated_by \<times> bool" where
  "tail_loop [] mlines mbytes out cnt = (out, cnt, ByLines, False)"
| "tail_loop (line # before) mlines mbytes out cnt =
     (if int (length out) < mlines then
        (let lineBytes = utf8ByteLength line + (if length out > 0 then 1 else 0)
         in if int (cnt + lineBytes) > mbytes then
              (if out = [] then
                 (let truncatedLine = truncateStringToBytesFromEnd line mbytes
                  in ([truncatedLine], utf8ByteLength truncatedLine, ByBytes, True))
               else (out, cnt, ByBytes, False))
            else tail_loop before mlines mbytes (line # out) (cnt + lineBytes))
      else (out, cnt, ByLines, False))"

text \<open>The lines of \<open>truncateTail\<close>: a final empty line is popped unless it is the only one.\<close>

definition tail_lines :: "js_string \<Rightarrow> js_string list" where
  "tail_lines s =
     (let lines = js_split 10 s
      in if length lines > 1 \<and> last lines = [] then butlast lines else lines)"

definition truncateTail :: "js_string \<Rightarrow> truncation_options \<Rightarrow> truncation_result" where
  "truncateTail s opts =
     (let mlines = (case opt_maxLines opts of None \<Rightarrow> DEFAULT_MAX_LINES | Some n \<Rightarrow> n);
          mbytes = (case opt_maxBytes opts of None \<Rightarrow> DEFAULT_MAX_BYTES | Some n \<Rightarrow> n);
          total = utf8ByteLength s;
          lines = tail_lines s;
          n = length lines
      in if int n \<le> mlines \<and> int total \<le> mbytes then
           \<lparr>content = s, truncated = False, truncatedBy = None, totalLines = n,
            totalBytes = total, outputLines = n, outputBytes = total, lastLinePartial = False,
            firstLineExceedsLimit = False, maxLines = mlines, maxBytes = mbytes\<rparr>
         else
           (let (out, cnt, by0, partial) = tail_loop (rev lines) mlines mbytes [] 0;
                by1 = (if int (length out) \<ge> mlines \<and> int cnt \<le> mbytes then ByLines else by0);
                outputContent = js_join [10] out
            in \<lparr>content = outputContent, truncated = True, truncatedBy = Some by1,
                totalLines = n, totalBytes = total, outputLines = length out,
                outputBytes = utf8ByteLength outputContent, lastLinePartial = partial,
                firstLineExceedsLimit = False, maxLines = mlines, maxBytes = mbytes\<rparr>))"

definition truncateLine :: "js_string \<Rightarrow> nat \<Rightarrow> js_string \<times> bool" where
  "truncateLine line maxChars =
     (if length line \<le> maxChars then (line, False)
      else (take maxChars line @ str ''... [truncated]'', True))"

subsection \<open>Byte lengths\<close>

lemma utf8_loop_ascii_prefix:
  "\<forall>c \<in> set p. c \<le> 0x7f \<Longrightarrow> utf8_loop (p @ s) = length p + utf8_loop s"
  by (induction p) auto

text \<open>The search for the first non-ASCII unit is an optimisation of the loop.\<close>

lemma utf8ByteLength_eq_loop: "utf8ByteLength s = utf8_loop s"
proof -
  let ?p = "takeWhile (\<lambda>c. c \<le> 0x7f) s"
  have s: "s = ?p @ drop (length ?p) s"
    by (metis dropWhile_eq_drop takeWhile_dropWhile_id)
  have "\<forall>c \<in> set ?p. c \<le> 0x7f" by (auto dest: set_takeWhileD)
  from utf8_loop_ascii_prefix [OF this, of "drop (length ?p) s"]
  have "utf8_loop s = length ?p + utf8_loop (drop (length ?p) s)" using s by metis
  then show ?thesis by (auto simp: utf8ByteLength_def Let_def)
qed

definition unit_bytes :: "nat \<Rightarrow> nat" where
  "unit_bytes c = (if c \<le> 0x7f then 1 else if c \<le> 0x7ff then 2 else 3)"

lemma utf8_loop_unit:
  "\<not> (high_surrogate c \<and> starts_low s) \<Longrightarrow> utf8_loop (c # s) = unit_bytes c + utf8_loop s"
  by (cases s) (auto simp: unit_bytes_def high_surrogate_def)

lemma utf8_loop_pair:
  "high_surrogate c \<Longrightarrow> low_surrogate d \<Longrightarrow> utf8_loop (c # d # s) = 4 + utf8_loop s"
  by (auto simp: high_surrogate_def)

lemma unit_bytes_surrogate:
  "high_surrogate c \<or> low_surrogate c \<Longrightarrow> unit_bytes c = 3"
  by (auto simp: unit_bytes_def high_surrogate_def low_surrogate_def)

declare utf8_loop.simps(2) [simp del]

lemma utf8_loop_append:
  "\<not> starts_low t \<Longrightarrow> utf8_loop (s @ t) = utf8_loop s + utf8_loop t"
proof (induction s rule: utf16_induct)
  case (Unit c s)
  then have "\<not> (high_surrogate c \<and> starts_low (s @ t))" by (cases s) auto
  with Unit show ?case by (simp add: utf8_loop_unit)
qed (simp_all add: utf8_loop_pair)

lemma utf8_loop_newline: "utf8_loop (s @ 10 # t) = utf8_loop s + 1 + utf8_loop t"
  using utf8_loop_append [of "10 # t" s]
  by (simp add: low_surrogate_def high_surrogate_def utf8_loop_unit unit_bytes_def)

lemma replace_pair:
  "high_surrogate c \<Longrightarrow> low_surrogate d \<Longrightarrow>
     replaceUnpairedSurrogates (c # d # s) = c # d # replaceUnpairedSurrogates s"
  by simp

lemma replace_unit:
  "\<not> (high_surrogate c \<and> starts_low s) \<Longrightarrow>
     replaceUnpairedSurrogates (c # s) =
       (if high_surrogate c \<or> low_surrogate c then 0xfffd else c) # replaceUnpairedSurrogates s"
  by (cases s) auto

declare replaceUnpairedSurrogates.simps(2) [simp del]

lemma fffd [simp]: "\<not> high_surrogate 0xfffd" "\<not> low_surrogate 0xfffd"
  by (simp_all add: high_surrogate_def low_surrogate_def)

lemma utf8_loop_replace: "utf8_loop (replaceUnpairedSurrogates s) = utf8_loop s"
proof (induction s rule: utf16_induct)
  case (Unit c s)
  then show ?case
    by (auto simp: replace_unit utf8_loop_unit unit_bytes_surrogate)
      (simp_all add: unit_bytes_def)
qed (simp_all add: utf8_loop_pair replace_pair)

text \<open>No surrogate of the result is unpaired.\<close>

fun well_formed_utf16 :: "js_string \<Rightarrow> bool" where
  "well_formed_utf16 [] = True"
| "well_formed_utf16 (c # cs) =
     (if high_surrogate c then
        (case cs of [] \<Rightarrow> False | d # ds \<Rightarrow> low_surrogate d \<and> well_formed_utf16 ds)
      else \<not> low_surrogate c \<and> well_formed_utf16 cs)"

lemma well_formed_pair:
  "high_surrogate c \<Longrightarrow> low_surrogate d \<Longrightarrow> well_formed_utf16 (c # d # s) = well_formed_utf16 s"
  by simp

lemma well_formed_unit:
  "\<not> (high_surrogate c \<and> starts_low s) \<Longrightarrow>
     well_formed_utf16 (c # s) \<longleftrightarrow>
       \<not> high_surrogate c \<and> \<not> low_surrogate c \<and> well_formed_utf16 s"
  by (cases s) auto

declare well_formed_utf16.simps(2) [simp del]

lemma well_formed_replace: "well_formed_utf16 (replaceUnpairedSurrogates s)"
proof (induction s rule: utf16_induct)
  case (Unit c s)
  then show ?case by (simp add: replace_unit well_formed_unit)
qed (simp_all add: replace_pair well_formed_pair)

lemma replace_well_formed: "well_formed_utf16 s \<Longrightarrow> replaceUnpairedSurrogates s = s"
proof (induction s rule: utf16_induct)
  case (Unit c s)
  then show ?case by (simp add: replace_unit well_formed_unit)
qed (simp_all add: replace_pair well_formed_pair)

subsection \<open>The loops\<close>

definition joined_bytes :: "js_string list \<Rightarrow> nat" where
  "joined_bytes ls = utf8_loop (js_join [10] ls)"

lemma joined_bytes_Nil [simp]: "joined_bytes [] = 0"
  by (simp add: joined_bytes_def)

lemma joined_bytes_Cons:
  "joined_bytes (l # ls) = utf8_loop l + (if ls = [] then 0 else 1 + joined_bytes ls)"
  by (cases ls) (simp_all add: joined_bytes_def utf8_loop_newline)

lemma joined_bytes_snoc:
  "joined_bytes (ls @ [l]) = joined_bytes ls + utf8_loop l + (if ls = [] then 0 else 1)"
  by (induction ls) (auto simp: joined_bytes_Cons)

lemma joined_bytes_take_mono:
  "joined_bytes (take m ls) \<le> joined_bytes (take n ls)" if "m \<le> n" "m \<le> length ls"
  using that
proof (induction ls arbitrary: m n)
  case (Cons l ls)
  then show ?case by (cases m; cases n) (auto simp: joined_bytes_Cons)
qed simp

text \<open>What the loop of \<open>truncateHead\<close> returns: the longest run of lines within both limits.\<close>

lemma head_loop_spec:
  assumes "head_loop rest i ml mb out cnt = (out', cnt', by)"
    and "i = length out" "cnt = joined_bytes out" "int cnt \<le> mb"
  shows "\<exists>k \<le> length rest. out' = out @ take k rest \<and> cnt' = joined_bytes out' \<and> int cnt' \<le> mb \<and>
           (int (length out) \<le> ml \<longrightarrow> int (length out') \<le> ml) \<and>
           (k < length rest \<longrightarrow> ml \<le> int (length out') \<or>
              mb < int (joined_bytes (out' @ [rest ! k])) \<and> by = ByBytes) \<and>
           (by = ByBytes \<longrightarrow> k < length rest \<and> int (length out') < ml)"
  using assms
proof (induction rest i ml mb out cnt rule: head_loop.induct)
  case (1 i ml mb out cnt)
  then show ?case by auto
next
  case (2 line rest i ml mb out cnt)
  let ?lb = "utf8ByteLength line + (if i > 0 then 1 else 0)"
  have snoc: "joined_bytes (out @ [line]) = cnt + ?lb"
    using 2 by (simp add: joined_bytes_snoc utf8ByteLength_eq_loop)
  consider (limit) "ml \<le> int i" | (bytes) "int i < ml" "int (cnt + ?lb) > mb"
    | (go) "int i < ml" "int (cnt + ?lb) \<le> mb" by linarith
  then show ?case
  proof cases
    case limit
    then show ?thesis using 2 by (intro exI [of _ 0]) (auto split: if_splits)
  next
    case bytes
    then show ?thesis using 2 snoc by (intro exI [of _ 0]) (auto simp: Let_def)
  next
    case go
    then have eq: "head_loop rest (Suc i) ml mb (out @ [line]) (cnt + ?lb) = (out', cnt', by)"
      using 2(2) by (simp add: Let_def)
    have "Suc i = length (out @ [line])" using 2 by simp
    from 2(1) [OF go(1) refl _ eq this snoc [symmetric] go(2)] go
    obtain k where k: "k \<le> length rest" "out' = (out @ [line]) @ take k rest"
      "cnt' = joined_bytes out'" "int cnt' \<le> mb"
      "int (length (out @ [line])) \<le> ml \<longrightarrow> int (length out') \<le> ml"
      "k < length rest \<longrightarrow> ml \<le> int (length out') \<or>
              mb < int (joined_bytes (out' @ [rest ! k])) \<and> by = ByBytes"
      "by = ByBytes \<longrightarrow> k < length rest \<and> int (length out') < ml"
      by (auto simp: not_less)
    then show ?thesis using go 2(3) by (intro exI [of _ "Suc k"]) auto
  qed
qed

text \<open>
  What the loop from the end keeps: a suffix that fits, which does not start inside a
  surrogate pair.  The byte count of the loop, taken backwards, is that of the forward loop.
\<close>

lemma from_end_loop_spec:
  assumes "from_end_loop revs n mb kept needs = (kept', needs')"
    and "\<not> (starts_low kept \<and> revs \<noteq> [] \<and> high_surrogate (hd revs))"
    and "n = utf8_loop kept" "int n \<le> mb"
  shows "\<exists>k \<le> length revs. kept' = rev (take k revs) @ kept \<and> int (utf8_loop kept') \<le> mb \<and>
           \<not> (starts_low kept' \<and> drop k revs \<noteq> [] \<and> high_surrogate (hd (drop k revs)))"
  using assms
proof (induction revs n mb kept needs rule: from_end_loop.induct)
  case (1 n mb kept needs)
  then show ?case by auto
next
  case (2 c bef n mb kept needs)
  let ?pair = "low_surrogate c \<and> bef \<noteq> [] \<and> high_surrogate (hd bef)"
  let ?sur = "low_surrogate c \<or> high_surrogate c"
  have high_low: "high_surrogate x \<Longrightarrow> \<not> low_surrogate x" for x
    by (auto simp: high_surrogate_def low_surrogate_def)
  have unit: "utf8_loop (c # kept) = unit_bytes c + n"
    using 2(5,6) by (subst utf8_loop_unit) auto
  have width: "(if c \<le> 127 then 1 else if c \<le> 2047 then 2 else 3) = unit_bytes c"
    by (simp add: unit_bytes_def)
  have stop: ?case if "kept' = kept"
    using that 2(5-7) by (intro exI [of _ 0]) simp
  consider (pair) ?pair | (sur) "\<not> ?pair" ?sur | (plain) "\<not> ?pair" "\<not> ?sur" by blast
  then show ?case
  proof cases
    case pair
    then obtain h hs where bef: "bef = h # hs" "high_surrogate h" by (cases bef) auto
    show ?thesis
    proof (cases "int (n + 4) > mb")
      case True
      with 2(4) pair stop show ?thesis by (simp add: bef)
    next
      case False
      have "from_end_loop hs (n + 4) mb (h # c # kept) needs = (kept', needs')"
        using 2(4) pair False bef by simp
      then have "\<exists>k \<le> length hs. kept' = rev (take k hs) @ h # c # kept \<and>
        int (utf8_loop kept') \<le> mb \<and>
        \<not> (starts_low kept' \<and> drop k hs \<noteq> [] \<and> high_surrogate (hd (drop k hs)))"
        using 2(1) [OF pair False] pair bef high_low False 2(6)
        by (simp add: utf8_loop_pair)
      then obtain k where "k \<le> length hs" "kept' = rev (take k hs) @ h # c # kept"
        "int (utf8_loop kept') \<le> mb"
        "\<not> (starts_low kept' \<and> drop k hs \<noteq> [] \<and> high_surrogate (hd (drop k hs)))"
        by blast
      then show ?thesis using bef by (intro exI [of _ "Suc (Suc k)"]) auto
    qed
  next
    case sur
    have ub: "unit_bytes c = 3" using sur by (intro unit_bytes_surrogate) auto
    show ?thesis
    proof (cases "int (n + 3) > mb")
      case True
      with 2(4) sur stop show ?thesis by auto
    next
      case False
      have "from_end_loop bef (n + 3) mb (c # kept) True = (kept', needs')"
        using 2(4) sur False by auto
      moreover have "\<not> (starts_low (c # kept) \<and> bef \<noteq> [] \<and> high_surrogate (hd bef))"
        using sur(1) by simp
      moreover have "n + 3 = utf8_loop (c # kept)" using unit ub by simp
      ultimately have "\<exists>k \<le> length bef. kept' = rev (take k bef) @ c # kept \<and>
        int (utf8_loop kept') \<le> mb \<and>
        \<not> (starts_low kept' \<and> drop k bef \<noteq> [] \<and> high_surrogate (hd (drop k bef)))"
        using 2(2) [OF sur False] False by simp
      then obtain k where "k \<le> length bef" "kept' = rev (take k bef) @ c # kept"
        "int (utf8_loop kept') \<le> mb"
        "\<not> (starts_low kept' \<and> drop k bef \<noteq> [] \<and> high_surrogate (hd (drop k bef)))"
        by blast
      then show ?thesis by (intro exI [of _ "Suc k"]) auto
    qed
  next
    case plain
    show ?thesis
    proof (cases "int (n + unit_bytes c) > mb")
      case True
      with 2(4) plain stop show ?thesis by (auto simp: Let_def width)
    next
      case False
      have eq: "from_end_loop bef (n + unit_bytes c) mb (c # kept) needs = (kept', needs')"
        using 2(4) plain False by (simp add: Let_def width)
      moreover have "\<not> (starts_low (c # kept) \<and> bef \<noteq> [] \<and> high_surrogate (hd bef))"
        using plain(1) by simp
      moreover have "n + unit_bytes c = utf8_loop (c # kept)" using unit by simp
      ultimately have "\<exists>k \<le> length bef. kept' = rev (take k bef) @ c # kept \<and>
        int (utf8_loop kept') \<le> mb \<and>
        \<not> (starts_low kept' \<and> drop k bef \<noteq> [] \<and> high_surrogate (hd (drop k bef)))"
        using 2(3) [OF plain width [symmetric] False] False by simp
      then obtain k where "k \<le> length bef" "kept' = rev (take k bef) @ c # kept"
        "int (utf8_loop kept') \<le> mb"
        "\<not> (starts_low kept' \<and> drop k bef \<noteq> [] \<and> high_surrogate (hd (drop k bef)))"
        by blast
      then show ?thesis by (intro exI [of _ "Suc k"]) auto
    qed
  qed
qed

lemma utf8_from_end:
  "utf8_loop (truncateStringToBytesFromEnd s mb) \<le> nat mb"
proof (cases "mb \<le> 0")
  case True
  then show ?thesis by (simp add: truncateStringToBytesFromEnd_def)
next
  case False
  obtain outp needs where fe: "from_end_loop (rev s) 0 mb [] False = (outp, needs)"
    by fastforce
  have "int (utf8_loop outp) \<le> mb"
    using from_end_loop_spec [OF fe] False by auto
  then show ?thesis
    using False fe by (simp add: truncateStringToBytesFromEnd_def utf8_loop_replace)
qed

lemma truncateStringToBytesFromEnd_suffix:
  "\<exists>t. suffix t s \<and> (truncateStringToBytesFromEnd s mb = t \<or>
        truncateStringToBytesFromEnd s mb = replaceUnpairedSurrogates t)"
proof (cases "mb \<le> 0")
  case True
  then show ?thesis by (auto simp: truncateStringToBytesFromEnd_def intro: exI [of _ "[]"])
next
  case False
  obtain outp needs where fe: "from_end_loop (rev s) 0 mb [] False = (outp, needs)"
    by fastforce
  obtain k where "outp = rev (take k (rev s))"
    using from_end_loop_spec [OF fe] False by auto
  then have "suffix outp s"
    by (simp add: take_rev suffix_drop)
  then show ?thesis
    using False fe by (auto simp: truncateStringToBytesFromEnd_def)
qed

text \<open>What the loop of \<open>truncateTail\<close> returns: the longest run of final lines, or a cut line.\<close>

lemma tail_loop_spec:
  assumes "tail_loop bef ml mb out cnt = (out', cnt', by, partial)"
    and "cnt = joined_bytes out" "int cnt \<le> max 0 mb"
    and "int (length out) \<le> max 0 ml"
  shows "cnt' = joined_bytes out' \<and> int cnt' \<le> max 0 mb \<and> int (length out') \<le> max 0 ml \<and>
         (\<not> partial \<longrightarrow> (\<exists>k \<le> length bef. out' = rev (take k bef) @ out \<and>
             (k < length bef \<longrightarrow> ml \<le> int (length out') \<or>
                mb < int (joined_bytes (bef ! k # out')) \<and> out' \<noteq> [] \<and> by = ByBytes))) \<and>
         (partial \<longrightarrow> out = [] \<and> by = ByBytes \<and> (\<exists>line rest. bef = line # rest \<and>
             mb < int (utf8_loop line) \<and> out' = [truncateStringToBytesFromEnd line mb]))"
  using assms
proof (induction bef ml mb out cnt rule: tail_loop.induct)
  case (1 ml mb out cnt)
  then show ?case by auto
next
  case (2 line bef ml mb out cnt)
  let ?lb = "utf8ByteLength line + (if length out > 0 then 1 else 0)"
  have cons: "joined_bytes (line # out) = cnt + ?lb"
    using 2(3) by (auto simp: joined_bytes_Cons utf8ByteLength_eq_loop)
  consider (limit) "ml \<le> int (length out)"
    | (cut) "int (length out) < ml" "int (cnt + ?lb) > mb" "out = []"
    | (stop) "int (length out) < ml" "int (cnt + ?lb) > mb" "out \<noteq> []"
    | (go) "int (length out) < ml" "int (cnt + ?lb) \<le> mb" by linarith
  then show ?case
  proof cases
    case limit
    then show ?thesis using 2(2-5) by (auto split: if_splits intro!: exI [of _ 0])
  next
    case cut
    let ?tl = "truncateStringToBytesFromEnd line mb"
    have r: "out' = [?tl]" "cnt' = utf8ByteLength ?tl" "by = ByBytes" partial
      using 2(2) cut by (simp_all add: Let_def)
    have "joined_bytes [?tl] = cnt'"
      using r by (simp add: joined_bytes_def utf8ByteLength_eq_loop)
    moreover have "int cnt' \<le> max 0 mb"
      using utf8_from_end [of line mb] r by (simp add: utf8ByteLength_eq_loop)
    moreover have "mb < int (utf8_loop line)"
      using cut 2(3) by (simp add: utf8ByteLength_eq_loop)
    ultimately show ?thesis using r cut by auto
  next
    case stop
    have "out' = out" "cnt' = cnt" "by = ByBytes" "\<not> partial"
      using 2(2) stop by (simp_all add: Let_def)
    then show ?thesis using stop 2(3-5) cons by (auto intro!: exI [of _ 0])
  next
    case go
    have eq: "tail_loop bef ml mb (line # out) (cnt + ?lb) = (out', cnt', by, partial)"
      using 2(2) go by (simp add: Let_def)
    have IH: "cnt' = joined_bytes out' \<and> int cnt' \<le> max 0 mb \<and> int (length out') \<le> max 0 ml \<and>
         (\<not> partial \<longrightarrow> (\<exists>k \<le> length bef. out' = rev (take k bef) @ line # out \<and>
             (k < length bef \<longrightarrow> ml \<le> int (length out') \<or>
                mb < int (joined_bytes (bef ! k # out')) \<and> out' \<noteq> [] \<and> by = ByBytes))) \<and>
         \<not> partial"
      using 2(1) [OF go(1) refl _ eq cons [symmetric]] go by auto
    then obtain k where k: "k \<le> length bef" "out' = rev (take k bef) @ line # out"
      "k < length bef \<longrightarrow> ml \<le> int (length out') \<or>
                mb < int (joined_bytes (bef ! k # out')) \<and> out' \<noteq> [] \<and> by = ByBytes"
      by blast
    then have "\<exists>k \<le> length (line # bef). out' = rev (take k (line # bef)) @ out \<and>
       (k < length (line # bef) \<longrightarrow> ml \<le> int (length out') \<or>
          mb < int (joined_bytes ((line # bef) ! k # out')) \<and> out' \<noteq> [] \<and> by = ByBytes)"
      by (intro exI [of _ "Suc k"]) auto
    then show ?thesis using IH by blast
  qed
qed

lemma well_formed_suffix:
  assumes "well_formed_utf16 (p @ t)" "\<not> (starts_low t \<and> p \<noteq> [] \<and> high_surrogate (last p))"
  shows "well_formed_utf16 t"
  using assms
proof (induction p rule: utf16_induct)
  case (Pair c d s)
  then show ?case by (cases s) (simp_all add: well_formed_pair not_low_and_high)
next
  case (Unit c s)
  then show ?case
  proof (cases "s = []")
    case True
    then show ?thesis using Unit(3,4) well_formed_unit [of c t] by auto
  next
    case False
    then have "\<not> (high_surrogate c \<and> starts_low (s @ t))" using Unit(1) by (cases s) auto
    then show ?thesis using Unit False by (simp add: well_formed_unit)
  qed
qed simp

lemma from_end_well_formed:
  assumes "well_formed_utf16 s"
  shows "well_formed_utf16 (truncateStringToBytesFromEnd s mb) \<and>
         suffix (truncateStringToBytesFromEnd s mb) s"
proof (cases "mb \<le> 0")
  case True
  then show ?thesis by (simp add: truncateStringToBytesFromEnd_def)
next
  case False
  obtain outp needs where fe: "from_end_loop (rev s) 0 mb [] False = (outp, needs)"
    by fastforce
  have "\<exists>k \<le> length (rev s). outp = rev (take k (rev s)) @ [] \<and> int (utf8_loop outp) \<le> mb \<and>
     \<not> (starts_low outp \<and> drop k (rev s) \<noteq> [] \<and> high_surrogate (hd (drop k (rev s))))"
    by (rule from_end_loop_spec [OF fe]) (use False in simp_all)
  then obtain k where k: "k \<le> length s" "outp = rev (take k (rev s))"
    "\<not> (starts_low outp \<and> drop k (rev s) \<noteq> [] \<and> high_surrogate (hd (drop k (rev s))))"
    unfolding length_rev append_Nil2 by blast
  have s: "s = rev (drop k (rev s)) @ outp"
    using k(2) by (metis append_take_drop_id rev_append rev_rev_ident)
  have "well_formed_utf16 outp"
    by (rule well_formed_suffix [of "rev (drop k (rev s))"])
      (use assms s k(3) in \<open>simp_all add: last_rev\<close>)
  moreover have "suffix outp s" using s by (rule suffixI)
  ultimately show ?thesis
    using False fe replace_well_formed by (auto simp: truncateStringToBytesFromEnd_def)
qed

subsection \<open>Results\<close>

lemma js_join_split_lines [simp]: "js_join [10] (js_split 10 s) = s"
  by (rule js_join_split)

lemma joined_bytes_split: "joined_bytes (js_split 10 s) = utf8ByteLength s"
  by (simp add: joined_bytes_def utf8ByteLength_eq_loop)

lemma truncateHead_cases [case_names fits first cut]:
  fixes s opts
  defines "r \<equiv> truncateHead s opts" and "ls \<equiv> js_split 10 s"
  obtains "\<not> truncated r" "content r = s" "int (length ls) \<le> maxLines r"
      "int (utf8ByteLength s) \<le> maxBytes r"
    | "truncated r" "firstLineExceedsLimit r" "content r = []" "outputLines r = 0"
      "outputBytes r = 0" "maxBytes r < int (utf8ByteLength (hd ls))" "totalLines r = length ls"
    | out cnt tb where "truncated r" "\<not> firstLineExceedsLimit r"
      "head_loop ls 0 (maxLines r) (maxBytes r) [] 0 = (out, cnt, tb)" "0 \<le> maxBytes r"
      "\<not> (int (length ls) \<le> maxLines r \<and> int (utf8ByteLength s) \<le> maxBytes r)"
      "content r = js_join [10] out" "outputLines r = length out"
      "outputBytes r = utf8ByteLength (js_join [10] out)" "totalLines r = length ls"
proof -
  define ml where "ml = (case opt_maxLines opts of None \<Rightarrow> DEFAULT_MAX_LINES | Some n \<Rightarrow> n)"
  define mb where "mb = (case opt_maxBytes opts of None \<Rightarrow> DEFAULT_MAX_BYTES | Some n \<Rightarrow> n)"
  obtain out cnt tb where hl: "head_loop ls 0 ml mb [] 0 = (out, cnt, tb)"
    by (metis prod_cases3)
  show ?thesis
  proof (cases "int (length ls) \<le> ml \<and> int (utf8ByteLength s) \<le> mb")
    case True
    then show ?thesis
      by (intro that(1)) (simp_all add: r_def ls_def truncateHead_def Let_def ml_def mb_def)
  next
    case nofit: False
    show ?thesis
    proof (cases "int (utf8ByteLength (hd ls)) > mb")
      case True
      with nofit have "r = \<lparr>content = [], truncated = True, truncatedBy = Some ByBytes,
          totalLines = length ls, totalBytes = utf8ByteLength s, outputLines = 0,
          outputBytes = 0, lastLinePartial = False,
          firstLineExceedsLimit = True, maxLines = ml, maxBytes = mb\<rparr>"
        unfolding r_def ls_def truncateHead_def Let_def ml_def [symmetric] mb_def [symmetric]
        by simp
      then show ?thesis by (intro that(2)) (use True in simp_all)
    next
      case False
      with nofit have r: "r = \<lparr>content = js_join [10] out, truncated = True,
          truncatedBy = Some (if int (length out) \<ge> ml \<and> int cnt \<le> mb then ByLines else tb),
          totalLines = length ls, totalBytes = utf8ByteLength s, outputLines = length out,
          outputBytes = utf8ByteLength (js_join [10] out), lastLinePartial = False,
          firstLineExceedsLimit = False, maxLines = ml, maxBytes = mb\<rparr>"
        using hl unfolding r_def ls_def truncateHead_def Let_def ml_def [symmetric] mb_def [symmetric]
        by simp
      show ?thesis by (rule that(3) [of out cnt tb]) (use r hl False nofit in simp_all)
    qed
  qed
qed

lemmas truncate_eval =
  truncateHead_def truncateTail_def tail_lines_def truncateStringToBytesFromEnd_def Let_def
  utf8ByteLength_eq_loop utf8_loop.simps replaceUnpairedSurrogates.simps well_formed_utf16.simps
  high_surrogate_def low_surrogate_def str_def

lemma truncateTail_cases [case_names fits cut]:
  fixes s opts
  defines "r \<equiv> truncateTail s opts" and "ls \<equiv> tail_lines s"
  obtains "\<not> truncated r" "content r = s" "int (length ls) \<le> maxLines r"
      "int (utf8ByteLength s) \<le> maxBytes r"
    | out cnt tb where "truncated r" "\<not> firstLineExceedsLimit r"
      "tail_loop (rev ls) (maxLines r) (maxBytes r) [] 0 = (out, cnt, tb, lastLinePartial r)"
      "\<not> (int (length ls) \<le> maxLines r \<and> int (utf8ByteLength s) \<le> maxBytes r)"
      "content r = js_join [10] out" "outputLines r = length out"
      "outputBytes r = utf8ByteLength (js_join [10] out)" "totalLines r = length ls"
      "truncatedBy r = Some (if int (length out) \<ge> maxLines r \<and> int cnt \<le> maxBytes r
         then ByLines else tb)"
proof -
  define ml where "ml = (case opt_maxLines opts of None \<Rightarrow> DEFAULT_MAX_LINES | Some n \<Rightarrow> n)"
  define mb where "mb = (case opt_maxBytes opts of None \<Rightarrow> DEFAULT_MAX_BYTES | Some n \<Rightarrow> n)"
  obtain out cnt tb partial where tl: "tail_loop (rev ls) ml mb [] 0 = (out, cnt, tb, partial)"
    by (metis prod_cases4)
  show ?thesis
  proof (cases "int (length ls) \<le> ml \<and> int (utf8ByteLength s) \<le> mb")
    case True
    then show ?thesis
      by (intro that(1)) (simp_all add: r_def ls_def truncateTail_def Let_def ml_def mb_def)
  next
    case False
    then have r: "r = \<lparr>content = js_join [10] out, truncated = True,
        truncatedBy = Some (if int (length out) \<ge> ml \<and> int cnt \<le> mb then ByLines else tb),
        totalLines = length ls, totalBytes = utf8ByteLength s, outputLines = length out,
        outputBytes = utf8ByteLength (js_join [10] out), lastLinePartial = partial,
        firstLineExceedsLimit = False, maxLines = ml, maxBytes = mb\<rparr>"
      using tl unfolding r_def ls_def truncateTail_def Let_def ml_def [symmetric] mb_def [symmetric]
      by simp
    show ?thesis by (rule that(2) [of out cnt tb]) (use r tl False in simp_all)
  qed
qed

lemma joined_bytes_eq: "joined_bytes ls = utf8ByteLength (js_join [10] ls)"
  by (simp add: joined_bytes_def utf8ByteLength_eq_loop)

text \<open>
  C26: a truncated result of \<open>truncateHead\<close> is the joining of the first \<open>outputLines\<close> lines of the
  input, stays within the line and the byte limit, reports its own byte length, leaves at
  least one line out, and is maximal: one more line would break a limit.
\<close>

theorem truncateHead_maximal_prefix:
  assumes "r = truncateHead s opts" "truncated r"
  shows "content r = js_join [10] (take (outputLines r) (js_split 10 s)) \<and>
    outputBytes r = utf8ByteLength (content r) \<and>
    int (outputBytes r) \<le> max 0 (maxBytes r) \<and> int (outputLines r) \<le> max 0 (maxLines r) \<and>
    outputLines r < totalLines r \<and>
    (maxLines r \<le> int (outputLines r) \<or>
       maxBytes r < int (utf8ByteLength (js_join [10] (take (Suc (outputLines r)) (js_split 10 s)))))"
proof (cases rule: truncateHead_cases [of s opts, folded assms(1), case_names fits first cut])
  case first
  then show ?thesis by (cases "js_split 10 s") (auto simp: utf8ByteLength_def)
  next
  case (cut out cnt tb)
  have "\<exists>k \<le> length (js_split 10 s). out = [] @ take k (js_split 10 s) \<and> cnt = joined_bytes out \<and>
    int cnt \<le> maxBytes r \<and>
    (int (length ([] :: js_string list)) \<le> maxLines r \<longrightarrow> int (length out) \<le> maxLines r) \<and>
    (k < length (js_split 10 s) \<longrightarrow> maxLines r \<le> int (length out) \<or>
       maxBytes r < int (joined_bytes (out @ [(js_split 10 s) ! k])) \<and> tb = ByBytes) \<and>
    (tb = ByBytes \<longrightarrow> k < length (js_split 10 s) \<and> int (length out) < maxLines r)"
    by (rule head_loop_spec [OF cut(3)]) (use cut(4) in simp_all)
  then obtain k where k: "k \<le> length (js_split 10 s)" "out = take k (js_split 10 s)" "cnt = joined_bytes out"
    "int cnt \<le> maxBytes r"
    "0 \<le> maxLines r \<longrightarrow> int (length out) \<le> maxLines r"
    "k < length (js_split 10 s) \<longrightarrow> maxLines r \<le> int (length out) \<or>
       maxBytes r < int (joined_bytes (out @ [(js_split 10 s) ! k]))"
    unfolding append_Nil list.size of_nat_0 by blast
  have len: "length out = k" using k by simp
  have neg: "int (length out) \<le> max 0 (maxLines r)"
  proof (cases "0 \<le> maxLines r")
    case False
    then have "head_loop (js_split 10 s) 0 (maxLines r) (maxBytes r) [] 0 = ([], 0, ByLines)"
      by (cases "js_split 10 s") auto
    then show ?thesis using cut(3) by simp
  qed (use k(5) in simp)
  obtain m where m: "length (js_split 10 s) = Suc m" by (cases "js_split 10 s") auto
  have "k \<noteq> length (js_split 10 s)"
    using k(2-4) cut(5) len joined_bytes_split [of s] neg m by auto
  then have lt: "k < length (js_split 10 s)" using k(1) by simp
  show ?thesis
    using k lt len cut(6-9) neg by (auto simp: joined_bytes_eq take_Suc_conv_app_nth)
qed (use assms(2) in simp)

theorem truncateHead_maximal_prefix_witness:
  "\<exists>r. r = truncateHead (str ''ab'' @ [10] @ str ''cde'' @ [10] @ str ''f'')
         \<lparr>opt_maxLines = Some 5, opt_maxBytes = Some 6\<rparr> \<and>
     content r = str ''ab'' @ [10] @ str ''cde'' \<and> outputBytes r = 6 \<and> outputLines r = 2"
proof -
  let ?r = "truncateHead (str ''ab'' @ [10] @ str ''cde'' @ [10] @ str ''f'')
     \<lparr>opt_maxLines = Some 5, opt_maxBytes = Some 6\<rparr>"
  have t: "truncated ?r" and n: "outputLines ?r = 2" by (simp_all add: truncate_eval)
  have "js_join [10] (take 2 (js_split 10 (str ''ab'' @ [10] @ str ''cde'' @ [10] @ str ''f'')))
          = str ''ab'' @ [10] @ str ''cde''"
    and "utf8ByteLength (str ''ab'' @ [10] @ str ''cde'') = 6" by (simp_all add: truncate_eval)
  then show ?thesis
    using truncateHead_maximal_prefix [OF refl t] n by auto
qed

text \<open>
  C31: a truncated result of \<open>truncateTail\<close> stays within both limits; when no line is cut it is
  the joining of the last \<open>outputLines\<close> lines, and maximal: one more line would break a limit;
  when a line is cut, it is the last line, which alone exceeds the byte limit, and the
  result is \<open>truncateStringToBytesFromEnd\<close> of it.
\<close>

theorem truncateTail_maximal_suffix:
  assumes "r = truncateTail s opts" "truncated r"
  shows "outputBytes r = utf8ByteLength (content r) \<and>
    int (outputBytes r) \<le> max 0 (maxBytes r) \<and> int (outputLines r) \<le> max 0 (maxLines r) \<and>
    (if lastLinePartial r
     then outputLines r = 1 \<and> maxBytes r < int (utf8ByteLength (last (tail_lines s))) \<and>
       content r = truncateStringToBytesFromEnd (last (tail_lines s)) (maxBytes r)
     else outputLines r \<le> totalLines r \<and>
       content r = js_join [10] (drop (totalLines r - outputLines r) (tail_lines s)) \<and>
       (outputLines r < totalLines r \<longrightarrow> maxLines r \<le> int (outputLines r) \<or>
          maxBytes r < int (utf8ByteLength
             (js_join [10] (drop (totalLines r - Suc (outputLines r)) (tail_lines s))))))"
proof (cases rule: truncateTail_cases [of s opts, folded assms(1), case_names fits cut])
  case (cut out cnt tb)
  have spec: "cnt = joined_bytes out \<and> int cnt \<le> max 0 (maxBytes r) \<and>
     int (length out) \<le> max 0 (maxLines r) \<and>
     (\<not> lastLinePartial r \<longrightarrow> (\<exists>k \<le> length (rev (tail_lines s)). out = rev (take k (rev (tail_lines s))) @ [] \<and>
        (k < length (rev (tail_lines s)) \<longrightarrow> maxLines r \<le> int (length out) \<or>
           maxBytes r < int (joined_bytes (rev (tail_lines s) ! k # out)) \<and> out \<noteq> [] \<and> tb = ByBytes))) \<and>
     (lastLinePartial r \<longrightarrow> ([] :: js_string list) = [] \<and> tb = ByBytes \<and>
        (\<exists>line rest. rev (tail_lines s) = line # rest \<and> maxBytes r < int (utf8_loop line) \<and>
           out = [truncateStringToBytesFromEnd line (maxBytes r)]))"
    by (rule tail_loop_spec [OF cut(3)]) simp_all
  show ?thesis
  proof (cases "lastLinePartial r")
    case True
    then obtain line rest where l: "rev (tail_lines s) = line # rest" "maxBytes r < int (utf8_loop line)"
      "out = [truncateStringToBytesFromEnd line (maxBytes r)]" using spec by blast
    have "last (tail_lines s) = line" using l(1) by (metis last_rev list.sel(1) rev_rev_ident rev_is_Nil_conv)
    then show ?thesis
      using True l(2,3) spec cut(5-8) by (auto simp: joined_bytes_eq utf8ByteLength_eq_loop)
  next
    case False
    then obtain k where k: "k \<le> length (rev (tail_lines s))" "out = rev (take k (rev (tail_lines s))) @ []"
      "k < length (rev (tail_lines s)) \<longrightarrow> maxLines r \<le> int (length out) \<or>
           maxBytes r < int (joined_bytes (rev (tail_lines s) ! k # out)) \<and> out \<noteq> [] \<and> tb = ByBytes"
      using spec by blast
    have out: "out = drop (length (tail_lines s) - k) (tail_lines s)" using k(2) by (simp add: take_rev)
    have "k < length (tail_lines s) \<Longrightarrow> rev (tail_lines s) ! k # out = drop (length (tail_lines s) - Suc k) (tail_lines s)"
      using out by (simp add: rev_nth Cons_nth_drop_Suc [symmetric] Suc_diff_Suc)
    then show ?thesis
      using False k(1,3) out spec cut(5-8) by (auto simp: joined_bytes_eq)
  qed
qed (use assms(2) in simp)

theorem truncateTail_maximal_suffix_witness:
  "\<exists>r. r = truncateTail (str ''ab'' @ [10] @ str ''cde'' @ [10] @ str ''f'' @ [10])
         \<lparr>opt_maxLines = Some 2, opt_maxBytes = Some 6\<rparr> \<and>
     content r = str ''cde'' @ [10] @ str ''f'' \<and> outputBytes r = 5 \<and>
   (\<exists>r'. r' = truncateTail (str ''ab'' @ [233])
         \<lparr>opt_maxLines = Some 2, opt_maxBytes = Some 3\<rparr> \<and> content r' = str ''b'' @ [233])"
proof -
  let ?s = "str ''ab'' @ [10] @ str ''cde'' @ [10] @ str ''f'' @ [10]"
  let ?r = "truncateTail ?s \<lparr>opt_maxLines = Some 2, opt_maxBytes = Some 6\<rparr>"
  let ?q = "truncateTail (str ''ab'' @ [233]) \<lparr>opt_maxLines = Some 2, opt_maxBytes = Some 3\<rparr>"
  have t: "truncated ?r" "\<not> lastLinePartial ?r" "outputLines ?r = 2" "totalLines ?r = 3"
    by (simp_all add: truncate_eval)
  have t': "truncated ?q" "lastLinePartial ?q" "maxBytes ?q = 3" by (simp_all add: truncate_eval)
  have "js_join [10] (drop (3 - 2) (tail_lines ?s)) = str ''cde'' @ [10] @ str ''f''"
    "utf8ByteLength (str ''cde'' @ [10] @ str ''f'') = 5"
    "truncateStringToBytesFromEnd (last (tail_lines (str ''ab'' @ [233]))) 3 = str ''b'' @ [233]"
    by (simp_all add: truncate_eval)
  then show ?thesis
    using truncateTail_maximal_suffix [OF refl t(1)] t(2-4)
      truncateTail_maximal_suffix [OF refl t'(1)] t'(2,3) by auto
qed

text \<open>
  Cutting a well-formed UTF-16 string to a number of bytes from its end gives a
  well-formed suffix within that number: a surrogate pair is never split.
\<close>

theorem truncate_from_end_keeps_pairs:
  assumes "well_formed_utf16 s"
  shows "well_formed_utf16 (truncateStringToBytesFromEnd s mb)
    \<and> suffix (truncateStringToBytesFromEnd s mb) s
    \<and> utf8ByteLength (truncateStringToBytesFromEnd s mb) \<le> nat mb"
  using from_end_well_formed [OF assms] utf8_from_end [of s mb]
  by (simp add: utf8ByteLength_eq_loop)

theorem truncate_from_end_keeps_pairs_witness:
  "well_formed_utf16 [97, 0xd83d, 0xde00, 98] \<and>
   truncateStringToBytesFromEnd [97, 0xd83d, 0xde00, 98] 3 = [98] \<and>
   well_formed_utf16 (truncateStringToBytesFromEnd [97, 0xd83d, 0xde00, 98] 3)"
proof -
  have wf: "well_formed_utf16 [97, 0xd83d, 0xde00, 98]" by (simp add: truncate_eval)
  have "truncateStringToBytesFromEnd [97, 0xd83d, 0xde00, 98] 3 = [98]" by (simp add: truncate_eval)
  with wf truncate_from_end_keeps_pairs [OF wf, of 3] show ?thesis by simp
qed

text \<open>
  how \<open>truncateTail\<close> labels a cut line: with a line limit of one (and a byte limit that is
  not negative) the result says that the line limit was hit, although the cut was made by
  the byte limit; otherwise it says bytes.
\<close>

theorem truncateTail_partial_label:
  assumes "r = truncateTail s opts" "lastLinePartial r"
  shows "truncatedBy r =
           Some (if maxLines r \<le> 1 \<and> 0 \<le> maxBytes r then ByLines else ByBytes)"
proof (cases rule: truncateTail_cases [of s opts, folded assms(1), case_names fits cut])
  case fits
  then show ?thesis
    using assms by (auto simp: truncateTail_def Let_def split: prod.splits if_splits)
next
  case (cut out cnt tb)
  have "cnt = joined_bytes out \<and> int cnt \<le> max 0 (maxBytes r) \<and>
       (lastLinePartial r \<longrightarrow> tb = ByBytes \<and>
          (\<exists>line. out = [truncateStringToBytesFromEnd line (maxBytes r)]))"
    using tail_loop_spec [OF cut(3)] by auto
  then show ?thesis using cut(9) assms(2) by auto
qed

theorem truncateTail_partial_label_witness:
  "truncatedBy (truncateTail (str ''abcde'') \<lparr>opt_maxLines = Some 1, opt_maxBytes = Some 3\<rparr>)
     = Some ByLines"
proof -
  let ?r = "truncateTail (str ''abcde'') \<lparr>opt_maxLines = Some 1, opt_maxBytes = Some 3\<rparr>"
  have "lastLinePartial ?r" "maxLines ?r = 1" "maxBytes ?r = 3" by (simp_all add: truncate_eval)
  then show ?thesis using truncateTail_partial_label [OF refl, of "str ''abcde''"] by simp
qed

end
