(* ===== verification/Permission.thy ===== *)
theory Permission
  imports Json
begin

text \<open>
  \<open>packages/agent/src/harness/permission.ts\<close>: the classifier of dangerous shell commands.
  \<open>RegExp\<close> is modelled by a small matcher for the constructs the patterns of the source use
  (\<open>\b\<close>, classes, sequence, alternation, star), and the matcher is proved to decide the
  declarative meaning of a pattern.
\<close>

subsection \<open>Regular expressions\<close>

datatype char_class = CEq nat | CNot nat | CRange nat nat | CSpace

datatype regex =
    REmpty
  | RClass char_class
  | RSeq regex regex
  | RAlt regex regex
  | RStar regex
  | RWordB                                  \<comment> \<open>\<open>\b\<close>\<close>

fun in_class :: "char_class \<Rightarrow> nat \<Rightarrow> bool" where
  "in_class (CEq c) x = (x = c)"
| "in_class (CNot c) x = (x \<noteq> c)"
| "in_class (CRange a b) x = (a \<le> x \<and> x \<le> b)"
| "in_class CSpace x = js_space x"

definition word_char :: "nat \<Rightarrow> bool" where
  "word_char c \<longleftrightarrow> (48 \<le> c \<and> c \<le> 57) \<or> (65 \<le> c \<and> c \<le> 90) \<or> (97 \<le> c \<and> c \<le> 122) \<or> c = 95"

definition word_at :: "js_string \<Rightarrow> nat \<Rightarrow> bool" where
  "word_at s i \<longleftrightarrow> i < length s \<and> word_char (s ! i)"

definition word_boundary :: "js_string \<Rightarrow> nat \<Rightarrow> bool" where
  "word_boundary s i \<longleftrightarrow> (0 < i \<and> word_at s (i - 1)) \<noteq> word_at s i"

text \<open>Iterations of a matcher that make progress, at most \<open>n\<close> of them.\<close>

fun star_ends :: "(nat \<Rightarrow> nat list) \<Rightarrow> nat \<Rightarrow> nat \<Rightarrow> nat list" where
  "star_ends f 0 i = [i]"
| "star_ends f (Suc n) i = i # concat (map (star_ends f n) (filter (\<lambda>j. i < j) (f i)))"

text \<open>The positions where a match that starts at \<open>i\<close> can end.\<close>

fun ends :: "regex \<Rightarrow> js_string \<Rightarrow> nat \<Rightarrow> nat list" where
  "ends REmpty s i = [i]"
| "ends (RClass c) s i = (if i < length s \<and> in_class c (s ! i) then [Suc i] else [])"
| "ends (RSeq a b) s i = concat (map (ends b s) (ends a s i))"
| "ends (RAlt a b) s i = ends a s i @ ends b s i"
| "ends (RStar r) s i = star_ends (ends r s) (length s - i) i"
| "ends RWordB s i = (if word_boundary s i then [i] else [])"

definition regex_test :: "regex \<Rightarrow> js_string \<Rightarrow> bool" where
  "regex_test r s = list_ex (\<lambda>i. ends r s i \<noteq> []) [0..<Suc (length s)]"

fun rlit :: "js_string \<Rightarrow> regex" where
  "rlit [] = REmpty"
| "rlit (c # cs) = RSeq (RClass (CEq c)) (rlit cs)"

fun rseq :: "regex list \<Rightarrow> regex" where
  "rseq [] = REmpty"
| "rseq (r # rs) = RSeq r (rseq rs)"

fun ralt :: "regex \<Rightarrow> regex list \<Rightarrow> regex" where
  "ralt r [] = r"
| "ralt r (r' # rs) = RAlt r (ralt r' rs)"

definition rplus :: "regex \<Rightarrow> regex" where
  "rplus r = RSeq r (RStar r)"

definition rword :: "string \<Rightarrow> regex" where
  "rword w = rlit (str w)"

subsection \<open>The corpus\<close>

definition rspace :: regex where
  "rspace = RClass CSpace"

definition defaultDangerPatterns :: "(js_string \<times> regex) list" where
  "defaultDangerPatterns =
    [(str ''sudo invocation'', rseq [RWordB, rword ''sudo'', RWordB]),
     (str ''curl/wget piped into shell'',
        rseq [RWordB, ralt (rword ''curl'') [rword ''wget''], RWordB, RStar (RClass (CNot 124)),
              rword ''|'', RStar rspace,
              ralt (rword ''bash'') [rword ''sh'', rword ''zsh'', rword ''fish''], RWordB]),
     (str ''dd writing to a block device'',
        rseq [RWordB, rword ''dd'', RWordB, RStar (RClass (CNot 10)), RWordB, rword ''of=/dev/'',
              ralt (rword ''disk'') [RSeq (rword ''sd'') (RClass (CRange 97 122)), rword ''nvme'',
                    RSeq (rword ''hd'') (RClass (CRange 97 122))]]),
     (str ''mkfs / format command'',
        rseq [RWordB, rword ''mkfs'', RAlt (rword ''.'') rspace]),
     (str ''chmod 777 on absolute path'',
        rseq [RWordB, rword ''chmod'', RWordB, rplus rspace, rword ''777'', rplus rspace,
              rword ''/'']),
     (str ''shutdown / reboot / halt'',
        rseq [RWordB, ralt (rword ''shutdown'') [rword ''reboot'', rword ''halt'', rword ''poweroff''],
              RWordB]),
     (str ''git push --force on main/master'',
        rseq [RWordB, rword ''git'', rplus rspace, rword ''push'', rplus rspace,
              RAlt (rword ''--force'') (rword ''-f''), RWordB, RStar (RClass (CNot 10)), RWordB,
              RAlt (rword ''main'') (rword ''master''), RWordB]),
     (str ''piping into eval'', rseq [rword ''|'', RStar rspace, rword ''eval'', RWordB]),
     (str '':(){:|:&};: forkbomb'',
        rseq [rword '':()'', RStar rspace, rword ''{'', RStar rspace, rword '':|:&'', RStar rspace,
              rword ''}'', RStar rspace, rword '';'', RStar rspace, rword '':''])]"

subsection \<open>rm with recursive and force flags\<close>

text \<open>\<open>clause.split(/\s+/).filter(t => t.length > 0)\<close>\<close>

fun js_words_acc :: "js_string \<Rightarrow> js_string \<Rightarrow> js_string list" where
  "js_words_acc [] cur = (if cur = [] then [] else [cur])"
| "js_words_acc (c # cs) cur =
     (if js_space c then (if cur = [] then js_words_acc cs [] else cur # js_words_acc cs [])
      else js_words_acc cs (cur @ [c]))"

definition js_words :: "js_string \<Rightarrow> js_string list" where
  "js_words s = js_words_acc s []"

definition starts_with :: "js_string \<Rightarrow> js_string \<Rightarrow> bool" where
  "starts_with p s \<longleftrightarrow> take (length p) s = p"

definition stripOneLayerOfQuotes :: "js_string \<Rightarrow> js_string" where
  "stripOneLayerOfQuotes raw =
     (if length raw \<ge> 2 \<and>
         ((hd raw = 34 \<and> last raw = 34) \<or> (hd raw = 39 \<and> last raw = 39))
      then butlast (tl raw) else raw)"

definition rewriteBraceHome :: "js_string \<Rightarrow> js_string" where
  "rewriteBraceHome raw =
     (let bracedHome = str ''${HOME}''
      in if starts_with bracedHome raw then str ''$HOME'' @ drop (length bracedHome) raw else raw)"

definition normalizeOperand :: "js_string \<Rightarrow> js_string" where
  "normalizeOperand raw = rewriteBraceHome (stripOneLayerOfQuotes raw)"

text \<open>The loop of \<open>splitShellClauses\<close>; \<open>cur\<close> is \<open>cmd.slice(start, i)\<close>.\<close>

fun clause_loop :: "js_string \<Rightarrow> js_string \<Rightarrow> js_string list" where
  "clause_loop [] cur = [trim cur]"
| "clause_loop (c # cs) cur =
     (if c = 59 then trim cur # clause_loop cs []
      else if (c = 38 \<and> cs \<noteq> [] \<and> hd cs = 38) \<or> (c = 124 \<and> cs \<noteq> [] \<and> hd cs = 124)
        then trim cur # clause_loop (tl cs) []
      else if c = 124 then trim cur # clause_loop cs []
      else clause_loop cs (cur @ [c]))"

definition splitShellClauses :: "js_string \<Rightarrow> js_string list" where
  "splitShellClauses cmd = filter (\<lambda>s. s \<noteq> []) (clause_loop cmd [])"

record rm_flags =
  hasRecursive :: bool
  hasForce :: bool
  operands :: "js_string list"

definition rm_token :: "js_string \<Rightarrow> rm_flags \<Rightarrow> rm_flags" where
  "rm_token tok st =
     (if starts_with (str ''--'') tok then
        (let long = drop 2 tok
         in if long = str ''recursive'' then st\<lparr>hasRecursive := True\<rparr>
            else if long = str ''force'' then st\<lparr>hasForce := True\<rparr> else st)
      else if starts_with (str ''-'') tok then
        (let short = drop 1 tok
         in if short = [] then st\<lparr>operands := operands st @ [normalizeOperand tok]\<rparr>
            else st\<lparr>hasRecursive := hasRecursive st \<or> List.member short 114 \<or> List.member short 82,
                    hasForce := hasForce st \<or> List.member short 102\<rparr>)
      else st\<lparr>operands := operands st @ [normalizeOperand tok]\<rparr>)"

text \<open>\<open>first.slice(first.lastIndexOf("/") + 1)\<close>\<close>

definition program_name :: "js_string \<Rightarrow> js_string" where
  "program_name w = rev (takeWhile (\<lambda>c. c \<noteq> 47) (rev w))"

definition rm_clause_dangerous :: "(js_string \<Rightarrow> bool) \<Rightarrow> js_string \<Rightarrow> bool" where
  "rm_clause_dangerous targetMatches clause =
     (case js_words clause of
        [] \<Rightarrow> False
      | w # ws \<Rightarrow>
          program_name w = str ''rm'' \<and>
          (let st = fold rm_token ws \<lparr>hasRecursive = False, hasForce = False, operands = []\<rparr>
           in hasRecursive st \<and> hasForce st \<and> list_ex targetMatches (operands st)))"

definition rmDangerousWith :: "js_string \<Rightarrow> (js_string \<Rightarrow> bool) \<Rightarrow> bool" where
  "rmDangerousWith cmd targetMatches =
     list_ex (rm_clause_dangerous targetMatches) (splitShellClauses cmd)"

definition absolute_target :: "js_string \<Rightarrow> bool" where
  "absolute_target operand \<longleftrightarrow> operand = str ''/'' \<or> starts_with (str ''/'') operand"

definition home_target :: "js_string \<Rightarrow> bool" where
  "home_target operand \<longleftrightarrow>
     operand = str ''~'' \<or> starts_with (str ''~/'') operand \<or>
     operand = str ''$HOME'' \<or> starts_with (str ''$HOME/'') operand"

definition rmRecursiveForceOnAbsoluteTarget :: "js_string \<Rightarrow> bool" where
  "rmRecursiveForceOnAbsoluteTarget cmd = rmDangerousWith cmd absolute_target"

definition rmRecursiveForceOnHomeTarget :: "js_string \<Rightarrow> bool" where
  "rmRecursiveForceOnHomeTarget cmd = rmDangerousWith cmd home_target"

definition defaultPredicateRules :: "(js_string \<times> (js_string \<Rightarrow> bool)) list" where
  "defaultPredicateRules =
     [(str ''rm recursive+force on absolute path'', rmRecursiveForceOnAbsoluteTarget),
      (str ''rm recursive+force on $HOME or ~'', rmRecursiveForceOnHomeTarget)]"

subsection \<open>The policy\<close>

datatype permission_category = CatTool | CatControlPlaneWrite

datatype permission_decision = PAllow | PDeny js_string

record permission_policy =
  bashToolNames :: "js_string list"
  predicateRules :: "(js_string \<times> (js_string \<Rightarrow> bool)) list"
  dangerPatterns :: "(js_string \<times> regex) list"

definition new_PermissionPolicy ::
  "js_string list \<Rightarrow> (js_string \<times> regex) list \<Rightarrow> permission_policy" where
  "new_PermissionPolicy names patterns =
     \<lparr>bashToolNames = names, predicateRules = defaultPredicateRules, dangerPatterns = patterns\<rparr>"

definition defaultForCodingAgent :: permission_policy where
  "defaultForCodingAgent = new_PermissionPolicy [str ''bash''] defaultDangerPatterns"

definition non_blank :: "json option \<Rightarrow> js_string option" where
  "non_blank v = (case json_string v of
     Some s \<Rightarrow> if trim s \<noteq> [] then Some s else None | None \<Rightarrow> None)"

definition extractShellCommand :: "json \<Rightarrow> js_string option" where
  "extractShellCommand args =
     (case List.extract (\<lambda>key. non_blank (json_get args key) \<noteq> None)
             [str ''command'', str ''cmd'', str ''bash'', str ''script''] of
        Some (_, key, _) \<Rightarrow> non_blank (json_get args key)
      | None \<Rightarrow> non_blank (Some args))"

definition deny_reason :: "js_string \<Rightarrow> js_string" where
  "deny_reason label = str ''denied by permission policy: '' @ label"

definition evaluateWithCategory ::
  "permission_policy \<Rightarrow> permission_category \<Rightarrow> js_string \<Rightarrow> json \<Rightarrow> permission_decision" where
  "evaluateWithCategory p category toolName args =
     (if category = CatControlPlaneWrite then PAllow
      else if \<not> List.member (bashToolNames p) toolName then PAllow
      else (case extractShellCommand args of
              None \<Rightarrow> PAllow
            | Some cmd \<Rightarrow>
                (case find (\<lambda>rule. snd rule cmd) (predicateRules p) of
                   Some (label, _) \<Rightarrow> PDeny (deny_reason label)
                 | None \<Rightarrow>
                     (case find (\<lambda>rule. regex_test (snd rule) cmd) (dangerPatterns p) of
                        Some (label, _) \<Rightarrow> PDeny (deny_reason label)
                      | None \<Rightarrow> PAllow))))"

definition permission_evaluate ::
  "permission_policy \<Rightarrow> js_string \<Rightarrow> json \<Rightarrow> permission_decision" where
  "permission_evaluate p toolName args = evaluateWithCategory p CatTool toolName args"

text \<open>The hook: no member at all (allowed), or \<open>block: true\<close> with the reason.\<close>

definition asBeforeToolCall :: "permission_policy \<Rightarrow> js_string \<Rightarrow> json \<Rightarrow> (bool \<times> js_string) option" where
  "asBeforeToolCall p toolName args =
     (case permission_evaluate p toolName args of
        PAllow \<Rightarrow> None | PDeny reason \<Rightarrow> Some (True, reason))"

subsection \<open>The matcher decides the meaning of a pattern\<close>

inductive re_match :: "regex \<Rightarrow> js_string \<Rightarrow> nat \<Rightarrow> nat \<Rightarrow> bool" where
  empty: "re_match REmpty s i i"
| cls: "i < length s \<Longrightarrow> in_class c (s ! i) \<Longrightarrow> re_match (RClass c) s i (Suc i)"
| seq: "re_match a s i j \<Longrightarrow> re_match b s j k \<Longrightarrow> re_match (RSeq a b) s i k"
| alt1: "re_match a s i j \<Longrightarrow> re_match (RAlt a b) s i j"
| alt2: "re_match b s i j \<Longrightarrow> re_match (RAlt a b) s i j"
| star0: "re_match (RStar r) s i i"
| star: "re_match r s i j \<Longrightarrow> re_match (RStar r) s j k \<Longrightarrow> re_match (RStar r) s i k"
| wordb: "word_boundary s i \<Longrightarrow> re_match RWordB s i i"

inductive_simps re_match_simps [simp]:
  "re_match REmpty s i j" "re_match (RClass c) s i j" "re_match (RSeq a b) s i j"
  "re_match (RAlt a b) s i j" "re_match RWordB s i j"

lemma re_match_bounds: "re_match r s i j \<Longrightarrow> i \<le> j \<and> (i \<le> length s \<longrightarrow> j \<le> length s)"
  by (induction rule: re_match.induct) auto

lemma star_ends_sound:
  "(\<And>i j. j \<in> set (f i) \<Longrightarrow> re_match r s i j) \<Longrightarrow> j \<in> set (star_ends f n i) \<Longrightarrow>
     re_match (RStar r) s i j"
  by (induction n arbitrary: i) (auto intro: re_match.star0 re_match.star)

lemma star_ends_self [simp]: "i \<in> set (star_ends f n i)"
  by (cases n) auto

lemma star_ends_mono: "n \<le> m \<Longrightarrow> j \<in> set (star_ends f n i) \<Longrightarrow> j \<in> set (star_ends f m i)"
proof (induction n arbitrary: m i)
  case (Suc n)
  then show ?case by (cases m) auto
qed simp

lemma ends_sound: "j \<in> set (ends r s i) \<Longrightarrow> re_match r s i j"
proof (induction r arbitrary: i j)
  case (RStar r)
  then show ?case by (auto intro: star_ends_sound)
next
  case (RSeq a b)
  then show ?case by (simp, blast)
qed (auto split: if_splits)

lemma ends_complete: "re_match r s i j \<Longrightarrow> i \<le> length s \<Longrightarrow> j \<in> set (ends r s i)"
proof (induction rule: re_match.induct)
  case (star r s i j k)
  have le: "i \<le> j" "j \<le> length s" using re_match_bounds [OF star(1)] star.prems by auto
  then have j: "j \<in> set (ends r s i)" and k: "k \<in> set (star_ends (ends r s) (length s - j) j)"
    using star by auto
  show ?case
  proof (cases "i = j")
    case False
    then obtain n where n: "length s - i = Suc n" "length s - j \<le> n"
      using le by (cases "length s - i") auto
    then have "k \<in> set (star_ends (ends r s) n j)" using k star_ends_mono by blast
    then show ?thesis using j n(1) le False by auto
  qed (use k in simp)
next
  case (seq a s i j b k)
  then show ?case using re_match_bounds by fastforce
qed auto

lemma regex_test_iff: "regex_test r s \<longleftrightarrow> (\<exists>i j. i \<le> length s \<and> re_match r s i j)"
proof
  assume "regex_test r s"
  then obtain i where "i \<le> length s" "ends r s i \<noteq> []"
    by (auto simp: regex_test_def list_ex_iff less_Suc_eq_le simp del: upt_Suc)
  then show "\<exists>i j. i \<le> length s \<and> re_match r s i j"
    using ends_sound by (metis list.set_intros(1) neq_Nil_conv)
next
  assume "\<exists>i j. i \<le> length s \<and> re_match r s i j"
  then obtain i j where "i \<le> length s" "j \<in> set (ends r s i)" using ends_complete by blast
  then show "regex_test r s"
    by (auto simp: regex_test_def list_ex_iff less_Suc_eq_le simp del: upt_Suc
        intro!: bexI [of _ i])
qed

lemma re_match_rlit: "re_match (rlit w) s i j \<longleftrightarrow>
    (i \<le> length s \<longrightarrow> take (length w) (drop i s) = w \<and> j = i + length w) \<and>
    (length s < i \<longrightarrow> w = [] \<and> j = i)"
proof (induction w arbitrary: i)
  case (Cons c w)
  show ?case
  proof (cases "i < length s")
    case True
    then have "drop i s = s ! i # drop (Suc i) s" by (simp add: Cons_nth_drop_Suc)
    then show ?thesis using True Cons by auto
  qed auto
qed auto

subsection \<open>What a dangerous rm is\<close>

definition long_flag :: "js_string \<Rightarrow> bool" where
  "long_flag t \<longleftrightarrow> starts_with (str ''--'') t"

definition short_flags :: "js_string \<Rightarrow> bool" where
  "short_flags t \<longleftrightarrow> \<not> long_flag t \<and> starts_with (str ''-'') t \<and> 1 < length t"

definition recursive_flag :: "js_string \<Rightarrow> bool" where
  "recursive_flag t \<longleftrightarrow> t = str ''--recursive'' \<or> (short_flags t \<and> (114 \<in> set t \<or> 82 \<in> set t))"

definition force_flag :: "js_string \<Rightarrow> bool" where
  "force_flag t \<longleftrightarrow> t = str ''--force'' \<or> (short_flags t \<and> 102 \<in> set t)"

definition rm_operand :: "js_string \<Rightarrow> bool" where
  "rm_operand t \<longleftrightarrow> \<not> long_flag t \<and> \<not> short_flags t"

lemma starts_with_append: "starts_with p s \<longleftrightarrow> (\<exists>t. s = p @ t)"
  by (metis append_eq_conv_conj append_take_drop_id starts_with_def)

lemma drop_prefix_eq: "starts_with p t \<Longrightarrow> drop (length p) t = w \<longleftrightarrow> t = p @ w"
  by (auto simp: starts_with_append)

lemma str_append: "str a @ str b = str (a @ b)"
  by (simp add: str_def)

lemma rm_token_effect:
  "hasRecursive (rm_token t st) \<longleftrightarrow> hasRecursive st \<or> recursive_flag t"
  "hasForce (rm_token t st) \<longleftrightarrow> hasForce st \<or> force_flag t"
  "operands (rm_token t st) = operands st @ (if rm_operand t then [normalizeOperand t] else [])"
proof -
  have long: "starts_with (str ''--'') t \<Longrightarrow> drop 2 t = str w \<longleftrightarrow> t = str (''--'' @ w)" for w
    using drop_prefix_eq [of "str ''--''" t "str w"] by (simp add: str_append numeral_2_eq_2)
  have not_long: "\<not> starts_with (str ''--'') t \<Longrightarrow> t \<noteq> str (''--'' @ w)" for w
    by (metis starts_with_append str_append)
  have short: "starts_with (str ''-'') t \<Longrightarrow> \<exists>u. t = 45 # u"
    by (auto simp: starts_with_append str_def)
  show "hasRecursive (rm_token t st) \<longleftrightarrow> hasRecursive st \<or> recursive_flag t"
    "hasForce (rm_token t st) \<longleftrightarrow> hasForce st \<or> force_flag t"
    "operands (rm_token t st) = operands st @ (if rm_operand t then [normalizeOperand t] else [])"
    using long [of "''recursive''"] long [of "''force''"] not_long [of "''recursive''"]
      not_long [of "''force''"] short
    by (auto simp: rm_token_def recursive_flag_def force_flag_def rm_operand_def long_flag_def
        short_flags_def Let_def)
qed

lemma fold_rm_token:
  "hasRecursive (fold rm_token ts st) \<longleftrightarrow> hasRecursive st \<or> (\<exists>t \<in> set ts. recursive_flag t)"
  "hasForce (fold rm_token ts st) \<longleftrightarrow> hasForce st \<or> (\<exists>t \<in> set ts. force_flag t)"
  "operands (fold rm_token ts st) = operands st @ map normalizeOperand (filter rm_operand ts)"
  by (induction ts arbitrary: st) (auto simp: rm_token_effect)

definition dangerous_rm_words :: "(js_string \<Rightarrow> bool) \<Rightarrow> js_string list \<Rightarrow> bool" where
  "dangerous_rm_words T ws \<longleftrightarrow>
     (\<exists>t \<in> set ws. recursive_flag t) \<and> (\<exists>t \<in> set ws. force_flag t) \<and>
     (\<exists>t \<in> set ws. rm_operand t \<and> T (normalizeOperand t))"

lemma rm_clause_dangerous_iff:
  "rm_clause_dangerous T clause \<longleftrightarrow>
     (\<exists>w ws. js_words clause = w # ws \<and> program_name w = str ''rm'' \<and> dangerous_rm_words T ws)"
  by (cases "js_words clause")
    (auto simp: rm_clause_dangerous_def dangerous_rm_words_def Let_def fold_rm_token list_ex_iff)

lemma clause_loop_semicolon:
  "clause_loop (a @ 59 # b) cur = clause_loop a cur @ clause_loop b []"
proof (induction a cur rule: clause_loop.induct)
  case (2 c cs cur)
  then show ?case by (cases cs) auto
qed auto

lemma splitShellClauses_semicolon:
  "splitShellClauses (a @ 59 # b) = splitShellClauses a @ splitShellClauses b"
  by (simp add: splitShellClauses_def clause_loop_semicolon)

subsection \<open>Properties\<close>

text \<open>
  the matcher for the danger patterns decides the declarative meaning of a regular
  expression: it tests true exactly when some part of the command matches.
\<close>

theorem regex_matcher_correct:
  "regex_test r s = (\<exists>i j. i \<le> length s \<and> re_match r s i j)"
  by (rule regex_test_iff)

text \<open>
  C1: the token-aware rule flags a command exactly when one of its clauses runs a program
  named \<open>rm\<close> (under any path) and its words hold a recursive flag, a force flag and a
  matching operand, in whatever order and spelling, combined or apart.
\<close>

theorem rmDangerousWith_iff:
  "rmDangerousWith cmd T =
     (\<exists>clause \<in> set (splitShellClauses cmd). \<exists>w ws. js_words clause = w # ws \<and>
        program_name w = str ''rm'' \<and> dangerous_rm_words T ws)"
  by (simp add: rmDangerousWith_def list_ex_iff rm_clause_dangerous_iff)

text \<open>
  a semicolon separates clauses whatever stands around it: the verdict on a command is
  the disjunction of the verdicts on its two sides, so that no first command can hide a
  dangerous \<open>rm\<close> behind it.
\<close>

theorem rmDangerousWith_semicolon:
  "rmDangerousWith (a @ 59 # b) T = (rmDangerousWith a T \<or> rmDangerousWith b T)"
  by (simp add: rmDangerousWith_def splitShellClauses_semicolon)

lemma deny_iff:
  "permission_evaluate p tool args = PAllow \<longleftrightarrow>
     \<not> List.member (bashToolNames p) tool \<or>
     (case extractShellCommand args of None \<Rightarrow> True
      | Some cmd \<Rightarrow> (\<forall>r \<in> set (predicateRules p). \<not> snd r cmd) \<and>
                    (\<forall>r \<in> set (dangerPatterns p). \<not> regex_test (snd r) cmd))"
  by (auto simp: permission_evaluate_def evaluateWithCategory_def find_None_iff find_Some_iff
      split: option.splits) blast+

lemma extract_command:
  "trim cmd \<noteq> [] \<Longrightarrow> extractShellCommand (JObj [(str ''command'', JStr cmd)]) = Some cmd"
  by (simp add: extractShellCommand_def non_blank_def extract_Cons_code map_get_def)

text \<open>
  C14: the default policy lets a bash call with a command through exactly when no \<open>rm\<close> rule
  and no danger pattern applies; a call of another tool is always let through.
\<close>

theorem default_policy_allows_iff:
  assumes "trim cmd \<noteq> []"
  shows "permission_evaluate defaultForCodingAgent tool (JObj [(str ''command'', JStr cmd)]) = PAllow
    \<longleftrightarrow> tool \<noteq> str ''bash'' \<or>
        (\<not> rmRecursiveForceOnAbsoluteTarget cmd \<and> \<not> rmRecursiveForceOnHomeTarget cmd \<and>
         (\<forall>r \<in> set defaultDangerPatterns. \<nexists>i j. i \<le> length cmd \<and> re_match (snd r) cmd i j))"
  using assms
  by (auto simp: deny_iff extract_command defaultForCodingAgent_def new_PermissionPolicy_def
      defaultPredicateRules_def regex_test_iff)

lemma word_boundary_start:
  "(pre = [] \<or> \<not> word_char (last pre)) \<Longrightarrow> w \<noteq> [] \<Longrightarrow> word_char (hd w) \<Longrightarrow>
     word_boundary (pre @ w @ post) (length pre)"
  by (cases pre rule: rev_cases; cases w)
    (auto simp: word_boundary_def word_at_def nth_append)

lemma word_boundary_end:
  "w \<noteq> [] \<Longrightarrow> word_char (last w) \<Longrightarrow> (post = [] \<or> \<not> word_char (hd post)) \<Longrightarrow>
     word_boundary (pre @ w @ post) (length pre + length w)"
  by (cases w rule: rev_cases; cases post)
    (auto simp: word_boundary_def word_at_def nth_append)

lemma regex_word_test:
  assumes "w \<noteq> []" "word_char (hd (str w))" "word_char (last (str w))"
    and "pre = [] \<or> \<not> word_char (last pre)" "post = [] \<or> \<not> word_char (hd post)"
  shows "re_match (rseq [RWordB, rword w, RWordB]) (pre @ str w @ post) (length pre)
           (length pre + length w)"
  using assms word_boundary_start [of pre "str w" post] word_boundary_end [of "str w" post pre]
  by (simp add: re_match_rlit rword_def)

text \<open>
  The default policy denies every bash command that holds \<open>sudo\<close> as a word, whatever
  comes before and after it.
\<close>

theorem default_policy_denies_sudo:
  assumes "pre = [] \<or> \<not> word_char (last pre)" "post = [] \<or> \<not> word_char (hd post)"
  shows "\<exists>label. permission_evaluate defaultForCodingAgent (str ''bash'')
     (JObj [(str ''command'', JStr (pre @ str ''sudo'' @ post))]) = PDeny (deny_reason label)"
proof -
  let ?cmd = "pre @ str ''sudo'' @ post"
  have "re_match (rseq [RWordB, rword ''sudo'', RWordB]) ?cmd (length pre)
          (length pre + length ''sudo'')"
    using regex_word_test [of "''sudo''" pre post] assms
    by (simp add: str_def word_char_def del: rseq.simps)
  then have "regex_test (rseq [RWordB, rword ''sudo'', RWordB]) ?cmd"
    unfolding regex_test_iff by (intro exI conjI) auto
  then have ex: "\<exists>r \<in> set defaultDangerPatterns. regex_test (snd r) ?cmd"
    by (simp add: defaultDangerPatterns_def del: rseq.simps)
  have ne: "trim ?cmd \<noteq> []"
    by (simp add: trim_eq_Nil_iff str_def js_space_def)
  have "permission_evaluate defaultForCodingAgent (str ''bash'')
     (JObj [(str ''command'', JStr ?cmd)]) \<noteq> PAllow"
    using default_policy_allows_iff [OF ne, of "str ''bash''"] ex unfolding regex_test_iff by blast
  then show ?thesis
    unfolding permission_evaluate_def evaluateWithCategory_def extract_command [OF ne]
    by (auto split: if_splits option.splits)
qed

lemmas permission_eval =
  permission_evaluate_def evaluateWithCategory_def defaultForCodingAgent_def
  new_PermissionPolicy_def defaultPredicateRules_def defaultDangerPatterns_def
  extractShellCommand_def non_blank_def extract_Cons_code map_get_def trim_def trim_start_def
  trim_end_def js_space_def rmRecursiveForceOnAbsoluteTarget_def
  rmRecursiveForceOnHomeTarget_def rmDangerousWith_def splitShellClauses_def
  rm_clause_dangerous_def js_words_def absolute_target_def home_target_def program_name_def
  rm_token_def starts_with_def normalizeOperand_def stripOneLayerOfQuotes_def
  rewriteBraceHome_def Let_def regex_test_def rword_def rspace_def rplus_def word_boundary_def
  word_at_def word_char_def str_def deny_reason_def

theorem default_policy_allows_iff_witness:
  "permission_evaluate defaultForCodingAgent (str ''bash'')
     (JObj [(str ''command'', JStr (str ''rm -fr ~/x''))]) \<noteq> PAllow"
proof -
  have "trim (str ''rm -fr ~/x'') \<noteq> []" by (simp add: trim_eq_Nil_iff str_def js_space_def)
  moreover have "rmRecursiveForceOnHomeTarget (str ''rm -fr ~/x'')"
    by (simp add: permission_eval)
  ultimately show ?thesis by (simp add: default_policy_allows_iff)
qed

theorem default_policy_denies_sudo_witness:
  "\<exists>label. permission_evaluate defaultForCodingAgent (str ''bash'')
     (JObj [(str ''command'', JStr ([40] @ str ''sudo'' @ str '' ls)''))]) = PDeny (deny_reason label)"
  using default_policy_denies_sudo [of "[40]" "str '' ls)''"] by (simp add: str_def word_char_def)

text \<open>
  a line break is not a clause separator: the dangerous \<open>rm\<close> on the second line of a
  command passes the default policy, although the shell runs it.
\<close>

theorem rm_on_second_line_allowed:
  "permission_evaluate defaultForCodingAgent (str ''bash'')
     (JObj [(str ''command'', JStr (str ''ls'' @ [10] @ str ''rm -rf /''))]) = PAllow"
  by (simp add: permission_eval)

end
