(* ===== verification/Messages.thy ===== *)
theory Messages
  imports Json
begin

text \<open>
  \<open>packages/agent/src/harness/messages.ts\<close>, the message types of
  \<open>packages/ai/src/types.ts\<close> it builds on, and
  \<open>packages/agent/src/harness/compaction/utils.ts\<close>: the messages of a transcript, their
  conversion to the messages of a model provider, the file operations found in them and their
  serialisation for the summarizer.
\<close>

subsection \<open>Content and messages\<close>

datatype user_block = UText js_string | UImage js_string js_string  \<comment> \<open>\<open>data\<close>, \<open>mimeType\<close>\<close>

datatype user_content = Plain js_string | Blocks "user_block list"

record tool_call =
  tc_id :: js_string
  tc_name :: js_string
  tc_arguments :: json

datatype assistant_block = AText js_string | AThinking js_string | AToolCall tool_call

record usage =
  u_input :: nat
  u_output :: nat
  u_cacheRead :: nat
  u_cacheWrite :: nat
  u_totalTokens :: nat

datatype stop_reason = StopEnd | StopLength | StopToolUse | StopError | StopAborted

record assistant_message =
  a_content :: "assistant_block list"
  a_api :: js_string
  a_provider :: js_string
  a_model :: js_string
  a_usage :: "usage option"
  a_stopReason :: stop_reason
  a_errorMessage :: "js_string option"
  a_timestamp :: ms

record tool_result_message =
  tr_toolCallId :: js_string
  tr_toolName :: js_string
  tr_content :: "user_block list"
  tr_details :: "json option"
  tr_isError :: bool
  tr_timestamp :: ms

record bash_execution_message =
  b_command :: js_string
  b_output :: js_string
  b_exitCode :: "int option"
  b_cancelled :: bool
  b_truncated :: bool
  b_fullOutputPath :: "js_string option"
  b_timestamp :: ms
  b_excludeFromContext :: bool

record custom_message =
  c_customType :: js_string
  c_content :: user_content
  c_display :: bool
  c_details :: "json option"
  c_timestamp :: ms

datatype llm_message =
    LUser user_content ms
  | LAssistant assistant_message
  | LToolResult tool_result_message

datatype agent_message =
    LlmMessage llm_message
  | BashExecution bash_execution_message
  | CustomMsg custom_message
  | BranchSummary js_string js_string ms        \<comment> \<open>\<open>summary\<close>, \<open>fromId\<close>\<close>
  | CompactionSummary js_string nat ms          \<comment> \<open>\<open>summary\<close>, \<open>tokensBefore\<close>\<close>

abbreviation UserMsg :: "user_content \<Rightarrow> ms \<Rightarrow> agent_message" where
  "UserMsg c t \<equiv> LlmMessage (LUser c t)"

abbreviation AssistantMsg :: "assistant_message \<Rightarrow> agent_message" where
  "AssistantMsg m \<equiv> LlmMessage (LAssistant m)"

abbreviation ToolResultMsg :: "tool_result_message \<Rightarrow> agent_message" where
  "ToolResultMsg m \<equiv> LlmMessage (LToolResult m)"

subsection \<open>messages.ts\<close>

definition nl :: js_string where
  "nl = [10]"

definition COMPACTION_SUMMARY_PREFIX :: js_string where
  "COMPACTION_SUMMARY_PREFIX =
     str ''The conversation history before this point was compacted into the following summary:''
     @ nl @ nl @ str ''<summary>'' @ nl"

definition COMPACTION_SUMMARY_SUFFIX :: js_string where
  "COMPACTION_SUMMARY_SUFFIX = nl @ str ''</summary>''"

definition BRANCH_SUMMARY_PREFIX :: js_string where
  "BRANCH_SUMMARY_PREFIX =
     str ''The following is a summary of a branch that this conversation came back from:''
     @ nl @ nl @ str ''<summary>'' @ nl"

definition BRANCH_SUMMARY_SUFFIX :: js_string where
  "BRANCH_SUMMARY_SUFFIX = str ''</summary>''"

definition backticks :: js_string where
  "backticks = [96, 96, 96]"

definition bashExecutionToText :: "bash_execution_message \<Rightarrow> js_string" where
  "bashExecutionToText msg =
     (let text0 = str ''Ran '' @ [96] @ b_command msg @ [96] @ nl;
          text1 = text0 @
            (if b_output msg \<noteq> [] then backticks @ nl @ b_output msg @ nl @ backticks
             else str ''(no output)'');
          text2 = text1 @
            (if b_cancelled msg then nl @ nl @ str ''(command cancelled)''
             else (case b_exitCode msg of
                     Some c \<Rightarrow> if c \<noteq> 0 then nl @ nl @ str ''Command exited with code '' @ show_int c else []
                   | None \<Rightarrow> []))
      in text2 @
           (case b_fullOutputPath msg of
              Some p \<Rightarrow> if b_truncated msg \<and> p \<noteq> []
                then nl @ nl @ str ''[Output truncated. Full output: '' @ p @ str '']'' else []
            | None \<Rightarrow> []))"

text \<open>\<open>new Date(timestamp).getTime()\<close> is the argument \<open>date_parse\<close>.\<close>

definition createBranchSummaryMessage ::
  "(js_string \<Rightarrow> ms) \<Rightarrow> js_string \<Rightarrow> js_string \<Rightarrow> js_string \<Rightarrow> agent_message" where
  "createBranchSummaryMessage date_parse summary fromId timestamp =
     BranchSummary summary fromId (date_parse timestamp)"

definition createCompactionSummaryMessage ::
  "(js_string \<Rightarrow> ms) \<Rightarrow> js_string \<Rightarrow> nat \<Rightarrow> js_string \<Rightarrow> agent_message" where
  "createCompactionSummaryMessage date_parse summary tokensBefore timestamp =
     CompactionSummary summary tokensBefore (date_parse timestamp)"

definition createCustomMessage ::
  "(js_string \<Rightarrow> ms) \<Rightarrow> js_string \<Rightarrow> user_content \<Rightarrow> bool \<Rightarrow> json option \<Rightarrow> js_string \<Rightarrow> agent_message"
where
  "createCustomMessage date_parse customType content display details timestamp =
     CustomMsg \<lparr>c_customType = customType, c_content = content, c_display = display,
       c_details = details, c_timestamp = date_parse timestamp\<rparr>"

fun convert_message :: "agent_message \<Rightarrow> llm_message option" where
  "convert_message (BashExecution m) =
     (if b_excludeFromContext m then None
      else Some (LUser (Blocks [UText (bashExecutionToText m)]) (b_timestamp m)))"
| "convert_message (CustomMsg m) =
     Some (LUser (case c_content m of Plain s \<Rightarrow> Blocks [UText s] | Blocks bs \<Rightarrow> Blocks bs)
             (c_timestamp m))"
| "convert_message (BranchSummary summary fromId t) =
     Some (LUser (Blocks [UText (BRANCH_SUMMARY_PREFIX @ summary @ BRANCH_SUMMARY_SUFFIX)]) t)"
| "convert_message (CompactionSummary summary tokens t) =
     Some (LUser (Blocks [UText (COMPACTION_SUMMARY_PREFIX @ summary @ COMPACTION_SUMMARY_SUFFIX)]) t)"
| "convert_message (LlmMessage m) = Some m"

definition convertToLlm :: "agent_message list \<Rightarrow> llm_message list" where
  "convertToLlm ms = List.map_filter convert_message ms"

subsection \<open>File operations of a compaction range\<close>

text \<open>A JavaScript \<open>Set\<close> of strings, in insertion order.\<close>

definition set_add :: "'a \<Rightarrow> 'a list \<Rightarrow> 'a list" where
  "set_add x xs = (if List.member xs x then xs else xs @ [x])"

record file_operations =
  fo_read :: "js_string list"
  fo_written :: "js_string list"
  fo_edited :: "js_string list"

definition createFileOps :: file_operations where
  "createFileOps = \<lparr>fo_read = [], fo_written = [], fo_edited = []\<rparr>"

definition add_tool_call_file :: "tool_call \<Rightarrow> file_operations \<Rightarrow> file_operations" where
  "add_tool_call_file tc ops =
     (case json_string (json_get (tc_arguments tc) (str ''path'')) of
        None \<Rightarrow> ops
      | Some path \<Rightarrow>
          (if path = [] then ops
           else if tc_name tc = str ''read'' then ops\<lparr>fo_read := set_add path (fo_read ops)\<rparr>
           else if tc_name tc = str ''write'' then ops\<lparr>fo_written := set_add path (fo_written ops)\<rparr>
           else if tc_name tc = str ''edit'' then ops\<lparr>fo_edited := set_add path (fo_edited ops)\<rparr>
           else ops))"

fun add_block_file :: "assistant_block \<Rightarrow> file_operations \<Rightarrow> file_operations" where
  "add_block_file (AToolCall tc) ops = add_tool_call_file tc ops"
| "add_block_file _ ops = ops"

fun extractFileOpsFromMessage :: "agent_message \<Rightarrow> file_operations \<Rightarrow> file_operations" where
  "extractFileOpsFromMessage (LlmMessage (LAssistant m)) ops = fold add_block_file (a_content m) ops"
| "extractFileOpsFromMessage _ ops = ops"

definition computeFileLists :: "file_operations \<Rightarrow> js_string list \<times> js_string list" where
  "computeFileLists ops =
     (let modified = fold set_add (fo_edited ops @ fo_written ops) []
      in (sort (filter (\<lambda>f. \<not> List.member modified f) (fo_read ops)), sort modified))"

definition formatFileOperations :: "js_string list \<Rightarrow> js_string list \<Rightarrow> js_string" where
  "formatFileOperations readFiles modifiedFiles =
     (let sections =
        (if readFiles \<noteq> [] then
           [str ''<read-files>'' @ nl @ js_join nl readFiles @ nl @ str ''</read-files>''] else []) @
        (if modifiedFiles \<noteq> [] then
           [str ''<modified-files>'' @ nl @ js_join nl modifiedFiles @ nl @ str ''</modified-files>'']
         else [])
      in if sections = [] then [] else nl @ nl @ js_join (nl @ nl) sections)"

subsection \<open>serializeConversation\<close>

definition safeJsonStringify :: "json \<Rightarrow> js_string" where
  "safeJsonStringify v = json_stringify v"

fun serialize_user_block :: "user_block \<Rightarrow> js_string" where
  "serialize_user_block (UText t) = t"
| "serialize_user_block (UImage d m) = str ''<image>''"

fun serialize_result_block :: "user_block \<Rightarrow> js_string" where
  "serialize_result_block (UText t) = t"
| "serialize_result_block (UImage d m) = []"

fun serialize_assistant_block :: "assistant_block \<Rightarrow> js_string" where
  "serialize_assistant_block (AText t) = t"
| "serialize_assistant_block (AThinking t) = str ''<thinking>'' @ t @ str ''</thinking>''"
| "serialize_assistant_block (AToolCall tc) =
     str ''<tool_call name=\"'' @ tc_name tc @ str ''\">'' @ safeJsonStringify (tc_arguments tc)
       @ str ''</tool_call>''"

fun serialize_message :: "llm_message \<Rightarrow> js_string" where
  "serialize_message (LUser c t) =
     str ''USER:'' @ nl @ (case c of Plain s \<Rightarrow> s | Blocks bs \<Rightarrow> concat (map serialize_user_block bs))
       @ nl @ nl"
| "serialize_message (LAssistant m) =
     str ''ASSISTANT:'' @ nl @ concat (map serialize_assistant_block (a_content m)) @ nl @ nl"
| "serialize_message (LToolResult m) =
     str ''TOOL_RESULT['' @ tr_toolName m @ str '']:'' @ nl
       @ concat (map serialize_result_block (tr_content m)) @ nl @ nl"

definition serializeConversation :: "llm_message list \<Rightarrow> js_string" where
  "serializeConversation ms = concat (map serialize_message ms)"

subsection \<open>Lemmas\<close>

lemma set_set_add [simp]: "set (set_add x xs) = insert x (set xs)"
  by (auto simp: set_add_def)

lemma distinct_set_add [simp]: "distinct xs \<Longrightarrow> distinct (set_add x xs)"
  by (auto simp: set_add_def)

lemma set_fold_set_add: "set (fold set_add xs ys) = set xs \<union> set ys"
  by (induction xs arbitrary: ys) auto

lemma distinct_fold_set_add: "distinct ys \<Longrightarrow> distinct (fold set_add xs ys)"
  by (induction xs arbitrary: ys) auto

lemma convertToLlm_append [simp]: "convertToLlm (xs @ ys) = convertToLlm xs @ convertToLlm ys"
  by (simp add: convertToLlm_def map_filter_def)

lemma serializeConversation_append [simp]:
  "serializeConversation (xs @ ys) = serializeConversation xs @ serializeConversation ys"
  by (simp add: serializeConversation_def)

lemma computeFileLists_sets:
  assumes "computeFileLists ops = (r, m)"
  shows "set m = set (fo_edited ops) \<union> set (fo_written ops)"
    and "set r = set (fo_read ops) - set m"
    and "distinct m" and "sorted m" and "sorted r"
  using assms by (auto simp: computeFileLists_def Let_def set_fold_set_add distinct_fold_set_add)

text \<open>
  the file lists of a compaction are sorted and without repetition: the modified files are
  the edited and written ones, and the read-only files are the read ones that no edit or
  write touched.
\<close>

theorem computeFileLists_partition:
  assumes "distinct (fo_read ops)"
  shows "case computeFileLists ops of (readFiles, modifiedFiles) \<Rightarrow>
    set modifiedFiles = set (fo_edited ops) \<union> set (fo_written ops) \<and>
    set readFiles = set (fo_read ops) - set modifiedFiles \<and>
    sorted readFiles \<and> sorted modifiedFiles \<and> distinct (readFiles @ modifiedFiles)"
proof -
  obtain r m where rm: "computeFileLists ops = (r, m)" by fastforce
  have "distinct r" using rm assms by (auto simp: computeFileLists_def Let_def)
  then show ?thesis using computeFileLists_sets [OF rm] rm by auto
qed

theorem computeFileLists_partition_witness:
  "computeFileLists \<lparr>fo_read = [str ''b'', str ''a''], fo_written = [str ''c''], fo_edited = [str ''b'']\<rparr>
     = ([str ''a''], [str ''b'', str ''c'']) \<and>
   distinct ([str ''a''] @ [str ''b'', str ''c''])"
proof -
  let ?ops = "\<lparr>fo_read = [str ''b'', str ''a''], fo_written = [str ''c''], fo_edited = [str ''b'']\<rparr>"
  have "computeFileLists ?ops = ([str ''a''], [str ''b'', str ''c''])"
    by (simp add: computeFileLists_def set_add_def str_def)
  then show ?thesis using computeFileLists_partition [of ?ops] by simp
qed

end
