(* ===== verification/SessionTypes.thy ===== *)
theory SessionTypes
  imports Messages
begin

text \<open>
  The session tree of \<open>packages/agent/src/harness/types.ts\<close> and the interface under which
  \<open>Session\<close> (\<open>session/session.ts\<close>) uses a storage, as a locale: the laws an append and a
  move of the leaf obey, from which the behaviour of branches follows.
\<close>

datatype session_error_code = NotFound | InvalidSession | InvalidEntry | StorageError

text \<open>
  A \<open>SessionError\<close> with its code and message, or the \<open>TypeError\<close> of the language that an entry
  with a \<open>label\<close> which is not a string causes.
\<close>

datatype session_error = SessionError session_error_code js_string | JsTypeError

type_synonym 'a session_result = "session_error + 'a"

datatype entry_body =
    EMessage agent_message
  | EThinkingLevelChange js_string
  | EModelChange js_string js_string                     \<comment> \<open>\<open>provider\<close>, \<open>modelId\<close>\<close>
  | ECompaction js_string js_string nat "json option" bool
      \<comment> \<open>\<open>summary\<close>, \<open>firstKeptEntryId\<close>, \<open>tokensBefore\<close>, \<open>details\<close>, \<open>fromHook\<close>\<close>
  | EBranchSummary js_string js_string "json option" bool \<comment> \<open>\<open>fromId\<close>, \<open>summary\<close>, \<open>details\<close>, \<open>fromHook\<close>\<close>
  | ECustom js_string "json option"
  | ECustomMessage js_string user_content bool "json option"
  | ELabel js_string "js_string option"                  \<comment> \<open>\<open>targetId\<close>, \<open>label\<close>\<close>
  | ESessionInfo "js_string option"
  | ELeaf "js_string option"                             \<comment> \<open>\<open>targetId\<close>\<close>

record session_entry =
  e_id :: js_string
  e_parentId :: "js_string option"
  e_timestamp :: js_string
  e_body :: entry_body

record session_context =
  ctx_messages :: "agent_message list"
  ctx_thinkingLevel :: js_string
  ctx_model :: "(js_string \<times> js_string) option"

subsection \<open>Walking to the root\<close>

text \<open>
  The loop of \<open>getPathToRoot\<close>, which both storages have: an error for a missing or a repeated
  id.  \<open>parent\<close> reads the parent of an entry.
\<close>

function path_loop ::
  "('e \<Rightarrow> js_string option) \<Rightarrow> (js_string, 'e) js_map \<Rightarrow> js_string set \<Rightarrow> 'e list \<Rightarrow>
     js_string option \<Rightarrow> 'e list session_result" where
  "path_loop parent byId seen path None = Inr path"
| "path_loop parent byId seen path (Some i) =
     (if i \<in> seen then Inl (SessionError InvalidSession (str ''cycle in parent chain at '' @ i))
      else (case map_get byId i of
              None \<Rightarrow> Inl (SessionError InvalidSession (str ''parent '' @ i @ str '' not found''))
            | Some e \<Rightarrow> path_loop parent byId (insert i seen) (e # path) (parent e)))"
  by pat_completeness auto
termination
proof (relation "measure (\<lambda>(parent, byId, seen, path, i). card (set (map fst byId) - seen))")
  fix parent :: "'e \<Rightarrow> js_string option" and byId :: "(js_string, 'e) js_map"
    and seen :: "js_string set" and path :: "'e list" and i e
  assume "i \<notin> seen" "map_get byId i = Some e"
  then have "i \<in> set (map fst byId) - seen"
    by (auto simp: map_get_def dest: map_of_SomeD intro: rev_image_eqI)
  then have "card (set (map fst byId) - insert i seen) < card (set (map fst byId) - seen)"
    by (intro psubset_card_mono) auto
  then show "((parent, byId, insert i seen, e # path, parent e),
      (parent, byId, seen, path, Some i)) \<in> measure (\<lambda>(parent, byId, seen, path, i).
         card (set (map fst byId) - seen))"
    by simp
qed simp

definition path_to_root ::
  "('e \<Rightarrow> js_string option) \<Rightarrow> (js_string, 'e) js_map \<Rightarrow> js_string option \<Rightarrow> 'e list session_result"
where
  "path_to_root parent byId leafId = path_loop parent byId {} [] leafId"

text \<open>What a path is: it starts at an entry without parent and ends at the leaf.\<close>

fun parent_chain ::
  "('e \<Rightarrow> js_string option) \<Rightarrow> (js_string, 'e) js_map \<Rightarrow> 'e list \<Rightarrow> js_string option \<Rightarrow> bool" where
  "parent_chain parent byId [] leaf = (leaf = None)"
| "parent_chain parent byId (e # rp) leaf =
     (\<exists>i. leaf = Some i \<and> map_get byId i = Some e \<and> parent_chain parent byId rp (parent e))"

lemma path_loop_sound:
  "path_loop parent byId seen path leaf = Inr p \<Longrightarrow>
     \<exists>rp. p = rev rp @ path \<and> parent_chain parent byId rp leaf"
proof (induction parent byId seen path leaf rule: path_loop.induct)
  case (2 parent byId seen path i)
  then obtain e where e: "i \<notin> seen" "map_get byId i = Some e"
    "path_loop parent byId (insert i seen) (e # path) (parent e) = Inr p"
    by (auto split: if_splits option.splits)
  then obtain rp where "p = rev rp @ e # path" "parent_chain parent byId rp (parent e)"
    using 2 by blast
  then show ?case using e(2) by (intro exI [of _ "e # rp"]) auto
qed auto

text \<open>
  The ids along a chain. A chain without repetition is found by the loop; so the loop fails only
  where an id is missing or the chain loops.
\<close>

fun chain_ids :: "('e \<Rightarrow> js_string option) \<Rightarrow> 'e list \<Rightarrow> js_string option \<Rightarrow> js_string list" where
  "chain_ids parent [] leaf = []"
| "chain_ids parent (e # rp) leaf =
     (case leaf of None \<Rightarrow> [] | Some i \<Rightarrow> i # chain_ids parent rp (parent e))"

lemma path_loop_complete:
  "parent_chain parent byId rp leaf \<Longrightarrow> distinct (chain_ids parent rp leaf) \<Longrightarrow>
     set (chain_ids parent rp leaf) \<inter> seen = {} \<Longrightarrow>
     path_loop parent byId seen path leaf = Inr (rev rp @ path)"
proof (induction rp arbitrary: leaf seen path)
  case (Cons e rp)
  then obtain i where i: "leaf = Some i" "map_get byId i = Some e"
    "parent_chain parent byId rp (parent e)"
    by auto
  have "path_loop parent byId (insert i seen) (e # path) (parent e) = Inr (rev rp @ (e # path))"
    by (rule Cons.IH) (use Cons.prems i in auto)
  then show ?case using Cons.prems i by auto
qed simp

lemma path_loop_distinct:
  "path_loop parent byId seen path leaf = Inr p \<Longrightarrow>
     \<exists>rp. p = rev rp @ path \<and> parent_chain parent byId rp leaf \<and>
       distinct (chain_ids parent rp leaf) \<and> set (chain_ids parent rp leaf) \<inter> seen = {}"
proof (induction parent byId seen path leaf rule: path_loop.induct)
  case (2 parent byId seen path i)
  then obtain e where e: "i \<notin> seen" "map_get byId i = Some e"
    "path_loop parent byId (insert i seen) (e # path) (parent e) = Inr p"
    by (auto split: if_splits option.splits)
  then obtain rp where "p = rev rp @ e # path" "parent_chain parent byId rp (parent e)"
    "distinct (chain_ids parent rp (parent e))"
    "set (chain_ids parent rp (parent e)) \<inter> insert i seen = {}"
    using 2 by blast
  then show ?case using e(1,2) by (intro exI [of _ "e # rp"]) auto
qed auto

text \<open>Writing an entry under a fresh id leaves every chain as it is.\<close>

lemma parent_chain_fresh:
  "parent_chain parent byId rp leaf \<Longrightarrow> map_get byId k = None \<Longrightarrow>
     parent_chain parent (map_set byId k e) rp leaf"
proof (induction rp arbitrary: leaf)
  case (Cons x rp)
  then obtain i where "leaf = Some i" "map_get byId i = Some x" "parent_chain parent byId rp (parent x)"
    by auto
  moreover from this have "i \<noteq> k" using Cons.prems(2) by auto
  ultimately show ?case using Cons.IH Cons.prems(2) by simp
qed simp

lemma chain_ids_in_map:
  "parent_chain parent byId rp leaf \<Longrightarrow> i \<in> set (chain_ids parent rp leaf) \<Longrightarrow>
     map_get byId i \<noteq> None"
  by (induction rp arbitrary: leaf) auto

lemma path_to_root_append:
  assumes "path_to_root parent byId leaf = Inr p" "map_get byId k = None" "parent e = leaf"
  shows "path_to_root parent (map_set byId k e) (Some k) = Inr (p @ [e])"
proof -
  obtain rp where rp: "p = rev rp" "parent_chain parent byId rp leaf" "distinct (chain_ids parent rp leaf)"
    using path_loop_distinct [OF assms(1) [unfolded path_to_root_def]] by auto
  have "parent_chain parent (map_set byId k e) (e # rp) (Some k)"
    using parent_chain_fresh [OF rp(2) assms(2)] assms(3) by simp
  moreover have "distinct (chain_ids parent (e # rp) (Some k))"
    using rp(2,3) assms(2,3) chain_ids_in_map [of parent byId rp leaf k] by auto
  ultimately show ?thesis
    using path_loop_complete [of parent "map_set byId k e" "e # rp" "Some k" "{}" "[]"] rp(1)
    by (simp add: path_to_root_def)
qed

lemma path_to_root_other:
  assumes "path_to_root parent byId leaf = Inr p" "map_get byId k = None"
  shows "path_to_root parent (map_set byId k e) leaf = Inr p"
proof -
  obtain rp where rp: "p = rev rp" "parent_chain parent byId rp leaf" "distinct (chain_ids parent rp leaf)"
    using path_loop_distinct [OF assms(1) [unfolded path_to_root_def]] by auto
  then show ?thesis
    using path_loop_complete [of parent "map_set byId k e" rp leaf "{}" "[]"]
      parent_chain_fresh [OF rp(2) assms(2)] by (simp add: path_to_root_def)
qed

subsection \<open>The interface of a session storage\<close>

text \<open>
  What \<open>Session\<close> relies on: \<open>append\<close> stores the entry and makes it the leaf, \<open>set_leaf\<close> moves
  the leaf, \<open>path\<close> is the branch from the root to an entry; both keep the invariant and the
  branches that exist.  A storage operation can fail (the file system), so \<open>append\<close> and
  \<open>set_leaf\<close> return results; \<open>fresh\<close> says that an id is not used.
\<close>

locale session_storage =
  fixes inv :: "'s \<Rightarrow> bool"
    and eid :: "'e \<Rightarrow> js_string"
    and parent :: "'e \<Rightarrow> js_string option"
    and plain :: "'e \<Rightarrow> bool"                  \<comment> \<open>not a \<open>leaf\<close> marker\<close>
    and leaf :: "'s \<Rightarrow> js_string option"
    and get :: "'s \<Rightarrow> js_string \<Rightarrow> 'e option"
    and path :: "'s \<Rightarrow> js_string option \<Rightarrow> 'e list session_result"
    and append :: "'s \<Rightarrow> 'e \<Rightarrow> 's session_result"
  assumes append_inv: "inv s \<Longrightarrow> get s (eid e) = None \<Longrightarrow> append s e = Inr s' \<Longrightarrow> inv s'"
    and append_leaf: "plain e \<Longrightarrow> append s e = Inr s' \<Longrightarrow> leaf s' = Some (eid e)"
    and append_get: "append s e = Inr s' \<Longrightarrow> get s' i = (if i = eid e then Some e else get s i)"
    and append_path: "inv s \<Longrightarrow> get s (eid e) = None \<Longrightarrow> append s e = Inr s' \<Longrightarrow>
       path s (parent e) = Inr p \<Longrightarrow> path s' (Some (eid e)) = Inr (p @ [e])"
    and append_path_other: "inv s \<Longrightarrow> get s (eid e) = None \<Longrightarrow> append s e = Inr s' \<Longrightarrow>
       path s l = Inr p \<Longrightarrow> path s' l = Inr p"
    and path_None: "path s None = Inr []"
begin

text \<open>Appending an entry whose parent is the leaf extends the current branch by it.\<close>

lemma append_extends_branch:
  assumes "inv s" "plain e" "get s (eid e) = None" "parent e = leaf s" "append s e = Inr s'"
    and "path s (leaf s) = Inr p"
  shows "path s' (leaf s') = Inr (p @ [e])"
  using append_path [OF assms(1,3,5)] append_leaf [OF assms(2,5)] assms(4,6) by simp

text \<open>
  An id is known when it is absent or stored; a storage is rooted when every known id has a
  branch.  Appending under a known parent keeps that.
\<close>

definition known :: "'s \<Rightarrow> js_string option \<Rightarrow> bool" where
  "known s l \<longleftrightarrow> (case l of None \<Rightarrow> True | Some i \<Rightarrow> get s i \<noteq> None)"

definition rooted :: "'s \<Rightarrow> bool" where
  "rooted s \<longleftrightarrow> (\<forall>l. known s l \<longrightarrow> (\<exists>p. path s l = Inr p))"

lemma rootedD: "rooted s \<Longrightarrow> known s l \<Longrightarrow> \<exists>p. path s l = Inr p"
  by (simp add: rooted_def)

lemma known_None [simp]: "known s None"
  by (simp add: known_def)

lemma append_known:
  "append s e = Inr s' \<Longrightarrow> known s' l \<longleftrightarrow> known s l \<or> l = Some (eid e)"
  by (cases l) (auto simp: known_def append_get)

lemma append_rooted:
  assumes "inv s" "rooted s" "get s (eid e) = None" "known s (parent e)" "append s e = Inr s'"
  shows "rooted s'"
  unfolding rooted_def
proof (intro allI impI)
  fix l assume "known s' l"
  then consider "known s l" | "l = Some (eid e)"
    using append_known [OF assms(5)] by auto
  then show "\<exists>p. path s' l = Inr p"
  proof cases
    case 1
    then show ?thesis using rootedD [OF assms(2)] append_path_other [OF assms(1,3,5)] by blast
  next
    case 2
    then show ?thesis using rootedD [OF assms(2,4)] append_path [OF assms(1,3,5)] by blast
  qed
qed

text \<open>A run of appends, each entry a child of the leaf it finds.\<close>

fun append_all :: "'s \<Rightarrow> ('s \<Rightarrow> 'e) list \<Rightarrow> 's session_result" where
  "append_all s [] = Inr s"
| "append_all s (f # fs) =
     (case append s (f s) of Inl err \<Rightarrow> Inl err | Inr s' \<Rightarrow> append_all s' fs)"

text \<open>
  Branches are append-only: whatever is appended later, the branch of an earlier leaf stays as
  it was, and the current branch is extended by the new entries.
\<close>

lemma append_all_extends_branch:
  assumes "inv s" "path s (leaf s) = Inr p" "append_all s fs = Inr s'"
    and ok: "\<And>f t. f \<in> set fs \<Longrightarrow> plain (f t) \<and> parent (f t) = leaf t \<and> get t (eid (f t)) = None"
  shows "\<exists>es. length es = length fs \<and> path s' (leaf s') = Inr (p @ es) \<and> inv s'"
  using assms
proof (induction fs arbitrary: s p)
  case Nil
  then show ?case by auto
next
  case (Cons f fs)
  then obtain s1 where s1: "append s (f s) = Inr s1" "append_all s1 fs = Inr s'"
    by (auto split: sum.splits)
  have f: "plain (f s)" "parent (f s) = leaf s" "get s (eid (f s)) = None"
    using Cons.prems(4) by auto
  have "path s1 (leaf s1) = Inr (p @ [f s])"
    using append_extends_branch [OF Cons.prems(1) f(1,3,2) s1(1) Cons.prems(2)] .
  then obtain es where "length es = length fs" "path s' (leaf s') = Inr ((p @ [f s]) @ es)" "inv s'"
    using Cons.IH [OF append_inv [OF Cons.prems(1) f(3) s1(1)] _ s1(2)] Cons.prems(4)
    by auto
  then show ?case by (intro exI [of _ "f s # es"]) auto
qed

end

end
