(* ===== verification/Session.thy ===== *)
theory Session
  imports SessionTypes
begin

text \<open>
  \<open>packages/agent/src/harness/session/memory-storage.ts\<close> and \<open>session.ts\<close>: the in-memory
  session storage, the operations of \<open>Session\<close> on it, and the context rebuilt from a branch.
  The results of successive calls of \<open>uuidv7\<close> are the argument \<open>uuid\<close>, the clock is the
  argument \<open>now\<close> (an ISO date), \<open>new Date(..).getTime()\<close> is \<open>date_parse\<close>.
\<close>

subsection \<open>InMemorySessionStorage\<close>

record session_metadata =
  md_id :: js_string
  md_createdAt :: js_string

record memory_storage =
  ms_metadata :: session_metadata
  ms_entries :: "session_entry list"
  ms_byId :: "(js_string, session_entry) js_map"
  ms_labelsById :: "(js_string, js_string) js_map"
  ms_leafId :: "js_string option"

definition updateLabelCache ::
  "(js_string, js_string) js_map \<Rightarrow> session_entry \<Rightarrow> (js_string, js_string) js_map" where
  "updateLabelCache labelsById e =
     (case e_body e of
        ELabel targetId label \<Rightarrow>
          (case map_option trim label of
             Some l \<Rightarrow> if l \<noteq> [] then map_set labelsById targetId l else map_delete labelsById targetId
           | None \<Rightarrow> map_delete labelsById targetId)
      | _ \<Rightarrow> labelsById)"

definition buildLabelsById :: "session_entry list \<Rightarrow> (js_string, js_string) js_map" where
  "buildLabelsById es = fold (\<lambda>e m. updateLabelCache m e) es []"

text \<open>The loop of \<open>generateEntryId\<close>: \<open>i\<close> calls of \<open>uuidv7\<close> have been made.\<close>

fun generate_loop :: "(js_string, 'e) js_map \<Rightarrow> (nat \<Rightarrow> js_string) \<Rightarrow> nat \<Rightarrow> nat \<Rightarrow> js_string" where
  "generate_loop byId uuid i 0 = uuid i"
| "generate_loop byId uuid i (Suc n) =
     (let k = take 8 (uuid i)
      in if map_get byId k = None then k else generate_loop byId uuid (Suc i) n)"

definition generateEntryId :: "(js_string, 'e) js_map \<Rightarrow> (nat \<Rightarrow> js_string) \<Rightarrow> js_string" where
  "generateEntryId byId uuid = generate_loop byId uuid 0 100"

definition leafIdAfterEntry :: "session_entry \<Rightarrow> js_string option" where
  "leafIdAfterEntry e = (case e_body e of ELeaf targetId \<Rightarrow> targetId | _ \<Rightarrow> Some (e_id e))"

definition entries_byId :: "session_entry list \<Rightarrow> (js_string, session_entry) js_map" where
  "entries_byId es = map_of_entries (map (\<lambda>e. (e_id e, e)) es)"

definition new_InMemorySessionStorage ::
  "session_entry list \<Rightarrow> session_metadata \<Rightarrow> memory_storage session_result" where
  "new_InMemorySessionStorage es md =
     (let byId = entries_byId es;
          leafId = fold (\<lambda>e _. leafIdAfterEntry e) es None
      in case leafId of
           Some i \<Rightarrow>
             (if map_get byId i = None
              then Inl (SessionError InvalidSession (str ''Entry '' @ i @ str '' not found''))
              else Inr \<lparr>ms_metadata = md, ms_entries = es, ms_byId = byId,
                        ms_labelsById = buildLabelsById es, ms_leafId = leafId\<rparr>)
         | None \<Rightarrow> Inr \<lparr>ms_metadata = md, ms_entries = es, ms_byId = byId,
                        ms_labelsById = buildLabelsById es, ms_leafId = None\<rparr>)"

definition getMetadata :: "memory_storage \<Rightarrow> session_metadata" where
  "getMetadata s = ms_metadata s"

definition getLeafId :: "memory_storage \<Rightarrow> js_string option" where
  "getLeafId s = ms_leafId s"

definition setLeafId :: "memory_storage \<Rightarrow> js_string option \<Rightarrow> memory_storage" where
  "setLeafId s l = s\<lparr>ms_leafId := l\<rparr>"

definition createEntryId :: "memory_storage \<Rightarrow> (nat \<Rightarrow> js_string) \<Rightarrow> js_string" where
  "createEntryId s uuid = generateEntryId (ms_byId s) uuid"

definition appendEntry :: "memory_storage \<Rightarrow> session_entry \<Rightarrow> memory_storage" where
  "appendEntry s e =
     s\<lparr>ms_entries := ms_entries s @ [e],
       ms_byId := map_set (ms_byId s) (e_id e) e,
       ms_labelsById := updateLabelCache (ms_labelsById s) e,
       ms_leafId := Some (e_id e)\<rparr>"

definition getEntry :: "memory_storage \<Rightarrow> js_string \<Rightarrow> session_entry option" where
  "getEntry s i = map_get (ms_byId s) i"

definition findEntries :: "memory_storage \<Rightarrow> (entry_body \<Rightarrow> bool) \<Rightarrow> session_entry list" where
  "findEntries s of_type = filter (\<lambda>e. of_type (e_body e)) (ms_entries s)"

definition getLabel :: "memory_storage \<Rightarrow> js_string \<Rightarrow> js_string option" where
  "getLabel s i = map_get (ms_labelsById s) i"

definition getPathToRoot :: "memory_storage \<Rightarrow> js_string option \<Rightarrow> session_entry list session_result" where
  "getPathToRoot s leafId = path_to_root e_parentId (ms_byId s) leafId"

definition getEntries :: "memory_storage \<Rightarrow> session_entry list" where
  "getEntries s = ms_entries s"

subsection \<open>buildSessionContext\<close>

text \<open>The first loop: thinking level, model and the last compaction entry.\<close>

definition context_step ::
  "session_entry \<Rightarrow> js_string \<times> (js_string \<times> js_string) option \<times> session_entry option \<Rightarrow>
     js_string \<times> (js_string \<times> js_string) option \<times> session_entry option" where
  "context_step e st =
     (case st of (thinkingLevel, model, compaction) \<Rightarrow>
        (case e_body e of
           EThinkingLevelChange l \<Rightarrow> (l, model, compaction)
         | EModelChange p m \<Rightarrow> (thinkingLevel, Some (p, m), compaction)
         | EMessage (LlmMessage (LAssistant a)) \<Rightarrow>
             (thinkingLevel, Some (a_provider a, a_model a), compaction)
         | ECompaction _ _ _ _ _ \<Rightarrow> (thinkingLevel, model, Some e)
         | _ \<Rightarrow> st))"

text \<open>\<open>appendMessage\<close>: the message an entry contributes.\<close>

definition context_message :: "(js_string \<Rightarrow> ms) \<Rightarrow> session_entry \<Rightarrow> agent_message list" where
  "context_message date_parse e =
     (case e_body e of
        EMessage m \<Rightarrow> [m]
      | ECustomMessage customType content display details \<Rightarrow>
          [createCustomMessage date_parse customType content display details (e_timestamp e)]
      | EBranchSummary fromId summary details fromHook \<Rightarrow>
          if summary \<noteq> [] then [createBranchSummaryMessage date_parse summary fromId (e_timestamp e)]
          else []
      | _ \<Rightarrow> [])"

fun is_compaction :: "entry_body \<Rightarrow> bool" where
  "is_compaction (ECompaction _ _ _ _ _) = True"
| "is_compaction _ = False"

text \<open>The entries before the compaction from the first kept one on.\<close>

definition kept_entries :: "js_string \<Rightarrow> session_entry list \<Rightarrow> session_entry list" where
  "kept_entries firstKept es = dropWhile (\<lambda>e. e_id e \<noteq> firstKept) es"

definition buildSessionContext :: "(js_string \<Rightarrow> ms) \<Rightarrow> session_entry list \<Rightarrow> session_context" where
  "buildSessionContext date_parse es =
     (let (thinkingLevel, model, compaction) = fold context_step es (str ''off'', None, None);
          messages =
            (case compaction of
               None \<Rightarrow> concat (map (context_message date_parse) es)
             | Some c \<Rightarrow>
                 (case e_body c of
                    ECompaction summary firstKept tokensBefore details fromHook \<Rightarrow>
                      (let idx = length (takeWhile
                             (\<lambda>e. \<not> (is_compaction (e_body e) \<and> e_id e = e_id c)) es)
                       in [createCompactionSummaryMessage date_parse summary tokensBefore (e_timestamp c)]
                          @ concat (map (context_message date_parse) (kept_entries firstKept (take idx es)))
                          @ concat (map (context_message date_parse) (drop (Suc idx) es)))
                  | _ \<Rightarrow> []))
      in \<lparr>ctx_messages = messages, ctx_thinkingLevel = thinkingLevel, ctx_model = model\<rparr>)"

subsection \<open>Session\<close>

definition getBranch :: "memory_storage \<Rightarrow> js_string option \<Rightarrow> session_entry list session_result" where
  "getBranch s fromId =
     getPathToRoot s (case fromId of Some i \<Rightarrow> Some i | None \<Rightarrow> getLeafId s)"

definition buildContext :: "(js_string \<Rightarrow> ms) \<Rightarrow> memory_storage \<Rightarrow> session_context session_result" where
  "buildContext date_parse s =
     (case getBranch s None of Inl err \<Rightarrow> Inl err | Inr es \<Rightarrow> Inr (buildSessionContext date_parse es))"

fun session_info_name :: "entry_body \<Rightarrow> js_string option" where
  "session_info_name (ESessionInfo name) = name"
| "session_info_name _ = None"

fun is_session_info :: "entry_body \<Rightarrow> bool" where
  "is_session_info (ESessionInfo _) = True"
| "is_session_info _ = False"

fun first_non_blank :: "js_string option list \<Rightarrow> js_string option" where
  "first_non_blank [] = None"
| "first_non_blank (n # ns) =
     (case map_option trim n of
        Some t \<Rightarrow> if t \<noteq> [] then Some t else first_non_blank ns
      | None \<Rightarrow> first_non_blank ns)"

definition getSessionName :: "memory_storage \<Rightarrow> js_string option" where
  "getSessionName s =
     first_non_blank (rev (map (\<lambda>e. session_info_name (e_body e)) (findEntries s is_session_info)))"

definition appendTypedEntry ::
  "memory_storage \<Rightarrow> (nat \<Rightarrow> js_string) \<Rightarrow> js_string \<Rightarrow> js_string option \<Rightarrow> entry_body \<Rightarrow>
     memory_storage \<times> js_string" where
  "appendTypedEntry s uuid now parentId body =
     (let e = \<lparr>e_id = createEntryId s uuid, e_parentId = parentId, e_timestamp = now, e_body = body\<rparr>
      in (appendEntry s e, e_id e))"

definition appendMessage ::
  "memory_storage \<Rightarrow> (nat \<Rightarrow> js_string) \<Rightarrow> js_string \<Rightarrow> agent_message \<Rightarrow> memory_storage \<times> js_string" where
  "appendMessage s uuid now m = appendTypedEntry s uuid now (getLeafId s) (EMessage m)"

definition appendThinkingLevelChange ::
  "memory_storage \<Rightarrow> (nat \<Rightarrow> js_string) \<Rightarrow> js_string \<Rightarrow> js_string \<Rightarrow> memory_storage \<times> js_string" where
  "appendThinkingLevelChange s uuid now l =
     appendTypedEntry s uuid now (getLeafId s) (EThinkingLevelChange l)"

definition appendModelChange ::
  "memory_storage \<Rightarrow> (nat \<Rightarrow> js_string) \<Rightarrow> js_string \<Rightarrow> js_string \<Rightarrow> js_string \<Rightarrow>
     memory_storage \<times> js_string" where
  "appendModelChange s uuid now p m = appendTypedEntry s uuid now (getLeafId s) (EModelChange p m)"

definition appendCompaction ::
  "memory_storage \<Rightarrow> (nat \<Rightarrow> js_string) \<Rightarrow> js_string \<Rightarrow> js_string \<Rightarrow> js_string \<Rightarrow> nat \<Rightarrow>
     json option \<Rightarrow> bool \<Rightarrow> memory_storage \<times> js_string" where
  "appendCompaction s uuid now summary firstKept tokensBefore details fromHook =
     appendTypedEntry s uuid now (getLeafId s)
       (ECompaction summary firstKept tokensBefore details fromHook)"

definition appendCustomEntry ::
  "memory_storage \<Rightarrow> (nat \<Rightarrow> js_string) \<Rightarrow> js_string \<Rightarrow> js_string \<Rightarrow> json option \<Rightarrow>
     memory_storage \<times> js_string" where
  "appendCustomEntry s uuid now customType data =
     appendTypedEntry s uuid now (getLeafId s) (ECustom customType data)"

definition appendCustomMessageEntry ::
  "memory_storage \<Rightarrow> (nat \<Rightarrow> js_string) \<Rightarrow> js_string \<Rightarrow> js_string \<Rightarrow> user_content \<Rightarrow> bool \<Rightarrow>
     json option \<Rightarrow> memory_storage \<times> js_string" where
  "appendCustomMessageEntry s uuid now customType content display details =
     appendTypedEntry s uuid now (getLeafId s) (ECustomMessage customType content display details)"

definition appendLabel ::
  "memory_storage \<Rightarrow> (nat \<Rightarrow> js_string) \<Rightarrow> js_string \<Rightarrow> js_string \<Rightarrow> js_string option \<Rightarrow>
     (memory_storage \<times> js_string) session_result" where
  "appendLabel s uuid now targetId label =
     (if getEntry s targetId = None
      then Inl (SessionError NotFound (str ''Entry '' @ targetId @ str '' not found''))
      else Inr (appendTypedEntry s uuid now (getLeafId s) (ELabel targetId label)))"

definition appendSessionName ::
  "memory_storage \<Rightarrow> (nat \<Rightarrow> js_string) \<Rightarrow> js_string \<Rightarrow> js_string \<Rightarrow> memory_storage \<times> js_string" where
  "appendSessionName s uuid now name =
     appendTypedEntry s uuid now (getLeafId s) (ESessionInfo (Some (trim name)))"

text \<open>\<open>moveTo\<close>; the summary is \<open>(summary, details, fromHook)\<close>.\<close>

definition moveTo ::
  "memory_storage \<Rightarrow> (nat \<Rightarrow> js_string) \<Rightarrow> js_string \<Rightarrow> js_string option \<Rightarrow>
     (js_string \<times> json option \<times> bool) option \<Rightarrow> (memory_storage \<times> js_string option) session_result" where
  "moveTo s uuid now entryId summary =
     (case entryId of
        Some i \<Rightarrow>
          if getEntry s i = None
          then Inl (SessionError NotFound (str ''Entry '' @ i @ str '' not found''))
          else (let s1 = setLeafId s entryId
                in case summary of
                     None \<Rightarrow> Inr (s1, None)
                   | Some (text, details, fromHook) \<Rightarrow>
                       (let (s2, k) = appendTypedEntry s1 uuid now entryId
                                        (EBranchSummary i text details fromHook)
                        in Inr (s2, Some k)))
      | None \<Rightarrow>
          (let s1 = setLeafId s None
           in case summary of
                None \<Rightarrow> Inr (s1, None)
              | Some (text, details, fromHook) \<Rightarrow>
                  (let (s2, k) = appendTypedEntry s1 uuid now None
                                   (EBranchSummary (str ''root'') text details fromHook)
                   in Inr (s2, Some k))))"

subsection \<open>Forking (repo-utils.ts)\<close>

datatype fork_position = ForkBefore | ForkAt

fun is_user_message :: "entry_body \<Rightarrow> bool" where
  "is_user_message (EMessage (LlmMessage (LUser _ _))) = True"
| "is_user_message _ = False"

definition getEntriesToFork ::
  "memory_storage \<Rightarrow> js_string option \<Rightarrow> fork_position option \<Rightarrow> session_entry list session_result" where
  "getEntriesToFork s entryId position =
     (case entryId of
        None \<Rightarrow> Inr (getEntries s)
      | Some i \<Rightarrow>
          if i = [] then Inr (getEntries s)
          else (case getEntry s i of
             None \<Rightarrow> Inl (SessionError NotFound (str ''Entry '' @ i @ str '' not found''))
           | Some target \<Rightarrow>
               if (case position of None \<Rightarrow> ForkBefore | Some p \<Rightarrow> p) = ForkAt
               then getPathToRoot s (Some (e_id target))
               else if \<not> is_user_message (e_body target)
               then Inl (SessionError NotFound (str ''Entry '' @ i @ str '' is not a user message''))
               else getPathToRoot s (e_parentId target)))"

subsection \<open>The in-memory storage implements the interface\<close>

text \<open>The index and the label cache are functions of the entries.\<close>

definition storage_inv :: "memory_storage \<Rightarrow> bool" where
  "storage_inv s \<longleftrightarrow> ms_byId s = entries_byId (ms_entries s) \<and>
     ms_labelsById s = buildLabelsById (ms_entries s)"

lemma entries_byId_append: "entries_byId (es @ [e]) = map_set (entries_byId es) (e_id e) e"
  by (simp add: entries_byId_def map_of_entries_def)

lemma buildLabelsById_append: "buildLabelsById (es @ [e]) = updateLabelCache (buildLabelsById es) e"
  by (simp add: buildLabelsById_def)

lemma storage_inv_append [simp]: "storage_inv s \<Longrightarrow> storage_inv (appendEntry s e)"
  by (simp add: storage_inv_def appendEntry_def entries_byId_append buildLabelsById_append)

lemma storage_inv_setLeafId [simp]: "storage_inv (setLeafId s l) = storage_inv s"
  by (simp add: storage_inv_def setLeafId_def)

lemma getEntry_append [simp]:
  "getEntry (appendEntry s e) i = (if i = e_id e then Some e else getEntry s i)"
  by (simp add: getEntry_def appendEntry_def)

lemma getEntry_setLeafId [simp]: "getEntry (setLeafId s l) i = getEntry s i"
  by (simp add: getEntry_def setLeafId_def)

lemma getPathToRoot_setLeafId [simp]: "getPathToRoot (setLeafId s l) k = getPathToRoot s k"
  by (simp add: getPathToRoot_def setLeafId_def)

lemma getLeafId_append [simp]: "getLeafId (appendEntry s e) = Some (e_id e)"
  by (simp add: getLeafId_def appendEntry_def)

lemma getLeafId_setLeafId [simp]: "getLeafId (setLeafId s l) = l"
  by (simp add: getLeafId_def setLeafId_def)

interpretation mem: session_storage storage_inv e_id e_parentId "\<lambda>e. True" getLeafId getEntry
  getPathToRoot "\<lambda>s e. Inr (appendEntry s e)"
proof unfold_locales
  fix s e s' p l i
  show "Inr (appendEntry s e) = Inr s' \<Longrightarrow> getEntry s' i = (if i = e_id e then Some e else getEntry s i)"
    by auto
  show "Inr (appendEntry s e) = Inr s' \<Longrightarrow> getLeafId s' = Some (e_id e)"
    by auto
  show "storage_inv s \<Longrightarrow> Inr (appendEntry s e) = Inr s' \<Longrightarrow> storage_inv s'"
    by auto
  assume fresh: "getEntry s (e_id e) = None" and app: "Inr (appendEntry s e) = Inr s'"
  show "getPathToRoot s (e_parentId e) = Inr p \<Longrightarrow> getPathToRoot s' (Some (e_id e)) = Inr (p @ [e])"
    using fresh app path_to_root_append [of e_parentId "ms_byId s" "e_parentId e" p "e_id e" e]
    by (auto simp: getPathToRoot_def getEntry_def appendEntry_def)
  show "getPathToRoot s l = Inr p \<Longrightarrow> getPathToRoot s' l = Inr p"
    using fresh app path_to_root_other [of e_parentId "ms_byId s" l p "e_id e" e]
    by (auto simp: getPathToRoot_def getEntry_def appendEntry_def)
qed (simp add: getPathToRoot_def path_to_root_def)

end
