(* ===== verification/SessionRun.thy ===== *)
theory SessionRun
  imports Session
begin

text \<open>
  Sequences of \<open>Session\<close> operations on the in-memory storage: every branch of a session can
  always be read, branches are append-only, and what the context, the labels and the session
  name are after the operations.
\<close>

datatype session_op =
    OpMessage agent_message
  | OpThinkingLevelChange js_string
  | OpModelChange js_string js_string
  | OpCompaction js_string js_string nat "json option" bool
  | OpCustomEntry js_string "json option"
  | OpCustomMessageEntry js_string user_content bool "json option"
  | OpLabel js_string "js_string option"
  | OpSessionName js_string
  | OpMoveTo "js_string option" "(js_string \<times> json option \<times> bool) option"

text \<open>An operation that throws leaves the storage as it found it.\<close>

definition session_step ::
  "memory_storage \<Rightarrow> (nat \<Rightarrow> js_string) \<Rightarrow> js_string \<Rightarrow> session_op \<Rightarrow> memory_storage" where
  "session_step s uuid now op =
     (case op of
        OpMessage m \<Rightarrow> fst (appendMessage s uuid now m)
      | OpThinkingLevelChange l \<Rightarrow> fst (appendThinkingLevelChange s uuid now l)
      | OpModelChange p m \<Rightarrow> fst (appendModelChange s uuid now p m)
      | OpCompaction summary k t details h \<Rightarrow> fst (appendCompaction s uuid now summary k t details h)
      | OpCustomEntry t d \<Rightarrow> fst (appendCustomEntry s uuid now t d)
      | OpCustomMessageEntry t c v d \<Rightarrow> fst (appendCustomMessageEntry s uuid now t c v d)
      | OpLabel i l \<Rightarrow> (case appendLabel s uuid now i l of Inl _ \<Rightarrow> s | Inr r \<Rightarrow> fst r)
      | OpSessionName n \<Rightarrow> fst (appendSessionName s uuid now n)
      | OpMoveTo l summary \<Rightarrow> (case moveTo s uuid now l summary of Inl _ \<Rightarrow> s | Inr r \<Rightarrow> fst r))"

fun session_run ::
  "memory_storage \<Rightarrow> ((nat \<Rightarrow> js_string) \<times> js_string \<times> session_op) list \<Rightarrow> memory_storage" where
  "session_run s [] = s"
| "session_run s ((uuid, now, op) # evs) = session_run (session_step s uuid now op) evs"

text \<open>The id made for every operation is one the session does not use.\<close>

fun fresh_run ::
  "memory_storage \<Rightarrow> ((nat \<Rightarrow> js_string) \<times> js_string \<times> session_op) list \<Rightarrow> bool" where
  "fresh_run s [] = True"
| "fresh_run s ((uuid, now, op) # evs) =
     (getEntry s (createEntryId s uuid) = None \<and> fresh_run (session_step s uuid now op) evs)"

subsection \<open>Fresh ids\<close>

lemma generate_loop_fresh:
  "(\<exists>j. i \<le> j \<and> j < i + n \<and> map_get byId (take 8 (uuid j)) = None) \<or> map_get byId (uuid (i + n)) = None
     \<Longrightarrow> map_get byId (generate_loop byId uuid i n) = None"
proof (induction n arbitrary: i)
  case (Suc n)
  show ?case
  proof (cases "map_get byId (take 8 (uuid i)) = None")
    case False
    then have "map_get byId (generate_loop byId uuid (Suc i) n) = None"
      using Suc.prems by (intro Suc.IH) (metis Suc_leI add_Suc_right add_Suc le_neq_implies_less)
    then show ?thesis using False by (auto simp: Let_def)
  qed (simp add: Let_def)
qed auto

lemma generateEntryId_fresh:
  "(\<exists>j < 100. map_get byId (take 8 (uuid j)) = None) \<or> map_get byId (uuid 100) = None \<Longrightarrow>
     map_get byId (generateEntryId byId uuid) = None"
  using generate_loop_fresh [of 0 100 byId uuid] by (auto simp: generateEntryId_def)

subsection \<open>The invariant of a session\<close>

fun is_leaf :: "entry_body \<Rightarrow> bool" where
  "is_leaf (ELeaf _) = True"
| "is_leaf _ = False"

definition session_ok :: "memory_storage \<Rightarrow> bool" where
  "session_ok s \<longleftrightarrow> storage_inv s \<and> mem.rooted s \<and> mem.known s (getLeafId s) \<and>
     (\<forall>e \<in> set (ms_entries s). \<not> is_leaf (e_body e))"

lemma appendEntry_entries [simp]: "ms_entries (appendEntry s e) = ms_entries s @ [e]"
  by (simp add: appendEntry_def)

lemma setLeafId_entries [simp]: "ms_entries (setLeafId s l) = ms_entries s"
  by (simp add: setLeafId_def)

lemma typed_entry_ok:
  assumes "session_ok s" "mem.known s parentId" "getEntry s (createEntryId s uuid) = None"
    "\<not> is_leaf body"
  shows "session_ok (fst (appendTypedEntry s uuid now parentId body))"
proof -
  let ?e = "\<lparr>e_id = createEntryId s uuid, e_parentId = parentId, e_timestamp = now, e_body = body\<rparr>"
  have "mem.rooted (appendEntry s ?e)"
    by (rule mem.append_rooted [of s ?e]) (use assms in \<open>auto simp: session_ok_def\<close>)
  then show ?thesis using assms(1,4)
    by (simp add: session_ok_def appendTypedEntry_def Let_def mem.known_def)
qed

lemma session_ok_leaf: "session_ok s \<Longrightarrow> mem.known s (getLeafId s)"
  by (simp add: session_ok_def)

lemma typed_entry_path:
  assumes "session_ok s" "getEntry s (createEntryId s uuid) = None" "getPathToRoot s l = Inr p"
  shows "getPathToRoot (fst (appendTypedEntry s uuid now parentId body)) l = Inr p"
proof -
  let ?e = "\<lparr>e_id = createEntryId s uuid, e_parentId = parentId, e_timestamp = now, e_body = body\<rparr>"
  show ?thesis
    using mem.append_path_other [of s ?e "appendEntry s ?e" l p] assms
    by (simp add: session_ok_def appendTypedEntry_def Let_def)
qed

lemma typed_entry_branch:
  assumes "session_ok s" "getEntry s (createEntryId s uuid) = None" "getPathToRoot s parentId = Inr p"
  shows "getBranch (fst (appendTypedEntry s uuid now parentId body)) None =
    Inr (p @ [\<lparr>e_id = createEntryId s uuid, e_parentId = parentId, e_timestamp = now, e_body = body\<rparr>])"
proof -
  let ?e = "\<lparr>e_id = createEntryId s uuid, e_parentId = parentId, e_timestamp = now, e_body = body\<rparr>"
  show ?thesis
    using mem.append_path [of s ?e "appendEntry s ?e" p] assms
    by (simp add: session_ok_def appendTypedEntry_def Let_def getBranch_def)
qed

lemma setLeafId_ok: "session_ok s \<Longrightarrow> mem.known s l \<Longrightarrow> session_ok (setLeafId s l)"
  by (auto simp: session_ok_def mem.rooted_def mem.known_def split: option.splits)

lemma known_setLeafId [simp]: "mem.known (setLeafId s l) k = mem.known s k"
  by (cases k) (auto simp: mem.known_def)

lemma createEntryId_setLeafId [simp]: "createEntryId (setLeafId s l) uuid = createEntryId s uuid"
  by (simp add: createEntryId_def setLeafId_def)

lemma moveTo_eq:
  "moveTo s uuid now l summary =
     (if mem.known s l
      then (case summary of
              None \<Rightarrow> Inr (setLeafId s l, None)
            | Some (text, details, fromHook) \<Rightarrow>
                (let r = appendTypedEntry (setLeafId s l) uuid now l
                     (EBranchSummary (case l of None \<Rightarrow> str ''root'' | Some i \<Rightarrow> i) text details fromHook)
                 in Inr (fst r, Some (snd r))))
      else Inl (SessionError NotFound (str ''Entry '' @ the l @ str '' not found'')))"
  by (cases l) (auto simp: moveTo_def mem.known_def Let_def split: option.splits prod.splits)

text \<open>What a step is: an entry under the leaf, a move of the leaf to a known id, or no change.\<close>

lemma session_step_cases:
  obtains (typed) body where "\<not> is_leaf body"
      "session_step s uuid now op = fst (appendTypedEntry s uuid now (getLeafId s) body)"
  | (move) l where "mem.known s l" "session_step s uuid now op = setLeafId s l"
  | (move_summary) l body where "mem.known s l" "\<not> is_leaf body"
      "session_step s uuid now op = fst (appendTypedEntry (setLeafId s l) uuid now l body)"
  | (failed) "session_step s uuid now op = s"
proof (cases op)
  case (OpLabel i l)
  then show ?thesis using typed [of "ELabel i l"] failed
    by (cases "getEntry s i = None") (auto simp: session_step_def appendLabel_def)
next
  case (OpMoveTo l summary)
  then have eq: "session_step s uuid now op = (case moveTo s uuid now l summary of Inl _ \<Rightarrow> s | Inr r \<Rightarrow> fst r)"
    by (simp add: session_step_def)
  show ?thesis
  proof (cases "mem.known s l")
    case True
    then show ?thesis
      using move [OF True] eq
        move_summary [OF True, of "EBranchSummary (case l of None \<Rightarrow> str ''root'' | Some i \<Rightarrow> i)
          (fst (the summary)) (fst (snd (the summary))) (snd (snd (the summary)))"]
      by (cases summary) (auto simp: moveTo_eq Let_def)
  next
    case False
    then show ?thesis using failed eq by (simp add: moveTo_eq)
  qed
next
  case (OpMessage m)
  then show ?thesis using typed [of "EMessage m"] by (simp add: session_step_def appendMessage_def)
next
  case (OpThinkingLevelChange l)
  then show ?thesis using typed [of "EThinkingLevelChange l"] by (simp add: session_step_def appendThinkingLevelChange_def)
next
  case (OpModelChange p m)
  then show ?thesis using typed [of "EModelChange p m"] by (simp add: session_step_def appendModelChange_def)
next
  case (OpCompaction a k t d h)
  then show ?thesis using typed [of "ECompaction a k t d h"] by (simp add: session_step_def appendCompaction_def)
next
  case (OpCustomEntry t d)
  then show ?thesis using typed [of "ECustom t d"] by (simp add: session_step_def appendCustomEntry_def)
next
  case (OpCustomMessageEntry t c v d)
  then show ?thesis using typed [of "ECustomMessage t c v d"] by (simp add: session_step_def appendCustomMessageEntry_def)
next
  case (OpSessionName n)
  then show ?thesis using typed [of "ESessionInfo (Some (trim n))"] by (simp add: session_step_def appendSessionName_def)
qed

lemma session_step_ok:
  assumes "session_ok s" "getEntry s (createEntryId s uuid) = None"
  shows "session_ok (session_step s uuid now op)"
proof (cases rule: session_step_cases [of s uuid now op])
  case (typed body)
  then show ?thesis using typed_entry_ok [OF assms(1) _ assms(2)] session_ok_leaf [OF assms(1)] by simp
next
  case (move l)
  then show ?thesis using setLeafId_ok assms by simp
next
  case (move_summary l body)
  then show ?thesis
    using typed_entry_ok [of "setLeafId s l" l uuid body now] setLeafId_ok [OF assms(1)] assms(2)
    by simp
qed (use assms in simp)

lemma session_step_path:
  assumes "session_ok s" "getEntry s (createEntryId s uuid) = None" "getPathToRoot s l = Inr p"
  shows "getPathToRoot (session_step s uuid now op) l = Inr p"
proof (cases rule: session_step_cases [of s uuid now op])
  case (typed body)
  then show ?thesis using typed_entry_path assms by simp
next
  case (move k)
  then show ?thesis using assms by simp
next
  case (move_summary k body)
  then show ?thesis
    using typed_entry_path [of "setLeafId s k" uuid l p now k body] setLeafId_ok [OF assms(1)] assms(2,3)
    by simp
qed (use assms in simp)

lemma session_ok_branch: "session_ok s \<Longrightarrow> \<exists>p. getBranch s None = Inr p"
  using mem.rootedD by (auto simp: session_ok_def getBranch_def)

lemma session_run_ok:
  "session_ok s \<Longrightarrow> fresh_run s evs \<Longrightarrow> session_ok (session_run s evs)"
  by (induction s evs rule: session_run.induct) (auto simp: session_step_ok)

lemma session_run_path:
  "session_ok s \<Longrightarrow> fresh_run s evs \<Longrightarrow> getPathToRoot s l = Inr p \<Longrightarrow>
     getPathToRoot (session_run s evs) l = Inr p"
  by (induction s evs rule: session_run.induct) (auto simp: session_step_ok session_step_path)

definition empty_session :: "session_metadata \<Rightarrow> memory_storage" where
  "empty_session md = \<lparr>ms_metadata = md, ms_entries = [], ms_byId = [], ms_labelsById = [], ms_leafId = None\<rparr>"

lemma new_storage_empty: "new_InMemorySessionStorage [] md = Inr (empty_session md)"
  by (simp add: new_InMemorySessionStorage_def empty_session_def entries_byId_def
      map_of_entries_def buildLabelsById_def)

lemma empty_session_ok [simp]: "session_ok (empty_session md)"
  by (auto simp: session_ok_def storage_inv_def empty_session_def entries_byId_def map_of_entries_def
      buildLabelsById_def getLeafId_def mem.rooted_def mem.known_def getEntry_def mem.path_None
      split: option.splits)

text \<open>
  C8: Whatever sequence of session operations runs on a new in-memory session (failing ones
  included), as long as every created id is unused, the current branch can be read, and every
  branch that existed before the later operations is read back unchanged after them: the tree
  is append-only, and no operation loses or rewrites history.
\<close>

theorem session_branches_append_only:
  assumes "fresh_run (empty_session md) (evs @ later)"
    and "s = session_run (empty_session md) evs" and "s' = session_run (empty_session md) (evs @ later)"
  shows "session_ok s' \<and> (\<exists>p. getBranch s' None = Inr p) \<and> (\<forall>l p. getPathToRoot s l = Inr p \<longrightarrow> getPathToRoot s' l = Inr p)"
proof -
  have run: "session_run t (evs @ later) = session_run (session_run t evs) later" for t
    by (induction t evs rule: session_run.induct) auto
  have fresh: "fresh_run t (evs @ later) \<longleftrightarrow> fresh_run t evs \<and> fresh_run (session_run t evs) later" for t
    by (induction t evs rule: session_run.induct) auto
  have "session_ok s" "fresh_run s later"
    using assms(1,2) session_run_ok [of "empty_session md" evs] by (auto simp: fresh)
  moreover have "s' = session_run s later" using assms(2,3) by (simp add: run)
  ultimately show ?thesis
    using session_run_ok [of s later] session_run_path [of s later] session_ok_branch by simp
qed

subsection \<open>The context of a branch\<close>

abbreviation context_state ::
  "session_entry list \<Rightarrow> js_string \<times> (js_string \<times> js_string) option \<times> session_entry option" where
  "context_state es \<equiv> fold context_step es (str ''off'', None, None)"

lemma context_step_compaction:
  "snd (snd (context_step e st)) = (if is_compaction (e_body e) then Some e else snd (snd st))"
  by (cases st; cases "e_body e" rule: is_compaction.cases)
    (auto simp: context_step_def split: agent_message.splits llm_message.splits)

lemma context_state_compaction:
  "snd (snd (context_state es)) = Some c \<Longrightarrow> c \<in> set es \<and> is_compaction (e_body c)"
proof (induction es rule: rev_induct)
  case (snoc e es)
  then show ?case by (auto simp: context_step_compaction split: if_splits)
qed simp

lemma index_append:
  "\<exists>x \<in> set es. P x \<Longrightarrow>
     length (takeWhile (\<lambda>x. \<not> P x) (es @ fs)) = length (takeWhile (\<lambda>x. \<not> P x) es)
     \<and> length (takeWhile (\<lambda>x. \<not> P x) es) < length es"
  by (induction es) auto

lemma context_append_plain:
  assumes "\<not> is_compaction (e_body e)"
  shows "ctx_messages (buildSessionContext date_parse (es @ [e])) =
    ctx_messages (buildSessionContext date_parse es) @ context_message date_parse e"
proof -
  obtain l m c where st: "context_state es = (l, m, c)" by (cases "context_state es") auto
  obtain l' m' where st': "context_step e (l, m, c) = (l', m', c)"
    using context_step_compaction [of e "(l, m, c)"] assms by (cases "context_step e (l, m, c)") auto
  show ?thesis
  proof (cases c)
    case None
    then show ?thesis using st st' by (simp add: buildSessionContext_def)
  next
    case (Some k)
    then have k: "k \<in> set es" "is_compaction (e_body k)"
      using context_state_compaction [of es k] st by auto
    let ?P = "\<lambda>x. is_compaction (e_body x) \<and> e_id x = e_id k"
    have "\<exists>x \<in> set es. ?P x" using k by blast
    note idx = index_append [OF this, of "[e]"]
    obtain a b t d h where "e_body k = ECompaction a b t d h"
      using k(2) by (cases "e_body k") auto
    then show ?thesis using st st' Some idx by (simp add: buildSessionContext_def Let_def)
  qed
qed

lemma context_append_compaction:
  assumes "e_body e = ECompaction summary firstKept tokensBefore details fromHook"
    and "\<And>x. x \<in> set es \<Longrightarrow> e_id x \<noteq> e_id e"
  shows "buildSessionContext date_parse (es @ [e]) =
    (buildSessionContext date_parse es)\<lparr>ctx_messages :=
       createCompactionSummaryMessage date_parse summary tokensBefore (e_timestamp e)
       # concat (map (context_message date_parse) (kept_entries firstKept es))\<rparr>"
proof -
  obtain l m c where st: "context_state es = (l, m, c)" by (cases "context_state es") auto
  have "length (takeWhile (\<lambda>x. \<not> (is_compaction (e_body x) \<and> e_id x = e_id e)) (es @ [e])) = length es"
    using assms by (induction es) auto
  then show ?thesis
    using st assms(1) by (simp add: buildSessionContext_def Let_def context_step_def)
qed

lemma context_append_messages:
  "map e_body fs = map EMessage ms \<Longrightarrow>
     ctx_messages (buildSessionContext date_parse (es @ fs)) =
       ctx_messages (buildSessionContext date_parse es) @ ms"
proof (induction fs arbitrary: ms rule: rev_induct)
  case (snoc e fs)
  then obtain m ms' where ms: "ms = ms' @ [m]" "e_body e = EMessage m" "map e_body fs = map EMessage ms'"
    by (cases ms rule: rev_cases) auto
  then show ?case
    using context_append_plain [of e date_parse "es @ fs"] snoc.IH [OF ms(3)]
    by (simp add: context_message_def)
qed simp

subsection \<open>Branches hold stored entries\<close>

lemma entries_byId_get:
  "map_get (entries_byId es) i = Some e \<Longrightarrow> e \<in> set es \<and> e_id e = i"
  by (auto simp: entries_byId_def map_get_of_entries dest!: map_of_SomeD)

lemma parent_chain_stored:
  "parent_chain par byId rp l \<Longrightarrow> e \<in> set rp \<Longrightarrow> \<exists>i. map_get byId i = Some e"
  by (induction rp arbitrary: l) auto

lemma path_stored:
  assumes "storage_inv s" "getPathToRoot s l = Inr p" "e \<in> set p"
  shows "e \<in> set (ms_entries s) \<and> getEntry s (e_id e) = Some e"
proof -
  obtain rp where "p = rev rp" "parent_chain e_parentId (ms_byId s) rp l"
    using path_loop_distinct [OF assms(2) [unfolded getPathToRoot_def path_to_root_def]] by auto
  then obtain i where "map_get (ms_byId s) i = Some e"
    using parent_chain_stored assms(3) by fastforce
  then show ?thesis using assms(1) entries_byId_get by (auto simp: storage_inv_def getEntry_def)
qed

text \<open>A branch taken on its own is a session whose only branch it is.\<close>

lemma chain_entries_byId:
  assumes "\<And>i e. map_get byId i = Some e \<Longrightarrow> e_id e = i"
  shows "parent_chain e_parentId byId rp l \<Longrightarrow> distinct (chain_ids e_parentId rp l) \<Longrightarrow>
    path_to_root e_parentId (entries_byId (rev rp)) l = Inr (rev rp) \<and>
    l = (case rp of [] \<Rightarrow> None | e # _ \<Rightarrow> Some (e_id e)) \<and>
    chain_ids e_parentId rp l = map e_id rp"
proof (induction rp arbitrary: l)
  case Nil
  then show ?case by (simp add: path_to_root_def)
next
  case (Cons e rp)
  then obtain i where i: "l = Some i" "map_get byId i = Some e" "parent_chain e_parentId byId rp (e_parentId e)"
    by auto
  then have id: "e_id e = i" using assms by simp
  have IH: "path_to_root e_parentId (entries_byId (rev rp)) (e_parentId e) = Inr (rev rp)"
    "chain_ids e_parentId rp (e_parentId e) = map e_id rp"
    using Cons.IH [OF i(3)] Cons.prems(2) i(1) by auto
  have "i \<notin> set (map e_id rp)" using Cons.prems(2) i(1) IH(2) by simp
  then have "map_get (entries_byId (rev rp)) (e_id e) = None"
    using id entries_byId_get [of "rev rp" i]
    by (cases "map_get (entries_byId (rev rp)) i") (auto simp: rev_image_eqI)
  from path_to_root_append [of e_parentId "entries_byId (rev rp)" "e_parentId e" "rev rp" "e_id e" e,
      OF IH(1) this]
  show ?case using i(1) id IH(2) by (simp add: entries_byId_append)
qed

lemma path_entries_byId:
  assumes "storage_inv s" "getPathToRoot s l = Inr p"
  shows "path_to_root e_parentId (entries_byId p) l = Inr p \<and>
    l = (if p = [] then None else Some (e_id (last p)))"
proof -
  obtain rp where rp: "p = rev rp" "parent_chain e_parentId (ms_byId s) rp l"
    "distinct (chain_ids e_parentId rp l)"
    using path_loop_distinct [OF assms(2) [unfolded getPathToRoot_def path_to_root_def]] by auto
  have "\<And>i e. map_get (ms_byId s) i = Some e \<Longrightarrow> e_id e = i"
    using assms(1) entries_byId_get by (auto simp: storage_inv_def)
  from chain_entries_byId [OF this rp(2,3)] show ?thesis
    using rp(1) by (cases rp) auto
qed

subsection \<open>Contexts after compaction, moves and forks\<close>

lemma run_messages:
  "session_ok s \<Longrightarrow> getBranch s None = Inr p \<Longrightarrow>
     fresh_run s (map (\<lambda>(u, n, m). (u, n, OpMessage m)) evs) \<Longrightarrow>
     s' = session_run s (map (\<lambda>(u, n, m). (u, n, OpMessage m)) evs) \<Longrightarrow>
     \<exists>fs. getBranch s' None = Inr (p @ fs) \<and> map e_body fs = map EMessage (map (snd \<circ> snd) evs)"
proof (induction evs arbitrary: s p)
  case Nil
  then show ?case by auto
next
  case (Cons ev evs)
  obtain u n m where ev: "ev = (u, n, m)" by (cases ev)
  let ?e = "\<lparr>e_id = createEntryId s u, e_parentId = getLeafId s, e_timestamp = n, e_body = EMessage m\<rparr>"
  have fresh: "getEntry s (createEntryId s u) = None"
    and fresh': "fresh_run (session_step s u n (OpMessage m)) (map (\<lambda>(u, n, m). (u, n, OpMessage m)) evs)"
    using Cons.prems(3) ev by auto
  have "getBranch (session_step s u n (OpMessage m)) None = Inr (p @ [?e])"
    using typed_entry_branch [OF Cons.prems(1) fresh, of "getLeafId s" p n "EMessage m"] Cons.prems(2)
    by (simp add: session_step_def appendMessage_def getBranch_def)
  from Cons.IH [OF session_step_ok [OF Cons.prems(1) fresh] this fresh'] Cons.prems(4) ev
  obtain fs where "getBranch s' None = Inr ((p @ [?e]) @ fs)"
    "map e_body fs = map EMessage (map (snd \<circ> snd) evs)"
    by auto
  then show ?case using ev by (intro exI [of _ "?e # fs"]) simp
qed

definition message_events ::
  "((nat \<Rightarrow> js_string) \<times> js_string \<times> agent_message) list \<Rightarrow>
     ((nat \<Rightarrow> js_string) \<times> js_string \<times> session_op) list" where
  "message_events evs = map (\<lambda>(u, n, m). (u, n, OpMessage m)) evs"

definition context_messages :: "(js_string \<Rightarrow> ms) \<Rightarrow> memory_storage \<Rightarrow> agent_message list session_result" where
  "context_messages date_parse s =
     (case buildContext date_parse s of Inl err \<Rightarrow> Inl err | Inr ctx \<Rightarrow> Inr (ctx_messages ctx))"

lemma path_ids_fresh:
  assumes "session_ok s" "getPathToRoot s l = Inr p" "getEntry s k = None" "x \<in> set p"
  shows "e_id x \<noteq> k"
  using path_stored [OF _ assms(2,4)] assms(1,3) by (auto simp: session_ok_def)

text \<open>
  C37: A compaction entry appended to a session, followed by any number of appended messages,
  gives the context: the summary message, then the messages of the branch from the first kept
  entry on (none when that id is not on the branch), then the new messages in their order.
  Nothing before the first kept entry is left, whether or not the branch held earlier
  compactions.
\<close>

theorem compaction_context:
  assumes "session_ok s" "getBranch s None = Inr p"
    and "fresh_run s ((uuid, now, OpCompaction summary firstKept tokens details hook) # message_events evs)"
    and "s' = session_run s ((uuid, now, OpCompaction summary firstKept tokens details hook) # message_events evs)"
  shows "context_messages date_parse s' =
    Inr (createCompactionSummaryMessage date_parse summary tokens now
         # concat (map (context_message date_parse) (kept_entries firstKept p))
         @ map (snd \<circ> snd) evs)"
proof -
  let ?op = "OpCompaction summary firstKept tokens details hook"
  let ?b = "ECompaction summary firstKept tokens details hook"
  let ?e = "\<lparr>e_id = createEntryId s uuid, e_parentId = getLeafId s, e_timestamp = now, e_body = ?b\<rparr>"
  have fresh: "getEntry s (createEntryId s uuid) = None"
    and fresh': "fresh_run (session_step s uuid now ?op) (message_events evs)"
    using assms(3) by auto
  have br: "getBranch (session_step s uuid now ?op) None = Inr (p @ [?e])"
    using typed_entry_branch [OF assms(1) fresh, of "getLeafId s" p now ?b] assms(2)
    by (simp add: session_step_def appendCompaction_def getBranch_def)
  obtain fs where fs: "getBranch s' None = Inr ((p @ [?e]) @ fs)"
    "map e_body fs = map EMessage (map (snd \<circ> snd) evs)"
    using run_messages [OF session_step_ok [OF assms(1) fresh] br fresh' [unfolded message_events_def]]
      assms(4) by (auto simp: message_events_def)
  have "buildSessionContext date_parse (p @ [?e]) = (buildSessionContext date_parse p)\<lparr>ctx_messages :=
       createCompactionSummaryMessage date_parse summary tokens (e_timestamp ?e)
       # concat (map (context_message date_parse) (kept_entries firstKept p))\<rparr>"
    by (rule context_append_compaction)
      (use path_ids_fresh [OF assms(1) _ fresh] assms(2) in \<open>auto simp: getBranch_def\<close>)
  then show ?thesis
    using context_append_messages [OF fs(2), of date_parse "p @ [?e]"] fs(1)
    by (simp add: context_messages_def buildContext_def)
qed

text \<open>
  C38: Moving the leaf to a known entry (or to the root) makes that entry's branch the current
  one, and with a summary extends it by one branch-summary entry whose message ends the context;
  an unknown entry is refused with an error.
\<close>

theorem moveTo_switches_branch:
  assumes "session_ok s" "getEntry s (createEntryId s uuid) = None"
    and "case l of None \<Rightarrow> True | Some i \<Rightarrow> getEntry s i \<noteq> None" "summary \<noteq> []"
  shows "\<exists>p s1 s2 k e. getPathToRoot s l = Inr p
    \<and> moveTo s uuid now l None = Inr (s1, None) \<and> getBranch s1 None = Inr p
    \<and> moveTo s uuid now l (Some (summary, details, hook)) = Inr (s2, Some k)
    \<and> getBranch s2 None = Inr (p @ [e]) \<and> e_id e = k \<and> e_parentId e = l
    \<and> context_messages date_parse s2 =
        Inr (ctx_messages (buildSessionContext date_parse p)
             @ [createBranchSummaryMessage date_parse summary (case l of None \<Rightarrow> str ''root'' | Some i \<Rightarrow> i) now])
    \<and> (\<forall>i sm. getEntry s i = None \<longrightarrow> moveTo s uuid now (Some i) sm =
          Inl (SessionError NotFound (str ''Entry '' @ i @ str '' not found'')))"
proof -
  have known: "mem.known s l" using assms(3) by (simp add: mem.known_def)
  obtain p where p: "getPathToRoot s l = Inr p"
    using mem.rootedD [OF _ known] assms(1) unfolding session_ok_def by blast
  let ?b = "EBranchSummary (case l of None \<Rightarrow> str ''root'' | Some i \<Rightarrow> i) summary details hook"
  let ?e = "\<lparr>e_id = createEntryId s uuid, e_parentId = l, e_timestamp = now, e_body = ?b\<rparr>"
  let ?s2 = "fst (appendTypedEntry (setLeafId s l) uuid now l ?b)"
  have br: "getBranch ?s2 None = Inr (p @ [?e])"
    using typed_entry_branch [OF setLeafId_ok [OF assms(1) known], of uuid l p now ?b] assms(2) p by simp
  have mv: "moveTo s uuid now l (Some (summary, details, hook)) = Inr (?s2, Some (createEntryId s uuid))"
    using known by (simp add: moveTo_eq Let_def appendTypedEntry_def)
  have ctx: "context_messages date_parse ?s2 = Inr (ctx_messages (buildSessionContext date_parse p)
      @ [createBranchSummaryMessage date_parse summary (case l of None \<Rightarrow> str ''root'' | Some i \<Rightarrow> i) now])"
    using context_append_plain [of ?e date_parse p] assms(4) br
    by (simp add: context_messages_def buildContext_def context_message_def)
  have "moveTo s uuid now l None = Inr (setLeafId s l, None)" "getBranch (setLeafId s l) None = Inr p"
    using known p by (auto simp: moveTo_eq getBranch_def split: option.splits)
  moreover have "getEntry s i = None \<Longrightarrow> moveTo s uuid now (Some i) sm =
      Inl (SessionError NotFound (str ''Entry '' @ i @ str '' not found''))" for i sm
    by (simp add: moveTo_def)
  ultimately show ?thesis using p mv br ctx by (intro exI conjI) auto
qed

lemma new_storage_of_path:
  assumes "session_ok s" "getPathToRoot s l = Inr p"
  shows "\<exists>t. new_InMemorySessionStorage p md = Inr t \<and> getEntries t = p \<and> getLeafId t = l \<and>
    getBranch t None = Inr p"
proof -
  have inv: "storage_inv s" using assms(1) by (simp add: session_ok_def)
  have path: "path_to_root e_parentId (entries_byId p) l = Inr p"
    and l: "l = (if p = [] then None else Some (e_id (last p)))"
    using path_entries_byId [OF inv assms(2)] by auto
  have nl: "\<not> is_leaf (e_body e)" if "e \<in> set p" for e
    using path_stored [OF inv assms(2) that] assms(1) by (simp add: session_ok_def)
  have leaf: "fold (\<lambda>e _. leafIdAfterEntry e) p None = l"
  proof (cases p rule: rev_cases)
    case (snoc q e)
    then have "\<not> is_leaf (e_body e)" using nl by simp
    then have "leafIdAfterEntry e = Some (e_id e)"
      by (cases "e_body e") (auto simp: leafIdAfterEntry_def)
    then show ?thesis using snoc l by simp
  qed (use l in simp)
  have "map_get (entries_byId p) i \<noteq> None" if "l = Some i" for i
    using path that unfolding path_to_root_def by (auto split: option.splits)
  then show ?thesis
    using leaf path
    by (cases l) (auto simp: new_InMemorySessionStorage_def getEntries_def getLeafId_def getBranch_def
        getPathToRoot_def)
qed

text \<open>
  Forking before a user message gives a session that holds exactly the branch up to that
  message without it (its parent is the new leaf, ready for the message to be asked again);
  forking at an entry gives exactly the branch that ends with it.
\<close>

theorem fork_copies_branch:
  assumes "session_ok s" "i \<noteq> []" "getEntry s i = Some e"
    and "position = ForkBefore \<Longrightarrow> is_user_message (e_body e)"
  shows "\<exists>es t. getEntriesToFork s (Some i) (Some position) = Inr es
    \<and> new_InMemorySessionStorage es md = Inr t
    \<and> getPathToRoot s (Some i) = Inr (if position = ForkBefore then es @ [e] else es)
    \<and> getLeafId t = (if position = ForkBefore then e_parentId e else Some i)
    \<and> getBranch t None = Inr es"
proof -
  have inv: "storage_inv s" and id: "e_id e = i"
    using assms(1,3) entries_byId_get by (auto simp: session_ok_def storage_inv_def getEntry_def)
  have rooted: "mem.rooted s" using assms(1) by (simp add: session_ok_def)
  obtain p where p: "getPathToRoot s (Some i) = Inr p"
    using mem.rootedD [OF rooted, of "Some i"] assms(3) by (auto simp: mem.known_def)
  show ?thesis
  proof (cases position)
    case ForkAt
    then show ?thesis
      using new_storage_of_path [OF assms(1) p, of md] p assms(2,3) id
      by (auto simp: getEntriesToFork_def)
  next
    case ForkBefore
    have "map_get (ms_byId s) i = Some e" using assms(3) by (simp add: getEntry_def)
    with p obtain q where q: "path_loop e_parentId (ms_byId s) {i} [e] (e_parentId e) = Inr p"
      by (simp add: getPathToRoot_def path_to_root_def)
    obtain rp where rp: "p = rev rp @ [e]" "parent_chain e_parentId (ms_byId s) rp (e_parentId e)"
      "distinct (chain_ids e_parentId rp (e_parentId e))"
      using path_loop_distinct [OF q] by auto
    have "getPathToRoot s (e_parentId e) = Inr (rev rp)"
      using path_loop_complete [OF rp(2,3), of "{}" "[]"]
      by (simp add: getPathToRoot_def path_to_root_def)
    then show ?thesis
      using new_storage_of_path [OF assms(1), of "e_parentId e" "rev rp" md] p rp(1) assms(2-4) ForkBefore
      by (auto simp: getEntriesToFork_def)
  qed
qed

subsection \<open>Names and labels\<close>

definition named_by :: "session_op \<Rightarrow> js_string option list" where
  "named_by op = (case op of OpSessionName n \<Rightarrow> [Some n] | _ \<Rightarrow> [])"

definition storage_names :: "memory_storage \<Rightarrow> js_string option list" where
  "storage_names s = map (\<lambda>e. session_info_name (e_body e)) (findEntries s is_session_info)"

lemma storage_names_typed:
  "storage_names (fst (appendTypedEntry s uuid now l b)) =
     storage_names s @ (if is_session_info b then [session_info_name b] else [])"
  by (simp add: storage_names_def findEntries_def appendTypedEntry_def Let_def)

lemma storage_names_setLeafId [simp]: "storage_names (setLeafId s l) = storage_names s"
  by (simp add: storage_names_def findEntries_def)

lemmas session_ops_defs = appendMessage_def appendThinkingLevelChange_def appendModelChange_def
  appendCompaction_def appendCustomEntry_def appendCustomMessageEntry_def appendSessionName_def
  appendLabel_def

lemma storage_names_step:
  "storage_names (session_step s uuid now op) = storage_names s @ map (map_option trim) (named_by op)"
  by (cases op)
    (auto simp: session_step_def session_ops_defs storage_names_typed named_by_def moveTo_eq Let_def
      split: option.splits)

lemma storage_names_run:
  "storage_names (session_run s evs) =
     storage_names s @ map (map_option trim) (concat (map (named_by \<circ> snd \<circ> snd) evs))"
  by (induction s evs rule: session_run.induct) (auto simp: storage_names_step)

lemma first_non_blank_trim: "first_non_blank (map (map_option trim) ns) = first_non_blank ns"
  by (induction ns rule: first_non_blank.induct) (auto split: option.splits)

text \<open>
  The name of a session is the last name set that is not blank, trimmed; a blank name set
  later does not hide it, and no other operation changes it.
\<close>

theorem session_name_last_non_blank:
  "getSessionName (session_run (empty_session md) evs) =
     first_non_blank (rev (concat (map (named_by \<circ> snd \<circ> snd) evs)))"
proof -
  have "storage_names (empty_session md) = []"
    by (simp add: storage_names_def findEntries_def empty_session_def)
  then show ?thesis
    using storage_names_run [of "empty_session md" evs]
    by (simp add: getSessionName_def storage_names_def rev_map first_non_blank_trim)
qed

lemma getLabel_typed:
  "getLabel (fst (appendTypedEntry s uuid now l b)) i =
     (case b of
        ELabel t x \<Rightarrow> if t = i then (case map_option trim x of
            Some y \<Rightarrow> if y \<noteq> [] then Some y else None | None \<Rightarrow> None) else getLabel s i
      | _ \<Rightarrow> getLabel s i)"
  by (auto simp: getLabel_def appendTypedEntry_def appendEntry_def Let_def updateLabelCache_def
      split: entry_body.splits option.splits)

lemma getLabel_setLeafId [simp]: "getLabel (setLeafId s l) i = getLabel s i"
  by (simp add: getLabel_def setLeafId_def)

text \<open>
  A label operation on a stored entry sets the label of that entry to the trimmed text (a
  blank or absent text removes it) and of no other; a label on an unknown entry and every other
  operation leave all labels as they are.
\<close>

theorem label_of_last_operation:
  "getLabel (session_step s uuid now op) i =
     (case op of
        OpLabel t x \<Rightarrow>
          if t = i \<and> getEntry s t \<noteq> None
          then (case map_option trim x of Some y \<Rightarrow> if y \<noteq> [] then Some y else None | None \<Rightarrow> None)
          else getLabel s i
      | _ \<Rightarrow> getLabel s i)"
  by (cases op)
    (auto simp: session_step_def session_ops_defs getLabel_typed moveTo_eq Let_def
      split: option.splits)

subsection \<open>Witnesses\<close>

definition demo_message :: "string \<Rightarrow> agent_message" where
  "demo_message t = LlmMessage (LUser (Plain (str t)) None)"

definition demo_events :: "((nat \<Rightarrow> js_string) \<times> js_string \<times> session_op) list" where
  "demo_events =
     [(\<lambda>i. str ''a'', str ''t'', OpMessage (demo_message ''one'')),
      (\<lambda>i. str ''b'', str ''t'', OpMessage (demo_message ''two''))]"

definition demo_session :: memory_storage where
  "demo_session = session_run (empty_session \<lparr>md_id = [], md_createdAt = []\<rparr>) demo_events"

definition demo_entry_a :: session_entry where
  "demo_entry_a = \<lparr>e_id = str ''a'', e_parentId = None, e_timestamp = str ''t'',
     e_body = EMessage (demo_message ''one'')\<rparr>"

definition demo_entry_b :: session_entry where
  "demo_entry_b = \<lparr>e_id = str ''b'', e_parentId = Some (str ''a''), e_timestamp = str ''t'',
     e_body = EMessage (demo_message ''two'')\<rparr>"

lemmas session_eval = session_step_def appendMessage_def appendCompaction_def appendTypedEntry_def
  createEntryId_def generateEntryId_def empty_session_def appendEntry_def setLeafId_def moveTo_def
  getLeafId_def getEntry_def updateLabelCache_def getBranch_def getPathToRoot_def path_to_root_def
  message_events_def eval_nat_numeral Let_def map_get_def str_def

lemma demo_session_eq:
  "demo_session = \<lparr>ms_metadata = \<lparr>md_id = [], md_createdAt = []\<rparr>,
     ms_entries = [demo_entry_a, demo_entry_b],
     ms_byId = [(str ''a'', demo_entry_a), (str ''b'', demo_entry_b)],
     ms_labelsById = [], ms_leafId = Some (str ''b'')\<rparr>"
  by (simp add: demo_session_def demo_events_def demo_entry_a_def demo_entry_b_def session_eval)

lemma demo_fresh: "fresh_run (empty_session \<lparr>md_id = [], md_createdAt = []\<rparr>) demo_events"
  by (simp add: demo_events_def session_eval)

lemma demo_session_ok: "session_ok demo_session"
  unfolding demo_session_def by (rule session_run_ok [OF empty_session_ok demo_fresh])

lemma demo_branch: "getBranch demo_session None = Inr [demo_entry_a, demo_entry_b]"
  by (simp add: demo_session_eq session_eval demo_entry_a_def demo_entry_b_def)

theorem session_branches_append_only_witness:
  "session_ok (session_run (empty_session \<lparr>md_id = [], md_createdAt = []\<rparr>)
     (demo_events @ [(\<lambda>i. str ''c'', str ''t'', OpMoveTo (Some (str ''a'')) None)]))"
  using session_branches_append_only [of "\<lparr>md_id = [], md_createdAt = []\<rparr>" demo_events
      "[(\<lambda>i. str ''c'', str ''t'', OpMoveTo (Some (str ''a'')) None)]", OF _ refl refl]
  by (simp add: demo_events_def session_eval)

theorem compaction_context_witness:
  "context_messages (\<lambda>_. None)
     (session_run demo_session
        ((\<lambda>i. str ''c'', str ''t'', OpCompaction (str ''sum'') (str ''b'') 10 None False)
         # message_events [(\<lambda>i. str ''d'', str ''t'', demo_message ''three'')])) =
   Inr [createCompactionSummaryMessage (\<lambda>_. None) (str ''sum'') 10 (str ''t''),
        demo_message ''two'', demo_message ''three'']"
  using compaction_context [OF demo_session_ok demo_branch _ refl, of "\<lambda>i. str ''c''" "str ''t''"
      "str ''sum''" "str ''b''" 10 None False "[(\<lambda>i. str ''d'', str ''t'', demo_message ''three'')]"
      "\<lambda>_. None"]
  by (simp add: session_eval demo_session_eq demo_entry_a_def demo_entry_b_def kept_entries_def
      context_message_def)

theorem moveTo_switches_branch_witness:
  "\<exists>p s1. getPathToRoot demo_session (Some (str ''a'')) = Inr p
    \<and> moveTo demo_session (\<lambda>i. str ''c'') (str ''t'') (Some (str ''a'')) None = Inr (s1, None)
    \<and> getBranch s1 None = Inr p"
  using moveTo_switches_branch [OF demo_session_ok, of "\<lambda>i. str ''c''" "Some (str ''a'')" "str ''s''"]
  by (simp add: session_eval demo_session_eq demo_entry_a_def demo_entry_b_def)

theorem fork_copies_branch_witness:
  "\<exists>es t. getEntriesToFork demo_session (Some (str ''b'')) (Some ForkBefore) = Inr es
    \<and> new_InMemorySessionStorage es \<lparr>md_id = [], md_createdAt = []\<rparr> = Inr t
    \<and> getPathToRoot demo_session (Some (str ''b'')) = Inr (es @ [demo_entry_b])
    \<and> getBranch t None = Inr es"
proof -
  have "getEntry demo_session (str ''b'') = Some demo_entry_b"
    by (simp add: demo_session_eq getEntry_def map_get_def str_def)
  from fork_copies_branch [OF demo_session_ok _ this, of ForkBefore "\<lparr>md_id = [], md_createdAt = []\<rparr>"]
  show ?thesis by (simp add: demo_entry_b_def demo_message_def) blast
qed

end
