(* ===== verification/Uuid.thy ===== *)
theory Uuid
  imports Prelude
begin

text \<open>
  \<open>packages/agent/src/harness/session/uuid.ts\<close>: time-ordered ids.  The module variables are the
  record \<open>uuid_state\<close> (\<open>None\<close> is the initial \<open>-Infinity\<close>); the clock reading and the 16 random
  bytes of a call are arguments.  Numbers stay below \<open>2^53\<close>, so a JavaScript number is a natural
  number; \<open>>>> 0\<close> is written out as \<open>mod 2^32\<close>.
\<close>

unbundle bit_operations_syntax

record uuid_state =
  lastTimestamp :: "nat option"
  uuid_sequence :: nat

definition uuid_init :: uuid_state where
  "uuid_init = \<lparr>lastTimestamp = None, uuid_sequence = 0\<rparr>"

definition uuid_advance :: "uuid_state \<Rightarrow> nat \<Rightarrow> nat list \<Rightarrow> uuid_state" where
  "uuid_advance st timestamp random =
     (if (case lastTimestamp st of None \<Rightarrow> True | Some l \<Rightarrow> l < timestamp)
      then \<lparr>lastTimestamp = Some timestamp,
            uuid_sequence = random ! 6 * 0x1000000 + random ! 7 * 0x10000 + random ! 8 * 0x100 + random ! 9\<rparr>
      else (let s = (uuid_sequence st + 1) mod 2 ^ 32
            in \<lparr>lastTimestamp = (if s = 0 then map_option Suc (lastTimestamp st) else lastTimestamp st),
                uuid_sequence = s\<rparr>))"

definition uuid_bytes :: "nat \<Rightarrow> nat \<Rightarrow> nat list \<Rightarrow> nat list" where
  "uuid_bytes ts s random =
     [(ts div 0x10000000000) AND 0xff,
      (ts div 0x100000000) AND 0xff,
      (ts div 0x1000000) AND 0xff,
      (ts div 0x10000) AND 0xff,
      (ts div 0x100) AND 0xff,
      ts AND 0xff,
      0x70 OR (drop_bit 28 s AND 0x0f),
      drop_bit 20 s AND 0xff,
      0x80 OR (drop_bit 14 s AND 0x3f),
      drop_bit 6 s AND 0xff,
      push_bit 2 (s AND 0x3f) OR (random ! 10 AND 0x03),
      random ! 11, random ! 12, random ! 13, random ! 14, random ! 15]"

text \<open>\<open>byte.toString(16).padStart(2, "0")\<close> for a byte.\<close>

definition hex_digit :: "nat \<Rightarrow> nat" where
  "hex_digit d = (if d < 10 then 48 + d else 87 + d)"

definition hex_byte :: "nat \<Rightarrow> js_string" where
  "hex_byte b = [hex_digit (b div 16), hex_digit (b mod 16)]"

definition slice :: "nat \<Rightarrow> nat \<Rightarrow> 'a list \<Rightarrow> 'a list" where
  "slice i j xs = take (j - i) (drop i xs)"

definition formatUuid :: "nat list \<Rightarrow> js_string" where
  "formatUuid bytes =
     (let hex = map hex_byte bytes
      in concat (slice 0 4 hex) @ str ''-'' @ concat (slice 4 6 hex) @ str ''-''
         @ concat (slice 6 8 hex) @ str ''-'' @ concat (slice 8 10 hex) @ str ''-''
         @ concat (slice 10 16 hex))"

definition uuidv7 :: "uuid_state \<Rightarrow> nat \<Rightarrow> nat list \<Rightarrow> uuid_state \<times> js_string" where
  "uuidv7 st timestamp random =
     (let st' = uuid_advance st timestamp random
      in (st', formatUuid (uuid_bytes (the (lastTimestamp st')) (uuid_sequence st') random)))"

fun uuid_run :: "uuid_state \<Rightarrow> (nat \<times> nat list) list \<Rightarrow> js_string list" where
  "uuid_run st [] = []"
| "uuid_run st ((t, r) # calls) = (case uuidv7 st t r of (st', i) \<Rightarrow> i # uuid_run st' calls)"

subsection \<open>Mixed-radix digits\<close>

text \<open>The bases are listed from the least significant digit, the digits from the most.\<close>

fun digits :: "nat list \<Rightarrow> nat \<Rightarrow> nat list" where
  "digits [] x = []"
| "digits (b # bs) x = digits bs (x div b) @ [x mod b]"

lemma length_digits [simp]: "length (digits bs x) = length bs"
  by (induction bs arbitrary: x) auto

lemma append_less_iff:
  "length xs = length ys \<Longrightarrow>
     (xs @ us < ys @ vs) = (xs < ys \<or> xs = ys \<and> us < (vs :: 'a :: linorder list))"
  by (induction xs ys rule: list_induct2) auto

lemma digits_mono:
  "x < y \<Longrightarrow> y < prod_list bs \<Longrightarrow> 0 \<notin> set bs \<Longrightarrow> digits bs x < digits bs y"
proof (induction bs arbitrary: x y)
  case (Cons b bs)
  show ?case
  proof (cases "x div b = y div b")
    case True
    then have "x mod b < y mod b"
      using Cons.prems(1) by (metis div_mult_mod_eq nat_add_left_cancel_less)
    then show ?thesis using True by (simp add: append_less_iff)
  next
    case False
    then have "x div b < y div b"
      using Cons.prems(1) div_le_mono [of x y b] by (simp add: order_le_less)
    moreover have "y div b < prod_list bs"
      using Cons.prems(2,3) by (simp add: div_less_iff_less_mult mult.commute)
    ultimately show ?thesis using Cons by (simp add: append_less_iff)
  qed
qed simp

text \<open>A list that grows position by position under strictly monotone maps keeps the order.\<close>

fun encode :: "('a \<Rightarrow> js_string) list \<Rightarrow> 'a list \<Rightarrow> js_string" where
  "encode (f # fs) (x # xs) = f x @ encode fs xs"
| "encode fs xs = []"

definition order_code :: "(nat \<Rightarrow> js_string) \<Rightarrow> bool" where
  "order_code f \<longleftrightarrow> (\<forall>d e. length (f d) = length (f e) \<and> (d < e \<longrightarrow> f d < f e))"

lemma encode_less:
  "list_all order_code fs \<Longrightarrow> length xs = length fs \<Longrightarrow> length ys = length fs \<Longrightarrow>
     length (encode fs xs) = length (encode fs ys) \<and> (xs < ys \<longrightarrow> encode fs xs < encode fs ys)"
proof (induction fs arbitrary: xs ys)
  case (Cons f fs)
  obtain x xs' where x: "xs = x # xs'" using Cons.prems(2) by (cases xs) auto
  obtain y ys' where y: "ys = y # ys'" using Cons.prems(3) by (cases ys) auto
  note xy = x y
  have IH: "length (encode fs xs') = length (encode fs ys') \<and>
      (xs' < ys' \<longrightarrow> encode fs xs' < encode fs ys')"
    by (rule Cons.IH) (use Cons.prems xy in simp_all)
  have f: "length (f x) = length (f y)" "x < y \<Longrightarrow> f x < f y"
    using Cons.prems(1) by (simp_all add: order_code_def)
  have "f x @ encode fs xs' < f y @ encode fs ys'" if "xs < ys"
  proof (cases "x < y")
    case True
    then show ?thesis using f by (simp add: append_less_iff)
  next
    case False
    then have "x = y" "xs' < ys'" using that xy by simp_all
    then show ?thesis using IH by (simp add: append_less_iff)
  qed
  then show ?case using IH f(1) xy by simp
qed simp

lemma hex_byte_less: "d < e \<Longrightarrow> hex_byte d < hex_byte e"
proof -
  assume "d < e"
  then have "d div 16 < e div 16 \<or> d div 16 = e div 16 \<and> d mod 16 < e mod 16"
    using div_le_mono [of d e 16] by (metis div_mult_mod_eq le_neq_implies_less less_imp_le nat_add_left_cancel_less)
  then show ?thesis by (auto simp: hex_byte_def hex_digit_def)
qed

lemma order_code_hex: "strict_mono g \<Longrightarrow> order_code (\<lambda>d. pre @ hex_byte (g d))"
  by (auto simp: order_code_def append_less_iff hex_byte_less strict_mono_less)
     (simp add: hex_byte_def)

subsection \<open>The bytes of an id\<close>

lemma and_masks:
  "(x :: nat) AND 255 = x mod 256" "x AND 63 = x mod 64" "x AND 15 = x mod 16" "x AND 3 = x mod 4"
  using take_bit_eq_mask [of 8 x] take_bit_eq_mask [of 6 x] take_bit_eq_mask [of 4 x]
    take_bit_eq_mask [of 2 x]
  by (simp_all add: take_bit_eq_mod mask_eq_exp_minus_1)

lemma or_disjoint: "y < 2 ^ n \<Longrightarrow> (push_bit n x) OR (y :: nat) = 2 ^ n * x + y"
proof -
  assume "y < 2 ^ n"
  then have "take_bit n y = y" by (simp add: take_bit_eq_mod)
  then have "push_bit n x AND y = 0"
    by (metis (no_types, lifting) bit_eq_iff bit_and_iff bit_push_bit_iff bit_take_bit_iff bit_0_eq
        bot_apply bot_bool_def leD)
  then show ?thesis
    by (simp add: disjunctive_add_eq_or [symmetric] push_bit_eq_mult)
qed

definition stamp_bases :: "nat list" where
  "stamp_bases = [256, 256, 256, 256, 256, 256]"

definition sequence_bases :: "nat list" where
  "sequence_bases = [64, 256, 64, 256, 16]"

text \<open>Six bytes of the time, then the 32 bits of the sequence around the version and the variant.\<close>

lemma uuid_bytes_eq:
  "\<exists>d6 d7 d8 d9 d10. digits sequence_bases s = [d6, d7, d8, d9, d10] \<and>
     uuid_bytes ts s random = digits stamp_bases ts @
       [0x70 + d6, d7, 0x80 + d8, d9, 4 * d10 + random ! 10 mod 4,
        random ! 11, random ! 12, random ! 13, random ! 14, random ! 15]"
proof -
  have "0x70 OR (z mod 16) = 0x70 + z mod 16" for z :: nat
    using or_disjoint [of "z mod 16" 4 7] by (simp add: push_bit_eq_mult)
  moreover have "0x80 OR (z mod 64) = 0x80 + z mod 64" for z :: nat
    using or_disjoint [of "z mod 64" 6 2] by (simp add: push_bit_eq_mult)
  moreover have "push_bit 2 y OR (z mod 4) = 4 * y + z mod 4" for y z :: nat
    using or_disjoint [of "z mod 4" 2 y] by simp
  ultimately show ?thesis
    by (simp add: uuid_bytes_def and_masks drop_bit_eq_div stamp_bases_def sequence_bases_def
        div_mult2_eq [symmetric])
qed

text \<open>How each digit of time and sequence is written, the last one without its two random bits.\<close>

definition uuid_codes :: "(nat \<Rightarrow> js_string) list" where
  "uuid_codes =
     [\<lambda>d. [] @ hex_byte d, \<lambda>d. [] @ hex_byte d, \<lambda>d. [] @ hex_byte d, \<lambda>d. [] @ hex_byte d,
      \<lambda>d. [45] @ hex_byte d, \<lambda>d. [] @ hex_byte d,
      \<lambda>d. [45] @ hex_byte (0x70 + d), \<lambda>d. [] @ hex_byte d,
      \<lambda>d. [45] @ hex_byte (0x80 + d), \<lambda>d. [] @ hex_byte d]"

lemma uuid_codes_order: "list_all order_code uuid_codes"
proof -
  have "order_code (\<lambda>d. pre @ hex_byte d)" "order_code (\<lambda>d. pre @ hex_byte (c + d))" for pre c
    using order_code_hex [of "\<lambda>d. d" pre] order_code_hex [of "\<lambda>d. c + d" pre]
    by (simp_all add: strict_mono_def)
  from this(1) [of "[]"] this(1) [of "[45]"] this(2) [of "[45]"]
  show ?thesis by (simp add: uuid_codes_def)
qed

lemma formatUuid_digits:
  "\<exists>tail. formatUuid (uuid_bytes ts s random) =
     encode uuid_codes (butlast (digits stamp_bases ts @ digits sequence_bases s))
     @ [45] @ hex_byte (4 * (s mod 64) + random ! 10 mod 4) @ tail"
proof -
  obtain d6 d7 d8 d9 d10 where d: "digits sequence_bases s = [d6, d7, d8, d9, d10]"
    "uuid_bytes ts s random = digits stamp_bases ts @
       [0x70 + d6, d7, 0x80 + d8, d9, 4 * d10 + random ! 10 mod 4,
        random ! 11, random ! 12, random ! 13, random ! 14, random ! 15]"
    using uuid_bytes_eq [of s ts random] by blast
  have last: "d10 = s mod 64" using d(1) by (simp add: sequence_bases_def)
  obtain d0 d1 d2 d3 d4 d5 where "digits stamp_bases ts = [d0, d1, d2, d3, d4, d5]"
    by (simp add: stamp_bases_def)
  then show ?thesis
    unfolding d
    by (intro exI [of _ "concat (map hex_byte (map (nth random) [11, 12, 13, 14, 15]))"])
      (simp add: formatUuid_def slice_def uuid_codes_def Let_def str_def last butlast_append)
qed

lemma uuid_less:
  assumes "ts < ts' \<or> ts = ts' \<and> s < s'" "ts' < 2 ^ 48" "s < 2 ^ 32" "s' < 2 ^ 32"
  shows "formatUuid (uuid_bytes ts s random) < formatUuid (uuid_bytes ts' s' random')"
proof -
  let ?D = "digits stamp_bases ts @ digits sequence_bases s"
  let ?D' = "digits stamp_bases ts' @ digits sequence_bases s'"
  have "digits stamp_bases ts < digits stamp_bases ts'" if "ts < ts'"
    by (rule digits_mono [OF that]) (use assms(2) in \<open>simp_all add: stamp_bases_def\<close>)
  moreover have "digits sequence_bases s < digits sequence_bases s'" if "s < s'"
    by (rule digits_mono [OF that]) (use assms(4) in \<open>simp_all add: sequence_bases_def\<close>)
  ultimately have less: "?D < ?D'"
    using assms(1) by (auto simp: append_less_iff)
  have split: "?D = butlast ?D @ [s mod 64]" "?D' = butlast ?D' @ [s' mod 64]"
    by (simp_all add: sequence_bases_def butlast_append)
  have len: "length (butlast ?D) = 10" "length (butlast ?D') = 10" "length uuid_codes = 10"
    by (simp_all add: sequence_bases_def stamp_bases_def uuid_codes_def)
  have cases: "butlast ?D < butlast ?D' \<or> butlast ?D = butlast ?D' \<and> s mod 64 < s' mod 64"
    using less split len append_less_iff [of "butlast ?D" "butlast ?D'" "[s mod 64]" "[s' mod 64]"]
    by (metis Cons_less_Cons less_list_code(2) order_less_irrefl)
  have enc: "length (encode uuid_codes (butlast ?D)) = length (encode uuid_codes (butlast ?D')) \<and>
    (butlast ?D < butlast ?D' \<longrightarrow> encode uuid_codes (butlast ?D) < encode uuid_codes (butlast ?D'))"
    by (rule encode_less [OF uuid_codes_order]) (use len in simp_all)
  have hex: "hex_byte (4 * (s mod 64) + random ! 10 mod 4) < hex_byte (4 * (s' mod 64) + random' ! 10 mod 4)"
    if "s mod 64 < s' mod 64"
    by (rule hex_byte_less) (use that in linarith)
  obtain t t' where "formatUuid (uuid_bytes ts s random) = encode uuid_codes (butlast ?D)
      @ [45] @ hex_byte (4 * (s mod 64) + random ! 10 mod 4) @ t"
    "formatUuid (uuid_bytes ts' s' random') = encode uuid_codes (butlast ?D')
      @ [45] @ hex_byte (4 * (s' mod 64) + random' ! 10 mod 4) @ t'"
    using formatUuid_digits by metis
  moreover have "length (hex_byte d) = length (hex_byte e)" for d e
    by (simp add: hex_byte_def)
  ultimately show ?thesis
    using cases enc hex by (auto simp: append_less_iff)
qed

subsection \<open>Successive ids\<close>

lemma uuid_advance_grows:
  assumes "uuid_sequence st < 2 ^ 32" "\<forall>b \<in> set r. b < 256" "length r = 16" "lastTimestamp st = Some l"
  shows "\<exists>l'. lastTimestamp (uuid_advance st t r) = Some l' \<and>
    uuid_sequence (uuid_advance st t r) < 2 ^ 32 \<and> l' \<le> max t (Suc l) \<and>
    (l < l' \<or> l = l' \<and> uuid_sequence st < uuid_sequence (uuid_advance st t r))"
proof -
  have b: "r ! 6 < 256" "r ! 7 < 256" "r ! 8 < 256" "r ! 9 < 256"
    using assms(2,3) by (auto intro!: bspec [OF assms(2)])
  show ?thesis
  proof (cases "l < t")
    case True
    then show ?thesis using assms(4) b by (simp add: uuid_advance_def)
  next
    case False
    show ?thesis
    proof (cases "Suc (uuid_sequence st) mod 2 ^ 32 = 0")
      case True
      then show ?thesis using False assms(4) by (simp add: uuid_advance_def Let_def)
    next
      case nz: False
      then have "Suc (uuid_sequence st) < 2 ^ 32"
        using assms(1) by (metis Suc_lessI mod_self)
      then show ?thesis using False assms(4) by (simp add: uuid_advance_def Let_def)
    qed
  qed
qed

definition good_call :: "nat \<Rightarrow> nat \<times> nat list \<Rightarrow> bool" where
  "good_call bound c \<longleftrightarrow> fst c < bound \<and> length (snd c) = 16 \<and> (\<forall>b \<in> set (snd c). b < 256)"

lemma uuid_run_above:
  assumes "lastTimestamp st = Some l" "l + length calls < 2 ^ 48" "uuid_sequence st < 2 ^ 32"
    and "\<forall>c \<in> set calls. good_call (2 ^ 48 - length calls) c"
  shows "sorted_wrt (<) (formatUuid (uuid_bytes l (uuid_sequence st) r0) # uuid_run st calls)"
  using assms
proof (induction calls arbitrary: st l r0)
  case (Cons c calls)
  obtain t r where c: "c = (t, r)" by (cases c)
  have g: "t < 2 ^ 48 - length (c # calls)" "length r = 16" "\<forall>b \<in> set r. b < 256"
    using Cons.prems(4) c by (auto simp: good_call_def)
  let ?st = "uuid_advance st t r"
  obtain l' where l': "lastTimestamp ?st = Some l'" "uuid_sequence ?st < 2 ^ 32" "l' \<le> max t (Suc l)"
    "l < l' \<or> l = l' \<and> uuid_sequence st < uuid_sequence ?st"
    using uuid_advance_grows [OF Cons.prems(3) g(3,2) Cons.prems(1)] by blast
  have bound: "l' + length calls < 2 ^ 48"
    using l'(3) g(1) Cons.prems(2) by (auto simp: max_def split: if_splits)
  let ?i = "formatUuid (uuid_bytes l' (uuid_sequence ?st) r)"
  have less: "formatUuid (uuid_bytes l (uuid_sequence st) r0) < ?i"
    by (rule uuid_less [OF l'(4)]) (use bound Cons.prems(3) l'(2) in auto)
  have "sorted_wrt (<) (?i # uuid_run ?st calls)"
    by (rule Cons.IH [OF l'(1) bound l'(2)])
      (use Cons.prems(4) in \<open>auto simp: good_call_def intro: less_le_trans\<close>)
  then show ?case using less c l'(1)
    by (auto simp: uuidv7_def Let_def)
qed simp

text \<open>
  C22: The ids of successive calls are strictly increasing as strings, and so all different,
  whatever the clock reads (it may stand still or go back between calls) and whatever the random
  bytes are, while the clock stays below \<open>2^48\<close> ms (the year 10889) less the number of calls.
\<close>

theorem uuidv7_strictly_increasing:
  assumes "\<forall>c \<in> set calls. good_call (2 ^ 48 - length calls) c"
  shows "sorted_wrt (<) (uuid_run uuid_init calls) \<and> distinct (uuid_run uuid_init calls)"
proof -
  have "sorted_wrt (<) (uuid_run uuid_init calls)"
  proof (cases calls)
    case (Cons c cs)
    obtain t r where c: "c = (t, r)" by (cases c)
    let ?st = "uuid_advance uuid_init t r"
    have g: "t < 2 ^ 48 - Suc (length cs)" "length r = 16" "\<forall>b \<in> set r. b < 256"
      using assms c Cons by (auto simp: good_call_def)
    then have "r ! 6 < 256" "r ! 7 < 256" "r ! 8 < 256" "r ! 9 < 256"
      by (auto intro!: bspec [OF g(3)])
    then have st: "lastTimestamp ?st = Some t" "uuid_sequence ?st < 2 ^ 32"
      by (simp_all add: uuid_advance_def uuid_init_def)
    have "sorted_wrt (<) (formatUuid (uuid_bytes t (uuid_sequence ?st) r) # uuid_run ?st cs)"
      by (rule uuid_run_above [OF st(1) _ st(2)])
        (use assms g(1) c Cons in \<open>auto simp: good_call_def intro: less_le_trans\<close>)
    then show ?thesis using Cons c st(1) by (simp add: uuidv7_def Let_def)
  qed simp
  moreover have "sorted_wrt (<) xs \<Longrightarrow> distinct xs" for xs :: "js_string list"
    by (induction xs) auto
  ultimately show ?thesis by simp
qed

definition demo_calls :: "(nat \<times> nat list) list" where
  "demo_calls = [(1000, replicate 16 255), (1000, replicate 16 0), (900, replicate 16 7)]"

lemma demo_calls_good: "\<forall>c \<in> set demo_calls. good_call (2 ^ 48 - length demo_calls) c"
  by (simp add: demo_calls_def good_call_def)

lemma demo_stamps:
  "lastTimestamp (uuid_advance (uuid_advance uuid_init 1000 (replicate 16 255)) 1000 (replicate 16 0))
     = Some 1001"
  by (simp add: uuid_advance_def uuid_init_def Let_def)

theorem uuidv7_strictly_increasing_witness:
  "sorted_wrt (<) (uuid_run uuid_init demo_calls) \<and> distinct (uuid_run uuid_init demo_calls)
    \<and> lastTimestamp (uuid_advance (uuid_advance uuid_init 1000 (replicate 16 255)) 1000 (replicate 16 0))
        = Some 1001"
  using uuidv7_strictly_increasing [OF demo_calls_good] demo_stamps by blast

end
