(* ===== verification/JsonlStorage.thy ===== *)
theory JsonlStorage
  imports Session
begin

text \<open>
  \<open>packages/agent/src/harness/session/jsonl-storage.ts\<close>: the session storage on a file of JSON
  lines.  An entry is the JSON object of its line, since the loader checks only the fields it
  uses.  \<open>JSON.parse\<close> is the argument \<open>parse\<close> (None is a syntax error), the file system the
  argument \<open>fsys\<close>, whose state \<open>'w\<close> every operation passes on.
\<close>

subsection \<open>The file system interface\<close>

datatype file_error_code =
    FileAborted | FileNotFound | FilePermissionDenied | NotADirectory | IsADirectory | InvalidPath | UnknownError

datatype file_error = FileError file_error_code js_string

record 'w file_system =
  fs_readTextFile :: "'w \<Rightarrow> js_string \<Rightarrow> file_error + js_string"
  fs_writeFile :: "'w \<Rightarrow> js_string \<Rightarrow> js_string \<Rightarrow> file_error + 'w"
  fs_appendFile :: "'w \<Rightarrow> js_string \<Rightarrow> js_string \<Rightarrow> file_error + 'w"

definition getFileSystemResultOrThrow :: "file_error + 'a \<Rightarrow> js_string \<Rightarrow> 'a session_result" where
  "getFileSystemResultOrThrow result message =
     (case result of
        Inl (FileError code msg) \<Rightarrow>
          Inl (SessionError (if code = FileNotFound then NotFound else StorageError)
                 (message @ str '': '' @ msg))
      | Inr v \<Rightarrow> Inr v)"

subsection \<open>The header and the entries\<close>

record session_header =
  h_id :: js_string
  h_timestamp :: js_string
  h_cwd :: js_string
  h_parentSession :: "js_string option"

record jsonl_session_metadata =
  jm_id :: js_string
  jm_createdAt :: js_string
  jm_cwd :: js_string
  jm_path :: js_string
  jm_parentSessionPath :: "js_string option"

fun isRecord :: "json \<Rightarrow> bool" where
  "isRecord (JObj _) = True"
| "isRecord (JArr _) = True"
| "isRecord _ = False"

definition invalidSession :: "js_string \<Rightarrow> js_string \<Rightarrow> session_error" where
  "invalidSession filePath message =
     SessionError InvalidSession (str ''Invalid JSONL session file '' @ filePath @ str '': '' @ message)"

definition invalidEntry :: "js_string \<Rightarrow> nat \<Rightarrow> js_string \<Rightarrow> session_error" where
  "invalidEntry filePath lineNumber message =
     SessionError InvalidEntry (str ''Invalid JSONL session file '' @ filePath @ str '': line ''
       @ show_nat lineNumber @ str '' '' @ message)"

text \<open>A string field that is there and not empty.\<close>

definition filled_string :: "json option \<Rightarrow> bool" where
  "filled_string v = (case json_string v of None \<Rightarrow> False | Some s \<Rightarrow> s \<noteq> [])"

definition nullable_string :: "json option \<Rightarrow> bool" where
  "nullable_string v = (v = Some JNull \<or> json_string v \<noteq> None)"

definition string_field :: "json \<Rightarrow> string \<Rightarrow> js_string" where
  "string_field v k = the (json_string (json_get v (str k)))"

definition parseHeaderLine ::
  "(js_string \<Rightarrow> json option) \<Rightarrow> js_string \<Rightarrow> js_string \<Rightarrow> session_header session_result" where
  "parseHeaderLine parse line filePath =
     (case parse line of
        None \<Rightarrow> Inl (invalidSession filePath (str ''first line is not a valid session header''))
      | Some v \<Rightarrow>
          if \<not> isRecord v
          then Inl (invalidSession filePath (str ''first line is not a valid session header''))
          else if json_get v (str ''type'') \<noteq> Some (JStr (str ''session''))
          then Inl (invalidSession filePath (str ''first line is not a valid session header''))
          else if json_get v (str ''version'') \<noteq> Some (JNum 3)
          then Inl (invalidSession filePath (str ''unsupported session version''))
          else if \<not> filled_string (json_get v (str ''id''))
          then Inl (invalidSession filePath (str ''session header is missing id''))
          else if \<not> filled_string (json_get v (str ''timestamp''))
          then Inl (invalidSession filePath (str ''session header is missing timestamp''))
          else if \<not> filled_string (json_get v (str ''cwd''))
          then Inl (invalidSession filePath (str ''session header is missing cwd''))
          else if json_get v (str ''parentSession'') \<noteq> None
               \<and> json_string (json_get v (str ''parentSession'')) = None
          then Inl (invalidSession filePath (str ''session header parentSession must be a string''))
          else Inr \<lparr>h_id = string_field v ''id'', h_timestamp = string_field v ''timestamp'',
                    h_cwd = string_field v ''cwd'',
                    h_parentSession = json_string (json_get v (str ''parentSession''))\<rparr>)"

definition is_leaf_entry :: "json \<Rightarrow> bool" where
  "is_leaf_entry v \<longleftrightarrow> json_get v (str ''type'') = Some (JStr (str ''leaf''))"

definition parseEntryLine ::
  "(js_string \<Rightarrow> json option) \<Rightarrow> js_string \<Rightarrow> js_string \<Rightarrow> nat \<Rightarrow> json session_result" where
  "parseEntryLine parse line filePath lineNumber =
     (case parse line of
        None \<Rightarrow> Inl (invalidEntry filePath lineNumber (str ''is not valid JSON''))
      | Some v \<Rightarrow>
          if \<not> isRecord v
          then Inl (invalidEntry filePath lineNumber (str ''is not a valid session entry''))
          else if json_string (json_get v (str ''type'')) = None
          then Inl (invalidEntry filePath lineNumber (str ''is missing entry type''))
          else if \<not> filled_string (json_get v (str ''id''))
          then Inl (invalidEntry filePath lineNumber (str ''is missing entry id''))
          else if \<not> nullable_string (json_get v (str ''parentId''))
          then Inl (invalidEntry filePath lineNumber (str ''has invalid parentId''))
          else if \<not> filled_string (json_get v (str ''timestamp''))
          then Inl (invalidEntry filePath lineNumber (str ''is missing timestamp''))
          else if is_leaf_entry v \<and> \<not> nullable_string (json_get v (str ''targetId''))
          then Inl (invalidEntry filePath lineNumber (str ''has invalid targetId''))
          else Inr v)"

definition je_id :: "json \<Rightarrow> js_string" where
  "je_id v = string_field v ''id''"

definition je_parentId :: "json \<Rightarrow> js_string option" where
  "je_parentId v = json_string (json_get v (str ''parentId''))"

definition jsonl_leafIdAfterEntry :: "json \<Rightarrow> js_string option" where
  "jsonl_leafIdAfterEntry v =
     (if is_leaf_entry v then json_string (json_get v (str ''targetId'')) else Some (je_id v))"

text \<open>
  The label cache: a \<open>label\<close> that is absent or null deletes, one that is no string makes
  \<open>label?.trim()\<close> throw.  The key is the value of \<open>targetId\<close>, which is not checked.
\<close>

definition jsonl_updateLabelCache ::
  "(json option, js_string) js_map \<Rightarrow> json \<Rightarrow> (json option, js_string) js_map option" where
  "jsonl_updateLabelCache labels v =
     (if json_get v (str ''type'') \<noteq> Some (JStr (str ''label'')) then Some labels
      else (let target = json_get v (str ''targetId'')
            in case json_get v (str ''label'') of
                 None \<Rightarrow> Some (map_delete labels target)
               | Some JNull \<Rightarrow> Some (map_delete labels target)
               | Some (JStr l) \<Rightarrow>
                   if trim l \<noteq> [] then Some (map_set labels target (trim l))
                   else Some (map_delete labels target)
               | Some _ \<Rightarrow> None))"

fun jsonl_buildLabels ::
  "(json option, js_string) js_map \<Rightarrow> json list \<Rightarrow> (json option, js_string) js_map option" where
  "jsonl_buildLabels labels [] = Some labels"
| "jsonl_buildLabels labels (v # vs) =
     (case jsonl_updateLabelCache labels v of
        None \<Rightarrow> None
      | Some labels' \<Rightarrow> jsonl_buildLabels labels' vs)"

definition SESSION_RECOVERY_HINT :: js_string where
  "SESSION_RECOVERY_HINT = str (''Run `pie --list-sessions` to see the sessions for this directory, then `pie --resume-id <ID>` to open ''
     @ ''the newest one that still loads. Plain `pie` starts a fresh session.'')"

fun withRecoveryHint :: "session_error \<Rightarrow> session_error" where
  "withRecoveryHint (SessionError code message) =
     SessionError code (message @ [10] @ SESSION_RECOVERY_HINT)"
| "withRecoveryHint err = err"

record salvaged_tail =
  sv_filePath :: js_string
  sv_sessionId :: js_string
  sv_lineNumber :: nat
  sv_keptEntries :: nat

definition formatSalvagedTailNotice :: "salvaged_tail \<Rightarrow> js_string" where
  "formatSalvagedTailNotice s =
     str ''Warning: session '' @ sv_sessionId s @ str '': discarded a partial final entry (line ''
     @ show_nat (sv_lineNumber s) @ str '' of '' @ sv_filePath s
     @ str '') left by an interrupted write; kept '' @ show_nat (sv_keptEntries s)
     @ str '' complete '' @ (if sv_keptEntries s = 1 then str ''entry'' else str ''entries'')
     @ str '' and truncated the file to that healthy prefix.''"

definition headerToSessionMetadata :: "session_header \<Rightarrow> js_string \<Rightarrow> jsonl_session_metadata" where
  "headerToSessionMetadata h path =
     \<lparr>jm_id = h_id h, jm_createdAt = h_timestamp h, jm_cwd = h_cwd h, jm_path = path,
      jm_parentSessionPath = h_parentSession h\<rparr>"

subsection \<open>Loading a file\<close>

text \<open>The search for the last line that is not blank, downwards and never past the first one.\<close>

fun last_content :: "js_string list \<Rightarrow> nat \<Rightarrow> nat \<Rightarrow> nat" where
  "last_content raw first 0 = first"
| "last_content raw first (Suc i) =
     (if Suc i \<le> first then first
      else if trim (raw ! Suc i) \<noteq> [] then Suc i
      else last_content raw first i)"

text \<open>The loop over the lines after the header: \<open>i\<close> is the index of the first of \<open>lines\<close>.\<close>

fun load_loop ::
  "(js_string \<Rightarrow> json option) \<Rightarrow> js_string \<Rightarrow> js_string \<Rightarrow> nat \<Rightarrow> nat \<Rightarrow> json list \<Rightarrow>
     js_string option \<Rightarrow> js_string list \<Rightarrow>
     (json list \<times> js_string option \<times> salvaged_tail option) session_result" where
  "load_loop parse filePath sid lastIdx i es leaf [] = Inr (es, leaf, None)"
| "load_loop parse filePath sid lastIdx i es leaf (line # lines) =
     (if lastIdx < i then Inr (es, leaf, None)
      else if trim line = [] then load_loop parse filePath sid lastIdx (Suc i) es leaf lines
      else (case parseEntryLine parse line filePath (Suc i) of
              Inl err \<Rightarrow>
                if i \<noteq> lastIdx then Inl (withRecoveryHint err)
                else Inr (es, leaf, Some \<lparr>sv_filePath = filePath, sv_sessionId = sid,
                                          sv_lineNumber = Suc i, sv_keptEntries = length es\<rparr>)
            | Inr e \<Rightarrow>
                load_loop parse filePath sid lastIdx (Suc i) (es @ [e]) (jsonl_leafIdAfterEntry e) lines))"

record jsonl_loaded =
  ld_header :: session_header
  ld_entries :: "json list"
  ld_leafId :: "js_string option"
  ld_salvaged :: "(salvaged_tail \<times> js_string) option"   \<comment> \<open>with \<open>repairedContent\<close>\<close>

definition load_content ::
  "(js_string \<Rightarrow> json option) \<Rightarrow> js_string \<Rightarrow> js_string \<Rightarrow> jsonl_loaded session_result" where
  "load_content parse filePath content =
     (let rawLines = js_split 10 content;
          first = length (takeWhile (\<lambda>l. trim l = []) rawLines)
      in if first = length rawLines
         then Inl (withRecoveryHint (invalidSession filePath (str ''missing session header'')))
         else (let lastIdx = last_content rawLines first (length rawLines - 1)
               in case parseHeaderLine parse (rawLines ! first) filePath of
                    Inl err \<Rightarrow> Inl (withRecoveryHint err)
                  | Inr header \<Rightarrow>
                      (case load_loop parse filePath (h_id header) lastIdx (Suc first) [] None
                              (drop (Suc first) rawLines) of
                         Inl err \<Rightarrow> Inl err
                       | Inr (es, leaf, salvaged) \<Rightarrow>
                           Inr \<lparr>ld_header = header, ld_entries = es, ld_leafId = leaf,
                                ld_salvaged = map_option (\<lambda>s. (s,
                                  js_join [10] (take lastIdx rawLines) @ [10])) salvaged\<rparr>)))"

definition loadJsonlStorage ::
  "(js_string \<Rightarrow> json option) \<Rightarrow> 'w file_system \<Rightarrow> 'w \<Rightarrow> js_string \<Rightarrow> jsonl_loaded session_result" where
  "loadJsonlStorage parse fsys w filePath =
     (case getFileSystemResultOrThrow (fs_readTextFile fsys w filePath)
             (str ''Failed to read session '' @ filePath) of
        Inl err \<Rightarrow> Inl err
      | Inr content \<Rightarrow> load_content parse filePath content)"

definition loadJsonlSessionMetadata ::
  "(js_string \<Rightarrow> json option) \<Rightarrow> js_string \<Rightarrow> file_error + js_string list \<Rightarrow>
     jsonl_session_metadata session_result" where
  "loadJsonlSessionMetadata parse filePath readLines =
     (case getFileSystemResultOrThrow readLines (str ''Failed to read session header '' @ filePath) of
        Inl err \<Rightarrow> Inl err
      | Inr [] \<Rightarrow> Inl (invalidSession filePath (str ''missing session header''))
      | Inr (line # _) \<Rightarrow>
          if trim line \<noteq> []
          then (case parseHeaderLine parse line filePath of
                  Inl err \<Rightarrow> Inl err
                | Inr h \<Rightarrow> Inr (headerToSessionMetadata h filePath))
          else Inl (invalidSession filePath (str ''missing session header'')))"

subsection \<open>JsonlSessionStorage\<close>

record jsonl_storage =
  js_filePath :: js_string
  js_metadata :: jsonl_session_metadata
  js_entries :: "json list"
  js_byId :: "(js_string, json) js_map"
  js_labels :: "(json option, js_string) js_map"
  js_currentLeafId :: "js_string option"

definition jsonl_byId :: "json list \<Rightarrow> (js_string, json) js_map" where
  "jsonl_byId es = map_of_entries (map (\<lambda>e. (je_id e, e)) es)"

definition new_JsonlSessionStorage ::
  "js_string \<Rightarrow> session_header \<Rightarrow> json list \<Rightarrow> js_string option \<Rightarrow> jsonl_storage session_result" where
  "new_JsonlSessionStorage filePath header es leafId =
     (case jsonl_buildLabels [] es of
        None \<Rightarrow> Inl JsTypeError
      | Some labels \<Rightarrow>
          Inr \<lparr>js_filePath = filePath, js_metadata = headerToSessionMetadata header filePath,
               js_entries = es, js_byId = jsonl_byId es, js_labels = labels,
               js_currentLeafId = leafId\<rparr>)"

text \<open>\<open>open\<close>: the storage, the repaired file and the notice on standard error.\<close>

definition jsonl_open ::
  "(js_string \<Rightarrow> json option) \<Rightarrow> 'w file_system \<Rightarrow> 'w \<Rightarrow> js_string \<Rightarrow>
     (jsonl_storage \<times> 'w \<times> js_string option) session_result" where
  "jsonl_open parse fsys w filePath =
     (case loadJsonlStorage parse fsys w filePath of
        Inl err \<Rightarrow> Inl err
      | Inr ld \<Rightarrow>
          (case ld_salvaged ld of
             None \<Rightarrow>
               (case new_JsonlSessionStorage filePath (ld_header ld) (ld_entries ld) (ld_leafId ld) of
                  Inl err \<Rightarrow> Inl err
                | Inr st \<Rightarrow> Inr (st, w, None))
           | Some (salvaged, repaired) \<Rightarrow>
               (case getFileSystemResultOrThrow (fs_writeFile fsys w filePath repaired)
                       (str ''Failed to repair session '' @ filePath
                        @ str '' after dropping its partial final entry'') of
                  Inl err \<Rightarrow> Inl err
                | Inr w' \<Rightarrow>
                    (case new_JsonlSessionStorage filePath (ld_header ld) (ld_entries ld) (ld_leafId ld) of
                       Inl err \<Rightarrow> Inl err
                     | Inr st \<Rightarrow> Inr (st, w', Some (formatSalvagedTailNotice salvaged))))))"

definition header_json :: "session_header \<Rightarrow> json" where
  "header_json h =
     JObj ([(str ''type'', JStr (str ''session'')), (str ''version'', JNum 3), (str ''id'', JStr (h_id h)),
            (str ''timestamp'', JStr (h_timestamp h)), (str ''cwd'', JStr (h_cwd h))]
           @ (case h_parentSession h of None \<Rightarrow> [] | Some p \<Rightarrow> [(str ''parentSession'', JStr p)]))"

definition jsonl_line :: "json \<Rightarrow> js_string" where
  "jsonl_line v = json_stringify v @ [10]"

definition jsonl_create ::
  "'w file_system \<Rightarrow> 'w \<Rightarrow> js_string \<Rightarrow> session_header \<Rightarrow> (jsonl_storage \<times> 'w) session_result" where
  "jsonl_create fsys w filePath header =
     (case getFileSystemResultOrThrow (fs_writeFile fsys w filePath (jsonl_line (header_json header)))
             (str ''Failed to create session '' @ filePath) of
        Inl err \<Rightarrow> Inl err
      | Inr w' \<Rightarrow>
          (case new_JsonlSessionStorage filePath header [] None of
             Inl err \<Rightarrow> Inl err
           | Inr st \<Rightarrow> Inr (st, w')))"

definition jsonl_getLeafId :: "jsonl_storage \<Rightarrow> js_string option session_result" where
  "jsonl_getLeafId st =
     (case js_currentLeafId st of
        None \<Rightarrow> Inr None
      | Some i \<Rightarrow>
          if map_get (js_byId st) i = None
          then Inl (SessionError InvalidSession (str ''Entry '' @ i @ str '' not found''))
          else Inr (Some i))"

definition jsonl_getEntry :: "jsonl_storage \<Rightarrow> js_string \<Rightarrow> json option" where
  "jsonl_getEntry st i = map_get (js_byId st) i"

definition jsonl_getPathToRoot :: "jsonl_storage \<Rightarrow> js_string option \<Rightarrow> json list session_result" where
  "jsonl_getPathToRoot st leafId = path_to_root je_parentId (js_byId st) leafId"

definition jsonl_getLabel :: "jsonl_storage \<Rightarrow> js_string \<Rightarrow> js_string option" where
  "jsonl_getLabel st i = map_get (js_labels st) (Some (JStr i))"

definition jsonl_findEntries :: "jsonl_storage \<Rightarrow> js_string \<Rightarrow> json list" where
  "jsonl_findEntries st type = filter (\<lambda>e. json_get e (str ''type'') = Some (JStr type)) (js_entries st)"

text \<open>
  \<open>appendEntry\<close>: the line is on the file before the storage changes.  The entries a session
  appends have a string label, so that the cache never throws for them.
\<close>

definition jsonl_appendEntry ::
  "'w file_system \<Rightarrow> jsonl_storage \<times> 'w \<Rightarrow> json \<Rightarrow> (jsonl_storage \<times> 'w) session_result" where
  "jsonl_appendEntry fsys s e =
     (case s of (st, w) \<Rightarrow>
        (case getFileSystemResultOrThrow (fs_appendFile fsys w (js_filePath st) (jsonl_line e))
                (str ''Failed to append session entry '' @ je_id e) of
           Inl err \<Rightarrow> Inl err
         | Inr w' \<Rightarrow>
             (case jsonl_updateLabelCache (js_labels st) e of
                None \<Rightarrow> Inl JsTypeError
              | Some labels \<Rightarrow>
                  Inr (st\<lparr>js_entries := js_entries st @ [e],
                          js_byId := map_set (js_byId st) (je_id e) e,
                          js_labels := labels,
                          js_currentLeafId := jsonl_leafIdAfterEntry e\<rparr>, w'))))"

definition leaf_json :: "js_string \<Rightarrow> js_string option \<Rightarrow> js_string \<Rightarrow> js_string option \<Rightarrow> json" where
  "leaf_json i parentId now target =
     JObj [(str ''type'', JStr (str ''leaf'')), (str ''id'', JStr i),
           (str ''parentId'', case parentId of None \<Rightarrow> JNull | Some p \<Rightarrow> JStr p),
           (str ''timestamp'', JStr now),
           (str ''targetId'', case target of None \<Rightarrow> JNull | Some t \<Rightarrow> JStr t)]"

definition jsonl_setLeafId ::
  "'w file_system \<Rightarrow> jsonl_storage \<times> 'w \<Rightarrow> js_string \<Rightarrow> js_string \<Rightarrow> js_string option \<Rightarrow>
     (jsonl_storage \<times> 'w) session_result" where
  "jsonl_setLeafId fsys s uuid now leafId =
     (case s of (st, w) \<Rightarrow>
        if (case leafId of None \<Rightarrow> False | Some i \<Rightarrow> map_get (js_byId st) i = None)
        then Inl (SessionError NotFound (str ''Entry '' @ the leafId @ str '' not found''))
        else (let e = leaf_json uuid (js_currentLeafId st) now leafId
              in case getFileSystemResultOrThrow (fs_appendFile fsys w (js_filePath st) (jsonl_line e))
                        (str ''Failed to append session leaf '' @ je_id e) of
                   Inl err \<Rightarrow> Inl err
                 | Inr w' \<Rightarrow>
                     Inr (st\<lparr>js_entries := js_entries st @ [e],
                             js_byId := map_set (js_byId st) (je_id e) e,
                             js_currentLeafId := leafId\<rparr>, w')))"

end
