(* ===== verification/JsonlProps.thy ===== *)
theory JsonlProps
  imports JsonlStorage
begin

text \<open>
  Durability of the JSON-lines storage: what is appended is read back by \<open>open\<close>, a torn last line
  is dropped and the file repaired, and the storage implements the interface \<open>session_storage\<close>.
\<close>

subsection \<open>Stringified values stand on one line\<close>

lemma digit_not_newline: "digit c \<Longrightarrow> c \<noteq> 10"
  by (simp add: digit_def)

lemma show_int_no_newline: "10 \<notin> set (show_int i)"
proof -
  have "10 \<notin> set (show_nat n)" for n
    using show_nat_digits [of n] digit_not_newline by blast
  then show ?thesis by (simp add: show_int_def)
qed

lemma hex_digit_no_newline: "hex_digit n \<noteq> 10"
  by (simp add: hex_digit_def)

lemma quote_unit_no_newline: "10 \<notin> set (quote_unit c)"
  by (auto simp: quote_unit_def unicode_escape_def hex4_def hex_digit_no_newline hex_digit_no_newline [symmetric])

lemma quote_units_no_newline: "10 \<notin> set (quote_units s)"
proof (induction s rule: utf16_induct)
  case (Pair c d s)
  then show ?case by (auto simp: high_surrogate_def low_surrogate_def)
next
  case (Unit c s)
  then show ?case by (auto simp: quote_unit_no_newline)
qed simp

lemma json_quote_no_newline: "10 \<notin> set (json_quote s)"
  by (simp add: json_quote_def quote_units_no_newline)

lemma js_join_set: "c \<in> set (js_join sep ls) \<Longrightarrow> c \<in> set sep \<or> (\<exists>l \<in> set ls. c \<in> set l)"
  by (induction sep ls rule: js_join.induct) auto

lemma json_stringify_no_newline: "10 \<notin> set (json_stringify v)"
proof (induction v)
  case (JBool b)
  then show ?case by (cases b) (auto simp: str_def)
next
  case (JArr vs)
  then show ?case by (auto dest!: js_join_set)
next
  case (JObj ms)
  have "10 \<notin> set (json_stringify (snd m))" if "m \<in> set ms" for m
    using JObj [of m "snd m"] that by (simp add: Basic_BNFs.snds.simps)
  then show ?case
    by (auto simp: json_quote_no_newline dest!: js_join_set)
qed (auto simp: str_def show_int_no_newline json_quote_no_newline)

lemma stringify_object_head: "\<exists>cs. json_stringify (JObj ms) = 123 # cs"
  by simp

lemma trim_brace: "trim (123 # cs) \<noteq> []"
  by (auto simp: trim_eq_Nil_iff js_space_def)

lemma trim_stringify_object [simp]: "trim (json_stringify (JObj ms)) \<noteq> []"
  using trim_brace by simp

lemma split_lines:
  "(\<And>l. l \<in> set ls \<Longrightarrow> 10 \<notin> set l) \<Longrightarrow> 10 \<notin> set t \<Longrightarrow>
     js_split 10 (concat (map (\<lambda>l. l @ [10]) ls) @ t) = ls @ [t]"
proof (induction ls)
  case Nil
  then show ?case by (simp add: js_split_single)
next
  case (Cons l ls)
  then show ?case using js_split_append [of 10 l "concat (map (\<lambda>l. l @ [10]) ls) @ t"] by simp
qed

lemma join_lines: "js_join [10] ls @ [10] = concat (map (\<lambda>l. l @ [10]) ls)" if "ls \<noteq> []"
  using that by (induction "[10 :: nat]" ls rule: js_join.induct) auto

subsection \<open>Valid headers and entries\<close>

definition entry_valid :: "json \<Rightarrow> bool" where
  "entry_valid v \<longleftrightarrow>
     (case v of JObj _ \<Rightarrow> True | _ \<Rightarrow> False)
     \<and> json_string (json_get v (str ''type'')) \<noteq> None
     \<and> filled_string (json_get v (str ''id''))
     \<and> nullable_string (json_get v (str ''parentId''))
     \<and> filled_string (json_get v (str ''timestamp''))
     \<and> (is_leaf_entry v \<longrightarrow> nullable_string (json_get v (str ''targetId'')))"

definition header_valid :: "session_header \<Rightarrow> bool" where
  "header_valid h \<longleftrightarrow> h_id h \<noteq> [] \<and> h_timestamp h \<noteq> [] \<and> h_cwd h \<noteq> []"

lemma parse_valid_entry:
  "parse (json_stringify v) = Some v \<Longrightarrow> entry_valid v \<Longrightarrow>
     parseEntryLine parse (json_stringify v) filePath n = Inr v"
  by (cases v) (auto simp: parseEntryLine_def entry_valid_def)

lemma parse_valid_header:
  "parse (json_stringify (header_json h)) = Some (header_json h) \<Longrightarrow> header_valid h \<Longrightarrow>
     parseHeaderLine parse (json_stringify (header_json h)) filePath = Inr h"
  by (cases h; cases "h_parentSession h")
    (auto simp: parseHeaderLine_def header_json_def header_valid_def filled_string_def string_field_def
      map_get_def)

lemma entry_valid_object: "entry_valid v \<Longrightarrow> \<exists>ms. v = JObj ms"
  by (cases v) (auto simp: entry_valid_def)

lemma trim_valid: "entry_valid v \<Longrightarrow> trim (json_stringify v) \<noteq> []"
  using entry_valid_object trim_stringify_object by blast

subsection \<open>The loader on a healthy file and on a torn one\<close>

definition replay_leaf :: "json list \<Rightarrow> js_string option \<Rightarrow> js_string option" where
  "replay_leaf es l = fold (\<lambda>e _. jsonl_leafIdAfterEntry e) es l"

definition file_text :: "session_header \<Rightarrow> json list \<Rightarrow> js_string" where
  "file_text h es = jsonl_line (header_json h) @ concat (map jsonl_line es)"

definition readable :: "(js_string \<Rightarrow> json option) \<Rightarrow> session_header \<Rightarrow> json list \<Rightarrow> bool" where
  "readable parse h es \<longleftrightarrow> header_valid h
     \<and> parse (json_stringify (header_json h)) = Some (header_json h)
     \<and> (\<forall>e \<in> set es. entry_valid e \<and> parse (json_stringify e) = Some e)"

lemma load_loop_entries:
  "\<forall>e \<in> set es. entry_valid e \<and> parse (json_stringify e) = Some e \<Longrightarrow>
     i + length es \<le> Suc lastIdx \<Longrightarrow>
     load_loop parse filePath sid lastIdx i done leaf (map json_stringify es @ rest) =
     load_loop parse filePath sid lastIdx (i + length es) (done @ es) (replay_leaf es leaf) rest"
proof (induction es arbitrary: i "done" leaf)
  case Nil
  then show ?case by (simp add: replay_leaf_def)
next
  case (Cons e es)
  then have "\<not> lastIdx < i" "trim (json_stringify e) \<noteq> []"
    "parseEntryLine parse (json_stringify e) filePath (Suc i) = Inr e"
    using parse_valid_entry trim_valid by auto
  then show ?case
    using Cons.IH [of "Suc i" "done @ [e]" "jsonl_leafIdAfterEntry e"] Cons.prems
    by (simp add: replay_leaf_def)
qed

lemma file_text_concat:
  "file_text h es = concat (map (\<lambda>l. l @ [10]) (map json_stringify (header_json h # es)))"
  by (simp add: file_text_def jsonl_line_def [abs_def] comp_def)

lemma file_text_lines:
  "js_split 10 (file_text h es @ t) = json_stringify (header_json h) # map json_stringify es @ [t]"
  if "10 \<notin> set t"
proof -
  have "js_split 10 (file_text h es @ t) = map json_stringify (header_json h # es) @ [t]"
    unfolding file_text_concat
    by (rule split_lines) (use that json_stringify_no_newline in auto)
  then show ?thesis by simp
qed

lemma load_healthy:
  assumes "readable parse h es"
  shows "load_content parse filePath (file_text h es) =
    Inr \<lparr>ld_header = h, ld_entries = es, ld_leafId = replay_leaf es None, ld_salvaged = None\<rparr>"
proof -
  let ?h = "json_stringify (header_json h)"
  let ?raw = "?h # map json_stringify es @ [[]]"
  have split: "js_split 10 (file_text h es) = ?raw"
    using file_text_lines [of "[]" h es] by simp
  have hd: "trim ?h \<noteq> []" using trim_brace by (simp add: header_json_def)
  have "trim (?raw ! length es) \<noteq> []"
  proof (cases es rule: rev_cases)
    case (snoc es' e)
    then have "trim (json_stringify e) \<noteq> []"
      using assms trim_valid by (auto simp: readable_def)
    then show ?thesis using snoc by (simp add: nth_append)
  qed (use hd in simp)
  then have last: "last_content ?raw 0 (Suc (length es)) = length es"
    by (cases "length es") (auto simp: nth_append)
  have parse: "parseHeaderLine parse ?h filePath = Inr h"
    using assms parse_valid_header by (auto simp: readable_def)
  have "load_loop parse filePath (h_id h) (length es) (Suc 0) [] None (map json_stringify es @ [[]]) =
      Inr (es, replay_leaf es None, None)"
    using load_loop_entries [of es parse "Suc 0" "length es" filePath "h_id h" "[]" None "[[]]"] assms
    by (simp add: readable_def)
  then show ?thesis
    using hd last parse by (simp add: load_content_def split Let_def)
qed

lemma load_torn:
  assumes "readable parse h es" "trim t \<noteq> []" "10 \<notin> set t"
    and "\<And>n. \<exists>err. parseEntryLine parse t filePath n = Inl err"
  shows "load_content parse filePath (file_text h es @ t) =
    Inr \<lparr>ld_header = h, ld_entries = es, ld_leafId = replay_leaf es None,
         ld_salvaged = Some (\<lparr>sv_filePath = filePath, sv_sessionId = h_id h,
            sv_lineNumber = length es + 2, sv_keptEntries = length es\<rparr>, file_text h es)\<rparr>"
proof -
  let ?h = "json_stringify (header_json h)"
  let ?raw = "?h # map json_stringify es @ [t]"
  have split: "js_split 10 (file_text h es @ t) = ?raw"
    using file_text_lines [of t h es] assms(3) by simp
  have hd: "trim ?h \<noteq> []" using trim_brace by (simp add: header_json_def)
  have last: "last_content ?raw 0 (Suc (length es)) = Suc (length es)"
    using assms(2) by (simp add: nth_append)
  have parse: "parseHeaderLine parse ?h filePath = Inr h"
    using assms parse_valid_header by (auto simp: readable_def)
  obtain err where "parseEntryLine parse t filePath (Suc (Suc (length es))) = Inl err"
    using assms(4) by blast
  then have loop: "load_loop parse filePath (h_id h) (Suc (length es)) (Suc 0) [] None
      (map json_stringify es @ [t]) =
      Inr (es, replay_leaf es None, Some \<lparr>sv_filePath = filePath, sv_sessionId = h_id h,
            sv_lineNumber = length es + 2, sv_keptEntries = length es\<rparr>)"
    using load_loop_entries [of es parse "Suc 0" "Suc (length es)" filePath "h_id h" "[]" None "[t]"]
      assms(1,2)
    by (simp add: readable_def)
  have "js_join [10] (?h # map json_stringify es) @ [10] = file_text h es"
    using join_lines [of "?h # map json_stringify es"] by (simp only: file_text_concat list.map) simp
  then show ?thesis
    using hd last parse loop by (simp add: load_content_def split Let_def)
qed

subsection \<open>The storage on its file\<close>

text \<open>
  What is relied on of the file system: what is written is read back, what is appended is read
  back behind the old content.  The text written is free of lone surrogates
  (\<open>JSON.stringify\<close> escapes them), so that the UTF-8 encoding is reversible.
\<close>

definition fs_laws :: "'w file_system \<Rightarrow> bool" where
  "fs_laws fsys \<longleftrightarrow>
     (\<forall>w path c w'. fs_writeFile fsys w path c = Inr w' \<longrightarrow> fs_readTextFile fsys w' path = Inr c)
     \<and> (\<forall>w path c w' old. fs_appendFile fsys w path c = Inr w' \<longrightarrow> fs_readTextFile fsys w path = Inr old
          \<longrightarrow> fs_readTextFile fsys w' path = Inr (old @ c))"

text \<open>The storage is the replay of its entries.\<close>

definition jsonl_inv :: "jsonl_storage \<times> 'w \<Rightarrow> bool" where
  "jsonl_inv s \<longleftrightarrow> js_byId (fst s) = jsonl_byId (js_entries (fst s))
     \<and> jsonl_buildLabels [] (js_entries (fst s)) = Some (js_labels (fst s))
     \<and> js_currentLeafId (fst s) = replay_leaf (js_entries (fst s)) None"

definition on_file :: "'w file_system \<Rightarrow> session_header \<Rightarrow> jsonl_storage \<times> 'w \<Rightarrow> bool" where
  "on_file fsys h s \<longleftrightarrow> js_metadata (fst s) = headerToSessionMetadata h (js_filePath (fst s))
     \<and> fs_readTextFile fsys (snd s) (js_filePath (fst s)) = Inr (file_text h (js_entries (fst s)))"

lemma jsonl_byId_append: "jsonl_byId (es @ [e]) = map_set (jsonl_byId es) (je_id e) e"
  by (simp add: jsonl_byId_def map_of_entries_def)

lemma jsonl_buildLabels_append:
  "jsonl_buildLabels m es = Some m' \<Longrightarrow> jsonl_buildLabels m (es @ [e]) = jsonl_updateLabelCache m' e"
  by (induction es arbitrary: m) (auto split: option.splits)

lemma replay_leaf_append [simp]: "replay_leaf (es @ [e]) l = jsonl_leafIdAfterEntry e"
  by (simp add: replay_leaf_def)

lemma result_Inr [simp]: "getFileSystemResultOrThrow r m = Inr v \<longleftrightarrow> r = Inr v"
  by (cases r) (auto simp: getFileSystemResultOrThrow_def split: file_error.splits)

lemma result_Inl: "getFileSystemResultOrThrow (Inl e) m \<noteq> Inr v"
  by simp

lemma appendEntry_Inr:
  "jsonl_appendEntry fsys s e = Inr s' \<longleftrightarrow>
     (\<exists>w labels. fs_appendFile fsys (snd s) (js_filePath (fst s)) (jsonl_line e) = Inr w
        \<and> jsonl_updateLabelCache (js_labels (fst s)) e = Some labels
        \<and> s' = ((fst s)\<lparr>js_entries := js_entries (fst s) @ [e],
                 js_byId := map_set (js_byId (fst s)) (je_id e) e, js_labels := labels,
                 js_currentLeafId := jsonl_leafIdAfterEntry e\<rparr>, w))"
  by (cases s; cases "fs_appendFile fsys (snd s) (js_filePath (fst s)) (jsonl_line e)")
    (auto simp: jsonl_appendEntry_def getFileSystemResultOrThrow_def split: option.splits file_error.splits)

lemma setLeafId_Inr:
  "jsonl_setLeafId fsys s uuid now l = Inr s' \<longleftrightarrow>
     (\<exists>w. (case l of None \<Rightarrow> True | Some i \<Rightarrow> map_get (js_byId (fst s)) i \<noteq> None)
        \<and> fs_appendFile fsys (snd s) (js_filePath (fst s))
             (jsonl_line (leaf_json uuid (js_currentLeafId (fst s)) now l)) = Inr w
        \<and> s' = ((fst s)\<lparr>js_entries := js_entries (fst s) @ [leaf_json uuid (js_currentLeafId (fst s)) now l],
                 js_byId := map_set (js_byId (fst s)) (je_id (leaf_json uuid (js_currentLeafId (fst s)) now l))
                   (leaf_json uuid (js_currentLeafId (fst s)) now l),
                 js_currentLeafId := l\<rparr>, w))"
  by (cases s; cases "fs_appendFile fsys (snd s) (js_filePath (fst s))
        (jsonl_line (leaf_json uuid (js_currentLeafId (fst s)) now l))"; cases l)
    (auto simp: jsonl_setLeafId_def Let_def getFileSystemResultOrThrow_def split: file_error.splits)

lemma leaf_json_after [simp]: "jsonl_leafIdAfterEntry (leaf_json i p now l) = l"
  by (cases l) (auto simp: leaf_json_def jsonl_leafIdAfterEntry_def is_leaf_entry_def map_get_def)

lemma leaf_json_labels [simp]: "jsonl_updateLabelCache labels (leaf_json i p now l) = Some labels"
  by (simp add: leaf_json_def jsonl_updateLabelCache_def map_get_def)

lemma jsonl_inv_append:
  "jsonl_inv s \<Longrightarrow> jsonl_appendEntry fsys s e = Inr s' \<Longrightarrow> jsonl_inv s'"
  by (auto simp: appendEntry_Inr jsonl_inv_def jsonl_byId_append jsonl_buildLabels_append)

lemma jsonl_inv_setLeafId:
  "jsonl_inv s \<Longrightarrow> jsonl_setLeafId fsys s uuid now l = Inr s' \<Longrightarrow> jsonl_inv s'"
  by (auto simp: setLeafId_Inr jsonl_inv_def jsonl_byId_append jsonl_buildLabels_append)

lemma file_text_append: "file_text h (es @ [e]) = file_text h es @ jsonl_line e"
  by (simp add: file_text_def)

lemma on_file_append:
  "fs_laws fsys \<Longrightarrow> on_file fsys h s \<Longrightarrow> jsonl_appendEntry fsys s e = Inr s' \<Longrightarrow> on_file fsys h s'"
  by (auto simp: appendEntry_Inr on_file_def fs_laws_def file_text_append)

lemma on_file_setLeafId:
  "fs_laws fsys \<Longrightarrow> on_file fsys h s \<Longrightarrow> jsonl_setLeafId fsys s uuid now l = Inr s' \<Longrightarrow> on_file fsys h s'"
  by (auto simp: setLeafId_Inr on_file_def fs_laws_def file_text_append)

interpretation jl: session_storage jsonl_inv je_id je_parentId "\<lambda>e. \<not> is_leaf_entry e"
  "\<lambda>s. js_currentLeafId (fst s)" "\<lambda>s. jsonl_getEntry (fst s)" "\<lambda>s. jsonl_getPathToRoot (fst s)"
  "jsonl_appendEntry fsys" for fsys :: "'w file_system"
proof unfold_locales
  fix s s' :: "jsonl_storage \<times> 'w" and e p l i
  assume app: "jsonl_appendEntry fsys s e = Inr s'"
  then obtain labels w where s': "s' = ((fst s)\<lparr>js_entries := js_entries (fst s) @ [e],
      js_byId := map_set (js_byId (fst s)) (je_id e) e, js_labels := labels,
      js_currentLeafId := jsonl_leafIdAfterEntry e\<rparr>, w)"
    unfolding appendEntry_Inr by blast
  show "jsonl_getEntry (fst s') i = (if i = je_id e then Some e else jsonl_getEntry (fst s) i)"
    by (simp add: jsonl_getEntry_def s')
  show "\<not> is_leaf_entry e \<Longrightarrow> js_currentLeafId (fst s') = Some (je_id e)"
    by (simp add: s' jsonl_leafIdAfterEntry_def)
  show "jsonl_inv s \<Longrightarrow> jsonl_inv s'"
    using app jsonl_inv_append by blast
  assume fresh: "jsonl_getEntry (fst s) (je_id e) = None"
  show "jsonl_getPathToRoot (fst s) (je_parentId e) = Inr p \<Longrightarrow>
      jsonl_getPathToRoot (fst s') (Some (je_id e)) = Inr (p @ [e])"
    using fresh path_to_root_append [of je_parentId "js_byId (fst s)" "je_parentId e" p "je_id e" e]
    by (simp add: jsonl_getPathToRoot_def jsonl_getEntry_def s')
  show "jsonl_getPathToRoot (fst s) l = Inr p \<Longrightarrow> jsonl_getPathToRoot (fst s') l = Inr p"
    using fresh path_to_root_other [of je_parentId "js_byId (fst s)" l p "je_id e" e]
    by (simp add: jsonl_getPathToRoot_def jsonl_getEntry_def s')
qed (simp add: jsonl_getPathToRoot_def path_to_root_def)

subsection \<open>Durability\<close>

datatype jsonl_op = JAppend json | JSetLeaf js_string js_string "js_string option"

fun jsonl_run ::
  "'w file_system \<Rightarrow> jsonl_storage \<times> 'w \<Rightarrow> jsonl_op list \<Rightarrow> (jsonl_storage \<times> 'w) session_result" where
  "jsonl_run fsys s [] = Inr s"
| "jsonl_run fsys s (op # ops) =
     (case (case op of
              JAppend e \<Rightarrow> jsonl_appendEntry fsys s e
            | JSetLeaf uuid now l \<Rightarrow> jsonl_setLeafId fsys s uuid now l) of
        Inl err \<Rightarrow> Inl err
      | Inr s' \<Rightarrow> jsonl_run fsys s' ops)"

lemma filePath_kept:
  "jsonl_appendEntry fsys s e = Inr s' \<Longrightarrow> js_filePath (fst s') = js_filePath (fst s)"
  "jsonl_setLeafId fsys s uuid now l = Inr s' \<Longrightarrow> js_filePath (fst s') = js_filePath (fst s)"
  by (auto simp: appendEntry_Inr setLeafId_Inr)

lemma jsonl_run_keeps:
  "fs_laws fsys \<Longrightarrow> jsonl_inv s \<Longrightarrow> on_file fsys h s \<Longrightarrow> jsonl_run fsys s ops = Inr s' \<Longrightarrow>
     jsonl_inv s' \<and> on_file fsys h s' \<and> js_filePath (fst s') = js_filePath (fst s)"
proof (induction fsys s ops rule: jsonl_run.induct)
  case (2 fsys s op ops)
  show ?case
  proof (cases op)
    case (JAppend e)
    then obtain s1 where s1: "jsonl_appendEntry fsys s e = Inr s1" "jsonl_run fsys s1 ops = Inr s'"
      using 2(5) by (auto split: sum.splits)
    then show ?thesis
      using 2(1) [of s1] JAppend jsonl_inv_append [OF 2(3) s1(1)] on_file_append [OF 2(2,4) s1(1)]
        filePath_kept(1) [OF s1(1)] 2(2) by simp
  next
    case (JSetLeaf uuid now l)
    then obtain s1 where s1: "jsonl_setLeafId fsys s uuid now l = Inr s1" "jsonl_run fsys s1 ops = Inr s'"
      using 2(5) by (auto split: sum.splits)
    then show ?thesis
      using 2(1) [of s1] JSetLeaf jsonl_inv_setLeafId [OF 2(3) s1(1)] on_file_setLeafId [OF 2(2,4) s1(1)]
        filePath_kept(2) [OF s1(1)] 2(2) by simp
  qed
qed simp

lemma jsonl_create_ok:
  "fs_laws fsys \<Longrightarrow> jsonl_create fsys w filePath h = Inr s \<Longrightarrow>
     jsonl_inv s \<and> on_file fsys h s \<and> js_filePath (fst s) = filePath"
  by (auto simp: jsonl_create_def new_JsonlSessionStorage_def jsonl_inv_def on_file_def fs_laws_def
      file_text_def jsonl_byId_def map_of_entries_def replay_leaf_def split: sum.splits)

lemma new_storage_of_inv:
  assumes "jsonl_inv s" "js_metadata (fst s) = headerToSessionMetadata h (js_filePath (fst s))"
  shows "new_JsonlSessionStorage (js_filePath (fst s)) h (js_entries (fst s))
    (replay_leaf (js_entries (fst s)) None) = Inr (fst s)"
  using assms by (simp add: new_JsonlSessionStorage_def jsonl_inv_def)

lemma open_on_file:
  assumes "jsonl_inv s" "on_file fsys h s" "readable parse h (js_entries (fst s))"
  shows "jsonl_open parse fsys (snd s) (js_filePath (fst s)) = Inr (fst s, snd s, None)"
  using assms load_healthy [OF assms(3)] new_storage_of_inv [OF assms(1)]
  by (simp add: jsonl_open_def loadJsonlStorage_def on_file_def getFileSystemResultOrThrow_def)

text \<open>
  C5: A session file that was created and then written by any sequence of appended entries and
  leaf moves is opened again to exactly the storage that was in memory: the same metadata,
  entries, index, labels and current leaf, without a repair and without touching the file.
\<close>

theorem jsonl_reopen_restores:
  assumes "fs_laws fsys" "jsonl_create fsys w filePath h = Inr s0"
    and "jsonl_run fsys s0 ops = Inr (st, w')" "readable parse h (js_entries st)"
  shows "jsonl_open parse fsys w' filePath = Inr (st, w', None)"
proof -
  have "jsonl_inv s0" "on_file fsys h s0" "js_filePath (fst s0) = filePath"
    using jsonl_create_ok [OF assms(1,2)] by simp_all
  then have "jsonl_inv (st, w')" "on_file fsys h (st, w')" "js_filePath st = filePath"
    using jsonl_run_keeps [OF assms(1) _ _ assms(3)] by auto
  then show ?thesis
    using open_on_file [of "(st, w')" fsys h parse] assms(4) by simp
qed

text \<open>
  C21: If a crash leaves a piece of one more line behind that content, a piece that is no valid
  entry, then \<open>open\<close> drops exactly the piece: it restores the storage, rewrites the file to the
  healthy content and says so in a notice; opening once more finds nothing to repair.
\<close>

theorem jsonl_torn_tail_salvaged:
  assumes "fs_laws fsys" "jsonl_create fsys w filePath h = Inr s0"
    and "jsonl_run fsys s0 ops = Inr (st, w')" "readable parse h (js_entries st)"
    and torn: "fs_readTextFile fsys w1 filePath = Inr (file_text h (js_entries st) @ t)"
      "trim t \<noteq> []" "10 \<notin> set t" "\<And>n. \<exists>err. parseEntryLine parse t filePath n = Inl err"
    and "fs_writeFile fsys w1 filePath (file_text h (js_entries st)) = Inr w2"
  shows "(\<exists>notice. jsonl_open parse fsys w1 filePath = Inr (st, w2, Some notice))
    \<and> jsonl_open parse fsys w2 filePath = Inr (st, w2, None)"
proof -
  have "jsonl_inv s0" "on_file fsys h s0" "js_filePath (fst s0) = filePath"
    using jsonl_create_ok [OF assms(1,2)] by simp_all
  then have inv: "jsonl_inv (st, w')" and disk: "on_file fsys h (st, w')" and path: "js_filePath st = filePath"
    using jsonl_run_keeps [OF assms(1) _ _ assms(3)] by auto
  have new: "new_JsonlSessionStorage filePath h (js_entries st) (replay_leaf (js_entries st) None) = Inr st"
    using new_storage_of_inv [OF inv] disk path by (simp add: on_file_def)
  have "on_file fsys h (st, w2)" "jsonl_inv (st, w2)"
    using assms(1,9) disk inv path by (simp_all add: on_file_def fs_laws_def jsonl_inv_def)
  then have "jsonl_open parse fsys w2 filePath = Inr (st, w2, None)"
    using open_on_file [of "(st, w2)" fsys h parse] assms(4) path by simp
  then show ?thesis
    using load_torn [OF assms(4) torn(2,3,4)] torn(1) assms(9) new
    by (simp add: jsonl_open_def loadJsonlStorage_def getFileSystemResultOrThrow_def)
qed

subsection \<open>A line torn at its very end\<close>

lemma load_unterminated:
  assumes "readable parse h (es @ [e])"
  shows "load_content parse filePath (file_text h es @ json_stringify e) =
    Inr \<lparr>ld_header = h, ld_entries = es @ [e], ld_leafId = jsonl_leafIdAfterEntry e, ld_salvaged = None\<rparr>"
proof -
  let ?h = "json_stringify (header_json h)"
  let ?raw = "?h # map json_stringify es @ [json_stringify e]"
  have split: "js_split 10 (file_text h es @ json_stringify e) = ?raw"
    using file_text_lines json_stringify_no_newline by blast
  have hd: "trim ?h \<noteq> []" using trim_brace by (simp add: header_json_def)
  have e: "trim (json_stringify e) \<noteq> []"
    using assms trim_valid by (simp add: readable_def)
  have last: "last_content ?raw 0 (Suc (length es)) = Suc (length es)"
    using e by (simp add: nth_append)
  have parse: "parseHeaderLine parse ?h filePath = Inr h"
    using assms parse_valid_header by (auto simp: readable_def)
  have "load_loop parse filePath (h_id h) (Suc (length es)) (Suc 0) [] None
      (map json_stringify es @ [json_stringify e]) =
      Inr (es @ [e], jsonl_leafIdAfterEntry e, None)"
    using load_loop_entries [of "es @ [e]" parse "Suc 0" "Suc (length es)" filePath "h_id h" "[]" None "[]"]
      assms
    by (simp add: readable_def)
  then show ?thesis
    using hd last parse by (simp add: load_content_def split Let_def)
qed

lemma load_glued:
  assumes "readable parse h es" "trim bad \<noteq> []" "10 \<notin> set bad" "parse bad = None"
    and "entry_valid e"
  shows "\<exists>err. load_content parse filePath (file_text h es @ bad @ [10] @ json_stringify e @ [10]) = Inl err"
proof -
  let ?h = "json_stringify (header_json h)"
  let ?raw = "?h # map json_stringify es @ [bad, json_stringify e, []]"
  have "js_split 10 (concat (map (\<lambda>l. l @ [10]) (map json_stringify (header_json h # es) @ [bad, json_stringify e])) @ [])
      = (map json_stringify (header_json h # es) @ [bad, json_stringify e]) @ [[]]"
    by (rule split_lines) (use assms(3) json_stringify_no_newline in auto)
  then have split: "js_split 10 (file_text h es @ bad @ [10] @ json_stringify e @ [10]) = ?raw"
    unfolding file_text_concat by simp
  have hd: "trim ?h \<noteq> []" using trim_brace by (simp add: header_json_def)
  have last: "last_content ?raw 0 (Suc (Suc (Suc (length es)))) = Suc (Suc (length es))"
    using trim_valid [OF assms(5)] by (simp add: nth_append)
  have parse: "parseHeaderLine parse ?h filePath = Inr h"
    using assms(1) parse_valid_header by (auto simp: readable_def)
  have "load_loop parse filePath (h_id h) (Suc (Suc (length es))) (Suc 0) [] None
      (map json_stringify es @ [bad, json_stringify e, []]) =
      Inl (withRecoveryHint (invalidEntry filePath (Suc (Suc (length es))) (str ''is not valid JSON'')))"
    using load_loop_entries [of es parse "Suc 0" "Suc (Suc (length es))" filePath "h_id h" "[]" None
        "[bad, json_stringify e, []]"] assms(1,2,4)
    by (simp add: readable_def parseEntryLine_def)
  then show ?thesis
    unfolding load_content_def split Let_def using hd last parse by simp
qed

lemma trim_brace_append: "entry_valid e \<Longrightarrow> trim (json_stringify e @ x) \<noteq> []"
  using entry_valid_object trim_brace by fastforce

text \<open>
  C29: If the crash left a complete entry and only its newline is missing, \<open>open\<close> accepts the entry
  and repairs nothing, so that the next appended line is glued to it: after two more appends,
  which succeed, the session can no longer be opened at all.
\<close>

theorem jsonl_unterminated_line_breaks_session:
  assumes "fs_laws fsys" "readable parse h (es @ [e])" "entry_valid e3"
    and "parse (json_stringify e @ json_stringify e2) = None"
    and "fs_readTextFile fsys w filePath = Inr (file_text h es @ json_stringify e)"
    and "jsonl_open parse fsys w filePath = Inr (st, w1, notice)"
    and "jsonl_appendEntry fsys (st, w1) e2 = Inr s2" "jsonl_appendEntry fsys s2 e3 = Inr (st3, w3)"
  shows "notice = None \<and> js_entries st = es @ [e] \<and> (\<exists>err. jsonl_open parse fsys w3 filePath = Inl err)"
proof -
  have "\<exists>st'. new_JsonlSessionStorage filePath h (es @ [e]) (jsonl_leafIdAfterEntry e) = Inr st' \<and>
      (st, w1, notice) = (st', w, None)"
    using assms(6) load_unterminated [OF assms(2), of filePath]
    by (simp add: jsonl_open_def loadJsonlStorage_def assms(5) getFileSystemResultOrThrow_def
        split: sum.splits)
  then have st: "w1 = w" "notice = None" "js_entries st = es @ [e]" "js_filePath st = filePath"
    by (auto simp: new_JsonlSessionStorage_def split: option.splits)
  obtain w2 where w2: "fs_appendFile fsys w filePath (jsonl_line e2) = Inr w2" "snd s2 = w2"
    "js_filePath (fst s2) = filePath"
    using assms(7) st unfolding appendEntry_Inr by auto
  have w3: "fs_appendFile fsys w2 filePath (jsonl_line e3) = Inr w3"
    using assms(8) w2 unfolding appendEntry_Inr by auto
  have "fs_readTextFile fsys w3 filePath =
      Inr (file_text h es @ (json_stringify e @ json_stringify e2) @ [10] @ json_stringify e3 @ [10])"
    using assms(1,5) w2(1) w3 by (auto simp: fs_laws_def jsonl_line_def)
  moreover have "\<exists>err. load_content parse filePath (file_text h es @ (json_stringify e @ json_stringify e2)
      @ [10] @ json_stringify e3 @ [10]) = Inl err"
    by (rule load_glued) (use assms(2-4) trim_brace_append json_stringify_no_newline in
        \<open>auto simp: readable_def\<close>)
  ultimately show ?thesis
    using st by (auto simp: jsonl_open_def loadJsonlStorage_def getFileSystemResultOrThrow_def)
qed

subsection \<open>Witnesses\<close>

text \<open>A file system of whole files, and a parser that knows the values of a list.\<close>

definition demo_fs :: "(js_string \<Rightarrow> js_string option) file_system" where
  "demo_fs = \<lparr>fs_readTextFile = (\<lambda>w p. case w p of
       None \<Rightarrow> Inl (FileError FileNotFound (str ''missing'')) | Some c \<Rightarrow> Inr c),
     fs_writeFile = (\<lambda>w p c. Inr (w(p \<mapsto> c))),
     fs_appendFile = (\<lambda>w p c. Inr (w(p \<mapsto> (case w p of None \<Rightarrow> c | Some o' \<Rightarrow> o' @ c))))\<rparr>"

lemma demo_fs_laws: "fs_laws demo_fs"
  by (auto simp: fs_laws_def demo_fs_def split: option.splits)

definition demo_header :: session_header where
  "demo_header = \<lparr>h_id = str ''s'', h_timestamp = str ''t'', h_cwd = str ''/'', h_parentSession = None\<rparr>"

definition demo_line :: "string \<Rightarrow> json" where
  "demo_line i = JObj [(str ''type'', JStr (str ''custom'')), (str ''id'', JStr (str i)),
     (str ''parentId'', JNull), (str ''timestamp'', JStr (str ''t''))]"

definition demo_parse :: "js_string \<Rightarrow> json option" where
  "demo_parse s = map_of (map (\<lambda>v. (json_stringify v, v))
     [header_json demo_header, demo_line ''a'', demo_line ''b'', demo_line ''c'']) s"

lemmas jsonl_eval = demo_parse_def demo_line_def demo_header_def header_json_def json_quote_def str_def
  quote_unit_def high_surrogate_def low_surrogate_def starts_low_def show_int_def show_nat.simps

lemma demo_line_valid [simp]: "i \<noteq> [] \<Longrightarrow> entry_valid (demo_line i)"
  by (simp add: entry_valid_def demo_line_def filled_string_def nullable_string_def is_leaf_entry_def
      map_get_def)

lemma demo_parse_lines:
  "demo_parse (json_stringify (header_json demo_header)) = Some (header_json demo_header)"
  "demo_parse (json_stringify (demo_line ''a'')) = Some (demo_line ''a'')"
  "demo_parse (json_stringify (demo_line ''b'')) = Some (demo_line ''b'')"
  "demo_parse (json_stringify (demo_line ''c'')) = Some (demo_line ''c'')"
  "demo_parse (json_stringify (demo_line ''a'') @ json_stringify (demo_line ''b'')) = None"
  "demo_parse (str ''{x'') = None"
  by (simp_all add: jsonl_eval)

lemma demo_readable:
  "set es \<subseteq> {demo_line ''a'', demo_line ''b'', demo_line ''c''} \<Longrightarrow> readable demo_parse demo_header es"
  using demo_parse_lines
  by (auto simp: readable_def header_valid_def demo_header_def)

definition demo_disk :: "js_string \<Rightarrow> js_string option" where
  "demo_disk = [str ''f'' \<mapsto> file_text demo_header [demo_line ''a'']]"

definition demo_jsonl :: jsonl_storage where
  "demo_jsonl = \<lparr>js_filePath = str ''f'', js_metadata = headerToSessionMetadata demo_header (str ''f''),
     js_entries = [demo_line ''a''], js_byId = [(str ''a'', demo_line ''a'')], js_labels = [],
     js_currentLeafId = Some (str ''a'')\<rparr>"

lemma demo_jsonl_run:
  "\<exists>s0. jsonl_create demo_fs Map.empty (str ''f'') demo_header = Inr s0
    \<and> jsonl_run demo_fs s0 [JAppend (demo_line ''a'')] = Inr (demo_jsonl, demo_disk)"
  by (simp add: jsonl_create_def demo_fs_def getFileSystemResultOrThrow_def new_JsonlSessionStorage_def
      jsonl_appendEntry_def jsonl_updateLabelCache_def jsonl_leafIdAfterEntry_def is_leaf_entry_def
      demo_line_def map_get_def demo_jsonl_def demo_disk_def file_text_def je_id_def string_field_def
      jsonl_byId_def map_of_entries_def)

theorem jsonl_reopen_restores_witness:
  "jsonl_open demo_parse demo_fs demo_disk (str ''f'') = Inr (demo_jsonl, demo_disk, None)"
proof -
  obtain s0 where "jsonl_create demo_fs Map.empty (str ''f'') demo_header = Inr s0"
    "jsonl_run demo_fs s0 [JAppend (demo_line ''a'')] = Inr (demo_jsonl, demo_disk)"
    using demo_jsonl_run by blast
  from jsonl_reopen_restores [OF demo_fs_laws this] show ?thesis
    by (simp add: demo_readable demo_jsonl_def)
qed

theorem jsonl_torn_tail_salvaged_witness:
  "\<exists>notice. jsonl_open demo_parse demo_fs
       [str ''f'' \<mapsto> file_text demo_header [demo_line ''a''] @ str ''{x''] (str ''f'')
     = Inr (demo_jsonl, demo_disk, Some notice)"
proof -
  obtain s0 where "jsonl_create demo_fs Map.empty (str ''f'') demo_header = Inr s0"
    "jsonl_run demo_fs s0 [JAppend (demo_line ''a'')] = Inr (demo_jsonl, demo_disk)"
    using demo_jsonl_run by blast
  note run = this
  let ?w = "[str ''f'' \<mapsto> file_text demo_header [demo_line ''a''] @ str ''{x'']"
  have entries: "js_entries demo_jsonl = [demo_line ''a'']" by (simp add: demo_jsonl_def)
  have "fs_readTextFile demo_fs ?w (str ''f'') = Inr (file_text demo_header (js_entries demo_jsonl) @ str ''{x'')"
    "fs_writeFile demo_fs ?w (str ''f'') (file_text demo_header (js_entries demo_jsonl)) = Inr demo_disk"
    by (simp_all add: demo_fs_def demo_disk_def entries)
  moreover have "trim (str ''{x'') \<noteq> []" "10 \<notin> set (str ''{x'')"
    "\<And>n. \<exists>err. parseEntryLine demo_parse (str ''{x'') (str ''f'') n = Inl err"
    using demo_parse_lines(6) by (simp_all add: trim_eq_Nil_iff js_space_def parseEntryLine_def)
      (simp_all add: str_def)
  ultimately have "\<exists>notice. jsonl_open demo_parse demo_fs ?w (str ''f'') = Inr (demo_jsonl, demo_disk, Some notice)"
    using jsonl_torn_tail_salvaged [OF demo_fs_laws run, of demo_parse ?w "str ''{x''" demo_disk]
    by (simp add: demo_readable entries)
  then show ?thesis .
qed

theorem jsonl_unterminated_line_breaks_session_witness:
  "\<exists>w. (\<exists>err. jsonl_open demo_parse demo_fs w (str ''f'') = Inl err)"
proof -
  let ?w = "[str ''f'' \<mapsto> file_text demo_header [] @ json_stringify (demo_line ''a'')]"
  have opened: "jsonl_open demo_parse demo_fs ?w (str ''f'') = Inr (demo_jsonl, ?w, None)"
    using load_unterminated [of demo_parse demo_header "[]" "demo_line ''a''" "str ''f''"]
    by (simp add: demo_readable jsonl_open_def loadJsonlStorage_def demo_fs_def
        getFileSystemResultOrThrow_def new_JsonlSessionStorage_def demo_jsonl_def
        jsonl_updateLabelCache_def jsonl_leafIdAfterEntry_def is_leaf_entry_def demo_line_def map_get_def
        je_id_def string_field_def jsonl_byId_def map_of_entries_def)
  have append: "\<exists>st' w'. jsonl_appendEntry demo_fs (st, w) (demo_line i) = Inr (st', w')" for st w i
    by (simp add: jsonl_appendEntry_def demo_fs_def getFileSystemResultOrThrow_def
        jsonl_updateLabelCache_def demo_line_def map_get_def)
  obtain st2 w2 where 2: "jsonl_appendEntry demo_fs (demo_jsonl, ?w) (demo_line ''b'') = Inr (st2, w2)"
    using append by blast
  obtain st3 w3 where 3: "jsonl_appendEntry demo_fs (st2, w2) (demo_line ''c'') = Inr (st3, w3)"
    using append by blast
  have "fs_readTextFile demo_fs ?w (str ''f'') = Inr (file_text demo_header [] @ json_stringify (demo_line ''a''))"
    by (simp add: demo_fs_def)
  from jsonl_unterminated_line_breaks_session [OF demo_fs_laws _ _ demo_parse_lines(5) this opened 2 3]
  show ?thesis by (auto simp: demo_readable)
qed

end
