(* ===== verification/Overflow.thy ===== *)
theory Overflow
  imports Permission Messages
begin

text \<open>
  \<open>packages/ai/src/utils/overflow.ts\<close>: is a response of a provider a rejection of a prompt that
  is too large for its context window.  The patterns are regular expressions of
  \<^theory_text>\<open>Permission\<close>; the flag \<open>i\<close> is the comparison in lower case.
\<close>

definition lower_unit :: "nat \<Rightarrow> nat" where
  "lower_unit c = (if 65 \<le> c \<and> c \<le> 90 then c + 32 else c)"

definition rdigit :: regex where
  "rdigit = RClass (CRange 48 57)"

definition rdigits :: regex where
  "rdigits = rplus rdigit"

definition ropt :: "regex \<Rightarrow> regex" where
  "ropt r = RAlt r REmpty"

text \<open>The dot: every unit but the line terminators.\<close>

definition rdot :: regex where
  "rdot = ralt (RClass (CRange 0 9)) [RClass (CRange 11 12), RClass (CRange 14 8231),
     RClass (CRange 8234 65535)]"

definition OVERFLOW_PATTERNS :: "regex list" where
  "OVERFLOW_PATTERNS =
     [rword ''prompt is too long'',
      rword ''request_too_large'',
      rword ''input is too long for requested model'',
      rword ''exceeds the context window'',
      rseq [rword ''exceeds '', ropt (rword ''the ''), ropt (rseq [rword ''model'', ropt (rlit [39]), rword ''s '']),
            rword ''maximum context length of '', rplus (RAlt rdigit (rword '','')), rword '' token'',
            ropt (rword ''s'')],
      rseq [rword ''input token count'', RStar rdot, rword ''exceeds the maximum''],
      rseq [rword ''maximum prompt length is '', rdigits],
      rword ''reduce the length of the messages'',
      rseq [rword ''maximum context length is '', rdigits, rword '' tokens''],
      rseq [rword ''input ('', rdigits, rword '' tokens) is longer than the model'', ropt (rlit [39]),
            rword ''s context length ('', rdigits, rword '' tokens)''],
      rseq [rword ''exceeds the limit of '', rdigits],
      rword ''exceeds the available context size'',
      rword ''greater than the context length'',
      rword ''context window exceeds limit'',
      rword ''exceeded model token limit'',
      rseq [rword ''too large for model with '', rdigits, rword '' maximum context length''],
      rword ''model_context_window_exceeded'',
      rseq [rword ''prompt too long; exceeded '', ropt (rword ''max ''), rword ''context length''],
      rseq [rword ''context'', RAlt (rword ''_'') (rword '' ''), rword ''length'',
            RAlt (rword ''_'') (rword '' ''), rword ''exceeded''],
      rword ''too many tokens'',
      rword ''token limit exceeded'']"

text \<open>The patterns that start with \<open>^\<close> are tried at the start only.\<close>

definition OVERFLOW_PATTERNS_ANCHORED :: "regex list" where
  "OVERFLOW_PATTERNS_ANCHORED =
     [rseq [rword ''4'', RAlt (rword ''00'') (rword ''13''), RStar rspace, ropt (rword ''status code''),
            RStar rspace, rword ''(no body)'']]"

definition NON_OVERFLOW_PATTERNS_ANCHORED :: "regex list" where
  "NON_OVERFLOW_PATTERNS_ANCHORED =
     [rseq [RAlt (rword ''throttling error'') (rword ''service unavailable''), rword '':'']]"

definition NON_OVERFLOW_PATTERNS :: "regex list" where
  "NON_OVERFLOW_PATTERNS = [rword ''rate limit'', rword ''too many requests'']"

definition matches_some :: "regex list \<Rightarrow> regex list \<Rightarrow> js_string \<Rightarrow> bool" where
  "matches_some patterns anchored message =
     (let s = map lower_unit message
      in list_ex (\<lambda>r. regex_test r s) patterns \<or> list_ex (\<lambda>r. ends r s 0 \<noteq> []) anchored)"

text \<open>
  \<open>contextWindow\<close> is None or positive.  The usage is read only in the cases of a successful stop;
  \<open>inputTokens >= contextWindow * 0.99\<close> is compared in hundredths.
\<close>

definition isContextOverflow :: "assistant_message \<Rightarrow> nat option \<Rightarrow> bool" where
  "isContextOverflow m contextWindow =
     ((case a_errorMessage m of
         None \<Rightarrow> False
       | Some msg \<Rightarrow> a_stopReason m = StopError \<and> msg \<noteq> []
           \<and> \<not> matches_some NON_OVERFLOW_PATTERNS NON_OVERFLOW_PATTERNS_ANCHORED msg
           \<and> matches_some OVERFLOW_PATTERNS OVERFLOW_PATTERNS_ANCHORED msg)
      \<or> (case (contextWindow, a_usage m) of
           (Some w, Some u) \<Rightarrow>
             w \<noteq> 0 \<and> (a_stopReason m = StopEnd \<and> u_input u + u_cacheRead u > w
               \<or> a_stopReason m = StopLength \<and> u_output u = 0
                   \<and> 100 * (u_input u + u_cacheRead u) \<ge> 99 * w)
         | _ \<Rightarrow> False))"

end
