(* ===== verification/Budget.thy ===== *)
theory Budget
  imports Overflow
begin

text \<open>
  The token estimates of \<open>packages/agent/src/harness/compaction/compaction.ts\<close> and the budget under
  which a conversation is serialised for the summarizer.
\<close>

subsection \<open>Characters\<close>

text \<open>The iteration of a string by code points: a surrogate pair is one character.\<close>

fun js_chars :: "js_string \<Rightarrow> js_string list" where
  "js_chars [] = []"
| "js_chars (c # cs) =
     (if high_surrogate c \<and> starts_low cs then [c, hd cs] # js_chars (tl cs) else [c] # js_chars cs)"

text \<open>\<open>ch.codePointAt(0) < 128\<close>: a pair is a code point above 65535.\<close>

definition ascii_char :: "js_string \<Rightarrow> bool" where
  "ascii_char ch \<longleftrightarrow> hd ch < 128"

definition ceil4 :: "nat \<Rightarrow> nat" where
  "ceil4 n = (n + 3) div 4"

subsection \<open>Estimates\<close>

definition estimateTextTokens :: "js_string \<Rightarrow> nat" where
  "estimateTextTokens text =
     ceil4 (length (filter ascii_char (js_chars text)))
     + length (filter (\<lambda>ch. \<not> ascii_char ch) (js_chars text))"

definition IMAGE_TOKENS :: nat where
  "IMAGE_TOKENS = 768"

fun user_block_tokens :: "user_block \<Rightarrow> nat" where
  "user_block_tokens (UText t) = (if t \<noteq> [] then estimateTextTokens t else 0)"
| "user_block_tokens (UImage d m) = IMAGE_TOKENS"

fun user_content_tokens :: "user_content \<Rightarrow> nat" where
  "user_content_tokens (Plain s) = estimateTextTokens s"
| "user_content_tokens (Blocks bs) = sum_list (map user_block_tokens bs)"

fun assistant_block_tokens :: "assistant_block \<Rightarrow> nat" where
  "assistant_block_tokens (AText t) = estimateTextTokens t"
| "assistant_block_tokens (AThinking t) = estimateTextTokens t"
| "assistant_block_tokens (AToolCall tc) =
     estimateTextTokens (tc_name tc) + estimateTextTokens (safeJsonStringify (tc_arguments tc))"

fun estimateTokens :: "agent_message \<Rightarrow> nat" where
  "estimateTokens (LlmMessage (LUser c t)) = user_content_tokens c"
| "estimateTokens (LlmMessage (LAssistant m)) = sum_list (map assistant_block_tokens (a_content m))"
| "estimateTokens (LlmMessage (LToolResult m)) = sum_list (map user_block_tokens (tr_content m))"
| "estimateTokens (CustomMsg m) = user_content_tokens (c_content m)"
| "estimateTokens (BashExecution m) = estimateTextTokens (b_command m) + estimateTextTokens (b_output m)"
| "estimateTokens (BranchSummary summary fromId t) = estimateTextTokens summary"
| "estimateTokens (CompactionSummary summary tokens t) = estimateTextTokens summary"

definition calculateContextTokens :: "usage \<Rightarrow> nat" where
  "calculateContextTokens u =
     (if u_totalTokens u \<noteq> 0 then u_totalTokens u
      else u_input u + u_output u + u_cacheRead u + u_cacheWrite u)"

fun getAssistantUsage :: "agent_message \<Rightarrow> usage option" where
  "getAssistantUsage (LlmMessage (LAssistant m)) =
     (if a_stopReason m \<noteq> StopAborted \<and> a_stopReason m \<noteq> StopError
      then (case a_usage m of
              None \<Rightarrow> None
            | Some u \<Rightarrow>
                if u_totalTokens u = 0 \<and> u_input u = 0 \<and> u_output u = 0 \<and> u_cacheRead u = 0
                   \<and> u_cacheWrite u = 0
                then None else Some u)
      else None)"
| "getAssistantUsage _ = None"

record context_usage_estimate =
  cu_tokens :: nat
  cu_usageTokens :: nat
  cu_trailingTokens :: nat
  cu_lastUsageIndex :: "nat option"

text \<open>The search from the end, over the reversed list.\<close>

fun last_usage :: "agent_message list \<Rightarrow> (usage \<times> nat) option" where
  "last_usage [] = None"
| "last_usage (m # rms) =
     (case getAssistantUsage m of Some u \<Rightarrow> Some (u, length rms) | None \<Rightarrow> last_usage rms)"

definition getLastAssistantUsageInfo :: "agent_message list \<Rightarrow> (usage \<times> nat) option" where
  "getLastAssistantUsageInfo ms = last_usage (rev ms)"

definition estimateContextTokens :: "agent_message list \<Rightarrow> context_usage_estimate" where
  "estimateContextTokens ms =
     (case getLastAssistantUsageInfo ms of
        None \<Rightarrow>
          (let estimated = sum_list (map estimateTokens ms)
           in \<lparr>cu_tokens = estimated, cu_usageTokens = 0, cu_trailingTokens = estimated,
               cu_lastUsageIndex = None\<rparr>)
      | Some (usage, index) \<Rightarrow>
          (let usageTokens = calculateContextTokens usage;
               trailing = sum_list (map estimateTokens (drop (Suc index) ms))
           in \<lparr>cu_tokens = usageTokens + trailing, cu_usageTokens = usageTokens,
               cu_trailingTokens = trailing, cu_lastUsageIndex = Some index\<rparr>))"

record compaction_settings =
  cs_enabled :: bool
  cs_reserveTokens :: nat
  cs_keepRecentTokens :: nat

definition DEFAULT_COMPACTION_SETTINGS :: compaction_settings where
  "DEFAULT_COMPACTION_SETTINGS = \<lparr>cs_enabled = True, cs_reserveTokens = 16384, cs_keepRecentTokens = 20000\<rparr>"

definition shouldCompact :: "nat \<Rightarrow> nat \<Rightarrow> compaction_settings \<Rightarrow> bool" where
  "shouldCompact contextTokens contextWindow settings =
     (if \<not> cs_enabled settings then False else contextTokens > (contextWindow * 4) div 5)"

subsection \<open>The budget of the summarizer prompt\<close>

record model_limits =
  ml_maxTokens :: nat
  ml_contextWindow :: nat
  ml_reasoning :: bool

definition summaryOutputTokens :: "model_limits \<Rightarrow> nat \<Rightarrow> nat" where
  "summaryOutputTokens model reserveTokens =
     (let reserve = (if reserveTokens > 0 then reserveTokens
                     else cs_reserveTokens DEFAULT_COMPACTION_SETTINGS);
          output0 = (if ml_maxTokens model > 0 then min (ml_maxTokens model) reserve else reserve)
      in if ml_contextWindow model > 0
         then max (min output0 (ml_contextWindow model div 4)) 1 else output0)"

definition DEFAULT_SUMMARY_PROMPT_TOKEN_BUDGET :: nat where
  "DEFAULT_SUMMARY_PROMPT_TOKEN_BUDGET = 64000"

definition SUMMARY_PROMPT_FRAMING_TOKENS :: nat where
  "SUMMARY_PROMPT_FRAMING_TOKENS = 512"

definition SUMMARIZATION_SYSTEM_PROMPT :: js_string where
  "SUMMARIZATION_SYSTEM_PROMPT = str (
     ''You are a context summarization assistant. Your task is to read a conversation between a user and an AI coding assistant, ''
     @ ''then produce a structured summary following the exact format specified.'') @ nl @ nl
     @ str (''Do NOT continue the conversation. Do NOT respond to any questions in the conversation. ''
     @ ''ONLY output the structured summary.'')"

definition summaryPromptOverheadTokens :: "js_string option \<Rightarrow> nat" where
  "summaryPromptOverheadTokens customInstructions =
     SUMMARY_PROMPT_FRAMING_TOKENS + estimateTextTokens SUMMARIZATION_SYSTEM_PROMPT
     + (case customInstructions of
          None \<Rightarrow> 0 | Some c \<Rightarrow> if c \<noteq> [] then estimateTextTokens c else 0)"

definition summarizePromptEstimateTokens :: "agent_message list \<Rightarrow> js_string option \<Rightarrow> nat" where
  "summarizePromptEstimateTokens ms customInstructions =
     summaryPromptOverheadTokens customInstructions + sum_list (map estimateTokens ms)"

definition summarizationPromptBudget :: "model_limits \<Rightarrow> nat \<Rightarrow> nat" where
  "summarizationPromptBudget model reserveTokens =
     (if ml_contextWindow model = 0 then DEFAULT_SUMMARY_PROMPT_TOKEN_BUDGET
      else ((ml_contextWindow model - summaryOutputTokens model reserveTokens) * 4) div 5)"

text \<open>The loop that collects messages from the newest back; \<open>kept\<close> is already in order.\<close>

fun trim_loop :: "nat \<Rightarrow> agent_message list \<Rightarrow> agent_message list \<Rightarrow> nat \<Rightarrow> agent_message list" where
  "trim_loop budget [] kept acc = kept"
| "trim_loop budget (m # rms) kept acc =
     (if kept \<noteq> [] \<and> acc + estimateTokens m > budget then kept
      else if acc + estimateTokens m \<ge> budget then m # kept
      else trim_loop budget rms (m # kept) (acc + estimateTokens m))"

definition omission_note :: "nat \<Rightarrow> string \<Rightarrow> js_string" where
  "omission_note omitted reason =
     str ''[compaction note: omitted '' @ show_nat omitted
     @ str '' older message(s) before summarization because '' @ str reason @ str '']''"

definition trimMessagesForSummaryBudget ::
  "ms \<Rightarrow> agent_message list \<Rightarrow> nat \<Rightarrow> js_string option \<Rightarrow> agent_message list" where
  "trimMessagesForSummaryBudget now ms budgetTokens customInstructions =
     (if summarizePromptEstimateTokens ms customInstructions \<le> budgetTokens then ms
      else (let kept = trim_loop budgetTokens (rev ms) [] (summaryPromptOverheadTokens customInstructions);
                omitted = length ms - length kept
            in if omitted > 0
               then UserMsg (Plain (omission_note omitted
                      ''the session exceeded the summarizer prompt budget'')) now # kept
               else kept))"

text \<open>The loop of \<open>suffixStartForTokenBudget\<close> over the reversed characters.\<close>

fun suffix_loop :: "nat \<Rightarrow> js_string list \<Rightarrow> nat \<Rightarrow> nat \<Rightarrow> nat \<Rightarrow> nat" where
  "suffix_loop budget [] ascii nonAscii start = start"
| "suffix_loop budget (ch # rchs) ascii nonAscii start =
     (let nextAscii = (if ascii_char ch then ascii + 1 else ascii);
          nextNonAscii = (if ascii_char ch then nonAscii else nonAscii + 1)
      in if ceil4 nextAscii + nextNonAscii > budget then start
         else suffix_loop budget rchs nextAscii nextNonAscii (length rchs))"

definition suffixStartForTokenBudget :: "js_string list \<Rightarrow> nat \<Rightarrow> nat" where
  "suffixStartForTokenBudget chars budgetTokens = suffix_loop budgetTokens (rev chars) 0 0 (length chars)"

definition OMITTED_CONTENT_NOTE :: js_string where
  "OMITTED_CONTENT_NOTE = str (''[compaction note: omitted older serialized content before summarization ''
     @ ''because the session exceeded the summarizer prompt budget]'') @ nl @ nl"

definition serializeConversationForSummaryBudget ::
  "ms \<Rightarrow> agent_message list \<Rightarrow> nat \<Rightarrow> js_string option \<Rightarrow> js_string" where
  "serializeConversationForSummaryBudget now ms budgetTokens customInstructions =
     (let trimmed = trimMessagesForSummaryBudget now ms budgetTokens customInstructions;
          conversation = serializeConversation (convertToLlm trimmed);
          availableTokens = budgetTokens - summaryPromptOverheadTokens customInstructions
      in if estimateTextTokens conversation \<le> availableTokens then conversation
         else (let note = OMITTED_CONTENT_NOTE; noteTokens = estimateTextTokens note
               in if availableTokens \<le> noteTokens then concat (take (availableTokens * 4) (js_chars note))
                  else (let chars = js_chars conversation;
                            start = suffixStartForTokenBudget chars (availableTokens - noteTokens)
                        in note @ concat (drop start chars))))"

subsection \<open>Characters and estimates of concatenations\<close>

lemma concat_js_chars [simp]: "concat (js_chars s) = s"
proof (induction s rule: utf16_induct)
  case (Pair c d s)
  then show ?case by simp
next
  case (Unit c s)
  then show ?case by auto
qed simp

text \<open>A suffix of the characters is again the characters of a string.\<close>

lemma drop_js_chars: "js_chars (concat (drop k (js_chars s))) = drop k (js_chars s)"
proof (induction s arbitrary: k rule: utf16_induct)
  case (Pair c d s)
  then show ?case by (cases k) simp_all
next
  case (Unit c s)
  show ?case
  proof (cases k)
    case 0
    then show ?thesis by (simp only: drop_0 concat_js_chars)
  next
    case (Suc j)
    then show ?thesis using Unit by auto
  qed
qed simp

text \<open>A text in ASCII before a string does not disturb its characters.\<close>

lemma js_chars_ascii_append:
  "\<forall>c \<in> set s. c < 128 \<Longrightarrow> js_chars (s @ t) = map (\<lambda>c. [c]) s @ js_chars t"
  by (induction s) (auto simp: high_surrogate_def)

definition char_tokens :: "js_string list \<Rightarrow> nat" where
  "char_tokens chs = ceil4 (length (filter ascii_char chs)) + length (filter (\<lambda>ch. \<not> ascii_char ch) chs)"

lemma estimateTextTokens_eq: "estimateTextTokens s = char_tokens (js_chars s)"
  by (simp add: estimateTextTokens_def char_tokens_def)

lemma ceil4_add: "ceil4 (a + b) \<le> ceil4 a + ceil4 b"
  by (simp add: ceil4_def)

lemma char_tokens_append: "char_tokens (xs @ ys) \<le> char_tokens xs + char_tokens ys"
  using ceil4_add [of "length (filter ascii_char xs)" "length (filter ascii_char ys)"]
  by (simp add: char_tokens_def)

lemma char_tokens_ascii: "\<forall>c \<in> set s. c < 128 \<Longrightarrow> char_tokens (map (\<lambda>c. [c]) s) = ceil4 (length s)"
  by (induction s) (auto simp: char_tokens_def ascii_char_def filter_empty_conv)

lemma estimate_ascii: "\<forall>c \<in> set s. c < 128 \<Longrightarrow> estimateTextTokens s = ceil4 (length s)"
  using js_chars_ascii_append [of s "[]"] char_tokens_ascii by (simp add: estimateTextTokens_eq)

subsection \<open>The suffix under a budget\<close>

lemma suffix_loop_bound:
  "ceil4 a + n \<le> budget \<Longrightarrow> start = length rchs \<Longrightarrow>
     \<exists>k. suffix_loop budget rchs a n start = length rchs - k \<and> k \<le> length rchs \<and>
       ceil4 (a + length (filter ascii_char (take k rchs)))
         + (n + length (filter (\<lambda>ch. \<not> ascii_char ch) (take k rchs))) \<le> budget
       \<and> (k < length rchs \<longrightarrow>
           ceil4 (a + length (filter ascii_char (take (Suc k) rchs)))
             + (n + length (filter (\<lambda>ch. \<not> ascii_char ch) (take (Suc k) rchs))) > budget)"
proof (induction rchs arbitrary: a n start)
  case Nil
  then show ?case by auto
next
  case (Cons ch rchs)
  let ?a = "if ascii_char ch then a + 1 else a"
  let ?n = "if ascii_char ch then n else n + 1"
  show ?case
  proof (cases "ceil4 ?a + ?n > budget")
    case True
    then show ?thesis using Cons.prems by (intro exI [of _ 0]) auto
  next
    case False
    then obtain k where k: "suffix_loop budget rchs ?a ?n (length rchs) = length rchs - k" "k \<le> length rchs"
      "ceil4 (?a + length (filter ascii_char (take k rchs)))
         + (?n + length (filter (\<lambda>ch. \<not> ascii_char ch) (take k rchs))) \<le> budget"
      "k < length rchs \<longrightarrow>
           ceil4 (?a + length (filter ascii_char (take (Suc k) rchs)))
             + (?n + length (filter (\<lambda>ch. \<not> ascii_char ch) (take (Suc k) rchs))) > budget"
      using Cons.IH [of ?a ?n "length rchs"] by auto
    then show ?thesis using False by (intro exI [of _ "Suc k"]) auto
  qed
qed

lemma char_tokens_rev: "char_tokens (rev xs) = char_tokens xs"
  by (simp add: char_tokens_def rev_filter [symmetric])

lemma suffixStart_spec:
  "suffixStartForTokenBudget chs budget \<le> length chs
   \<and> char_tokens (drop (suffixStartForTokenBudget chs budget) chs) \<le> budget
   \<and> (0 < suffixStartForTokenBudget chs budget \<longrightarrow>
       budget < char_tokens (drop (suffixStartForTokenBudget chs budget - 1) chs))"
proof -
  obtain k where k: "suffixStartForTokenBudget chs budget = length chs - k" "k \<le> length chs"
    "char_tokens (take k (rev chs)) \<le> budget"
    "k < length chs \<longrightarrow> budget < char_tokens (take (Suc k) (rev chs))"
    using suffix_loop_bound [of 0 0 budget "length (rev chs)" "rev chs"]
    by (auto simp: suffixStartForTokenBudget_def char_tokens_def ceil4_def)
  moreover have "take j (rev chs) = rev (drop (length chs - j) chs)" if "j \<le> length chs" for j
    by (simp add: take_rev)
  ultimately have "char_tokens (drop (length chs - k) chs) \<le> budget"
    "k < length chs \<longrightarrow> budget < char_tokens (drop (length chs - Suc k) chs)"
    by (simp_all add: char_tokens_rev)
  then show ?thesis using k(1,2) by auto
qed

text \<open>
  C34: The conversation text sent to the summarizer never exceeds the token budget that is left
  after the overhead of the prompt, by the same estimate the program uses, whatever the messages
  are: a single huge message, characters outside ASCII and surrogate pairs included.
\<close>

theorem summary_text_within_budget:
  "estimateTextTokens (serializeConversationForSummaryBudget now ms budgetTokens custom)
     \<le> budgetTokens - summaryPromptOverheadTokens custom"
proof -
  let ?c = "serializeConversation (convertToLlm (trimMessagesForSummaryBudget now ms budgetTokens custom))"
  let ?av = "budgetTokens - summaryPromptOverheadTokens custom"
  let ?note = OMITTED_CONTENT_NOTE
  have ascii: "\<forall>c \<in> set ?note. c < 128"
    by (simp add: OMITTED_CONTENT_NOTE_def str_def nl_def)
  have chars: "js_chars ?note = map (\<lambda>c. [c]) ?note"
    using js_chars_ascii_append [OF ascii, of "[]"] by simp
  have concat: "concat (map (\<lambda>c. [c]) s) = s" for s :: js_string
    by (induction s) auto
  have short: "estimateTextTokens (concat (take (?av * 4) (js_chars ?note))) \<le> ?av"
  proof -
    have "concat (take (?av * 4) (js_chars ?note)) = take (?av * 4) ?note"
      by (simp add: chars take_map concat)
    moreover have "estimateTextTokens (take (?av * 4) ?note) = ceil4 (length (take (?av * 4) ?note))"
      by (rule estimate_ascii) (use ascii in \<open>auto dest: in_set_takeD\<close>)
    moreover have "ceil4 n \<le> x" if "n \<le> x * 4" for n x
      using that by (simp add: ceil4_def)
    ultimately show ?thesis by simp
  qed
  have long: "estimateTextTokens (?note @ concat (drop (suffixStartForTokenBudget (js_chars ?c)
      (?av - estimateTextTokens ?note)) (js_chars ?c))) \<le> ?av" if "estimateTextTokens ?note < ?av"
  proof -
    let ?s = "concat (drop (suffixStartForTokenBudget (js_chars ?c) (?av - estimateTextTokens ?note)) (js_chars ?c))"
    have "estimateTextTokens (?note @ ?s) \<le> estimateTextTokens ?note + estimateTextTokens ?s"
      using char_tokens_append [of "js_chars ?note" "js_chars ?s"]
      by (simp add: estimateTextTokens_eq js_chars_ascii_append [OF ascii] chars)
    also have "estimateTextTokens ?s \<le> ?av - estimateTextTokens ?note"
      using suffixStart_spec [of "js_chars ?c" "?av - estimateTextTokens ?note"]
      by (simp add: estimateTextTokens_eq drop_js_chars)
    finally show ?thesis using that by simp
  qed
  show ?thesis
    using short long by (simp add: serializeConversationForSummaryBudget_def Let_def)
qed

subsection \<open>Dropping the oldest messages\<close>

lemma trim_loop_spec:
  "(kept = [] \<or> acc \<le> budget) \<Longrightarrow> rms \<noteq> [] \<or> kept \<noteq> [] \<Longrightarrow>
     \<exists>k \<le> length rms. trim_loop budget rms kept acc = rev (take k rms) @ kept
       \<and> (kept = [] \<longrightarrow> 1 \<le> k)
       \<and> (length kept + k \<le> 1 \<or> acc + sum_list (map estimateTokens (take k rms)) \<le> budget)
       \<and> (k < length rms \<longrightarrow> budget \<le> acc + sum_list (map estimateTokens (take (Suc k) rms)))"
proof (induction rms arbitrary: kept acc)
  case (Cons m rms)
  consider (stop) "kept \<noteq> []" "acc + estimateTokens m > budget"
    | (full) "kept = [] \<or> acc + estimateTokens m \<le> budget" "acc + estimateTokens m \<ge> budget"
    | (more) "acc + estimateTokens m < budget"
    by linarith
  then show ?case
  proof cases
    case stop
    then show ?thesis using Cons.prems by (intro exI [of _ 0]) auto
  next
    case full
    then show ?thesis using Cons.prems by (intro exI [of _ "Suc 0"]) auto
  next
    case more
    then obtain k where "k \<le> length rms"
      "trim_loop budget rms (m # kept) (acc + estimateTokens m) = rev (take k rms) @ m # kept"
      "acc + estimateTokens m + sum_list (map estimateTokens (take k rms)) \<le> budget \<or> length (m # kept) + k \<le> 1"
      "k < length rms \<longrightarrow> budget \<le> acc + estimateTokens m + sum_list (map estimateTokens (take (Suc k) rms))"
      using Cons.IH [of "m # kept" "acc + estimateTokens m"] by auto
    moreover from this have "acc + estimateTokens m + sum_list (map estimateTokens (take k rms)) \<le> budget"
      using more by (cases k) auto
    ultimately show ?thesis using more by (intro exI [of _ "Suc k"]) (auto simp: add.assoc)
  qed
qed auto

lemma sum_take_rev:
  "k \<le> length ms \<Longrightarrow>
     sum_list (map f (take k (rev ms))) = sum_list (map (f :: 'a \<Rightarrow> nat) (drop (length ms - k) ms))"
  by (simp add: take_rev rev_map [symmetric] sum_list_rev)

text \<open>
  A prompt over budget keeps a suffix of the newest messages, at least one, behind a note that
  states exactly how many older ones were left out.  The suffix fits the budget unless it is a
  single message, and one more message would reach the budget.
\<close>

theorem trim_keeps_newest:
  assumes "ms \<noteq> []" "budget < summarizePromptEstimateTokens ms custom"
  shows "\<exists>k. 1 \<le> k \<and> k \<le> length ms
    \<and> trimMessagesForSummaryBudget now ms budget custom =
        (if k < length ms
         then [UserMsg (Plain (omission_note (length ms - k)
                 ''the session exceeded the summarizer prompt budget'')) now] else [])
        @ drop (length ms - k) ms
    \<and> (k = 1 \<or> summarizePromptEstimateTokens (drop (length ms - k) ms) custom \<le> budget)
    \<and> (k < length ms \<longrightarrow> budget \<le> summarizePromptEstimateTokens (drop (length ms - Suc k) ms) custom)"
proof -
  let ?o = "summaryPromptOverheadTokens custom"
  obtain k where k: "k \<le> length (rev ms)" "trim_loop budget (rev ms) [] ?o = rev (take k (rev ms))"
    "1 \<le> k" "k \<le> 1 \<or> ?o + sum_list (map estimateTokens (take k (rev ms))) \<le> budget"
    "k < length ms \<longrightarrow> budget \<le> ?o + sum_list (map estimateTokens (take (Suc k) (rev ms)))"
    using trim_loop_spec [of "[]" ?o budget "rev ms"] assms(1) by auto
  have kept: "trim_loop budget (rev ms) [] ?o = drop (length ms - k) ms"
    using k(2) by (simp add: take_rev)
  have "k < length ms \<Longrightarrow> budget \<le> summarizePromptEstimateTokens (drop (length ms - Suc k) ms) custom"
    using k(5) unfolding summarizePromptEstimateTokens_def
    by (metis Suc_leI sum_take_rev)
  moreover have "k = 1 \<or> summarizePromptEstimateTokens (drop (length ms - k) ms) custom \<le> budget"
    using k(1,3,4) unfolding summarizePromptEstimateTokens_def length_rev
    by (metis le_antisym sum_take_rev)
  moreover have "length ms - length (drop (length ms - k) ms) = length ms - k"
    using k(1) by simp
  then have "trimMessagesForSummaryBudget now ms budget custom =
      (if k < length ms
       then [UserMsg (Plain (omission_note (length ms - k)
               ''the session exceeded the summarizer prompt budget'')) now] else [])
      @ drop (length ms - k) ms"
    using assms(2) unfolding trimMessagesForSummaryBudget_def Let_def kept
    by (simp only: not_le [symmetric] if_False zero_less_diff split: if_split) simp
  moreover have "k \<le> length ms" using k(1) by simp
  ultimately show ?thesis using k(3) by blast
qed

theorem trim_keeps_newest_witness:
  "\<exists>k. 1 \<le> k \<and> k \<le> 2 \<and>
     trimMessagesForSummaryBudget None [UserMsg (Plain (str ''old'')) None, UserMsg (Plain (str ''new'')) None] 100 None
     = (if k < 2 then [UserMsg (Plain (omission_note (2 - k)
           ''the session exceeded the summarizer prompt budget'')) None] else [])
       @ drop (2 - k) [UserMsg (Plain (str ''old'')) None, UserMsg (Plain (str ''new'')) None]"
proof -
  have "100 < summarizePromptEstimateTokens
      [UserMsg (Plain (str ''old'')) None, UserMsg (Plain (str ''new'')) None] None"
    by (simp add: summarizePromptEstimateTokens_def summaryPromptOverheadTokens_def
        SUMMARY_PROMPT_FRAMING_TOKENS_def)
  note big = this
  have len: "length [UserMsg (Plain (str ''old'')) None, UserMsg (Plain (str ''new'')) None] = 2"
    by simp
  show ?thesis using trim_keeps_newest [OF list.distinct(2) big, of None] unfolding len by blast
qed

end
