(* ===== verification/Compaction.thy ===== *)
theory Compaction
  imports Budget SessionRun
begin

text \<open>
  \<open>packages/agent/src/harness/compaction/compaction.ts\<close>: where a branch is cut, what is
  summarised and what is kept, the calls of the summarizer with their retries, and \<open>compact\<close>.
  The answers of the model provider are an argument: \<open>provider attempt request\<close>.
\<close>

subsection \<open>Messages of entries\<close>

fun getMessageFromEntry :: "(js_string \<Rightarrow> ms) \<Rightarrow> session_entry \<Rightarrow> agent_message option" where
  "getMessageFromEntry date_parse e =
     (case e_body e of
        EMessage m \<Rightarrow> Some m
      | ECustomMessage customType content display details \<Rightarrow>
          Some (createCustomMessage date_parse customType content display details (e_timestamp e))
      | EBranchSummary fromId summary details fromHook \<Rightarrow>
          Some (createBranchSummaryMessage date_parse summary fromId (e_timestamp e))
      | ECompaction summary firstKept tokensBefore details fromHook \<Rightarrow>
          Some (createCompactionSummaryMessage date_parse summary tokensBefore (e_timestamp e))
      | _ \<Rightarrow> None)"

definition getMessageFromEntryForCompaction ::
  "(js_string \<Rightarrow> ms) \<Rightarrow> session_entry \<Rightarrow> agent_message option" where
  "getMessageFromEntryForCompaction date_parse e =
     (if is_compaction (e_body e) then None else getMessageFromEntry date_parse e)"

text \<open>The string members of an array field of the details of an earlier compaction.\<close>

definition detail_files :: "json option \<Rightarrow> string \<Rightarrow> js_string list" where
  "detail_files details field =
     (case details of
        None \<Rightarrow> []
      | Some d \<Rightarrow>
          (case json_get d (str field) of
             Some (JArr vs) \<Rightarrow> List.map_filter (\<lambda>v. json_string (Some v)) vs
           | _ \<Rightarrow> []))"

definition extractFileOperations ::
  "agent_message list \<Rightarrow> session_entry list \<Rightarrow> nat option \<Rightarrow> file_operations" where
  "extractFileOperations ms entries prevCompactionIndex =
     (let ops0 =
        (case prevCompactionIndex of
           None \<Rightarrow> createFileOps
         | Some i \<Rightarrow>
             (case e_body (entries ! i) of
                ECompaction summary firstKept tokensBefore details fromHook \<Rightarrow>
                  if fromHook then createFileOps
                  else createFileOps
                    \<lparr>fo_read := fold set_add (detail_files details ''readFiles'') [],
                     fo_edited := fold set_add (detail_files details ''modifiedFiles'') []\<rparr>
              | _ \<Rightarrow> createFileOps))
      in fold extractFileOpsFromMessage ms ops0)"

subsection \<open>Cut points\<close>

fun is_tool_result :: "entry_body \<Rightarrow> bool" where
  "is_tool_result (EMessage (LlmMessage (LToolResult _))) = True"
| "is_tool_result _ = False"

fun is_message :: "entry_body \<Rightarrow> bool" where
  "is_message (EMessage _) = True"
| "is_message _ = False"

fun is_branch_or_custom :: "entry_body \<Rightarrow> bool" where
  "is_branch_or_custom (EBranchSummary _ _ _ _) = True"
| "is_branch_or_custom (ECustomMessage _ _ _ _) = True"
| "is_branch_or_custom _ = False"

definition valid_cut :: "entry_body \<Rightarrow> bool" where
  "valid_cut b \<longleftrightarrow> (is_message b \<and> \<not> is_tool_result b) \<or> is_branch_or_custom b"

definition findValidCutPoints :: "session_entry list \<Rightarrow> nat \<Rightarrow> nat \<Rightarrow> nat list" where
  "findValidCutPoints entries startIndex endIndex =
     filter (\<lambda>i. valid_cut (e_body (entries ! i))) [startIndex..<endIndex]"

fun starts_turn :: "entry_body \<Rightarrow> bool" where
  "starts_turn (EMessage (LlmMessage (LUser _ _))) = True"
| "starts_turn (EMessage (BashExecution _)) = True"
| "starts_turn b = is_branch_or_custom b"

text \<open>None is the result \<open>-1\<close>.\<close>

definition findTurnStartIndex :: "session_entry list \<Rightarrow> nat \<Rightarrow> nat \<Rightarrow> nat option" where
  "findTurnStartIndex entries entryIndex startIndex =
     find (\<lambda>i. starts_turn (e_body (entries ! i))) (rev [startIndex..<Suc entryIndex])"

record cut_point_result =
  cp_firstKeptEntryIndex :: nat
  cp_turnStartIndex :: "nat option"
  cp_isSplitTurn :: bool

text \<open>The index at which the recent messages reach the budget; \<open>is\<close> runs downwards.\<close>

fun budget_index :: "session_entry list \<Rightarrow> nat \<Rightarrow> nat list \<Rightarrow> nat \<Rightarrow> nat option" where
  "budget_index entries keepRecentTokens [] accumulated = None"
| "budget_index entries keepRecentTokens (i # is) accumulated =
     (case e_body (entries ! i) of
        EMessage m \<Rightarrow>
          (if accumulated + estimateTokens m \<ge> keepRecentTokens then Some i
           else budget_index entries keepRecentTokens is (accumulated + estimateTokens m))
      | _ \<Rightarrow> budget_index entries keepRecentTokens is accumulated)"

text \<open>The last loop: back over entries that are neither messages nor compactions.\<close>

fun walk_back :: "session_entry list \<Rightarrow> nat \<Rightarrow> nat \<Rightarrow> nat" where
  "walk_back entries startIndex 0 = 0"
| "walk_back entries startIndex (Suc c) =
     (if Suc c > startIndex \<and> \<not> is_compaction (e_body (entries ! c)) \<and> \<not> is_message (e_body (entries ! c))
      then walk_back entries startIndex c else Suc c)"

definition cut_index :: "session_entry list \<Rightarrow> nat \<Rightarrow> nat \<Rightarrow> nat \<Rightarrow> nat list \<Rightarrow> nat" where
  "cut_index entries startIndex endIndex keepRecentTokens cutPoints =
     (let initial = (case findTurnStartIndex entries (endIndex - 1) startIndex of
                       Some i \<Rightarrow> i | None \<Rightarrow> hd cutPoints)
      in case budget_index entries keepRecentTokens (rev [startIndex..<endIndex]) 0 of
           None \<Rightarrow> initial
         | Some i \<Rightarrow> (case find (\<lambda>c. i \<le> c) cutPoints of Some c \<Rightarrow> c | None \<Rightarrow> initial))"

definition findCutPoint :: "session_entry list \<Rightarrow> nat \<Rightarrow> nat \<Rightarrow> nat \<Rightarrow> cut_point_result" where
  "findCutPoint entries startIndex endIndex keepRecentTokens =
     (let cutPoints = findValidCutPoints entries startIndex endIndex
      in if cutPoints = []
         then \<lparr>cp_firstKeptEntryIndex = startIndex, cp_turnStartIndex = None, cp_isSplitTurn = False\<rparr>
         else (let cutIndex = walk_back entries startIndex
                     (cut_index entries startIndex endIndex keepRecentTokens cutPoints);
                   isUserMessage = is_user_message (e_body (entries ! cutIndex));
                   turnStartIndex = (if isUserMessage then None
                                     else findTurnStartIndex entries cutIndex startIndex)
               in \<lparr>cp_firstKeptEntryIndex = cutIndex, cp_turnStartIndex = turnStartIndex,
                   cp_isSplitTurn = (\<not> isUserMessage \<and> turnStartIndex \<noteq> None)\<rparr>))"

subsection \<open>prepareCompaction\<close>

datatype compaction_error_code = CompactionAborted | SummarizationFailed | CompactionInvalidSession

datatype compaction_error = CompactionError compaction_error_code js_string

record compaction_preparation =
  pr_firstKeptEntryId :: js_string
  pr_messagesToSummarize :: "agent_message list"
  pr_turnPrefixMessages :: "agent_message list"
  pr_isSplitTurn :: bool
  pr_tokensBefore :: nat
  pr_previousSummary :: "js_string option"
  pr_fileOps :: file_operations
  pr_settings :: compaction_settings

definition no_uuid_error :: compaction_error where
  "no_uuid_error = CompactionError CompactionInvalidSession
     (str ''First kept entry has no UUID - session may need migration'')"

definition last_compaction_index :: "session_entry list \<Rightarrow> nat option" where
  "last_compaction_index es = find (\<lambda>i. is_compaction (e_body (es ! i))) (rev [0..<length es])"

definition find_entry_index :: "session_entry list \<Rightarrow> js_string \<Rightarrow> nat option" where
  "find_entry_index es i = find (\<lambda>j. e_id (es ! j) = i) [0..<length es]"

definition range_messages :: "(js_string \<Rightarrow> ms) \<Rightarrow> session_entry list \<Rightarrow> nat \<Rightarrow> nat \<Rightarrow> agent_message list" where
  "range_messages date_parse es i j =
     List.map_filter (\<lambda>k. getMessageFromEntryForCompaction date_parse (es ! k)) [i..<j]"

definition boundary_start :: "session_entry list \<Rightarrow> js_string option \<times> nat" where
  "boundary_start es =
     (case last_compaction_index es of
        None \<Rightarrow> (None, 0)
      | Some p \<Rightarrow>
          (case e_body (es ! p) of
             ECompaction summary firstKept tokensBefore details fromHook \<Rightarrow>
               (Some summary, case find_entry_index es firstKept of Some j \<Rightarrow> j | None \<Rightarrow> p + 1)
           | _ \<Rightarrow> (None, 0)))"

definition prepareCompaction ::
  "(js_string \<Rightarrow> ms) \<Rightarrow> session_entry list \<Rightarrow> compaction_settings \<Rightarrow>
     compaction_error + compaction_preparation option" where
  "prepareCompaction date_parse es settings =
     (if es = [] \<or> is_compaction (e_body (last es)) then Inr None
      else (let prev = last_compaction_index es;
                (previousSummary, boundaryStart) = boundary_start es;
                tokensBefore = cu_tokens (estimateContextTokens
                                 (ctx_messages (buildSessionContext date_parse es)));
                cutPoint = findCutPoint es boundaryStart (length es) (cs_keepRecentTokens settings);
                first = cp_firstKeptEntryIndex cutPoint
            in if \<not> (first < length es) \<or> e_id (es ! first) = [] then Inl no_uuid_error
               else (let historyEnd = (if cp_isSplitTurn cutPoint then the (cp_turnStartIndex cutPoint)
                                       else first);
                         messagesToSummarize = range_messages date_parse es boundaryStart historyEnd;
                         turnPrefixMessages = (if cp_isSplitTurn cutPoint
                            then range_messages date_parse es (the (cp_turnStartIndex cutPoint)) first
                            else []);
                         fileOps0 = extractFileOperations messagesToSummarize es prev;
                         fileOps = (if cp_isSplitTurn cutPoint
                                    then fold extractFileOpsFromMessage turnPrefixMessages fileOps0
                                    else fileOps0)
                     in Inr (Some \<lparr>pr_firstKeptEntryId = e_id (es ! first),
                                   pr_messagesToSummarize = messagesToSummarize,
                                   pr_turnPrefixMessages = turnPrefixMessages,
                                   pr_isSplitTurn = cp_isSplitTurn cutPoint,
                                   pr_tokensBefore = tokensBefore,
                                   pr_previousSummary = previousSummary,
                                   pr_fileOps = fileOps, pr_settings = settings\<rparr>))))"

subsection \<open>The prompts\<close>

definition SUMMARIZATION_PROMPT :: js_string where
  "SUMMARIZATION_PROMPT = js_join nl [
     str ''The messages above are a conversation to summarize. Create a structured context checkpoint summary that another LLM will use to continue the work.'',
     [],
     str ''Use this EXACT format:'',
     [],
     str ''## Goal'',
     str ''[What is the user trying to accomplish? Can be multiple items if the session covers different tasks.]'',
     [],
     str ''## Constraints & Preferences'',
     str ''- [Any constraints, preferences, or requirements mentioned by user]'',
     str ''- [Or \"(none)\" if none were mentioned]'',
     [],
     str ''## Progress'',
     str ''### Done'',
     str ''- [x] [Completed tasks/changes]'',
     [],
     str ''### In Progress'',
     str ''- [ ] [Current work]'',
     [],
     str ''### Blocked'',
     str ''- [Issues preventing progress, if any]'',
     [],
     str ''## Key Decisions'',
     str ''- **[Decision]**: [Brief rationale]'',
     [],
     str ''## Next Steps'',
     str ''1. [Ordered list of what should happen next]'',
     [],
     str ''## Critical Context'',
     str ''- [Any data, examples, or references needed to continue]'',
     str ''- [Or \"(none)\" if not applicable]'',
     [],
     str ''Keep each section concise. Preserve exact file paths, function names, and error messages.'']"

definition UPDATE_SUMMARIZATION_PROMPT :: js_string where
  "UPDATE_SUMMARIZATION_PROMPT = js_join nl [
     str ''The messages above are NEW conversation messages to incorporate into the existing summary provided in <previous-summary> tags.'',
     [],
     str ''Update the existing structured summary with new information. RULES:'',
     str ''- PRESERVE all existing information from the previous summary'',
     str ''- ADD new progress, decisions, and context from the new messages'',
     str ''- UPDATE the Progress section: move items from \"In Progress\" to \"Done\" when completed'',
     str ''- UPDATE \"Next Steps\" based on what was accomplished'',
     str ''- PRESERVE exact file paths, function names, and error messages'',
     str ''- If something is no longer relevant, you may remove it'',
     [],
     str ''Use this EXACT format:'',
     [],
     str ''## Goal'',
     str ''[Preserve existing goals, add new ones if the task expanded]'',
     [],
     str ''## Constraints & Preferences'',
     str ''- [Preserve existing, add new ones discovered]'',
     [],
     str ''## Progress'',
     str ''### Done'',
     str ''- [x] [Include previously done items AND newly completed items]'',
     [],
     str ''### In Progress'',
     str ''- [ ] [Current work - update based on progress]'',
     [],
     str ''### Blocked'',
     str ''- [Current blockers - remove if resolved]'',
     [],
     str ''## Key Decisions'',
     str ''- **[Decision]**: [Brief rationale] (preserve all previous, add new)'',
     [],
     str ''## Next Steps'',
     str ''1. [Update based on current state]'',
     [],
     str ''## Critical Context'',
     str ''- [Preserve important context, add new if needed]'',
     [],
     str ''Keep each section concise. Preserve exact file paths, function names, and error messages.'']"

definition TURN_PREFIX_SUMMARIZATION_PROMPT :: js_string where
  "TURN_PREFIX_SUMMARIZATION_PROMPT = js_join nl [
     str ''This is the PREFIX of a turn that was too large to keep. The SUFFIX (recent work) is retained.'',
     [],
     str ''Summarize the prefix to provide context for the retained suffix:'',
     [],
     str ''## Original Request'',
     str ''[What did the user ask for in this turn?]'',
     [],
     str ''## Early Progress'',
     str ''- [Key decisions and work done in the prefix]'',
     [],
     str ''## Context for Suffix'',
     str ''- [Information needed to understand the retained recent work]'',
     [],
     str ''Be concise. Focus on what'' @ [39] @ str ''s needed to understand the kept suffix.'']"


subsection \<open>The summarizer calls\<close>

definition MAX_SUMMARY_OVERFLOW_RETRIES :: nat where
  "MAX_SUMMARY_OVERFLOW_RETRIES = 3"

record summary_request =
  rq_maxTokens :: nat
  rq_promptText :: js_string
  rq_reasoning :: "js_string option"

type_synonym summary_provider = "nat \<Rightarrow> summary_request \<Rightarrow> assistant_message"

definition shrinkMessagesForOverflowRetry :: "agent_message list \<Rightarrow> agent_message list \<times> nat" where
  "shrinkMessagesForOverflowRetry ms =
     (let keep = max 1 ((length ms + 1) div 2)
      in (drop (length ms - keep) ms, length ms - keep))"

definition retry_note :: "ms \<Rightarrow> nat \<Rightarrow> agent_message" where
  "retry_note now omitted = UserMsg (Plain (omission_note omitted
     ''the summarizer prompt was too large for the model'')) now"

definition messages_for_prompt :: "ms \<Rightarrow> nat \<Rightarrow> agent_message list \<Rightarrow> agent_message list" where
  "messages_for_prompt now omitted core = (if omitted > 0 then retry_note now omitted # core else core)"

definition or_default :: "js_string option \<Rightarrow> string \<Rightarrow> js_string" where
  "or_default s d = (case s of None \<Rightarrow> str d | Some t \<Rightarrow> if t = [] then str d else t)"

fun text_block :: "assistant_block \<Rightarrow> js_string option" where
  "text_block (AText t) = Some t"
| "text_block _ = None"

definition response_text :: "assistant_message \<Rightarrow> js_string" where
  "response_text m = js_join nl (List.map_filter text_block (a_content m))"

text \<open>
  The loop that \<open>generateSummary\<close> and \<open>generateTurnPrefixSummary\<close> both have; \<open>retries\<close> is
  \<open>MAX_SUMMARY_OVERFLOW_RETRIES - attempt\<close>, \<open>label\<close> starts the texts of the errors.
\<close>

fun summary_loop ::
  "summary_provider \<Rightarrow> (agent_message list \<Rightarrow> summary_request) \<Rightarrow> nat option \<Rightarrow> string \<Rightarrow> ms \<Rightarrow>
     nat \<Rightarrow> nat \<Rightarrow> agent_message list \<Rightarrow> nat \<Rightarrow> compaction_error + js_string" where
  "summary_loop provider request window label now attempt retries core omitted =
     (let response = provider attempt (request (messages_for_prompt now omitted core))
      in if a_stopReason response = StopAborted
         then Inl (CompactionError CompactionAborted
                (or_default (a_errorMessage response) (label @ '' aborted'')))
         else if a_stopReason response = StopError
         then (case retries of
                 Suc r \<Rightarrow>
                   if length core > 1 \<and> isContextOverflow response window
                   then summary_loop provider request window label now (Suc attempt) r
                          (fst (shrinkMessagesForOverflowRetry core))
                          (omitted + snd (shrinkMessagesForOverflowRetry core))
                   else Inl (CompactionError SummarizationFailed
                          (str (label @ '' failed: '') @ or_default (a_errorMessage response) ''Unknown error''))
               | 0 \<Rightarrow> Inl (CompactionError SummarizationFailed
                          (str (label @ '' failed: '') @ or_default (a_errorMessage response) ''Unknown error'')))
         else Inr (response_text response))"

declare summary_loop.simps [simp del]

definition positive :: "nat \<Rightarrow> nat option" where
  "positive n = (if n > 0 then Some n else None)"

definition reasoning_option :: "model_limits \<Rightarrow> js_string option \<Rightarrow> js_string option" where
  "reasoning_option model thinkingLevel =
     (case thinkingLevel of
        Some l \<Rightarrow> if ml_reasoning model \<and> l \<noteq> [] \<and> l \<noteq> str ''off'' then Some l else None
      | None \<Rightarrow> None)"

definition filled :: "js_string option \<Rightarrow> bool" where
  "filled s = (case s of None \<Rightarrow> False | Some t \<Rightarrow> t \<noteq> [])"

definition summary_prompt ::
  "ms \<Rightarrow> model_limits \<Rightarrow> nat \<Rightarrow> js_string option \<Rightarrow> js_string option \<Rightarrow> agent_message list \<Rightarrow> js_string" where
  "summary_prompt now model reserveTokens customInstructions previousSummary ms =
     (let base = (if filled previousSummary then UPDATE_SUMMARIZATION_PROMPT else SUMMARIZATION_PROMPT)
            @ (if filled customInstructions
               then nl @ nl @ str ''Additional focus: '' @ the customInstructions else []);
          conversationText = serializeConversationForSummaryBudget now ms
            (summarizationPromptBudget model reserveTokens) customInstructions
      in str ''<conversation>'' @ nl @ conversationText @ nl @ str ''</conversation>'' @ nl @ nl
         @ (if filled previousSummary
            then str ''<previous-summary>'' @ nl @ the previousSummary @ nl
                 @ str ''</previous-summary>'' @ nl @ nl else [])
         @ base)"

definition generateSummary ::
  "summary_provider \<Rightarrow> ms \<Rightarrow> agent_message list \<Rightarrow> model_limits \<Rightarrow> nat \<Rightarrow> js_string option \<Rightarrow>
     js_string option \<Rightarrow> js_string option \<Rightarrow> compaction_error + js_string" where
  "generateSummary provider now ms model reserveTokens customInstructions previousSummary thinkingLevel =
     summary_loop provider
       (\<lambda>core. \<lparr>rq_maxTokens = summaryOutputTokens model reserveTokens,
               rq_promptText = summary_prompt now model reserveTokens customInstructions previousSummary core,
               rq_reasoning = reasoning_option model thinkingLevel\<rparr>)
       (positive (ml_contextWindow model)) ''Summarization'' now 0 MAX_SUMMARY_OVERFLOW_RETRIES ms 0"

definition generateTurnPrefixSummary ::
  "summary_provider \<Rightarrow> ms \<Rightarrow> agent_message list \<Rightarrow> model_limits \<Rightarrow> nat \<Rightarrow> js_string option \<Rightarrow>
     compaction_error + js_string" where
  "generateTurnPrefixSummary provider now ms model reserveTokens thinkingLevel =
     summary_loop provider
       (\<lambda>core. \<lparr>rq_maxTokens = (if ml_maxTokens model > 0
                  then min (reserveTokens div 2) (ml_maxTokens model) else reserveTokens div 2),
               rq_promptText = str ''<conversation>'' @ nl @ serializeConversation (convertToLlm core) @ nl
                  @ str ''</conversation>'' @ nl @ nl @ TURN_PREFIX_SUMMARIZATION_PROMPT,
               rq_reasoning = reasoning_option model thinkingLevel\<rparr>)
       (positive (ml_contextWindow model)) ''Turn prefix summarization'' now 0
       MAX_SUMMARY_OVERFLOW_RETRIES ms 0"

subsection \<open>compact\<close>

record compaction_result =
  cr_summary :: js_string
  cr_firstKeptEntryId :: js_string
  cr_tokensBefore :: nat
  cr_details :: "js_string list \<times> js_string list"      \<comment> \<open>\<open>readFiles\<close>, \<open>modifiedFiles\<close>\<close>

text \<open>The two summaries of a split turn are made by their own streams, \<open>history\<close> and \<open>prefix\<close>.\<close>

definition compact ::
  "summary_provider \<Rightarrow> summary_provider \<Rightarrow> ms \<Rightarrow> compaction_preparation \<Rightarrow> model_limits \<Rightarrow>
     js_string option \<Rightarrow> js_string option \<Rightarrow> compaction_error + compaction_result" where
  "compact history prefix now pr model customInstructions thinkingLevel =
     (let lists = computeFileLists (pr_fileOps pr);
          result = (\<lambda>summary. \<lparr>cr_summary = summary, cr_firstKeptEntryId = pr_firstKeptEntryId pr,
                               cr_tokensBefore = pr_tokensBefore pr, cr_details = lists\<rparr>);
          finish = (\<lambda>summary. result (summary @ formatFileOperations (fst lists) (snd lists)));
          historySummary = (\<lambda>_. generateSummary history now (pr_messagesToSummarize pr) model
             (cs_reserveTokens (pr_settings pr)) customInstructions (pr_previousSummary pr) thinkingLevel)
      in if pr_firstKeptEntryId pr = [] then Inl no_uuid_error
         else if pr_messagesToSummarize pr = [] \<and> pr_turnPrefixMessages pr = [] then Inr (result [])
         else if pr_isSplitTurn pr \<and> pr_turnPrefixMessages pr \<noteq> []
         then (case (if pr_messagesToSummarize pr \<noteq> [] then historySummary ()
                     else Inr (str ''No prior history.'')) of
                 Inl err \<Rightarrow> Inl err
               | Inr h \<Rightarrow>
                   (case generateTurnPrefixSummary prefix now (pr_turnPrefixMessages pr) model
                           (cs_reserveTokens (pr_settings pr)) thinkingLevel of
                      Inl err \<Rightarrow> Inl err
                    | Inr p \<Rightarrow> Inr (finish (h @ nl @ nl @ str ''---'' @ nl @ nl
                        @ str ''**Turn Context (split turn):**'' @ nl @ nl @ p))))
         else (case historySummary () of
                 Inl err \<Rightarrow> Inl err
               | Inr s \<Rightarrow> Inr (finish s)))"

end
