(* ===== verification/CompactionProps.thy ===== *)
theory CompactionProps
  imports Compaction
begin

text \<open>
  What compaction keeps and what it summarises: the cut is at an entry that is no tool result, the
  kept messages fit the budget, and summarised and kept messages together are the old context.
\<close>

subsection \<open>The cut\<close>

lemma find_in_set: "find P xs = Some x \<Longrightarrow> x \<in> set xs \<and> P x"
  by (auto simp: find_Some_iff)

lemma starts_turn_valid: "starts_turn b \<Longrightarrow> valid_cut b"
  by (cases b rule: starts_turn.cases) (auto simp: valid_cut_def)

lemma valid_cut_not_tool: "valid_cut b \<Longrightarrow> \<not> is_tool_result b"
  by (cases b rule: is_tool_result.cases) (auto simp: valid_cut_def)

lemma walk_back_spec:
  assumes "startIndex \<le> c"
  shows "startIndex \<le> walk_back es startIndex c \<and> walk_back es startIndex c \<le> c \<and>
    (\<forall>j. walk_back es startIndex c \<le> j \<and> j < c \<longrightarrow>
       \<not> is_compaction (e_body (es ! j)) \<and> \<not> is_message (e_body (es ! j)))"
  using assms
proof (induction c)
  case (Suc c)
  show ?case
  proof (cases "Suc c > startIndex \<and> \<not> is_compaction (e_body (es ! c)) \<and> \<not> is_message (e_body (es ! c))")
    case True
    then have "startIndex \<le> c" by simp
    note IH = Suc.IH [OF this]
    have "walk_back es startIndex (Suc c) = walk_back es startIndex c" using True by simp
    then show ?thesis using IH True by (auto simp: less_Suc_eq)
  next
    case False
    then have eq: "walk_back es startIndex (Suc c) = Suc c"
      by (subst walk_back.simps) (rule if_not_P)
    show ?thesis unfolding eq using Suc.prems by auto
  qed
qed simp

lemma turn_start_range:
  "findTurnStartIndex es i startIndex = Some t \<Longrightarrow>
     startIndex \<le> t \<and> t \<le> i \<and> starts_turn (e_body (es ! t))"
  by (auto simp: findTurnStartIndex_def dest!: find_in_set)

lemma cut_points_range:
  "c \<in> set (findValidCutPoints es i j) \<Longrightarrow> i \<le> c \<and> c < j \<and> valid_cut (e_body (es ! c))"
  by (auto simp: findValidCutPoints_def)

lemma cut_index_valid:
  assumes "findValidCutPoints es i j \<noteq> []"
  shows "i \<le> cut_index es i j keep (findValidCutPoints es i j) \<and>
    cut_index es i j keep (findValidCutPoints es i j) < j \<and>
    valid_cut (e_body (es ! cut_index es i j keep (findValidCutPoints es i j)))"
proof -
  let ?cs = "findValidCutPoints es i j"
  have hd: "hd ?cs \<in> set ?cs" using assms by simp
  then have "0 < j" using cut_points_range by fastforce
  have initial: "i \<le> x \<and> x < j \<and> valid_cut (e_body (es ! x))"
    if "x = (case findTurnStartIndex es (j - 1) i of Some t \<Rightarrow> t | None \<Rightarrow> hd ?cs)" for x
  proof (cases "findTurnStartIndex es (j - 1) i")
    case None
    then show ?thesis using that cut_points_range [OF hd] by simp
  next
    case (Some t)
    then show ?thesis using that turn_start_range [OF Some] starts_turn_valid \<open>0 < j\<close> by auto
  qed
  then show ?thesis
    using cut_points_range find_in_set
    by (fastforce simp: cut_index_def Let_def split: option.splits)
qed

lemma findCutPoint_spec:
  assumes "findCutPoint es i j keep = r" "findValidCutPoints es i j \<noteq> []"
  shows "i \<le> cp_firstKeptEntryIndex r" "cp_firstKeptEntryIndex r < j"
    "\<not> is_tool_result (e_body (es ! cp_firstKeptEntryIndex r))"
    "cp_isSplitTurn r \<Longrightarrow> \<exists>t. cp_turnStartIndex r = Some t \<and> i \<le> t \<and> t \<le> cp_firstKeptEntryIndex r"
proof -
  let ?c = "cut_index es i j keep (findValidCutPoints es i j)"
  have c: "i \<le> ?c" "?c < j" "valid_cut (e_body (es ! ?c))"
    using cut_index_valid [OF assms(2)] by auto
  have r: "cp_firstKeptEntryIndex r = walk_back es i ?c"
    using assms by (auto simp: findCutPoint_def Let_def)
  have wb: "i \<le> walk_back es i ?c" "walk_back es i ?c \<le> ?c"
    "walk_back es i ?c < ?c \<Longrightarrow> \<not> is_message (e_body (es ! walk_back es i ?c))"
    using walk_back_spec [OF c(1), of es] by auto
  show "i \<le> cp_firstKeptEntryIndex r" "cp_firstKeptEntryIndex r < j"
    using r wb c by auto
  have "\<not> is_message b \<Longrightarrow> \<not> is_tool_result b" for b
    by (cases b rule: is_tool_result.cases) auto
  then show "\<not> is_tool_result (e_body (es ! cp_firstKeptEntryIndex r))"
    using r wb(2,3) valid_cut_not_tool [OF c(3)] by (cases "walk_back es i ?c = ?c") auto
  show "cp_isSplitTurn r \<Longrightarrow> \<exists>t. cp_turnStartIndex r = Some t \<and> i \<le> t \<and> t \<le> cp_firstKeptEntryIndex r"
    using assms r turn_start_range by (auto simp: findCutPoint_def Let_def split: if_splits)
qed

subsection \<open>The kept messages and the budget\<close>

fun entry_tokens :: "entry_body \<Rightarrow> nat list" where
  "entry_tokens (EMessage m) = [estimateTokens m]"
| "entry_tokens _ = []"

definition kept_tokens :: "session_entry list \<Rightarrow> nat \<Rightarrow> nat \<Rightarrow> nat list" where
  "kept_tokens es i j = concat (map (\<lambda>k. entry_tokens (e_body (es ! k))) [i..<j])"

lemma budget_index_spec:
  "budget_index es keep xs acc = Some i \<Longrightarrow> acc < keep \<Longrightarrow>
     \<exists>ys zs m. xs = ys @ i # zs \<and> e_body (es ! i) = EMessage m \<and>
       acc + sum_list (concat (map (\<lambda>k. entry_tokens (e_body (es ! k))) ys)) < keep"
proof (induction xs arbitrary: acc)
  case (Cons j js)
  show ?case
  proof (cases "\<exists>m. e_body (es ! j) = EMessage m \<and> acc + estimateTokens m \<ge> keep")
    case True
    then have "j = i" using Cons.prems(1) by auto
    then show ?thesis using True Cons.prems(2)
      by (rule_tac x = "[]" in exI, rule_tac x = js in exI) auto
  next
    case False
    then have "budget_index es keep js (acc + sum_list (entry_tokens (e_body (es ! j)))) = Some i"
      "acc + sum_list (entry_tokens (e_body (es ! j))) < keep"
      using Cons.prems by (auto split: entry_body.splits if_splits)
    from Cons.IH [OF this] obtain ys zs m where "js = ys @ i # zs" "e_body (es ! i) = EMessage m"
      "acc + sum_list (entry_tokens (e_body (es ! j)))
         + sum_list (concat (map (\<lambda>k. entry_tokens (e_body (es ! k))) ys)) < keep"
      by blast
    then show ?thesis by (rule_tac x = "j # ys" in exI, rule_tac x = zs in exI) auto
  qed
qed simp

lemma budget_index_None:
  "budget_index es keep xs acc = None \<Longrightarrow> acc < keep \<Longrightarrow>
     acc + sum_list (concat (map (\<lambda>k. entry_tokens (e_body (es ! k))) xs)) < keep"
  by (induction es keep xs acc rule: budget_index.induct) (auto split: entry_body.splits if_splits)

lemma sum_concat_rev: "sum_list (concat (map f (rev xs))) = sum_list (concat (map f xs) :: nat list)"
  by (induction xs) auto

lemma budget_suffix:
  assumes "budget_index es keep (rev [i..<j]) 0 = Some k" "0 < keep"
  shows "i \<le> k \<and> k < j \<and> is_message (e_body (es ! k)) \<and> sum_list (kept_tokens es (Suc k) j) < keep"
proof -
  obtain ys zs m where s: "rev [i..<j] = ys @ k # zs" "e_body (es ! k) = EMessage m"
    "sum_list (concat (map (\<lambda>k. entry_tokens (e_body (es ! k))) ys)) < keep"
    using budget_index_spec [OF assms] by auto
  have k: "i \<le> k" "k < j"
  proof -
    have "k \<in> set (rev [i..<j])" using s(1) by simp
    then show "i \<le> k" "k < j" by auto
  qed
  have "[i..<j] = rev zs @ k # rev ys"
    using s(1) by (metis append.assoc append_Cons append_Nil rev.simps(2) rev_append rev_rev_ident)
  moreover have "[i..<j] = [i..<k] @ k # [Suc k..<j]"
    using k by (metis less_imp_le_nat upt_add_eq_append upt_conv_Cons le_add_diff_inverse)
  moreover have "k \<notin> set [i..<k]" "k \<notin> set [Suc k..<j]" by auto
  ultimately have "rev ys = [Suc k..<j]"
    by (metis append_Cons_eq_iff)
  then have "ys = rev [Suc k..<j]" by (simp add: rev_swap)
  then have "sum_list (kept_tokens es (Suc k) j) < keep"
    using s(3) by (simp add: kept_tokens_def sum_concat_rev)
  then show ?thesis using k s(2) by simp
qed

lemma kept_tokens_split: "i \<le> k \<Longrightarrow> k \<le> j \<Longrightarrow> kept_tokens es i j = kept_tokens es i k @ kept_tokens es k j"
  using upt_add_eq_append [of i k "j - k"] by (simp add: kept_tokens_def)

lemma kept_tokens_none:
  "(\<And>x. i \<le> x \<Longrightarrow> x < j \<Longrightarrow> \<not> is_message (e_body (es ! x))) \<Longrightarrow> kept_tokens es i j = []"
proof -
  assume none: "\<And>x. i \<le> x \<Longrightarrow> x < j \<Longrightarrow> \<not> is_message (e_body (es ! x))"
  have "\<not> is_message b \<Longrightarrow> entry_tokens b = []" for b by (cases b) auto
  then show ?thesis using none by (auto simp: kept_tokens_def)
qed

lemma sum_list_tl_le: "sum_list (tl xs) \<le> sum_list (xs :: nat list)"
  by (cases xs) auto

lemma kept_after_budget:
  assumes "k \<le> c" "c < j" "is_message (e_body (es ! k))"
    and "sum_list (kept_tokens es (Suc k) j) < keep"
  shows "sum_list (tl (kept_tokens es c j)) < keep"
proof (cases "c = k")
  case True
  have "kept_tokens es k j = kept_tokens es k (Suc k) @ kept_tokens es (Suc k) j"
    using assms True by (intro kept_tokens_split) auto
  moreover have "length (kept_tokens es k (Suc k)) = 1"
    using assms(3) by (cases "e_body (es ! k)") (auto simp: kept_tokens_def)
  ultimately have "tl (kept_tokens es k j) = kept_tokens es (Suc k) j"
    by (cases "kept_tokens es k (Suc k)") auto
  then show ?thesis using assms(4) True by simp
next
  case False
  then have "sum_list (kept_tokens es c j) \<le> sum_list (kept_tokens es (Suc k) j)"
    using kept_tokens_split [of "Suc k" c j es] assms by simp
  then show ?thesis using assms(4) sum_list_tl_le [of "kept_tokens es c j"] by linarith
qed

text \<open>
  The messages kept after the cut fit the budget for recent messages but for the oldest kept
  one, unless the budget is reached in a run of tool results at the very end behind which there
  is no place to cut.
\<close>

theorem cut_keeps_recent_budget:
  assumes "findValidCutPoints es i j \<noteq> []" "0 < keep"
  shows "sum_list (tl (kept_tokens es (cp_firstKeptEntryIndex (findCutPoint es i j keep)) j)) < keep
    \<or> (\<exists>k. budget_index es keep (rev [i..<j]) 0 = Some k \<and> (\<forall>x \<in> {k..<j}. \<not> valid_cut (e_body (es ! x))))"
proof -
  let ?cs = "findValidCutPoints es i j" and ?c = "cut_index es i j keep (findValidCutPoints es i j)"
  let ?r = "cp_firstKeptEntryIndex (findCutPoint es i j keep)"
  have c: "i \<le> ?c" "?c < j" using cut_index_valid [OF assms(1)] by auto
  have r: "?r = walk_back es i ?c" using assms(1) by (auto simp: findCutPoint_def Let_def)
  have "kept_tokens es ?r j = kept_tokens es ?r ?c @ kept_tokens es ?c j"
    using walk_back_spec [OF c(1), of es] c(2) r by (intro kept_tokens_split) auto
  also have "kept_tokens es ?r ?c = []"
    using walk_back_spec [OF c(1), of es] r by (intro kept_tokens_none) auto
  finally have kept: "kept_tokens es ?r j = kept_tokens es ?c j" by simp
  show ?thesis
  proof (cases "budget_index es keep (rev [i..<j]) 0")
    case None
    have "sum_list (kept_tokens es i j) < keep"
      using budget_index_None [OF None assms(2)]
      by (simp add: kept_tokens_def sum_concat_rev)
    moreover have "sum_list (kept_tokens es ?c j) \<le> sum_list (kept_tokens es i j)"
      using kept_tokens_split [of i ?c j es] c by simp
    ultimately show ?thesis using kept sum_list_tl_le [of "kept_tokens es ?c j"] by simp
  next
    case (Some k)
    note k = budget_suffix [OF Some assms(2)]
    show ?thesis
    proof (cases "find (\<lambda>c. k \<le> c) ?cs")
      case None
      then have "\<forall>x \<in> {k..<j}. \<not> valid_cut (e_body (es ! x))"
        using k by (auto simp: find_None_iff findValidCutPoints_def)
      then show ?thesis using Some by blast
    next
      case (Some c')
      then have c': "?c = c'" "k \<le> c'" "c' < j"
        using \<open>budget_index _ _ _ _ = Some k\<close> find_in_set [OF Some] cut_points_range
        by (auto simp: cut_index_def)
      have "sum_list (tl (kept_tokens es c' j)) < keep"
        by (rule kept_after_budget [OF c'(2,3)]) (use k in auto)
      then show ?thesis using kept c'(1) by simp
    qed
  qed
qed

subsection \<open>Summarised and kept messages\<close>

fun empty_branch_summary :: "entry_body \<Rightarrow> bool" where
  "empty_branch_summary (EBranchSummary fromId summary details hook) = (summary = [])"
| "empty_branch_summary _ = False"

text \<open>Where no branch summary is empty, compaction and context take the same messages.\<close>

lemma message_for_compaction:
  "\<not> empty_branch_summary (e_body e) \<Longrightarrow>
     context_message d e = (case getMessageFromEntryForCompaction d e of None \<Rightarrow> [] | Some m \<Rightarrow> [m])"
  by (cases "e_body e") (auto simp: context_message_def getMessageFromEntryForCompaction_def)

abbreviation messages_of :: "(js_string \<Rightarrow> ms) \<Rightarrow> session_entry list \<Rightarrow> agent_message list" where
  "messages_of d es \<equiv> concat (map (context_message d) es)"

lemma range_messages_eq:
  assumes "\<And>e. e \<in> set es \<Longrightarrow> \<not> empty_branch_summary (e_body e)" "i \<le> j" "j \<le> length es"
  shows "range_messages d es i j = messages_of d (drop i (take j es))"
proof -
  have "range_messages d es i j = concat (map (\<lambda>k. context_message d (es ! k)) [i..<j])"
  proof -
    have "context_message d (es ! k) =
        (case getMessageFromEntryForCompaction d (es ! k) of None \<Rightarrow> [] | Some m \<Rightarrow> [m])"
      if "k \<in> set [i..<j]" for k
      using message_for_compaction assms(1) [of "es ! k"] assms(3) that by auto
    then have "concat (map (\<lambda>k. context_message d (es ! k)) xs) = List.map_filter
        (\<lambda>k. getMessageFromEntryForCompaction d (es ! k)) xs" if "set xs \<subseteq> set [i..<j]" for xs
      using that by (induction xs) (auto simp: List.map_filter_simps split: option.splits)
    then show ?thesis by (simp add: range_messages_def)
  qed
  also have "map (\<lambda>k. context_message d (es ! k)) [i..<j] = map (context_message d) (drop i (take j es))"
    using assms(2,3) by (intro nth_equalityI) auto
  finally show ?thesis .
qed

lemma find_cong_set: "(\<And>x. x \<in> set xs \<Longrightarrow> P x = Q x) \<Longrightarrow> find P xs = find Q xs"
  by (induction xs) auto

lemma last_compaction_index_snoc:
  "last_compaction_index (es @ [e]) =
     (if is_compaction (e_body e) then Some (length es) else last_compaction_index es)"
  by (auto simp: last_compaction_index_def nth_append intro!: find_cong_set)

lemma last_compaction_index_less: "last_compaction_index es = Some p \<Longrightarrow> p < length es"
  by (auto simp: last_compaction_index_def dest!: find_in_set)

lemma context_state_last:
  "snd (snd (context_state es)) = map_option (nth es) (last_compaction_index es)"
proof (induction es rule: rev_induct)
  case (snoc e es)
  then show ?case
    using last_compaction_index_less [of es]
    by (cases "last_compaction_index es")
      (auto simp: context_step_compaction last_compaction_index_snoc nth_append)
qed (simp add: last_compaction_index_def)

lemma last_compaction_is: "last_compaction_index es = Some p \<Longrightarrow> is_compaction (e_body (es ! p))"
  by (auto simp: last_compaction_index_def dest!: find_in_set)

lemma first_index:
  assumes "p < length es" "P (es ! p)" "\<And>j. j < p \<Longrightarrow> \<not> P (es ! j)"
  shows "length (takeWhile (\<lambda>x. \<not> P x) es) = p"
proof -
  have "takeWhile (\<lambda>x. \<not> P x) es = take p es"
    using assms by (intro takeWhile_eq_take_P_nth) auto
  then show ?thesis using assms(1) by simp
qed

lemma distinct_id_nth:
  "distinct (map e_id es) \<Longrightarrow> i < length es \<Longrightarrow> j < length es \<Longrightarrow> e_id (es ! i) = e_id (es ! j) \<Longrightarrow> i = j"
  using nth_eq_iff_index_eq [of "map e_id es" i j] by simp

lemma kept_entries_index:
  assumes "distinct (map e_id es)" "i < length es"
  shows "kept_entries (e_id (es ! i)) es = drop i es"
proof -
  have "length (takeWhile (\<lambda>e. \<not> e_id e = e_id (es ! i)) es) = i"
  proof (rule first_index)
    fix j assume "j < i"
    then show "\<not> e_id (es ! j) = e_id (es ! i)"
      using distinct_id_nth [OF assms(1), of j i] assms(2) by auto
  qed (use assms in auto)
  then show ?thesis by (simp add: kept_entries_def dropWhile_eq_drop)
qed

lemma find_entry_index_Some:
  "find_entry_index es k = Some i \<Longrightarrow> i < length es \<and> e_id (es ! i) = k"
  by (auto simp: find_entry_index_def dest!: find_in_set)

lemma find_entry_index_None:
  "find_entry_index es k = None \<Longrightarrow> e \<in> set es \<Longrightarrow> e_id e \<noteq> k"
  by (auto simp: find_entry_index_def find_None_iff in_set_conv_nth)

lemma kept_entries_none: "(\<And>e. e \<in> set es \<Longrightarrow> e_id e \<noteq> k) \<Longrightarrow> kept_entries k es = []"
  by (simp add: kept_entries_def)

text \<open>The context of a branch: the last summary, then the messages from the boundary on.\<close>

lemma compaction_no_message: "is_compaction (e_body e) \<Longrightarrow> context_message d e = []"
  by (cases "e_body e") (auto simp: context_message_def)

lemma context_from_boundary:
  assumes "distinct (map e_id es)"
    and "\<And>p j. last_compaction_index es = Some p \<Longrightarrow> boundary_start es = (prev, j) \<Longrightarrow> j \<le> Suc p"
    and "boundary_start es = (prev, bs)"
  shows "\<exists>t n. ctx_messages (buildSessionContext d es) =
    (case prev of None \<Rightarrow> [] | Some s \<Rightarrow> [CompactionSummary s n t]) @ messages_of d (drop bs es)"
proof (cases "last_compaction_index es")
  case None
  then have "snd (snd (context_state es)) = None" "prev = None" "bs = 0"
    using context_state_last [of es] assms(3) by (auto simp: boundary_start_def)
  then show ?thesis by (auto simp: buildSessionContext_def split: prod.splits)
next
  case (Some p)
  note p = last_compaction_index_less [OF Some] last_compaction_is [OF Some]
  obtain summary fk n det h where b: "e_body (es ! p) = ECompaction summary fk n det h"
    using p(2) by (cases "e_body (es ! p)") auto
  have prev: "prev = Some summary"
    and bs: "bs = (case find_entry_index es fk of Some j \<Rightarrow> j | None \<Rightarrow> p + 1)"
    using assms(3) Some b by (auto simp: boundary_start_def)
  have bound: "bs \<le> Suc p" using assms(2) [OF Some assms(3)] .
  have idx: "length (takeWhile (\<lambda>x. \<not> (is_compaction (e_body x) \<and> e_id x = e_id (es ! p))) es) = p"
  proof (rule first_index)
    fix j assume "j < p"
    then show "\<not> (is_compaction (e_body (es ! j)) \<and> e_id (es ! j) = e_id (es ! p))"
      using distinct_id_nth [OF assms(1), of j p] p(1) by auto
  qed (use p in auto)
  obtain l m where st: "context_state es = (l, m, Some (es ! p))"
    using context_state_last [of es] Some by (cases "context_state es") auto
  have split: "es = take p es @ es ! p # drop (Suc p) es"
    by (rule id_take_nth_drop [OF p(1)])
  have kept: "kept_entries fk (take p es) = drop bs (take p es)"
  proof (cases "find_entry_index es fk")
    case None
    then have "bs = Suc p" using bs by simp
    moreover have "kept_entries fk (take p es) = []"
      by (rule kept_entries_none) (use find_entry_index_None [OF None] in_set_takeD in metis)
    ultimately show ?thesis by simp
  next
    case (Some j)
    then have j: "j < length es" "e_id (es ! j) = fk" "bs = j"
      using find_entry_index_Some bs by auto
    show ?thesis
    proof (cases "j < p")
      case True
      then show ?thesis
        using kept_entries_index [of "take p es" j] j p(1) assms(1)
        by (simp add: distinct_take take_map [symmetric])
    next
      case False
      then have "e_id e \<noteq> fk" if mem: "e \<in> set (take p es)" for e
      proof -
        obtain i where "i < p" "e = es ! i" using mem p(1) by (auto simp: in_set_conv_nth)
        then show ?thesis using distinct_id_nth [OF assms(1), of i j] j False p(1) by auto
      qed
      then show ?thesis using j False by (simp add: kept_entries_none)
    qed
  qed
  have "messages_of d (drop bs es) = messages_of d (drop bs (take p es)) @ messages_of d (drop (Suc p) es)"
  proof (cases "bs \<le> p")
    case True
    have "drop bs es = drop bs (take p es) @ es ! p # drop (Suc p) es"
      using True p(1) by (subst split) (simp only: drop_append, simp)
    then show ?thesis using compaction_no_message [OF p(2)] by simp
  next
    case False
    then have "bs = Suc p" using bound by simp
    then show ?thesis by simp
  qed
  then show ?thesis
    using st b prev kept idx
    by (intro exI) (auto simp: buildSessionContext_def Let_def createCompactionSummaryMessage_def)
qed

lemma prepareCompaction_cut:
  assumes "prepareCompaction d es settings = Inr (Some pr)" "boundary_start es = (prev, bs)"
  shows "let cp = findCutPoint es bs (length es) (cs_keepRecentTokens settings);
             first = cp_firstKeptEntryIndex cp;
             historyEnd = (if cp_isSplitTurn cp then the (cp_turnStartIndex cp) else first)
         in first < length es \<and> pr_firstKeptEntryId pr = e_id (es ! first) \<and> pr_previousSummary pr = prev
          \<and> pr_messagesToSummarize pr = range_messages d es bs historyEnd
          \<and> pr_turnPrefixMessages pr =
              (if cp_isSplitTurn cp then range_messages d es (the (cp_turnStartIndex cp)) first else [])"
  using assms by (auto simp: prepareCompaction_def Let_def split: if_splits)

lemma range_messages_split:
  "i \<le> k \<Longrightarrow> k \<le> j \<Longrightarrow> range_messages d es i j = range_messages d es i k @ range_messages d es k j"
  using upt_add_eq_append [of i k "j - k"] by (simp add: range_messages_def map_filter_def)

text \<open>What is selected for the summary, with the prefix of a split turn, is what is not kept.\<close>

lemma prepared_selection:
  assumes "prepareCompaction d es settings = Inr (Some pr)" "boundary_start es = (prev, bs)"
    and "findValidCutPoints es bs (length es) \<noteq> []" "\<forall>e \<in> set es. \<not> empty_branch_summary (e_body e)"
    and "first = cp_firstKeptEntryIndex (findCutPoint es bs (length es) (cs_keepRecentTokens settings))"
  shows "messages_of d (drop bs es) =
      pr_messagesToSummarize pr @ pr_turnPrefixMessages pr @ messages_of d (drop first es)"
proof -
  define cp where "cp = findCutPoint es bs (length es) (cs_keepRecentTokens settings)"
  let ?stop = "if cp_isSplitTurn cp then the (cp_turnStartIndex cp) else first"
  note spec = findCutPoint_spec [OF cp_def [symmetric] assms(3)]
  have first: "first = cp_firstKeptEntryIndex cp" using assms(5) cp_def by simp
  have pr: "first < length es" "pr_messagesToSummarize pr = range_messages d es bs ?stop"
    "pr_turnPrefixMessages pr =
       (if cp_isSplitTurn cp then range_messages d es (the (cp_turnStartIndex cp)) first else [])"
    using prepareCompaction_cut [OF assms(1,2)] by (auto simp: cp_def first Let_def)
  have "pr_messagesToSummarize pr @ pr_turnPrefixMessages pr = range_messages d es bs first"
  proof (cases "cp_isSplitTurn cp")
    case True
    then obtain t where "cp_turnStartIndex cp = Some t" "bs \<le> t" "t \<le> first"
      using spec(4) first by blast
    then show ?thesis using pr(2,3) True range_messages_split [of bs t first d es] by simp
  qed (use pr(2,3) in simp)
  moreover have "range_messages d es bs first = messages_of d (drop bs (take first es))"
    by (rule range_messages_eq) (use assms(4) spec(1) first pr(1) in auto)
  moreover have "drop bs es = drop bs (take first es) @ drop first es"
    using drop_append [of bs "take first es" "drop first es"] spec(1) first pr(1) by simp
  ultimately show ?thesis by simp
qed

text \<open>
  C12: Compaction partitions the context. What \<open>prepareCompaction\<close> selects on a branch, and the
  context after the compaction entry is appended, are related to the old context thus: the old
  context is the previous summary (if there is one), the messages to summarise, the messages of
  the split turn's prefix and then exactly the messages that are kept; the new context is the new
  summary and those kept messages.  No message is lost and none is both summarised and kept, and
  the kept part does not begin with a tool result.
\<close>

theorem compaction_partitions_context:
  assumes "distinct (map e_id es)" "\<forall>e \<in> set es. \<not> empty_branch_summary (e_body e)"
    and "case last_compaction_index es of None \<Rightarrow> True | Some p \<Rightarrow> snd (boundary_start es) \<le> Suc p"
    and "findValidCutPoints es (snd (boundary_start es)) (length es) \<noteq> []"
    and "prepareCompaction d es settings = Inr (Some pr)"
    and "e_body c = ECompaction summary (pr_firstKeptEntryId pr) tokens details hook"
    and "e_id c \<notin> set (map e_id es)"
  shows "\<exists>previous first kept. kept = messages_of d (drop first es)
    \<and> first < length es \<and> \<not> is_tool_result (e_body (es ! first))
    \<and> ctx_messages (buildSessionContext d es) =
        previous @ pr_messagesToSummarize pr @ pr_turnPrefixMessages pr @ kept
    \<and> (case pr_previousSummary pr of
          None \<Rightarrow> previous = [] | Some s \<Rightarrow> \<exists>n t. previous = [CompactionSummary s n t])
    \<and> ctx_messages (buildSessionContext d (es @ [c])) =
        createCompactionSummaryMessage d summary tokens (e_timestamp c) # kept"
proof -
  obtain prev bs where b: "boundary_start es = (prev, bs)" by fastforce
  define first where
    "first = cp_firstKeptEntryIndex (findCutPoint es bs (length es) (cs_keepRecentTokens settings))"
  have vc: "findValidCutPoints es bs (length es) \<noteq> []" using assms(4) b by simp
  have pr: "first < length es" "pr_firstKeptEntryId pr = e_id (es ! first)" "pr_previousSummary pr = prev"
    using prepareCompaction_cut [OF assms(5) b] by (auto simp: first_def Let_def)
  have "\<exists>t n. ctx_messages (buildSessionContext d es) =
      (case prev of None \<Rightarrow> [] | Some s \<Rightarrow> [CompactionSummary s n t]) @ messages_of d (drop bs es)"
    using b assms(3) by (intro context_from_boundary [OF assms(1) _ b]) auto
  then obtain t n where old: "ctx_messages (buildSessionContext d es) =
      (case prev of None \<Rightarrow> [] | Some s \<Rightarrow> [CompactionSummary s n t]) @ messages_of d (drop bs es)"
    by blast
  have "buildSessionContext d (es @ [c]) = (buildSessionContext d es)\<lparr>ctx_messages :=
      createCompactionSummaryMessage d summary tokens (e_timestamp c)
      # messages_of d (kept_entries (pr_firstKeptEntryId pr) es)\<rparr>"
    by (rule context_append_compaction [OF assms(6)]) (use assms(7) in \<open>auto simp: rev_image_eqI\<close>)
  then have new: "ctx_messages (buildSessionContext d (es @ [c])) =
      createCompactionSummaryMessage d summary tokens (e_timestamp c) # messages_of d (drop first es)"
    using kept_entries_index [OF assms(1) pr(1)] pr(2) by simp
  show ?thesis
  proof (intro exI conjI)
    show "ctx_messages (buildSessionContext d es) =
        (case prev of None \<Rightarrow> [] | Some s \<Rightarrow> [CompactionSummary s n t]) @ pr_messagesToSummarize pr
        @ pr_turnPrefixMessages pr @ messages_of d (drop first es)"
      unfolding old prepared_selection [OF assms(5) b vc assms(2) first_def] ..
    show "ctx_messages (buildSessionContext d (es @ [c])) =
        createCompactionSummaryMessage d summary tokens (e_timestamp c) # messages_of d (drop first es)"
      by (rule new)
    show "first < length es" by (rule pr(1))
    show "\<not> is_tool_result (e_body (es ! first))"
      unfolding first_def by (rule findCutPoint_spec(3) [OF refl vc])
  qed (use pr(3) in \<open>auto split: option.splits\<close>)
qed

subsection \<open>Retries of the summarizer\<close>

text \<open>The messages of attempt \<open>i\<close>: halved for every overflow before it.\<close>

definition core_at :: "agent_message list \<Rightarrow> nat \<Rightarrow> agent_message list" where
  "core_at ms i = ((fst \<circ> shrinkMessagesForOverflowRetry) ^^ i) ms"

lemma core_at_0 [simp]: "core_at ms 0 = ms"
  by (simp add: core_at_def)

lemma core_at_shift: "core_at (fst (shrinkMessagesForOverflowRetry ms)) i = core_at ms (Suc i)"
  unfolding core_at_def by (simp only: funpow_Suc_right comp_apply)

lemma shrink_suffix: "fst (shrinkMessagesForOverflowRetry ms) = drop (snd (shrinkMessagesForOverflowRetry ms)) ms"
  by (simp add: shrinkMessagesForOverflowRetry_def Let_def)

lemma shrink_omitted:
  "snd (shrinkMessagesForOverflowRetry ms) = length ms - length (fst (shrinkMessagesForOverflowRetry ms))"
  by (simp add: shrinkMessagesForOverflowRetry_def Let_def)

lemma core_at_suffix: "core_at ms i = drop (length ms - length (core_at ms i)) ms"
proof (induction i)
  case (Suc i)
  have "core_at ms (Suc i) = drop (snd (shrinkMessagesForOverflowRetry (core_at ms i))) (core_at ms i)"
    unfolding core_at_def by (simp add: shrink_suffix)
  then have "\<exists>k. core_at ms (Suc i) = drop k ms" using Suc by (metis drop_drop)
  then obtain k where k: "core_at ms (Suc i) = drop k ms" by blast
  then show ?case by (cases "k \<le> length ms") auto
qed simp

lemma core_at_length_mono: "length (core_at ms (Suc i)) \<le> length (core_at ms i)"
  unfolding core_at_def by (simp add: shrink_suffix)

lemma core_at_length_le: "length (core_at ms i) \<le> length ms"
  by (induction i) (use core_at_length_mono le_trans in fastforce)+

definition overflowed :: "assistant_message \<Rightarrow> nat option \<Rightarrow> bool" where
  "overflowed r window \<longleftrightarrow> a_stopReason r = StopError \<and> isContextOverflow r window"

lemma summary_loop_retry:
  "j \<le> retries \<Longrightarrow>
     (\<And>i. i < j \<Longrightarrow> 1 < length (core_at core i) \<and>
        overflowed (provider (attempt + i) (request (messages_for_prompt now
          (omitted + (length core - length (core_at core i))) (core_at core i)))) window) \<Longrightarrow>
     summary_loop provider request window label now attempt retries core omitted =
     summary_loop provider request window label now (attempt + j) (retries - j) (core_at core j)
       (omitted + (length core - length (core_at core j)))"
proof (induction j arbitrary: attempt retries core omitted)
  case (Suc j)
  obtain r where r: "retries = Suc r" using Suc.prems(1) by (cases retries) auto
  let ?core = "fst (shrinkMessagesForOverflowRetry core)"
  let ?om = "omitted + snd (shrinkMessagesForOverflowRetry core)"
  have first: "1 < length core" "overflowed (provider attempt (request (messages_for_prompt now omitted core))) window"
    using Suc.prems(2) [of 0] by auto
  have step: "summary_loop provider request window label now attempt retries core omitted =
      summary_loop provider request window label now (Suc attempt) r ?core ?om"
    using first r by (subst summary_loop.simps) (simp add: overflowed_def Let_def)
  have om: "?om + (length ?core - length (core_at core (Suc i))) =
      omitted + (length core - length (core_at core (Suc i)))" for i
    using core_at_length_le [of ?core i] shrink_omitted [of core] core_at_length_le [of core 1]
    by (simp add: core_at_shift) (simp add: core_at_def)
  have "summary_loop provider request window label now (Suc attempt) r ?core ?om =
      summary_loop provider request window label now (Suc attempt + j) (r - j) (core_at ?core j)
        (?om + (length ?core - length (core_at ?core j)))"
  proof (rule Suc.IH)
    show "j \<le> r" using Suc.prems(1) r by simp
    fix i assume "i < j"
    then show "1 < length (core_at ?core i) \<and> overflowed (provider (Suc attempt + i) (request
        (messages_for_prompt now (?om + (length ?core - length (core_at ?core i))) (core_at ?core i)))) window"
      unfolding core_at_shift om using Suc.prems(2) [of "Suc i"] by simp
  qed
  then show ?case unfolding step core_at_shift om using r by simp
qed simp

text \<open>The request of attempt \<open>i\<close> of \<open>generateSummary\<close>.\<close>

definition attempt_request ::
  "ms \<Rightarrow> agent_message list \<Rightarrow> model_limits \<Rightarrow> nat \<Rightarrow> js_string option \<Rightarrow> js_string option \<Rightarrow>
     js_string option \<Rightarrow> nat \<Rightarrow> summary_request" where
  "attempt_request now ms model reserveTokens custom prev level i =
     \<lparr>rq_maxTokens = summaryOutputTokens model reserveTokens,
      rq_promptText = summary_prompt now model reserveTokens custom prev
        (messages_for_prompt now (length ms - length (core_at ms i)) (core_at ms i)),
      rq_reasoning = reasoning_option model level\<rparr>"


subsection \<open>Witnesses\<close>

definition demo_branch_entries :: "session_entry list" where
  "demo_branch_entries = [demo_entry_a, demo_entry_b]"

definition demo_settings :: compaction_settings where
  "demo_settings = \<lparr>cs_enabled = True, cs_reserveTokens = 100, cs_keepRecentTokens = 1\<rparr>"

definition demo_compaction :: session_entry where
  "demo_compaction = \<lparr>e_id = str ''c'', e_parentId = Some (str ''b''), e_timestamp = str ''t'',
     e_body = ECompaction (str ''sum'') (str ''b'') 2 None False\<rparr>"

lemmas compaction_eval = demo_branch_entries_def demo_entry_a_def demo_entry_b_def demo_settings_def
  findValidCutPoints_def valid_cut_def last_compaction_index_def boundary_start_def
  findTurnStartIndex_def findCutPoint_def cut_index_def numeral_2_eq_2 Let_def

lemma demo_tokens: "estimateTokens (demo_message ''two'') = 1"
  by (simp add: demo_message_def estimateTextTokens_def ceil4_def ascii_char_def high_surrogate_def str_def)

lemma demo_message_user [simp]: "\<not> is_tool_result (EMessage (demo_message t))"
  "is_user_message (EMessage (demo_message t))" "starts_turn (EMessage (demo_message t))"
  by (simp_all add: demo_message_def)

lemma demo_cuts: "findValidCutPoints demo_branch_entries 0 2 = [0, 1]"
  by (simp add: compaction_eval)

lemma demo_budget_index: "budget_index demo_branch_entries 1 (rev [0..<2]) 0 = Some 1"
  by (simp add: compaction_eval demo_tokens)

lemma demo_cut: "findCutPoint demo_branch_entries 0 2 1 =
    \<lparr>cp_firstKeptEntryIndex = 1, cp_turnStartIndex = None, cp_isSplitTurn = False\<rparr>"
  using demo_cuts demo_budget_index
  by (simp add: findCutPoint_def cut_index_def Let_def demo_branch_entries_def demo_entry_a_def
      demo_entry_b_def)

theorem cut_keeps_recent_budget_witness:
  "sum_list (tl (kept_tokens demo_branch_entries
     (cp_firstKeptEntryIndex (findCutPoint demo_branch_entries 0 2 1)) 2)) < 1"
proof -
  have "findValidCutPoints demo_branch_entries 0 2 \<noteq> []" by (simp add: demo_cuts)
  moreover have "valid_cut (e_body (demo_branch_entries ! 1))"
    by (simp add: demo_branch_entries_def demo_entry_b_def valid_cut_def)
  ultimately show ?thesis
    using cut_keeps_recent_budget [of demo_branch_entries 0 2 1] demo_budget_index by auto
qed

theorem compaction_partitions_context_witness:
  "\<exists>pr previous first kept. prepareCompaction (\<lambda>_. None) demo_branch_entries demo_settings = Inr (Some pr)
    \<and> kept = messages_of (\<lambda>_. None) (drop first demo_branch_entries)
    \<and> ctx_messages (buildSessionContext (\<lambda>_. None) demo_branch_entries) =
        previous @ pr_messagesToSummarize pr @ pr_turnPrefixMessages pr @ kept
    \<and> ctx_messages (buildSessionContext (\<lambda>_. None) (demo_branch_entries @ [demo_compaction])) =
        createCompactionSummaryMessage (\<lambda>_. None) (str ''sum'') 2 (str ''t'') # kept"
proof -
  have none: "last_compaction_index demo_branch_entries = None" "boundary_start demo_branch_entries = (None, 0)"
    by (simp_all add: compaction_eval)
  have "\<exists>pr. prepareCompaction (\<lambda>_. None) demo_branch_entries demo_settings = Inr (Some pr)
      \<and> pr_firstKeptEntryId pr = str ''b''"
    using demo_cut none
    by (simp add: prepareCompaction_def demo_settings_def demo_branch_entries_def demo_entry_a_def
        demo_entry_b_def Let_def numeral_2_eq_2)
  then obtain pr where pr: "prepareCompaction (\<lambda>_. None) demo_branch_entries demo_settings = Inr (Some pr)"
    "pr_firstKeptEntryId pr = str ''b''"
    by blast
  have "distinct (map e_id demo_branch_entries)" "\<forall>e \<in> set demo_branch_entries. \<not> empty_branch_summary (e_body e)"
    "findValidCutPoints demo_branch_entries 0 (length demo_branch_entries) \<noteq> []"
    "e_id demo_compaction \<notin> set (map e_id demo_branch_entries)"
    using demo_cuts
    by (simp_all add: demo_branch_entries_def demo_entry_a_def demo_entry_b_def demo_compaction_def
        numeral_2_eq_2)
  with compaction_partitions_context [of demo_branch_entries "\<lambda>_. None" demo_settings pr demo_compaction
      "str ''sum''" 2 None False] pr none
  have "\<exists>previous first kept. kept = messages_of (\<lambda>_. None) (drop first demo_branch_entries)
    \<and> ctx_messages (buildSessionContext (\<lambda>_. None) demo_branch_entries) =
        previous @ pr_messagesToSummarize pr @ pr_turnPrefixMessages pr @ kept
    \<and> ctx_messages (buildSessionContext (\<lambda>_. None) (demo_branch_entries @ [demo_compaction])) =
        createCompactionSummaryMessage (\<lambda>_. None) (str ''sum'') 2 (e_timestamp demo_compaction) # kept"
    by (auto simp: demo_compaction_def)
  then show ?thesis using pr(1) by (simp add: demo_compaction_def)
qed

definition demo_response :: "stop_reason \<Rightarrow> assistant_message" where
  "demo_response r = \<lparr>a_content = [AText (str ''ok'')], a_api = [], a_provider = [], a_model = [],
     a_usage = None, a_stopReason = r, a_errorMessage = Some (str ''request_too_large''),
     a_timestamp = None\<rparr>"

definition demo_provider :: summary_provider where
  "demo_provider i rq = (if i = 0 then demo_response StopError else demo_response StopEnd)"

lemma ends_rlit_self: "ends (rlit w) (p @ w @ q) (length p) = [length p + length w]"
proof (induction w arbitrary: p)
  case (Cons c w)
  then show ?case using Cons.IH [of "p @ [c]"] by (simp add: nth_append)
qed simp

lemma ends_rlit_units: "ends (rlit w) s i \<noteq> [] \<Longrightarrow> set w \<subseteq> set s"
  by (induction w arbitrary: i) (auto split: if_splits)

lemma regex_test_rlit_self: "regex_test (rlit w) w"
  using ends_rlit_self [of w "[]" "[]"] by (auto simp: regex_test_def list_ex_iff intro!: bexI [of _ 0])

lemma regex_test_rlit_units: "\<not> set w \<subseteq> set s \<Longrightarrow> \<not> regex_test (rlit w) s"
  using ends_rlit_units by (auto simp: regex_test_def list_ex_iff)

lemma demo_overflow: "overflowed (demo_response StopError) None"
proof -
  have msg: "map lower_unit (str ''request_too_large'') = str ''request_too_large''"
    by (simp add: str_def lower_unit_def)
  have "matches_some OVERFLOW_PATTERNS OVERFLOW_PATTERNS_ANCHORED (str ''request_too_large'')"
  proof -
    have "rlit (str ''request_too_large'') \<in> set OVERFLOW_PATTERNS"
      unfolding OVERFLOW_PATTERNS_def rword_def list.set by blast
    then have "list_ex (\<lambda>r. regex_test r (str ''request_too_large'')) OVERFLOW_PATTERNS"
      using regex_test_rlit_self by (auto simp: list_ex_iff)
    then show ?thesis by (simp add: matches_some_def msg)
  qed
  moreover have "\<not> regex_test (rword ''rate limit'') (str ''request_too_large'')"
    "\<not> regex_test (rword ''too many requests'') (str ''request_too_large'')"
    unfolding rword_def by (rule regex_test_rlit_units, simp add: str_def)+
  moreover have "ends (rword ''throttling error'') (str ''request_too_large'') 0 = []"
    "ends (rword ''service unavailable'') (str ''request_too_large'') 0 = []"
    by (simp_all add: rword_def str_def)
  ultimately have "matches_some OVERFLOW_PATTERNS OVERFLOW_PATTERNS_ANCHORED (str ''request_too_large'')"
    "\<not> matches_some NON_OVERFLOW_PATTERNS NON_OVERFLOW_PATTERNS_ANCHORED (str ''request_too_large'')"
    by (simp_all add: matches_some_def msg NON_OVERFLOW_PATTERNS_def NON_OVERFLOW_PATTERNS_ANCHORED_def)
  then show ?thesis
    by (simp add: overflowed_def demo_response_def isContextOverflow_def)
qed


end
