(* ===== verification/Effects.thy ===== *)
theory Effects
  imports Prelude
begin

text \<open>
  Asynchronous code of the agent loop as actions.  An action takes the state (the world outside
  the modelled code and the events emitted so far) and returns a value or the message of a thrown
  error, with the new state; None means that it never returns.  \<open>wp\<close> is the weakest precondition
  of an action under partial correctness, with one equation per way to combine actions.
\<close>

record ('w, 'e) eff_state =
  world :: 'w
  events :: "'e list"

type_synonym 'a thrown = "js_string + 'a"

type_synonym ('w, 'e, 'a) action = "('w, 'e) eff_state \<Rightarrow> ('a thrown \<times> ('w, 'e) eff_state) option"

definition act_return :: "'a \<Rightarrow> ('w, 'e, 'a) action" where
  "act_return x s = Some (Inr x, s)"

definition act_throw :: "js_string \<Rightarrow> ('w, 'e, 'a) action" where
  "act_throw msg s = Some (Inl msg, s)"

definition act_bind :: "('w, 'e, 'a) action \<Rightarrow> ('a \<Rightarrow> ('w, 'e, 'b) action) \<Rightarrow> ('w, 'e, 'b) action" where
  "act_bind m f s =
     (case m s of
        None \<Rightarrow> None
      | Some (Inl msg, s') \<Rightarrow> Some (Inl msg, s')
      | Some (Inr x, s') \<Rightarrow> f x s')"

definition act_then :: "('w, 'e, unit) action \<Rightarrow> ('w, 'e, 'b) action \<Rightarrow> ('w, 'e, 'b) action" where
  "act_then m n = act_bind m (\<lambda>_. n)"

text \<open>\<open>try m catch (error) handler\<close>.\<close>

definition act_catch :: "('w, 'e, 'a) action \<Rightarrow> (js_string \<Rightarrow> ('w, 'e, 'a) action) \<Rightarrow> ('w, 'e, 'a) action" where
  "act_catch m h s =
     (case m s of
        None \<Rightarrow> None
      | Some (Inl msg, s') \<Rightarrow> h msg s'
      | Some (Inr x, s') \<Rightarrow> Some (Inr x, s'))"

text \<open>A call out of the modelled code: it may change the world, and may throw.\<close>

definition act_call :: "('w \<Rightarrow> 'a thrown \<times> 'w) \<Rightarrow> ('w, 'e, 'a) action" where
  "act_call f s = (case f (world s) of (r, w) \<Rightarrow> Some (r, s\<lparr>world := w\<rparr>))"

definition act_get :: "('w \<Rightarrow> 'a) \<Rightarrow> ('w, 'e, 'a) action" where
  "act_get f s = Some (Inr (f (world s)), s)"

definition act_emit :: "('e \<Rightarrow> 'w \<Rightarrow> 'w) \<Rightarrow> 'e \<Rightarrow> ('w, 'e, unit) action" where
  "act_emit sink e s = Some (Inr (), \<lparr>world = sink e (world s), events = events s @ [e]\<rparr>)"

text \<open>A value computed by code that may throw.\<close>

definition act_lift :: "'a thrown \<Rightarrow> ('w, 'e, 'a) action" where
  "act_lift r s = Some (r, s)"

fun act_each :: "('x \<Rightarrow> ('w, 'e, unit) action) \<Rightarrow> 'x list \<Rightarrow> ('w, 'e, unit) action" where
  "act_each f [] = act_return ()"
| "act_each f (x # xs) = act_then (f x) (act_each f xs)"

text \<open>
  A loop that may run for ever: the body returns the next loop variables (\<open>Inl\<close>) or the result
  (\<open>Inr\<close>).
\<close>

partial_function (option) act_loop ::
  "('v \<Rightarrow> ('w, 'e, 'v + 'r) action) \<Rightarrow> 'v \<Rightarrow> ('w, 'e) eff_state
     \<Rightarrow> ('r thrown \<times> ('w, 'e) eff_state) option" where
  "act_loop body v s =
     (case body v s of
        None \<Rightarrow> None
      | Some (r, s') \<Rightarrow>
          (case r of
             Inl msg \<Rightarrow> Some (Inl msg, s')
           | Inr next \<Rightarrow>
               (case next of Inl v' \<Rightarrow> act_loop body v' s' | Inr x \<Rightarrow> Some (Inr x, s'))))"

subsection \<open>Weakest preconditions\<close>

definition wp :: "('w, 'e, 'a) action \<Rightarrow> ('a thrown \<Rightarrow> ('w, 'e) eff_state \<Rightarrow> bool) \<Rightarrow> ('w, 'e) eff_state \<Rightarrow> bool" where
  "wp m Q s \<longleftrightarrow> (case m s of None \<Rightarrow> True | Some (r, s') \<Rightarrow> Q r s')"

named_theorems wp_rules \<open>one equation per way to combine actions\<close>

lemma wp_return [wp_rules]: "wp (act_return x) Q s = Q (Inr x) s"
  by (simp add: wp_def act_return_def)

lemma wp_throw [wp_rules]: "wp (act_throw msg) Q s = Q (Inl msg) s"
  by (simp add: wp_def act_throw_def)

lemma wp_bind [wp_rules]:
  "wp (act_bind m f) Q s =
     wp m (\<lambda>r s'. case r of Inl msg \<Rightarrow> Q (Inl msg) s' | Inr x \<Rightarrow> wp (f x) Q s') s"
  by (auto simp: wp_def act_bind_def split: option.splits sum.splits)

lemma wp_then [wp_rules]:
  "wp (act_then m n) Q s =
     wp m (\<lambda>r s'. case r of Inl msg \<Rightarrow> Q (Inl msg) s' | Inr x \<Rightarrow> wp n Q s') s"
  by (simp add: act_then_def wp_bind)

lemma wp_catch [wp_rules]:
  "wp (act_catch m h) Q s =
     wp m (\<lambda>r s'. case r of Inl msg \<Rightarrow> wp (h msg) Q s' | Inr x \<Rightarrow> Q (Inr x) s') s"
  by (auto simp: wp_def act_catch_def split: option.splits sum.splits)

lemma wp_call [wp_rules]:
  "wp (act_call f) Q s = (case f (world s) of (r, w) \<Rightarrow> Q r (s\<lparr>world := w\<rparr>))"
  by (auto simp: wp_def act_call_def split: prod.splits)

lemma wp_get [wp_rules]: "wp (act_get f) Q s = Q (Inr (f (world s))) s"
  by (simp add: wp_def act_get_def)

lemma wp_emit [wp_rules]:
  "wp (act_emit sink e) Q s = Q (Inr ()) \<lparr>world = sink e (world s), events = events s @ [e]\<rparr>"
  by (simp add: wp_def act_emit_def)

lemma wp_lift [wp_rules]: "wp (act_lift r) Q s = Q r s"
  by (simp add: wp_def act_lift_def)

lemma wp_mono: "wp m P s \<Longrightarrow> (\<And>r s'. P r s' \<Longrightarrow> Q r s') \<Longrightarrow> wp m Q s"
  by (auto simp: wp_def split: option.splits)

lemma wp_conj: "wp m P s \<Longrightarrow> wp m Q s \<Longrightarrow> wp m (\<lambda>r s'. P r s' \<and> Q r s') s"
  by (auto simp: wp_def split: option.splits)

text \<open>The invariant rule of the loop: partial correctness.\<close>

lemma wp_loop:
  fixes body :: "'v \<Rightarrow> ('w, 'e, 'v + 'r) action"
  assumes inv: "I v s"
    and step: "\<And>v s. I v s \<Longrightarrow>
      wp (body v) (\<lambda>r s'. case r of Inl msg \<Rightarrow> Q (Inl msg) s'
                           | Inr next \<Rightarrow> (case next of Inl v' \<Rightarrow> I v' s' | Inr x \<Rightarrow> Q (Inr x) s')) s"
  shows "wp (act_loop body v) Q s"
proof -
  have "I v s \<longrightarrow> Q (fst out) (snd out)" if "act_loop body v s = Some out" for out
  proof (rule act_loop.raw_induct [where P = "\<lambda>b v s out. b = body \<longrightarrow> I v s \<longrightarrow> Q (fst out) (snd out)",
        OF _ that, THEN mp, OF _ refl])
    fix f :: "('v \<Rightarrow> ('w, 'e, 'v + 'r) action) \<Rightarrow> 'v \<Rightarrow> ('w, 'e) eff_state
        \<Rightarrow> ('r thrown \<times> ('w, 'e) eff_state) option"
      and b v s out
    assume IH: "\<And>b v s out. f b v s = Some out \<Longrightarrow> b = body \<longrightarrow> I v s \<longrightarrow> Q (fst out) (snd out)"
      and eq: "(case b v s of None \<Rightarrow> None
        | Some (r, s') \<Rightarrow> (case r of Inl msg \<Rightarrow> Some (Inl msg, s')
            | Inr next \<Rightarrow> (case next of Inl v' \<Rightarrow> f b v' s' | Inr x \<Rightarrow> Some (Inr x, s')))) = Some out"
    show "b = body \<longrightarrow> I v s \<longrightarrow> Q (fst out) (snd out)"
    proof (intro impI)
      assume "b = body" "I v s"
      then show "Q (fst out) (snd out)"
        using step [of v s] eq IH by (fastforce simp: wp_def split: option.splits prod.splits sum.splits)
    qed
  qed
  then show ?thesis using inv by (auto simp: wp_def split: option.splits)
qed

lemma wp_each:
  assumes "I [] s"
    and "\<And>past x s. I past s \<Longrightarrow> wp (f x) (\<lambda>r s'. case r of Inl msg \<Rightarrow> Q (Inl msg) s' | Inr _ \<Rightarrow> I (past @ [x]) s') s"
    and "\<And>s. I xs s \<Longrightarrow> Q (Inr ()) s"
  shows "wp (act_each f xs) Q s"
proof -
  have "I past s \<Longrightarrow> past @ ys = xs \<Longrightarrow> wp (act_each f ys) Q s" for past ys s
  proof (induction ys arbitrary: past s)
    case Nil
    then show ?case using assms(3) by (simp add: wp_return)
  next
    case (Cons y ys)
    show ?case
      unfolding act_each.simps wp_then
      by (rule wp_mono [OF assms(2) [OF Cons.prems(1), of y]])
        (use Cons.IH [of "past @ [y]"] Cons.prems(2) in \<open>auto split: sum.splits\<close>)
  qed
  then show ?thesis using assms(1) by fastforce
qed

subsection \<open>Total correctness of loops\<close>

definition returns :: "('w, 'e, 'a) action \<Rightarrow> ('w, 'e) eff_state \<Rightarrow> bool" where
  "returns m s \<longleftrightarrow> m s \<noteq> None"

text \<open>A loop returns when its body does and a measure of variables and state decreases.\<close>

lemma loop_returns:
  assumes "I v s"
    and "\<And>v s. I v s \<Longrightarrow> returns (body v) s"
    and "\<And>v s. I v s \<Longrightarrow>
      wp (body v) (\<lambda>r s'. case r of Inr (Inl v') \<Rightarrow> I v' s' \<and> M v' s' < (M v s :: nat) | _ \<Rightarrow> True) s"
  shows "returns (act_loop body v) s"
  using assms(1)
proof (induction "M v s" arbitrary: v s rule: less_induct)
  case less
  obtain r s' where b: "body v s = Some (r, s')"
    using assms(2) [OF less.prems] by (auto simp: returns_def)
  show ?case
  proof (cases r)
    case (Inl msg)
    then show ?thesis by (simp add: returns_def act_loop.simps b)
  next
    case (Inr nxt)
    show ?thesis
    proof (cases nxt)
      case (Inl v')
      have "I v' s'" "M v' s' < M v s"
        using assms(3) [OF less.prems] b Inr Inl by (auto simp: wp_def)
      then have "returns (act_loop body v') s'" using less.hyps by blast
      then show ?thesis using b Inr Inl by (simp add: returns_def act_loop.simps [of body v])
    next
      case (Inr x)
      then show ?thesis using b \<open>r = Inr nxt\<close> by (simp add: returns_def act_loop.simps)
    qed
  qed
qed

lemma returns_basic [simp]:
  "returns (act_return x) s" "returns (act_throw msg) s" "returns (act_call f) s" "returns (act_get g) s"
  "returns (act_emit sink e) s" "returns (act_lift r) s"
  by (simp_all add: returns_def act_return_def act_throw_def act_call_def act_get_def act_emit_def
      act_lift_def split: prod.splits)

lemma returns_bind:
  "returns m s \<Longrightarrow> wp m (\<lambda>r s'. case r of Inl _ \<Rightarrow> True | Inr x \<Rightarrow> returns (f x) s') s \<Longrightarrow>
     returns (act_bind m f) s"
  by (auto simp: returns_def wp_def act_bind_def split: option.splits sum.splits)

lemma returns_then:
  "returns m s \<Longrightarrow> wp m (\<lambda>r s'. case r of Inl _ \<Rightarrow> True | Inr x \<Rightarrow> returns n s') s \<Longrightarrow>
     returns (act_then m n) s"
  unfolding act_then_def by (rule returns_bind)

lemma returns_catch:
  "returns m s \<Longrightarrow> wp m (\<lambda>r s'. case r of Inl msg \<Rightarrow> returns (h msg) s' | Inr _ \<Rightarrow> True) s \<Longrightarrow>
     returns (act_catch m h) s"
  by (auto simp: returns_def wp_def act_catch_def split: option.splits sum.splits)

lemma returns_wp: "returns m s \<Longrightarrow> wp m Q s \<Longrightarrow> \<exists>r s'. m s = Some (r, s') \<and> Q r s'"
  by (auto simp: returns_def wp_def)

subsection \<open>Relations between the states before and after\<close>

definition keeps :: "(('w, 'e) eff_state \<Rightarrow> ('w, 'e) eff_state \<Rightarrow> bool) \<Rightarrow> ('w, 'e, 'a) action \<Rightarrow> bool" where
  "keeps R m \<longleftrightarrow> (\<forall>s. wp m (\<lambda>r s'. R s s') s)"

text \<open>A relation that every combination of actions respects when its parts do.\<close>

locale action_relation =
  fixes R :: "('w, 'e) eff_state \<Rightarrow> ('w, 'e) eff_state \<Rightarrow> bool"
  assumes R_refl: "R s s"
    and R_trans: "R s s' \<Longrightarrow> R s' s'' \<Longrightarrow> R s s''"
begin

lemma keeps_basic:
  "keeps R (act_return x)" "keeps R (act_throw msg)" "keeps R (act_get g)" "keeps R (act_lift r)"
  by (auto simp: keeps_def wp_rules R_refl split: prod.splits)

lemma wp_after:
  assumes "keeps R m" "R s s'"
  shows "wp m (\<lambda>r. R s) s'"
  using assms by (auto simp: keeps_def intro: wp_mono R_trans)

lemma keeps_bind:
  assumes "keeps R m" "\<And>x. keeps R (f x)"
  shows "keeps R (act_bind m f)"
  unfolding keeps_def wp_bind
proof (rule allI, rule wp_mono)
  show "wp m (\<lambda>r. R s) s" for s using assms(1) by (simp add: keeps_def)
  show "case r of Inl msg \<Rightarrow> R s s' | Inr x \<Rightarrow> wp (f x) (\<lambda>r. R s) s'" if "R s s'" for r s s'
    using wp_after [OF assms(2) that] that by (simp split: sum.splits)
qed

lemma keeps_then: "keeps R m \<Longrightarrow> keeps R n \<Longrightarrow> keeps R (act_then m n)"
  unfolding act_then_def by (rule keeps_bind)

lemma keeps_catch:
  assumes "keeps R m" "\<And>msg. keeps R (h msg)"
  shows "keeps R (act_catch m h)"
  unfolding keeps_def wp_catch
proof (rule allI, rule wp_mono)
  show "wp m (\<lambda>r. R s) s" for s using assms(1) by (simp add: keeps_def)
  show "case r of Inl msg \<Rightarrow> wp (h msg) (\<lambda>r. R s) s' | Inr x \<Rightarrow> R s s'" if "R s s'" for r s s'
    using wp_after [OF assms(2) that] that by (simp split: sum.splits)
qed

lemma keeps_loop:
  assumes "\<And>v. keeps R (body v)"
  shows "keeps R (act_loop body v)"
  unfolding keeps_def
proof
  fix s
  show "wp (act_loop body v) (\<lambda>r s'. R s s') s"
  proof (rule wp_loop [where I = "\<lambda>v s'. R s s'"])
    show "R s s" by (rule R_refl)
    show "wp (body v') (\<lambda>r s''. case r of Inl msg \<Rightarrow> R s s''
        | Inr next \<Rightarrow> (case next of Inl v' \<Rightarrow> R s s'' | Inr x \<Rightarrow> R s s'')) s'"
      if "R s s'" for v' s'
      by (rule wp_mono [of _ "\<lambda>r s''. R s' s''"])
        (use assms that R_trans in \<open>auto simp: keeps_def split: sum.splits\<close>)
  qed
qed

lemma keeps_each: "(\<And>x. x \<in> set xs \<Longrightarrow> keeps R (f x)) \<Longrightarrow> keeps R (act_each f xs)"
  by (induction xs) (auto intro: keeps_basic keeps_then)

lemmas keeps_rules = keeps_basic keeps_bind keeps_then keeps_catch keeps_loop keeps_each

end

text \<open>A relation that does not see the world: calls out of the modelled code keep it as well.\<close>

locale state_relation = action_relation +
  assumes R_world: "R s (s\<lparr>world := w\<rparr>)"
begin

lemma keeps_call: "keeps R (act_call f)"
  by (auto simp: keeps_def wp_rules R_world split: prod.splits)

lemmas keeps_all = keeps_rules keeps_call

end

text \<open>Events are only ever added.\<close>

definition grows :: "('w, 'e) eff_state \<Rightarrow> ('w, 'e) eff_state \<Rightarrow> bool" where
  "grows s s' \<longleftrightarrow> (\<exists>es. events s' = events s @ es)"

interpretation gr: state_relation grows
  by unfold_locales (auto simp: grows_def)

end
