(* ===== verification/AgentLoop.thy ===== *)
theory AgentLoop
  imports Effects Messages Uuid
begin

text \<open>
  \<open>packages/agent/src/agent-loop.ts\<close> with the types it uses from \<open>packages/agent/src/types.ts\<close>:
  turns of the loop, the streaming of a response, the gate in front of every tool call, and the
  sequential and the concurrent execution of tool calls.  The hooks of the configuration, the
  tools, the provider's stream, the clock, SHA-256 and the abort signal are arguments: functions
  on the world \<open>'w\<close>.  The event sink may change the world and does not throw.  Concurrent tool
  calls advance in the order that \<open>env_pick\<close> chooses, one call for each await.
\<close>

subsection \<open>Types\<close>

datatype block_kind = KText | KThinking | KToolCall

datatype stream_event =
    SStart assistant_message
  | SBlockStart block_kind nat assistant_message
  | SDelta block_kind nat js_string assistant_message
  | SBlockEnd block_kind nat assistant_message
  | SDone stop_reason assistant_message
  | SError stop_reason assistant_message

datatype thinking_level = TLOff | TLMinimal | TLLow | TLMedium | TLHigh | TLXHigh

datatype execution_mode = Sequential | Parallel

datatype permission_classification = ClassAllow | ClassPrompt js_string | ClassBlock js_string

record control_plane_prompt =
  cp_toolCallId :: js_string
  cp_toolName :: js_string
  cp_argsHash :: js_string
  cp_label :: js_string
  cp_payload :: json
  cp_reason :: js_string

datatype control_plane_decision = CPAllow | CPDeny "js_string option" | CPTimeout

record agent_tool_result =
  res_content :: "user_block list"
  res_details :: "json option"
  res_terminate :: "bool option"

record before_tool_call_result =
  br_block :: "bool option"
  br_reason :: "js_string option"
  br_prompt :: "control_plane_prompt option"

record after_tool_call_result =
  ar_content :: "user_block list option"
  ar_details :: "json option"
  ar_isError :: "bool option"
  ar_terminate :: "bool option"

text \<open>What a running tool does next: an update, its result, or a thrown error.\<close>

datatype tool_progress = Progress agent_tool_result | Returned agent_tool_result | Threw js_string

record 'w agent_tool =
  at_name :: js_string
  at_executionMode :: "execution_mode option"
  at_prepareArguments :: "(json \<Rightarrow> json thrown) option"
  at_validate :: "tool_call \<Rightarrow> json thrown"                \<comment> \<open>\<open>validateToolArguments(tool, call)\<close>\<close>
  at_permissionClassification :: "(json \<Rightarrow> permission_classification option thrown) option"
  at_execute :: "nat \<Rightarrow> js_string \<Rightarrow> json \<Rightarrow> 'w \<Rightarrow> tool_progress \<times> 'w"

record 'w agent_context =
  ac_systemPrompt :: js_string
  ac_messages :: "agent_message list"
  ac_tools :: "'w agent_tool list option"

record model_ref =
  mr_id :: js_string
  mr_api :: js_string
  mr_provider :: js_string

record 'w turn_context =
  tx_message :: assistant_message
  tx_toolResults :: "tool_result_message list"
  tx_context :: "'w agent_context"
  tx_newMessages :: "agent_message list"

record 'w turn_update =
  tu_context :: "'w agent_context option"
  tu_model :: "model_ref option"
  tu_thinkingLevel :: "thinking_level option"

record 'w before_context =
  bc_assistantMessage :: assistant_message
  bc_toolCall :: tool_call
  bc_args :: json
  bc_context :: "'w agent_context"

record 'w after_context =
  fc_assistantMessage :: assistant_message
  fc_toolCall :: tool_call
  fc_args :: json
  fc_result :: agent_tool_result
  fc_isError :: bool
  fc_context :: "'w agent_context"

record 'w agent_loop_config =
  cfg_model :: model_ref
  cfg_reasoning :: "thinking_level option"
  cfg_apiKey :: "js_string option"
  cfg_convertToLlm :: "agent_message list \<Rightarrow> 'w \<Rightarrow> llm_message list thrown \<times> 'w"
  cfg_transformContext :: "(agent_message list \<Rightarrow> 'w \<Rightarrow> agent_message list thrown \<times> 'w) option"
  cfg_getApiKey :: "(js_string \<Rightarrow> 'w \<Rightarrow> js_string option thrown \<times> 'w) option"
  cfg_shouldStopAfterTurn :: "('w turn_context \<Rightarrow> 'w \<Rightarrow> bool thrown \<times> 'w) option"
  cfg_prepareNextTurn :: "('w turn_context \<Rightarrow> 'w \<Rightarrow> 'w turn_update option thrown \<times> 'w) option"
  cfg_getSteeringMessages :: "('w \<Rightarrow> agent_message list thrown \<times> 'w) option"
  cfg_getFollowUpMessages :: "('w \<Rightarrow> agent_message list thrown \<times> 'w) option"
  cfg_toolExecution :: "execution_mode option"
  cfg_beforeToolCall :: "('w before_context \<Rightarrow> 'w \<Rightarrow> before_tool_call_result option thrown \<times> 'w) option"
  cfg_afterToolCall :: "('w after_context \<Rightarrow> 'w \<Rightarrow> after_tool_call_result option thrown \<times> 'w) option"
  cfg_onControlPlanePrompt :: "(control_plane_prompt \<Rightarrow> 'w \<Rightarrow> control_plane_decision thrown \<times> 'w) option"

datatype agent_event =
    AgentStart
  | AgentEnd "agent_message list"
  | TurnStart
  | TurnEnd agent_message "tool_result_message list"
  | MessageStart agent_message
  | MessageUpdate agent_message stream_event
  | MessageEnd agent_message
  | ToolExecutionStart js_string js_string json
  | ToolExecutionUpdate js_string js_string json agent_tool_result
  | ToolExecutionEnd js_string js_string agent_tool_result bool
  | ControlPlanePromptResolved js_string js_string js_string js_string js_string "js_string option"
      \<comment> \<open>\<open>toolCallId\<close>, \<open>toolName\<close>, \<open>argsHash\<close>, \<open>label\<close>, \<open>decision\<close>, \<open>reason\<close>\<close>

record 'w llm_context =
  lc_systemPrompt :: js_string
  lc_messages :: "llm_message list"
  lc_tools :: "'w agent_tool list option"

text \<open>A pull of the stream: an event, its end, a thrown error, or the abort that came first.\<close>

datatype stream_pull = Pulled stream_event | PulledDone | PullThrew js_string | PullAborted

record 'w loop_env =
  env_stream :: "model_ref \<Rightarrow> thinking_level option \<Rightarrow> 'w llm_context \<Rightarrow> js_string option \<Rightarrow> 'w \<Rightarrow> unit thrown \<times> 'w"
  env_next :: "'w \<Rightarrow> stream_pull \<times> 'w"
  env_result :: "'w \<Rightarrow> assistant_message thrown \<times> 'w"
  env_aborted :: "'w \<Rightarrow> bool"                               \<comment> \<open>\<open>signal?.aborted\<close>\<close>
  env_now :: "'w \<Rightarrow> ms \<times> 'w"
  env_sha256 :: "js_string \<Rightarrow> nat list"                     \<comment> \<open>of the UTF-8 encoding\<close>
  env_pick :: "'w \<Rightarrow> nat \<times> 'w"
  env_sink :: "agent_event \<Rightarrow> 'w \<Rightarrow> 'w"

type_synonym ('w, 'a) loop_action = "('w, agent_event, 'a) action"

definition emit :: "'w loop_env \<Rightarrow> agent_event \<Rightarrow> ('w, unit) loop_action" where
  "emit env e = act_emit (env_sink env) e"

subsection \<open>Results of tools\<close>

definition createErrorToolResult :: "js_string \<Rightarrow> agent_tool_result" where
  "createErrorToolResult msg = \<lparr>res_content = [UText msg], res_details = Some JNull, res_terminate = None\<rparr>"

record finalized_call =
  fz_toolCall :: tool_call
  fz_result :: agent_tool_result
  fz_isError :: bool

definition emitToolExecutionEnd :: "'w loop_env \<Rightarrow> finalized_call \<Rightarrow> ('w, unit) loop_action" where
  "emitToolExecutionEnd env f =
     emit env (ToolExecutionEnd (tc_id (fz_toolCall f)) (tc_name (fz_toolCall f)) (fz_result f) (fz_isError f))"

definition createToolResultMessage :: "finalized_call \<Rightarrow> ms \<Rightarrow> tool_result_message" where
  "createToolResultMessage f now =
     \<lparr>tr_toolCallId = tc_id (fz_toolCall f), tr_toolName = tc_name (fz_toolCall f),
      tr_content = res_content (fz_result f), tr_details = res_details (fz_result f),
      tr_isError = fz_isError f, tr_timestamp = now\<rparr>"

definition emitToolResultMessage :: "'w loop_env \<Rightarrow> tool_result_message \<Rightarrow> ('w, unit) loop_action" where
  "emitToolResultMessage env m =
     act_then (emit env (MessageStart (ToolResultMsg m))) (emit env (MessageEnd (ToolResultMsg m)))"

text \<open>The result message of a finished call, timed by \<open>Date.now()\<close> and announced.\<close>

definition announce_result :: "'w loop_env \<Rightarrow> finalized_call \<Rightarrow> ('w, tool_result_message) loop_action" where
  "announce_result env f =
     act_bind (act_call (\<lambda>w. apfst Inr (env_now env w)))
       (\<lambda>now. let m = createToolResultMessage f now
              in act_then (emitToolResultMessage env m) (act_return m))"

definition shouldTerminateToolBatch :: "finalized_call list \<Rightarrow> bool" where
  "shouldTerminateToolBatch fs \<longleftrightarrow> fs \<noteq> [] \<and> list_all (\<lambda>f. res_terminate (fz_result f) = Some True) fs"

subsection \<open>The gate in front of a tool call\<close>

datatype 'w preparation =
    Prepared tool_call "'w agent_tool" json
  | Immediate agent_tool_result bool

definition refuse :: "js_string \<Rightarrow> 'w preparation" where
  "refuse msg = Immediate (createErrorToolResult msg) True"

definition context_tools :: "'w agent_context \<Rightarrow> 'w agent_tool list" where
  "context_tools ctx = (case ac_tools ctx of None \<Rightarrow> [] | Some ts \<Rightarrow> ts)"

definition prepareToolCallArguments :: "'w agent_tool \<Rightarrow> tool_call \<Rightarrow> tool_call thrown" where
  "prepareToolCallArguments tool tc =
     (case at_prepareArguments tool of
        None \<Rightarrow> Inr tc
      | Some f \<Rightarrow> (case f (tc_arguments tc) of
                    Inl msg \<Rightarrow> Inl msg
                  | Inr args \<Rightarrow> Inr (tc\<lparr>tc_arguments := args\<rparr>)))"

definition computeArgsHash :: "'w loop_env \<Rightarrow> json \<Rightarrow> js_string" where
  "computeArgsHash env args = concat (map hex_byte (env_sha256 env (canonicalizeJson args)))"

definition payload_keys :: "json \<Rightarrow> js_string list" where
  "payload_keys args =
     (case args of
        JObj ms \<Rightarrow> sort (map (\<lambda>k. if length k \<le> 64 then k else take 64 k @ [8230]) (take 32 (map fst ms)))
      | _ \<Rightarrow> [])"

definition defaultPromptPayload :: "'w loop_env \<Rightarrow> js_string \<Rightarrow> json \<Rightarrow> json" where
  "defaultPromptPayload env toolName args =
     JObj [(str ''tool_name'', JStr toolName),
           (str ''args_keys'', JArr (map JStr (payload_keys args))),
           (str ''args_hash'', JStr (computeArgsHash env args))]"

definition synthesized_prompt ::
  "'w loop_env \<Rightarrow> tool_call \<Rightarrow> json \<Rightarrow> permission_classification \<Rightarrow> control_plane_prompt option" where
  "synthesized_prompt env tc args classification =
     (case classification of
        ClassPrompt reason \<Rightarrow>
          Some \<lparr>cp_toolCallId = tc_id tc, cp_toolName = tc_name tc, cp_argsHash = computeArgsHash env args,
                cp_label = str ''Control-plane write: '' @ tc_name tc,
                cp_payload = defaultPromptPayload env (tc_name tc) args, cp_reason = reason\<rparr>
      | _ \<Rightarrow> None)"

definition effective_prompt ::
  "'w loop_env \<Rightarrow> tool_call \<Rightarrow> json \<Rightarrow> control_plane_prompt option \<Rightarrow> control_plane_prompt option
     \<Rightarrow> control_plane_prompt option" where
  "effective_prompt env tc args synthesized hook =
     (case (synthesized, hook) of
        (Some s, None) \<Rightarrow> Some s
      | (None, Some h) \<Rightarrow>
          Some \<lparr>cp_toolCallId = tc_id tc, cp_toolName = tc_name tc, cp_argsHash = computeArgsHash env args,
                cp_label = cp_label h, cp_payload = cp_payload h, cp_reason = cp_reason h\<rparr>
      | (Some s, Some h) \<Rightarrow>
          Some \<lparr>cp_toolCallId = cp_toolCallId s, cp_toolName = cp_toolName s, cp_argsHash = cp_argsHash s,
                cp_label = cp_label h, cp_payload = cp_payload h, cp_reason = cp_reason s\<rparr>
      | (None, None) \<Rightarrow> None)"

text \<open>\<open>value || fallback\<close> for an optional string.\<close>

definition or_else :: "js_string option \<Rightarrow> js_string \<Rightarrow> js_string" where
  "or_else v fallback = (case v of Some s \<Rightarrow> if s = [] then fallback else s | None \<Rightarrow> fallback)"

text \<open>The hook before a call: a refusal (\<open>Inl\<close>) or the prompt it asks for (\<open>Inr\<close>).\<close>

definition before_hook ::
  "'w loop_env \<Rightarrow> 'w agent_loop_config \<Rightarrow> 'w before_context
     \<Rightarrow> ('w, 'w preparation + control_plane_prompt option) loop_action" where
  "before_hook env cfg bc =
     (case cfg_beforeToolCall cfg of
        None \<Rightarrow> act_return (Inr None)
      | Some h \<Rightarrow>
          act_bind (act_call (h bc)) (\<lambda>result.
          act_bind (act_get (env_aborted env)) (\<lambda>aborted.
            act_return
              (if aborted then Inl (refuse (str ''Operation aborted''))
               else case result of
                      None \<Rightarrow> Inr None
                    | Some b \<Rightarrow>
                        (if br_block b = Some True
                         then Inl (refuse (or_else (br_reason b) (str ''Tool execution was blocked'')))
                         else Inr (br_prompt b))))))"

definition decision_type :: "control_plane_decision \<Rightarrow> js_string" where
  "decision_type d = (case d of CPAllow \<Rightarrow> str ''allow'' | CPDeny _ \<Rightarrow> str ''deny'' | CPTimeout \<Rightarrow> str ''timeout'')"

definition FAIL_CLOSED_REASON :: js_string where
  "FAIL_CLOSED_REASON = str ''control-plane prompt required but no onControlPlanePrompt hook configured ''
     @ str ''(fail-closed deny '' @ [8212] @ str '' see issue #110 design v0.2)''"

text \<open>Asking the embedder: None when the call may go on, otherwise the refusal.\<close>

definition ask_prompt ::
  "'w loop_env \<Rightarrow> 'w agent_loop_config \<Rightarrow> control_plane_prompt option
     \<Rightarrow> ('w, 'w preparation option) loop_action" where
  "ask_prompt env cfg prompt =
     (case prompt of
        None \<Rightarrow> act_return None
      | Some p \<Rightarrow>
          act_bind (case cfg_onControlPlanePrompt cfg of
                      Some ask \<Rightarrow> act_call (ask p)
                    | None \<Rightarrow> act_return (CPDeny (Some FAIL_CLOSED_REASON))) (\<lambda>decision.
          act_then (emit env (ControlPlanePromptResolved (cp_toolCallId p) (cp_toolName p) (cp_argsHash p)
                      (cp_label p) (decision_type decision)
                      (case decision of CPDeny r \<Rightarrow> r | _ \<Rightarrow> None)))
            (act_return
              (case decision of
                 CPAllow \<Rightarrow> None
               | CPDeny r \<Rightarrow> Some (refuse (or_else r (str ''tool call denied by user via control-plane prompt'')))
               | CPTimeout \<Rightarrow> Some (refuse (str ''control-plane prompt timed out '' @ [8212]
                                            @ str '' tool call denied''))))))"

definition classify_call :: "'w agent_tool \<Rightarrow> json \<Rightarrow> permission_classification thrown" where
  "classify_call tool args =
     (case at_permissionClassification tool of
        None \<Rightarrow> Inr ClassAllow
      | Some f \<Rightarrow> (case f args of
                    Inl msg \<Rightarrow> Inl msg
                  | Inr c \<Rightarrow> Inr (case c of None \<Rightarrow> ClassAllow | Some cl \<Rightarrow> cl)))"

text \<open>The body of the \<open>try\<close> block.\<close>

definition prepare_checked ::
  "'w loop_env \<Rightarrow> 'w agent_loop_config \<Rightarrow> 'w agent_context \<Rightarrow> assistant_message \<Rightarrow> tool_call \<Rightarrow> 'w agent_tool
     \<Rightarrow> ('w, 'w preparation) loop_action" where
  "prepare_checked env cfg ctx am tc tool =
     act_bind (act_lift (prepareToolCallArguments tool tc)) (\<lambda>preparedToolCall.
     act_bind (act_lift (at_validate tool preparedToolCall)) (\<lambda>args.
     act_bind (act_lift (classify_call tool args)) (\<lambda>classification.
       case classification of
         ClassBlock reason \<Rightarrow> act_return (refuse reason)
       | _ \<Rightarrow>
           act_bind (before_hook env cfg \<lparr>bc_assistantMessage = am, bc_toolCall = tc, bc_args = args,
                                          bc_context = ctx\<rparr>) (\<lambda>hook.
             case hook of
               Inl refusal \<Rightarrow> act_return refusal
             | Inr hookPrompt \<Rightarrow>
                 act_bind (ask_prompt env cfg
                             (effective_prompt env tc args
                               (synthesized_prompt env tc args classification) hookPrompt)) (\<lambda>denied.
                   case denied of
                     Some refusal \<Rightarrow> act_return refusal
                   | None \<Rightarrow>
                       act_bind (act_get (env_aborted env)) (\<lambda>aborted.
                         act_return (if aborted then refuse (str ''Operation aborted'')
                                     else Prepared tc tool args)))))))"

definition prepareToolCall ::
  "'w loop_env \<Rightarrow> 'w agent_loop_config \<Rightarrow> 'w agent_context \<Rightarrow> assistant_message \<Rightarrow> tool_call
     \<Rightarrow> ('w, 'w preparation) loop_action" where
  "prepareToolCall env cfg ctx am tc =
     (case find (\<lambda>t. at_name t = tc_name tc) (context_tools ctx) of
        None \<Rightarrow> act_return (refuse (str ''Tool '' @ tc_name tc @ str '' not found''))
      | Some tool \<Rightarrow> act_catch (prepare_checked env cfg ctx am tc tool) (\<lambda>msg. act_return (refuse msg)))"

subsection \<open>Execution of one call\<close>

text \<open>
  One step of a running tool: an update is announced (\<open>Inl\<close>), or the tool has returned or thrown
  (\<open>Inr\<close>, with the error flag).
\<close>

definition execute_step ::
  "'w loop_env \<Rightarrow> nat \<Rightarrow> tool_call \<Rightarrow> 'w agent_tool \<Rightarrow> json
     \<Rightarrow> ('w, unit + agent_tool_result \<times> bool) loop_action" where
  "execute_step env i tc tool args =
     act_bind (act_call (\<lambda>w. apfst Inr (at_execute tool i (tc_id tc) args w))) (\<lambda>progress.
       case progress of
         Progress partial \<Rightarrow>
           act_then (emit env (ToolExecutionUpdate (tc_id tc) (tc_name tc) (tc_arguments tc) partial))
             (act_return (Inl ()))
       | Returned result \<Rightarrow> act_return (Inr (result, False))
       | Threw msg \<Rightarrow> act_return (Inr (createErrorToolResult msg, True)))"

definition executePreparedToolCall ::
  "'w loop_env \<Rightarrow> nat \<Rightarrow> tool_call \<Rightarrow> 'w agent_tool \<Rightarrow> json \<Rightarrow> ('w, agent_tool_result \<times> bool) loop_action" where
  "executePreparedToolCall env i tc tool args = act_loop (\<lambda>_. execute_step env i tc tool args) ()"

text \<open>\<open>a ?? b\<close> for JSON details, where \<open>null\<close> counts as absent.\<close>

definition nullish :: "json option \<Rightarrow> json option \<Rightarrow> json option" where
  "nullish a b = (case a of None \<Rightarrow> b | Some JNull \<Rightarrow> b | Some v \<Rightarrow> Some v)"

definition patched_result :: "agent_tool_result \<Rightarrow> after_tool_call_result \<Rightarrow> agent_tool_result" where
  "patched_result result after =
     \<lparr>res_content = (case ar_content after of None \<Rightarrow> res_content result | Some c \<Rightarrow> c),
      res_details = nullish (ar_details after) (res_details result),
      res_terminate = (case ar_terminate after of None \<Rightarrow> res_terminate result | Some t \<Rightarrow> Some t)\<rparr>"

definition finalizeExecutedToolCall ::
  "'w agent_loop_config \<Rightarrow> 'w agent_context \<Rightarrow> assistant_message \<Rightarrow> tool_call \<Rightarrow> json \<Rightarrow> agent_tool_result \<Rightarrow> bool
     \<Rightarrow> ('w, finalized_call) loop_action" where
  "finalizeExecutedToolCall cfg ctx am tc args result isError =
     (case cfg_afterToolCall cfg of
        None \<Rightarrow> act_return \<lparr>fz_toolCall = tc, fz_result = result, fz_isError = isError\<rparr>
      | Some h \<Rightarrow>
          act_catch
            (act_bind (act_call (h \<lparr>fc_assistantMessage = am, fc_toolCall = tc, fc_args = args,
                                    fc_result = result, fc_isError = isError, fc_context = ctx\<rparr>)) (\<lambda>afterResult.
              act_return
                (case afterResult of
                   None \<Rightarrow> \<lparr>fz_toolCall = tc, fz_result = result, fz_isError = isError\<rparr>
                 | Some a \<Rightarrow> \<lparr>fz_toolCall = tc, fz_result = patched_result result a,
                              fz_isError = (case ar_isError a of None \<Rightarrow> isError | Some b \<Rightarrow> b)\<rparr>)))
            (\<lambda>msg. act_return \<lparr>fz_toolCall = tc, fz_result = createErrorToolResult msg, fz_isError = True\<rparr>))"

subsection \<open>Batches of calls\<close>

text \<open>What becomes of a prepared call: run and finalized; an immediate outcome stands as it is.\<close>

definition run_preparation ::
  "'w loop_env \<Rightarrow> 'w agent_loop_config \<Rightarrow> 'w agent_context \<Rightarrow> assistant_message \<Rightarrow> nat \<Rightarrow> tool_call
     \<Rightarrow> 'w preparation \<Rightarrow> ('w, finalized_call) loop_action" where
  "run_preparation env cfg ctx am i tc preparation =
     (case preparation of
        Immediate result isError \<Rightarrow>
          act_return \<lparr>fz_toolCall = tc, fz_result = result, fz_isError = isError\<rparr>
      | Prepared tc' tool args \<Rightarrow>
          act_bind (executePreparedToolCall env i tc' tool args) (\<lambda>(result, isError).
            finalizeExecutedToolCall cfg ctx am tc' args result isError))"

fun sequential_calls ::
  "'w loop_env \<Rightarrow> 'w agent_loop_config \<Rightarrow> 'w agent_context \<Rightarrow> assistant_message \<Rightarrow> nat \<Rightarrow> tool_call list
     \<Rightarrow> finalized_call list \<Rightarrow> tool_result_message list
     \<Rightarrow> ('w, finalized_call list \<times> tool_result_message list) loop_action" where
  "sequential_calls env cfg ctx am i [] finalizedCalls messages = act_return (finalizedCalls, messages)"
| "sequential_calls env cfg ctx am i (tc # tcs) finalizedCalls messages =
     act_then (emit env (ToolExecutionStart (tc_id tc) (tc_name tc) (tc_arguments tc)))
     (act_bind (prepareToolCall env cfg ctx am tc) (\<lambda>preparation.
      act_bind (run_preparation env cfg ctx am i tc preparation) (\<lambda>finalized.
      act_then (emitToolExecutionEnd env finalized)
      (act_bind (announce_result env finalized) (\<lambda>message.
       act_bind (act_get (env_aborted env)) (\<lambda>aborted.
         if aborted then act_return (finalizedCalls @ [finalized], messages @ [message])
         else sequential_calls env cfg ctx am (Suc i) tcs
                (finalizedCalls @ [finalized]) (messages @ [message])))))))"

definition executeToolCallsSequential ::
  "'w loop_env \<Rightarrow> 'w agent_loop_config \<Rightarrow> 'w agent_context \<Rightarrow> assistant_message \<Rightarrow> tool_call list
     \<Rightarrow> ('w, tool_result_message list \<times> bool) loop_action" where
  "executeToolCallsSequential env cfg ctx am tcs =
     act_bind (sequential_calls env cfg ctx am 0 tcs [] []) (\<lambda>(finalizedCalls, messages).
       act_return (messages, shouldTerminateToolBatch finalizedCalls))"

text \<open>A call of a concurrent batch, from its start to the announcement of its end.\<close>

datatype 'w call_entry =
    EFinal finalized_call
  | ERunning tool_call "'w agent_tool" json
  | EExecuted tool_call json agent_tool_result bool
  | EEnding finalized_call

fun parallel_prepare ::
  "'w loop_env \<Rightarrow> 'w agent_loop_config \<Rightarrow> 'w agent_context \<Rightarrow> assistant_message \<Rightarrow> tool_call list
     \<Rightarrow> 'w call_entry list \<Rightarrow> ('w, 'w call_entry list) loop_action" where
  "parallel_prepare env cfg ctx am [] entries = act_return entries"
| "parallel_prepare env cfg ctx am (tc # tcs) entries =
     act_then (emit env (ToolExecutionStart (tc_id tc) (tc_name tc) (tc_arguments tc)))
     (act_bind (prepareToolCall env cfg ctx am tc) (\<lambda>preparation.
      act_bind
        (case preparation of
           Immediate result isError \<Rightarrow>
             (let finalized = \<lparr>fz_toolCall = tc, fz_result = result, fz_isError = isError\<rparr>
              in act_then (emitToolExecutionEnd env finalized) (act_return (EFinal finalized)))
         | Prepared tc' tool args \<Rightarrow> act_return (ERunning tc' tool args)) (\<lambda>entry.
      act_bind (act_get (env_aborted env)) (\<lambda>aborted.
        if aborted then act_return (entries @ [entry])
        else parallel_prepare env cfg ctx am tcs (entries @ [entry])))))"

fun is_final :: "'w call_entry \<Rightarrow> bool" where
  "is_final (EFinal f) = True"
| "is_final _ = False"

fun final_call :: "'w call_entry \<Rightarrow> finalized_call" where
  "final_call (EFinal f) = f"
| "final_call (EEnding f) = f"
| "final_call _ = undefined"

definition advance_entry ::
  "'w loop_env \<Rightarrow> 'w agent_loop_config \<Rightarrow> 'w agent_context \<Rightarrow> assistant_message \<Rightarrow> nat \<Rightarrow> 'w call_entry
     \<Rightarrow> ('w, 'w call_entry) loop_action" where
  "advance_entry env cfg ctx am i entry =
     (case entry of
        EFinal f \<Rightarrow> act_return (EFinal f)
      | ERunning tc tool args \<Rightarrow>
          act_bind (execute_step env i tc tool args) (\<lambda>r.
            act_return (case r of Inl _ \<Rightarrow> ERunning tc tool args
                        | Inr (result, isError) \<Rightarrow> EExecuted tc args result isError))
      | EExecuted tc args result isError \<Rightarrow>
          act_bind (finalizeExecutedToolCall cfg ctx am tc args result isError) (\<lambda>f. act_return (EEnding f))
      | EEnding f \<Rightarrow> act_then (emitToolExecutionEnd env f) (act_return (EFinal f)))"

definition unfinished :: "'w call_entry list \<Rightarrow> nat list" where
  "unfinished entries = filter (\<lambda>i. \<not> is_final (entries ! i)) [0..<length entries]"

text \<open>\<open>Promise.all\<close>: some unfinished call advances until all have finished.\<close>

definition parallel_step ::
  "'w loop_env \<Rightarrow> 'w agent_loop_config \<Rightarrow> 'w agent_context \<Rightarrow> assistant_message \<Rightarrow> 'w call_entry list
     \<Rightarrow> ('w, 'w call_entry list + finalized_call list) loop_action" where
  "parallel_step env cfg ctx am entries =
     (if unfinished entries = [] then act_return (Inr (map final_call entries))
      else act_bind (act_call (\<lambda>w. apfst Inr (env_pick env w))) (\<lambda>n.
        let i = unfinished entries ! (n mod length (unfinished entries))
        in act_bind (advance_entry env cfg ctx am i (entries ! i)) (\<lambda>entry.
             act_return (Inl (entries[i := entry])))))"

fun announce_all ::
  "'w loop_env \<Rightarrow> finalized_call list \<Rightarrow> tool_result_message list \<Rightarrow> ('w, tool_result_message list) loop_action" where
  "announce_all env [] messages = act_return messages"
| "announce_all env (f # fs) messages =
     act_bind (announce_result env f) (\<lambda>m. announce_all env fs (messages @ [m]))"

definition executeToolCallsParallel ::
  "'w loop_env \<Rightarrow> 'w agent_loop_config \<Rightarrow> 'w agent_context \<Rightarrow> assistant_message \<Rightarrow> tool_call list
     \<Rightarrow> ('w, tool_result_message list \<times> bool) loop_action" where
  "executeToolCallsParallel env cfg ctx am tcs =
     act_bind (parallel_prepare env cfg ctx am tcs []) (\<lambda>entries.
     act_bind (act_loop (parallel_step env cfg ctx am) entries) (\<lambda>finalizedCalls.
     act_bind (announce_all env finalizedCalls []) (\<lambda>messages.
       act_return (messages, shouldTerminateToolBatch finalizedCalls))))"

fun block_tool_call :: "assistant_block \<Rightarrow> tool_call option" where
  "block_tool_call (AToolCall tc) = Some tc"
| "block_tool_call _ = None"

definition tool_calls :: "assistant_message \<Rightarrow> tool_call list" where
  "tool_calls am = List.map_filter block_tool_call (a_content am)"

definition executeToolCalls ::
  "'w loop_env \<Rightarrow> 'w agent_loop_config \<Rightarrow> 'w agent_context \<Rightarrow> assistant_message
     \<Rightarrow> ('w, tool_result_message list \<times> bool) loop_action" where
  "executeToolCalls env cfg ctx am =
     (let toolCalls = tool_calls am;
          hasSequentialToolCall = list_ex (\<lambda>tc.
            case find (\<lambda>t. at_name t = tc_name tc) (context_tools ctx) of
              None \<Rightarrow> False | Some t \<Rightarrow> at_executionMode t = Some Sequential) toolCalls
      in if cfg_toolExecution cfg = Some Sequential \<or> hasSequentialToolCall
         then executeToolCallsSequential env cfg ctx am toolCalls
         else executeToolCallsParallel env cfg ctx am toolCalls)"

subsection \<open>Streaming a response\<close>

definition replace_last :: "'a list \<Rightarrow> 'a \<Rightarrow> 'a list" where
  "replace_last xs x = butlast xs @ [x]"

text \<open>The end of a response: the final message replaces the partial one or is appended.\<close>

definition finish_response ::
  "'w loop_env \<Rightarrow> bool \<Rightarrow> agent_message list \<Rightarrow> ('w, assistant_message \<times> agent_message list) loop_action" where
  "finish_response env addedPartial messages =
     act_bind (act_call (env_result env)) (\<lambda>final.
     act_then (if addedPartial then act_return () else emit env (MessageStart (AssistantMsg final)))
     (act_then (emit env (MessageEnd (AssistantMsg final)))
       (act_return (final, if addedPartial then replace_last messages (AssistantMsg final)
                           else messages @ [AssistantMsg final]))))"

text \<open>
  One turn of the event loop: the loop variables are \<open>addedPartial\<close> and the messages of the
  context.  The abort has priority over the next event.
\<close>

definition stream_step ::
  "'w loop_env \<Rightarrow> bool \<times> agent_message list
     \<Rightarrow> ('w, bool \<times> agent_message list + assistant_message \<times> agent_message list) loop_action" where
  "stream_step env = (\<lambda>(addedPartial, messages).
     act_bind (act_get (env_aborted env)) (\<lambda>aborted.
       if aborted then act_throw (str ''aborted'')
       else act_bind (act_call (\<lambda>w. apfst Inr (env_next env w))) (\<lambda>pull.
         case pull of
           PullAborted \<Rightarrow> act_throw (str ''aborted'')
         | PullThrew msg \<Rightarrow> act_throw msg
         | PulledDone \<Rightarrow> act_bind (finish_response env addedPartial messages) (\<lambda>r. act_return (Inr r))
         | Pulled e \<Rightarrow>
             (case e of
                SStart partial \<Rightarrow>
                  act_then (emit env (MessageStart (AssistantMsg partial)))
                    (act_return (Inl (True, messages @ [AssistantMsg partial])))
              | SDelta kind i delta partial \<Rightarrow>
                  (if addedPartial
                   then act_then (emit env (MessageUpdate (AssistantMsg partial) e))
                          (act_return (Inl (addedPartial, replace_last messages (AssistantMsg partial))))
                   else act_return (Inl (addedPartial, messages)))
              | SBlockEnd kind i partial \<Rightarrow>
                  (if addedPartial
                   then act_then (emit env (MessageUpdate (AssistantMsg partial) e))
                          (act_return (Inl (addedPartial, replace_last messages (AssistantMsg partial))))
                   else act_return (Inl (addedPartial, messages)))
              | SBlockStart kind i partial \<Rightarrow> act_return (Inl (addedPartial, messages))
              | SDone reason m \<Rightarrow> act_bind (finish_response env addedPartial messages) (\<lambda>r. act_return (Inr r))
              | SError reason m \<Rightarrow> act_bind (finish_response env addedPartial messages) (\<lambda>r. act_return (Inr r))))))"

definition streamAssistantResponse ::
  "'w loop_env \<Rightarrow> 'w agent_loop_config \<Rightarrow> 'w agent_context
     \<Rightarrow> ('w, assistant_message \<times> 'w agent_context) loop_action" where
  "streamAssistantResponse env cfg ctx =
     act_bind (case cfg_transformContext cfg of
                 None \<Rightarrow> act_return (ac_messages ctx)
               | Some f \<Rightarrow> act_call (f (ac_messages ctx))) (\<lambda>messages.
     act_bind (act_call (cfg_convertToLlm cfg messages)) (\<lambda>llmMessages.
     act_bind (case cfg_getApiKey cfg of
                 None \<Rightarrow> act_return None
               | Some f \<Rightarrow> act_call (f (mr_provider (cfg_model cfg)))) (\<lambda>key.
     act_then (act_call (env_stream env (cfg_model cfg) (cfg_reasoning cfg)
                 \<lparr>lc_systemPrompt = ac_systemPrompt ctx, lc_messages = llmMessages,
                  lc_tools = ac_tools ctx\<rparr>
                 (case key of Some k \<Rightarrow> if k = [] then cfg_apiKey cfg else Some k | None \<Rightarrow> cfg_apiKey cfg)))
     (act_bind (act_loop (stream_step env) (False, ac_messages ctx)) (\<lambda>(message, messages').
       act_return (message, ctx\<lparr>ac_messages := messages'\<rparr>))))))"

subsection \<open>The loop\<close>

record 'w loop_vars =
  lv_context :: "'w agent_context"
  lv_config :: "'w agent_loop_config"
  lv_firstTurn :: bool
  lv_pending :: "agent_message list"
  lv_newMessages :: "agent_message list"

definition announce_message :: "'w loop_env \<Rightarrow> agent_message \<Rightarrow> ('w, unit) loop_action" where
  "announce_message env m = act_then (emit env (MessageStart m)) (emit env (MessageEnd m))"

definition queued_messages ::
  "('w \<Rightarrow> agent_message list thrown \<times> 'w) option \<Rightarrow> ('w, agent_message list) loop_action" where
  "queued_messages f = (case f of None \<Rightarrow> act_return [] | Some g \<Rightarrow> act_call g)"

definition end_agent :: "'w loop_env \<Rightarrow> agent_message list \<Rightarrow> ('w, 'w loop_vars + agent_message list) loop_action" where
  "end_agent env newMessages = act_then (emit env (AgentEnd newMessages)) (act_return (Inr newMessages))"

definition apply_update ::
  "'w turn_update option \<Rightarrow> 'w agent_context \<Rightarrow> 'w agent_loop_config \<Rightarrow> 'w agent_context \<times> 'w agent_loop_config" where
  "apply_update u ctx cfg =
     (case u of
        None \<Rightarrow> (ctx, cfg)
      | Some t \<Rightarrow>
          (case tu_context t of None \<Rightarrow> ctx | Some c \<Rightarrow> c,
           cfg\<lparr>cfg_model := (case tu_model t of None \<Rightarrow> cfg_model cfg | Some m \<Rightarrow> m),
               cfg_reasoning := (case tu_thinkingLevel t of
                                   None \<Rightarrow> cfg_reasoning cfg
                                 | Some l \<Rightarrow> if l = TLOff then None else Some l)\<rparr>))"

text \<open>After a turn that does not stop: the update of the next turn and the queues.\<close>

definition continue_loop ::
  "'w loop_env \<Rightarrow> 'w turn_context \<Rightarrow> 'w agent_loop_config \<Rightarrow> ('w, 'w loop_vars + agent_message list) loop_action" where
  "continue_loop env tx cfg =
     act_bind (case cfg_prepareNextTurn cfg of
                 None \<Rightarrow> act_return None
               | Some f \<Rightarrow> act_call (f tx)) (\<lambda>update.
     let (ctx', cfg') = apply_update update (tx_context tx) cfg;
         continues = (a_stopReason (tx_message tx) = StopToolUse)
     in act_bind (queued_messages (cfg_getSteeringMessages cfg')) (\<lambda>steering.
        act_bind (if \<not> continues \<and> steering = [] then queued_messages (cfg_getFollowUpMessages cfg')
                  else act_return steering) (\<lambda>queued.
          if queued = [] \<and> \<not> continues then end_agent env (tx_newMessages tx)
          else act_return (Inl \<lparr>lv_context = ctx', lv_config = cfg', lv_firstTurn = False,
                                lv_pending = queued, lv_newMessages = tx_newMessages tx\<rparr>))))"

text \<open>The end of a turn whose response is neither an error nor aborted.\<close>

definition turn_end ::
  "'w loop_env \<Rightarrow> 'w agent_loop_config \<Rightarrow> 'w agent_context \<Rightarrow> agent_message list \<Rightarrow> assistant_message
     \<Rightarrow> tool_result_message list \<Rightarrow> bool \<Rightarrow> ('w, 'w loop_vars + agent_message list) loop_action" where
  "turn_end env cfg ctx1 new1 message toolResults allTerminate =
     (let ctx2 = ctx1\<lparr>ac_messages := ac_messages ctx1 @ map ToolResultMsg toolResults\<rparr>;
          new2 = new1 @ map ToolResultMsg toolResults;
          tx = \<lparr>tx_message = message, tx_toolResults = toolResults, tx_context = ctx2,
                tx_newMessages = new2\<rparr>
      in act_then (emit env (TurnEnd (AssistantMsg message) toolResults))
           (act_bind (case cfg_shouldStopAfterTurn cfg of
                        None \<Rightarrow> act_return False
                      | Some f \<Rightarrow> act_call (f tx)) (\<lambda>stop.
             if stop \<or> (toolResults \<noteq> [] \<and> allTerminate) then end_agent env new2
             else continue_loop env tx cfg)))"

definition loop_turn ::
  "'w loop_env \<Rightarrow> 'w loop_vars \<Rightarrow> ('w, 'w loop_vars + agent_message list) loop_action" where
  "loop_turn env v =
     act_then (if lv_firstTurn v then act_return () else emit env TurnStart)
     (act_then (act_each (announce_message env) (lv_pending v))
     (let cfg = lv_config v;
          ctx0 = (lv_context v)\<lparr>ac_messages := ac_messages (lv_context v) @ lv_pending v\<rparr>;
          new0 = lv_newMessages v @ lv_pending v
      in act_bind (streamAssistantResponse env cfg ctx0) (\<lambda>(message, ctx1).
         let new1 = new0 @ [AssistantMsg message]
         in if a_stopReason message = StopError \<or> a_stopReason message = StopAborted
            then act_then (emit env (TurnEnd (AssistantMsg message) [])) (end_agent env new1)
            else act_bind (if tool_calls message = [] then act_return ([], False)
                           else executeToolCalls env cfg ctx1 message) (\<lambda>(toolResults, allTerminate).
              turn_end env cfg ctx1 new1 message toolResults allTerminate))))"

definition runLoop ::
  "'w loop_env \<Rightarrow> 'w agent_loop_config \<Rightarrow> 'w agent_context \<Rightarrow> agent_message list
     \<Rightarrow> ('w, agent_message list) loop_action" where
  "runLoop env cfg ctx newMessages =
     act_bind (queued_messages (cfg_getSteeringMessages cfg)) (\<lambda>pending.
       act_loop (loop_turn env) \<lparr>lv_context = ctx, lv_config = cfg, lv_firstTurn = True,
                                 lv_pending = pending, lv_newMessages = newMessages\<rparr>)"

definition runAgentLoop ::
  "'w loop_env \<Rightarrow> agent_message list \<Rightarrow> 'w agent_context \<Rightarrow> 'w agent_loop_config
     \<Rightarrow> ('w, agent_message list) loop_action" where
  "runAgentLoop env prompts ctx cfg =
     act_then (emit env AgentStart)
     (act_then (emit env TurnStart)
     (act_then (act_each (announce_message env) prompts)
       (runLoop env cfg (ctx\<lparr>ac_messages := ac_messages ctx @ prompts\<rparr>) prompts)))"

definition NO_MESSAGES_ERROR :: js_string where
  "NO_MESSAGES_ERROR = str ''Cannot continue: no messages in context''"

definition runAgentLoopContinue ::
  "'w loop_env \<Rightarrow> 'w agent_context \<Rightarrow> 'w agent_loop_config \<Rightarrow> ('w, agent_message list) loop_action" where
  "runAgentLoopContinue env ctx cfg =
     (if ac_messages ctx = [] then act_throw NO_MESSAGES_ERROR
      else act_then (emit env AgentStart)
           (act_then (emit env TurnStart) (runLoop env cfg ctx [])))"

end
