(* ===== verification/AgentLoopProps.thy ===== *)
theory AgentLoopProps
  imports AgentLoop
begin

text \<open>
  Properties of the agent loop: the protocol of its events, the pairing of tool calls and results,
  the gate in front of tools, and termination.
\<close>

subsection \<open>The event protocol\<close>

datatype phase = Before | Between | InTurn nat | Open agent_message | Finished

fun is_assistant :: "agent_message \<Rightarrow> bool" where
  "is_assistant (LlmMessage (LAssistant m)) = True"
| "is_assistant _ = False"

text \<open>
  What a consumer of the events may rely on.  \<open>InTurn n\<close>: inside a turn with \<open>n\<close> tool calls running;
  \<open>Open m\<close>: inside a message.  Only an assistant message changes while it is open.
\<close>

fun event_step :: "phase \<Rightarrow> agent_event \<Rightarrow> phase option" where
  "event_step Before AgentStart = Some Between"
| "event_step Between TurnStart = Some (InTurn 0)"
| "event_step Between (AgentEnd ms) = Some Finished"
| "event_step (InTurn 0) (TurnEnd m rs) = Some Between"
| "event_step (InTurn 0) (MessageStart m) = Some (Open m)"
| "event_step (InTurn n) (ToolExecutionStart i nm args) = Some (InTurn (Suc n))"
| "event_step (InTurn (Suc n)) (ToolExecutionEnd i nm r e) = Some (InTurn n)"
| "event_step (InTurn (Suc n)) (ToolExecutionUpdate i nm args r) = Some (InTurn (Suc n))"
| "event_step (InTurn (Suc n)) (ControlPlanePromptResolved i nm h l d r) = Some (InTurn (Suc n))"
| "event_step (Open m) (MessageStart m') = (if is_assistant m \<and> is_assistant m' then Some (Open m') else None)"
| "event_step (Open m) (MessageUpdate m' e) = (if is_assistant m \<and> is_assistant m' then Some (Open m') else None)"
| "event_step (Open m) (MessageEnd m') =
     (if m' = m \<or> is_assistant m \<and> is_assistant m' then Some (InTurn 0) else None)"
| "event_step _ _ = None"

definition phase_of :: "agent_event list \<Rightarrow> phase option" where
  "phase_of es = fold (\<lambda>e p. Option.bind p (\<lambda>q. event_step q e)) es (Some Before)"

fun ended_message :: "agent_event \<Rightarrow> agent_message option" where
  "ended_message (MessageEnd m) = Some m"
| "ended_message _ = None"

text \<open>The messages whose end was announced, in order.\<close>

definition ended :: "agent_event list \<Rightarrow> agent_message list" where
  "ended es = List.map_filter ended_message es"

lemma phase_of_Nil [simp]: "phase_of [] = Some Before"
  by (simp add: phase_of_def)

lemma phase_of_snoc [simp]: "phase_of (es @ [e]) = Option.bind (phase_of es) (\<lambda>q. event_step q e)"
  by (simp add: phase_of_def)

lemma ended_Nil [simp]: "ended [] = []"
  by (simp add: ended_def map_filter_def)

lemma ended_snoc [simp]:
  "ended (es @ [e]) = ended es @ (case ended_message e of None \<Rightarrow> [] | Some m \<Rightarrow> [m])"
  by (simp add: ended_def map_filter_def split: option.splits)

definition at_phase :: "('w, agent_event) eff_state \<Rightarrow> phase \<Rightarrow> agent_message list \<Rightarrow> bool" where
  "at_phase s p ms \<longleftrightarrow> phase_of (events s) = Some p \<and> ended (events s) = ms"

text \<open>A run that throws has followed the protocol and not announced the end.\<close>

definition unfinished_run :: "('w, agent_event) eff_state \<Rightarrow> bool" where
  "unfinished_run s \<longleftrightarrow> (\<exists>p. phase_of (events s) = Some p \<and> p \<noteq> Finished)"

lemma at_phase_world [simp]:
  "at_phase (s\<lparr>world := w\<rparr>) p ms = at_phase s p ms" "unfinished_run (s\<lparr>world := w\<rparr>) = unfinished_run s"
  by (simp_all add: at_phase_def unfinished_run_def)

lemma at_phase_unfinished: "at_phase s p ms \<Longrightarrow> p \<noteq> Finished \<Longrightarrow> unfinished_run s"
  by (auto simp: at_phase_def unfinished_run_def)

lemma wp_emit_phase [wp_rules]:
  "wp (emit env e) Q s = Q (Inr ()) \<lparr>world = env_sink env e (world s), events = events s @ [e]\<rparr>"
  by (simp add: emit_def wp_emit)

lemma at_phase_emitted [simp]:
  "at_phase \<lparr>world = w, events = events s @ [e]\<rparr> p ms \<longleftrightarrow>
     Option.bind (phase_of (events s)) (\<lambda>q. event_step q e) = Some p \<and>
     ended (events s) @ (case ended_message e of None \<Rightarrow> [] | Some m \<Rightarrow> [m]) = ms"
  by (simp add: at_phase_def)

text \<open>Events of a run that only adds events.\<close>

lemma wp_announce_message:
  assumes "at_phase s (InTurn 0) ms"
  shows "wp (announce_message env m) (\<lambda>r s'. r = Inr () \<and> at_phase s' (InTurn 0) (ms @ [m])) s"
  using assms by (simp add: announce_message_def wp_rules at_phase_def)

lemma wp_announce_messages:
  fixes s :: "('w, agent_event) eff_state"
  assumes "at_phase s (InTurn 0) ms"
  shows "wp (act_each (announce_message env) xs) (\<lambda>r s'. r = Inr () \<and> at_phase s' (InTurn 0) (ms @ xs)) s"
proof (rule wp_each [where I = "\<lambda>past s. at_phase s (InTurn 0) (ms @ past)"])
  show "at_phase s (InTurn 0) (ms @ [])" using assms by simp
next
  fix past x and s :: "('w, agent_event) eff_state"
  assume "at_phase s (InTurn 0) (ms @ past)"
  then show "wp (announce_message env x) (\<lambda>r s'. case r of
      Inl msg \<Rightarrow> Inl msg = Inr () \<and> at_phase s' (InTurn 0) (ms @ xs)
    | Inr _ \<Rightarrow> at_phase s' (InTurn 0) (ms @ past @ [x])) s"
    by (rule wp_mono [OF wp_announce_message]) auto
qed simp

subsection \<open>The gate\<close>

text \<open>The gate neither opens nor ends anything, and never throws.\<close>

definition quiet :: "('w, agent_event) eff_state \<Rightarrow> ('w, agent_event) eff_state \<Rightarrow> bool" where
  "quiet s s' \<longleftrightarrow> (\<forall>n ms. at_phase s (InTurn (Suc n)) ms \<longrightarrow> at_phase s' (InTurn (Suc n)) ms)"

lemma quiet_refl [simp]: "quiet s s" "quiet s (s\<lparr>world := w\<rparr>)"
  by (simp_all add: quiet_def)

lemma quiet_trans: "quiet s s' \<Longrightarrow> quiet s' s'' \<Longrightarrow> quiet s s''"
  by (simp add: quiet_def)

lemma quiet_emit:
  assumes "\<And>n. event_step (InTurn (Suc n)) e = Some (InTurn (Suc n))" "ended_message e = None"
  shows "quiet s \<lparr>world = w, events = events s @ [e]\<rparr>"
  using assms by (simp add: quiet_def at_phase_def)

interpretation qt: state_relation quiet
  by unfold_locales (auto simp: quiet_def)

lemma keeps_quiet_emit:
  assumes "\<And>n. event_step (InTurn (Suc n)) e = Some (InTurn (Suc n))" "ended_message e = None"
  shows "keeps quiet (emit env e)"
  by (simp add: keeps_def wp_rules quiet_emit assms)

lemma before_hook_quiet: "keeps quiet (before_hook env cfg bc)"
  by (auto simp: before_hook_def intro!: qt.keeps_all split: option.splits)

lemma ask_prompt_quiet: "keeps quiet (ask_prompt env cfg p)"
  by (auto simp: ask_prompt_def intro!: qt.keeps_all keeps_quiet_emit split: option.splits)

lemma prepare_checked_quiet: "keeps quiet (prepare_checked env cfg ctx am tc tool)"
  unfolding prepare_checked_def
  by (auto intro!: qt.keeps_all before_hook_quiet ask_prompt_quiet
      split: permission_classification.splits sum.splits option.splits)

lemma prepareToolCall_quiet: "keeps quiet (prepareToolCall env cfg ctx am tc)"
  by (auto simp: prepareToolCall_def intro!: qt.keeps_all prepare_checked_quiet split: option.splits)

text \<open>What an action cannot do: throw.\<close>

definition never_throws :: "('w, 'a) loop_action \<Rightarrow> bool" where
  "never_throws m \<longleftrightarrow> (\<forall>s. wp m (\<lambda>r s'. \<exists>x. r = Inr x) s)"

lemma wp_never_throws: "never_throws m \<Longrightarrow> wp m (\<lambda>r s'. \<exists>x. r = Inr x) s"
  by (simp add: never_throws_def)

lemma never_throws_catch:
  assumes "\<And>msg. never_throws (h msg)"
  shows "never_throws (act_catch m h)"
  unfolding never_throws_def wp_catch
proof (rule allI, rule wp_mono)
  show "wp m (\<lambda>r s'. True) s" for s by (simp add: wp_def split: option.splits)
qed (use assms in \<open>simp add: never_throws_def split: sum.splits\<close>)

lemma never_throws_return [simp]: "never_throws (act_return x)"
  by (simp add: never_throws_def wp_return)

lemma prepareToolCall_never_throws: "never_throws (prepareToolCall env cfg ctx am tc)"
  by (auto simp: prepareToolCall_def intro!: never_throws_catch split: option.splits)

text \<open>Only the call itself is prepared, by the first tool of that name.\<close>

lemma prepared_call:
  "wp (prepareToolCall env cfg ctx am tc)
     (\<lambda>r s'. \<forall>tc' tool args. r = Inr (Prepared tc' tool args) \<longrightarrow> tc' = tc) s"
  unfolding prepareToolCall_def prepare_checked_def before_hook_def ask_prompt_def
  by (auto simp: wp_rules refuse_def
      split: option.splits sum.splits permission_classification.splits prod.splits
        control_plane_decision.splits)

lemma execute_step_quiet: "keeps quiet (execute_step env i tc tool args)"
  by (auto simp: execute_step_def intro!: qt.keeps_all keeps_quiet_emit split: tool_progress.splits)

lemma execute_step_never_throws: "never_throws (execute_step env i tc tool args)"
  by (auto simp: never_throws_def execute_step_def wp_rules apfst_def map_prod_def
      split: tool_progress.splits prod.splits)

lemma executePrepared_quiet: "keeps quiet (executePreparedToolCall env i tc tool args)"
  unfolding executePreparedToolCall_def by (intro qt.keeps_loop execute_step_quiet)

lemma executePrepared_never_throws: "never_throws (executePreparedToolCall env i tc tool args)"
  unfolding executePreparedToolCall_def never_throws_def
proof
  fix s
  show "wp (act_loop (\<lambda>_. execute_step env i tc tool args) ()) (\<lambda>r s'. \<exists>x. r = Inr x) s"
    by (rule wp_loop [where I = "\<lambda>_ _. True"])
      (auto intro: wp_mono [OF wp_never_throws [OF execute_step_never_throws]] split: sum.splits)
qed

lemma finalize_quiet: "keeps quiet (finalizeExecutedToolCall cfg ctx am tc args res err)"
  by (auto simp: finalizeExecutedToolCall_def intro!: qt.keeps_all split: option.splits)

lemma finalize_call:
  "wp (finalizeExecutedToolCall cfg ctx am tc args res err) (\<lambda>r s'. \<exists>f. r = Inr f \<and> fz_toolCall f = tc) s"
  by (auto simp: finalizeExecutedToolCall_def wp_rules split: option.splits sum.splits prod.splits)

subsection \<open>Batches of calls\<close>

definition answers :: "tool_result_message list \<Rightarrow> tool_call list \<Rightarrow> bool" where
  "answers ms tcs \<longleftrightarrow> map tr_toolCallId ms = map tc_id tcs \<and> map tr_toolName ms = map tc_name tcs"

definition never_aborted :: "'w loop_env \<Rightarrow> bool" where
  "never_aborted env \<longleftrightarrow> (\<forall>w. \<not> env_aborted env w)"

lemma wp_quiet:
  "keeps quiet m \<Longrightarrow> at_phase s (InTurn (Suc n)) ms \<Longrightarrow> wp m (\<lambda>r s'. at_phase s' (InTurn (Suc n)) ms) s"
  by (auto simp: keeps_def quiet_def intro: wp_mono)

lemma wp_announce_result:
  assumes "at_phase s (InTurn 0) ms"
  shows "wp (announce_result env f) (\<lambda>r s'. \<exists>m. r = Inr m \<and> answers [m] [fz_toolCall f] \<and>
    at_phase s' (InTurn 0) (ms @ [ToolResultMsg m])) s"
  using assms
  by (simp add: announce_result_def emitToolResultMessage_def createToolResultMessage_def answers_def
      wp_rules apfst_def map_prod_def at_phase_def Let_def split: prod.splits)

lemma wp_prepare:
  assumes "at_phase s (InTurn (Suc n)) ms"
  shows "wp (prepareToolCall env cfg ctx am tc) (\<lambda>r s'. \<exists>p. r = Inr p \<and> at_phase s' (InTurn (Suc n)) ms \<and>
    (case p of Prepared tc' tool args \<Rightarrow> tc' = tc | _ \<Rightarrow> True)) s"
proof (rule wp_mono)
  show "wp (prepareToolCall env cfg ctx am tc) (\<lambda>r s'. ((\<exists>p. r = Inr p) \<and> at_phase s' (InTurn (Suc n)) ms)
      \<and> (\<forall>tc' tool args. r = Inr (Prepared tc' tool args) \<longrightarrow> tc' = tc)) s"
    by (intro wp_conj wp_never_throws prepareToolCall_never_throws prepared_call
        wp_quiet [OF prepareToolCall_quiet assms])
qed (auto split: preparation.splits)

lemma wp_run_preparation:
  assumes "at_phase s (InTurn (Suc n)) ms" "case p of Prepared tc' tool args \<Rightarrow> tc' = tc | _ \<Rightarrow> True"
  shows "wp (run_preparation env cfg ctx am i tc p)
    (\<lambda>r s'. \<exists>f. r = Inr f \<and> fz_toolCall f = tc \<and> at_phase s' (InTurn (Suc n)) ms) s"
proof (cases p)
  case (Prepared tc' tool args)
  have fin: "wp (finalizeExecutedToolCall cfg ctx am tc args res err)
      (\<lambda>r s'. \<exists>f. r = Inr f \<and> fz_toolCall f = tc \<and> at_phase s' (InTurn (Suc n)) ms) s1"
    if "at_phase s1 (InTurn (Suc n)) ms" for res err and s1 :: "('a, agent_event) eff_state"
    by (rule wp_mono [OF wp_conj [OF finalize_call wp_quiet [OF finalize_quiet that]]]) auto
  have "wp (executePreparedToolCall env i tc tool args)
      (\<lambda>r s'. (\<exists>x. r = Inr x) \<and> at_phase s' (InTurn (Suc n)) ms) s"
    by (intro wp_conj wp_never_throws executePrepared_never_throws wp_quiet [OF executePrepared_quiet assms(1)])
  then show ?thesis
    unfolding run_preparation_def using Prepared assms(2)
    by (auto simp: wp_bind elim!: wp_mono intro!: fin split: prod.splits)
qed (use assms in \<open>simp add: run_preparation_def wp_return\<close>)

lemma answers_Cons: "answers [m] [tc] \<Longrightarrow> answers ms tcs \<Longrightarrow> answers (m # ms) (tc # tcs)"
  by (simp add: answers_def)

lemma answers_Nil [simp]: "answers [] []"
  by (simp add: answers_def)

text \<open>A sequential batch answers its calls in order, a prefix of them when it was aborted.\<close>

definition batch_result :: "'w loop_env \<Rightarrow> tool_call list \<Rightarrow> tool_result_message list \<Rightarrow> bool" where
  "batch_result env tcs ms \<longleftrightarrow>
     (\<exists>k. answers ms (take k tcs) \<and> (tcs \<noteq> [] \<longrightarrow> 0 < k) \<and> (never_aborted env \<longrightarrow> k = length tcs))"

lemma batch_resultI:
  "answers ms (take k tcs) \<Longrightarrow> tcs \<noteq> [] \<longrightarrow> 0 < k \<Longrightarrow> never_aborted env \<longrightarrow> k = length tcs \<Longrightarrow>
     batch_result env tcs ms"
  by (auto simp: batch_result_def)

lemma batch_result_Cons:
  assumes "answers [m] [tc]"
  shows "batch_result env tcs ms \<Longrightarrow> batch_result env (tc # tcs) (m # ms)"
    "\<not> never_aborted env \<Longrightarrow> batch_result env (tc # tcs) [m]"
proof -
  assume "batch_result env tcs ms"
  then obtain k where "answers ms (take k tcs)" "never_aborted env \<longrightarrow> k = length tcs"
    by (auto simp: batch_result_def)
  then show "batch_result env (tc # tcs) (m # ms)"
    using answers_Cons [OF assms] unfolding batch_result_def by (intro exI [of _ "Suc k"]) auto
next
  assume "\<not> never_aborted env"
  then show "batch_result env (tc # tcs) [m]"
    using assms unfolding batch_result_def by (intro exI [of _ 1]) auto
qed

lemma wp_sequential:
  fixes s :: "('w, agent_event) eff_state"
  assumes "at_phase s (InTurn 0) ms"
  shows "wp (sequential_calls env cfg ctx am i tcs fins msgs)
    (\<lambda>r s'. \<exists>fins' new. r = Inr (fins', msgs @ new) \<and> batch_result env tcs new \<and>
       at_phase s' (InTurn 0) (ms @ map ToolResultMsg new)) s"
  using assms
proof (induction tcs arbitrary: i fins msgs ms s)
  case Nil
  then show ?case
    by (auto simp: wp_return batch_result_def intro!: exI [of _ "[]"])
next
  case (Cons tc tcs)
  let ?Q = "\<lambda>r s'. \<exists>fins' new. r = Inr (fins', msgs @ new) \<and> batch_result env (tc # tcs) new \<and>
       at_phase s' (InTurn 0) (ms @ map ToolResultMsg new)"
  have rest: "wp (sequential_calls env cfg ctx am (Suc i) tcs fins1 (msgs @ [m])) ?Q s1"
    if "at_phase s1 (InTurn 0) (ms @ [ToolResultMsg m])" "answers [m] [tc]"
    for fins1 m and s1 :: "('w, agent_event) eff_state"
    by (rule wp_mono [OF Cons.IH [OF that(1)]])
      (use batch_result_Cons(1) [OF that(2)] in force)
  have stop: "?Q (Inr (fins1, msgs @ [m])) s1"
    if "at_phase s1 (InTurn 0) (ms @ [ToolResultMsg m])" "answers [m] [tc]" "env_aborted env (world s1)"
    for fins1 m and s1 :: "('w, agent_event) eff_state"
    using that batch_result_Cons(2) [OF that(2), of env tcs] by (force simp: never_aborted_def)
  have announce: "wp (act_bind (announce_result env f) (\<lambda>message.
       act_bind (act_get (env_aborted env)) (\<lambda>aborted.
         if aborted then act_return (fins @ [f], msgs @ [message])
         else sequential_calls env cfg ctx am (Suc i) tcs (fins @ [f]) (msgs @ [message])))) ?Q s1"
    if "at_phase s1 (InTurn 0) ms" "fz_toolCall f = tc" for f and s1 :: "('w, agent_event) eff_state"
    unfolding wp_bind
    by (rule wp_mono [OF wp_announce_result [OF that(1)]])
      (use rest stop that(2) in \<open>auto simp: wp_get wp_return\<close>)
  have finish: "wp (act_then (emitToolExecutionEnd env f) (act_bind (announce_result env f) (\<lambda>message.
       act_bind (act_get (env_aborted env)) (\<lambda>aborted.
         if aborted then act_return (fins @ [f], msgs @ [message])
         else sequential_calls env cfg ctx am (Suc i) tcs (fins @ [f]) (msgs @ [message]))))) ?Q s1"
    if "at_phase s1 (InTurn (Suc 0)) ms" "fz_toolCall f = tc" for f and s1 :: "('w, agent_event) eff_state"
    unfolding wp_then emitToolExecutionEnd_def wp_emit_phase sum.case
    by (rule announce) (use that in \<open>auto simp: at_phase_def\<close>)
  have run: "wp (act_bind (run_preparation env cfg ctx am i tc p) (\<lambda>finalized.
      act_then (emitToolExecutionEnd env finalized) (act_bind (announce_result env finalized) (\<lambda>message.
       act_bind (act_get (env_aborted env)) (\<lambda>aborted.
         if aborted then act_return (fins @ [finalized], msgs @ [message])
         else sequential_calls env cfg ctx am (Suc i) tcs (fins @ [finalized]) (msgs @ [message])))))) ?Q s1"
    if "at_phase s1 (InTurn (Suc 0)) ms" "case p of Prepared tc' tool args \<Rightarrow> tc' = tc | _ \<Rightarrow> True"
    for p and s1 :: "('w, agent_event) eff_state"
    unfolding wp_bind [of "run_preparation env cfg ctx am i tc p"]
    by (rule wp_mono [OF wp_run_preparation [OF that]]) (use finish in auto)
  show ?case
    unfolding sequential_calls.simps wp_then [of "emit env (ToolExecutionStart _ _ _)"] wp_emit_phase sum.case
      wp_bind [of "prepareToolCall env cfg ctx am tc"]
    by (rule wp_mono [OF wp_prepare [of _ 0 ms]])
      (use run Cons.prems in \<open>auto simp: at_phase_def\<close>)
qed

text \<open>Concurrent batches: the calls of the entries are fixed, and what runs is what is not final.\<close>

fun entry_call :: "'w call_entry \<Rightarrow> tool_call" where
  "entry_call (EFinal f) = fz_toolCall f"
| "entry_call (ERunning tc tool args) = tc"
| "entry_call (EExecuted tc args res err) = tc"
| "entry_call (EEnding f) = fz_toolCall f"

definition running :: "'w call_entry list \<Rightarrow> nat" where
  "running es = length (filter (\<lambda>e. \<not> is_final e) es)"

lemma running_append [simp]: "running (es @ fs) = running es + running fs" "running [] = 0"
  "running [e] = (if is_final e then 0 else 1)"
  by (simp_all add: running_def)

lemma length_unfinished: "length (unfinished es) = running es"
proof -
  have "filter (\<lambda>e. \<not> is_final e) es = filter (\<lambda>e. \<not> is_final e) (map ((!) es) [0..<length es])"
    by (simp only: map_nth)
  then show ?thesis
    by (simp add: unfinished_def running_def filter_map comp_def)
qed

lemma running_update:
  assumes "i < length es" "\<not> is_final (es ! i)"
  shows "running (es[i := e]) + 1 = running es + (if is_final e then 0 else 1)"
proof -
  have "es = take i es @ [es ! i] @ drop (Suc i) es" using assms(1) by (simp add: id_take_nth_drop)
  then have "running es = running (take i es) + running [es ! i] + running (drop (Suc i) es)"
    by (metis running_append(1) add.assoc)
  moreover have "running (es[i := e]) = running (take i es) + running [e] + running (drop (Suc i) es)"
    using assms(1) by (simp add: upd_conv_take_nth_drop running_def)
  ultimately show ?thesis using assms(2) by simp
qed

lemma unfinished_nth:
  assumes "unfinished es \<noteq> []"
  shows "let i = unfinished es ! (n mod length (unfinished es)) in i < length es \<and> \<not> is_final (es ! i)"
proof -
  have "unfinished es ! (n mod length (unfinished es)) \<in> set (unfinished es)"
    using assms by (intro nth_mem) simp
  then show ?thesis by (simp add: unfinished_def Let_def)
qed

lemma wp_advance_entry:
  assumes "at_phase s (InTurn (Suc n)) ms" "\<not> is_final e"
  shows "wp (advance_entry env cfg ctx am i e) (\<lambda>r s'. \<exists>e'. r = Inr e' \<and> entry_call e' = entry_call e \<and>
    at_phase s' (InTurn (if is_final e' then n else Suc n)) ms) s"
proof (cases e)
  case (ERunning tc tool args)
  have "wp (execute_step env i tc tool args) (\<lambda>r s'. (\<exists>x. r = Inr x) \<and> at_phase s' (InTurn (Suc n)) ms) s"
    by (intro wp_conj wp_never_throws execute_step_never_throws wp_quiet [OF execute_step_quiet assms(1)])
  then show ?thesis
    using ERunning by (auto simp: advance_entry_def wp_rules elim!: wp_mono split: sum.splits prod.splits)
next
  case (EExecuted tc args res err)
  have "wp (finalizeExecutedToolCall cfg ctx am tc args res err)
      (\<lambda>r s'. (\<exists>f. r = Inr f \<and> fz_toolCall f = tc) \<and> at_phase s' (InTurn (Suc n)) ms) s"
    by (intro wp_conj finalize_call wp_quiet [OF finalize_quiet assms(1)])
  then show ?thesis
    using EExecuted
    by (auto simp: advance_entry_def wp_rules elim!: wp_mono intro!: exI [of _ "EEnding f" for f])
next
  case (EEnding f)
  then show ?thesis
    using assms by (auto simp: advance_entry_def emitToolExecutionEnd_def wp_rules at_phase_def)
qed (use assms(2) in simp)

lemma wp_parallel_step:
  assumes "at_phase s (InTurn (running es)) ms"
  shows "wp (parallel_step env cfg ctx am es) (\<lambda>r s'.
    (\<exists>es'. r = Inr (Inl es') \<and> map entry_call es' = map entry_call es \<and> at_phase s' (InTurn (running es')) ms) \<or>
    (\<exists>fs. r = Inr (Inr fs) \<and> map fz_toolCall fs = map entry_call es \<and> at_phase s' (InTurn 0) ms)) s"
proof (cases "unfinished es = []")
  case True
  then have "running es = 0" using length_unfinished [of es] by simp
  moreover have "map fz_toolCall (map final_call es) = map entry_call es"
  proof -
    have "\<forall>e \<in> set es. is_final e"
      using \<open>running es = 0\<close> by (auto simp: running_def filter_empty_conv)
    then show ?thesis by (auto elim!: is_final.elims)
  qed
  ultimately show ?thesis using True assms by (auto simp: parallel_step_def wp_return)
next
  case False
  have step: "wp (act_bind (advance_entry env cfg ctx am j (es ! j)) (\<lambda>entry. act_return (Inl (es[j := entry]))))
      (\<lambda>r s'. (\<exists>es'. r = Inr (Inl es') \<and> map entry_call es' = map entry_call es \<and>
          at_phase s' (InTurn (running es')) ms) \<or>
        (\<exists>fs. r = Inr (Inr fs) \<and> map fz_toolCall fs = map entry_call es \<and> at_phase s' (InTurn 0) ms)) s1"
    if j: "j < length es" "\<not> is_final (es ! j)" and ph: "at_phase s1 (InTurn (running es)) ms"
    for j and s1 :: "('a, agent_event) eff_state"
  proof -
    obtain n where n: "running es = Suc n"
      using running_update [OF j, of "EFinal undefined"] by (cases "running es") auto
    have "map entry_call (es[j := e]) = map entry_call es" if "entry_call e = entry_call (es ! j)" for e
      using that j(1) by (metis list_update_id map_update nth_map)
    moreover have "running (es[j := e]) = (if is_final e then n else Suc n)" for e
      using running_update [OF j, of e] n by auto
    ultimately show ?thesis
      unfolding wp_bind
      by (intro wp_mono [OF wp_advance_entry [OF _ j(2)]]) (use ph n in \<open>auto simp: wp_return\<close>)
  qed
  show ?thesis
    using False unfinished_nth [OF False] assms
    by (simp add: parallel_step_def wp_bind [of "act_call _"] wp_call apfst_def map_prod_def Let_def
        split: prod.splits) (intro allI impI step, simp_all)
qed

lemma wp_parallel_prepare:
  fixes s :: "('w, agent_event) eff_state"
  assumes "at_phase s (InTurn (running es)) ms"
  shows "wp (parallel_prepare env cfg ctx am tcs es) (\<lambda>r s'. \<exists>new k. r = Inr (es @ new) \<and>
    map entry_call new = take k tcs \<and> (tcs \<noteq> [] \<longrightarrow> 0 < k) \<and> (never_aborted env \<longrightarrow> k = length tcs) \<and>
    at_phase s' (InTurn (running (es @ new))) ms) s"
  using assms
proof (induction tcs arbitrary: es s)
  case Nil
  then show ?case by (auto simp: wp_return intro!: exI [of _ "[]"])
next
  case (Cons tc tcs)
  let ?Q = "\<lambda>r s'. \<exists>new k. r = Inr (es @ new) \<and>
    map entry_call new = take k (tc # tcs) \<and> (tc # tcs \<noteq> [] \<longrightarrow> 0 < k) \<and>
    (never_aborted env \<longrightarrow> k = length (tc # tcs)) \<and> at_phase s' (InTurn (running (es @ new))) ms"
  have rest: "wp (parallel_prepare env cfg ctx am tcs (es @ [e])) ?Q s1"
    if "at_phase s1 (InTurn (running (es @ [e]))) ms" "entry_call e = tc" for e and s1 :: "('w, agent_event) eff_state"
  proof (rule wp_mono [OF Cons.IH [OF that(1)]])
    fix r and s' :: "('w, agent_event) eff_state"
    assume "\<exists>new k. r = Inr ((es @ [e]) @ new) \<and> map entry_call new = take k tcs \<and> (tcs \<noteq> [] \<longrightarrow> 0 < k) \<and>
      (never_aborted env \<longrightarrow> k = length tcs) \<and> at_phase s' (InTurn (running ((es @ [e]) @ new))) ms"
    then obtain new k where "r = Inr (es @ e # new)" "map entry_call new = take k tcs"
      "never_aborted env \<longrightarrow> k = length tcs" "at_phase s' (InTurn (running ((es @ [e]) @ new))) ms" by auto
    then show "?Q r s'"
      using that(2) by (intro exI [of _ "e # new"] exI [of _ "Suc k"]) auto
  qed
  have stop: "?Q (Inr (es @ [e])) s1"
    if "at_phase s1 (InTurn (running (es @ [e]))) ms" "entry_call e = tc" "env_aborted env (world s1)"
    for e and s1 :: "('w, agent_event) eff_state"
    by (intro exI [of _ "[e]"] exI [of _ 1]) (use that in \<open>auto simp: never_aborted_def\<close>)
  have check: "wp (act_bind (act_get (env_aborted env)) (\<lambda>aborted.
        if aborted then act_return (es @ [e]) else parallel_prepare env cfg ctx am tcs (es @ [e]))) ?Q s1"
    if "at_phase s1 (InTurn (running (es @ [e]))) ms" "entry_call e = tc" for e and s1 :: "('w, agent_event) eff_state"
    using rest [OF that] stop [OF that] by (simp add: wp_bind wp_get wp_return)
  have entry: "wp (act_bind
        (case p of
           Immediate result isError \<Rightarrow>
             (let finalized = \<lparr>fz_toolCall = tc, fz_result = result, fz_isError = isError\<rparr>
              in act_then (emitToolExecutionEnd env finalized) (act_return (EFinal finalized)))
         | Prepared tc' tool args \<Rightarrow> act_return (ERunning tc' tool args)) (\<lambda>e.
      act_bind (act_get (env_aborted env)) (\<lambda>aborted.
        if aborted then act_return (es @ [e]) else parallel_prepare env cfg ctx am tcs (es @ [e])))) ?Q s1"
    if "at_phase s1 (InTurn (Suc (running es))) ms" "case p of Prepared tc' tool args \<Rightarrow> tc' = tc | _ \<Rightarrow> True"
    for p and s1 :: "('w, agent_event) eff_state"
  proof (cases p)
    case (Prepared tc' tool args)
    show ?thesis
      unfolding Prepared preparation.case wp_bind [of "act_return _"] wp_return sum.case
      by (rule check) (use that Prepared in auto)
  next
    case (Immediate res err)
    show ?thesis
      unfolding Immediate preparation.case Let_def wp_bind [of "act_then _ _"] wp_then
        emitToolExecutionEnd_def wp_emit_phase wp_return sum.case
      by (rule check) (use that in \<open>auto simp: at_phase_def\<close>)
  qed
  show ?case
    unfolding parallel_prepare.simps wp_then [of "emit env (ToolExecutionStart _ _ _)"] wp_emit_phase sum.case
      wp_bind [of "prepareToolCall env cfg ctx am tc"]
    by (rule wp_mono [OF wp_prepare [of _ "running es" ms]])
      (use entry Cons.prems in \<open>auto simp: at_phase_def\<close>)
qed

lemma wp_announce_all:
  assumes "at_phase s (InTurn 0) ms"
  shows "wp (announce_all env fs msgs) (\<lambda>r s'. \<exists>new. r = Inr (msgs @ new) \<and> answers new (map fz_toolCall fs) \<and>
    at_phase s' (InTurn 0) (ms @ map ToolResultMsg new)) s"
  using assms
proof (induction fs arbitrary: msgs ms s)
  case Nil
  then show ?case by (auto simp: wp_return answers_def intro!: exI [of _ "[]"])
next
  case (Cons f fs)
  have rest: "wp (announce_all env fs (msgs @ [m])) (\<lambda>r s'. \<exists>new. r = Inr (msgs @ new) \<and>
      answers new (map fz_toolCall (f # fs)) \<and> at_phase s' (InTurn 0) (ms @ map ToolResultMsg new)) s1"
    if "at_phase s1 (InTurn 0) (ms @ [ToolResultMsg m])" "answers [m] [fz_toolCall f]"
    for m and s1 :: "('a, agent_event) eff_state"
    by (rule wp_mono [OF Cons.IH [OF that(1)]]) (use answers_Cons [OF that(2)] in force)
  show ?case
    unfolding announce_all.simps wp_bind
    by (rule wp_mono [OF wp_announce_result [OF Cons.prems]]) (use rest in auto)
qed

lemma wp_parallel:
  assumes "at_phase s (InTurn 0) ms"
  shows "wp (executeToolCallsParallel env cfg ctx am tcs) (\<lambda>r s'. \<exists>new t. r = Inr (new, t) \<and>
    batch_result env tcs new \<and> at_phase s' (InTurn 0) (ms @ map ToolResultMsg new)) s"
proof -
  let ?Q = "\<lambda>r s'. \<exists>new t. r = Inr (new, t) \<and>
    batch_result env tcs new \<and> at_phase s' (InTurn 0) (ms @ map ToolResultMsg new)"
  have announce: "wp (act_bind (announce_all env fs []) (\<lambda>messages.
      act_return (messages, shouldTerminateToolBatch fs))) ?Q s1"
    if "at_phase s1 (InTurn 0) ms" "map fz_toolCall fs = take k tcs" "tcs \<noteq> [] \<longrightarrow> 0 < k"
      "never_aborted env \<longrightarrow> k = length tcs" for fs k and s1 :: "('a, agent_event) eff_state"
    unfolding wp_bind
    by (rule wp_mono [OF wp_announce_all [OF that(1)]])
      (use that(2) batch_resultI [OF _ that(3,4)] in \<open>auto simp: wp_return\<close>)
  have run: "wp (act_bind (act_loop (parallel_step env cfg ctx am) es) (\<lambda>fs.
      act_bind (announce_all env fs []) (\<lambda>messages. act_return (messages, shouldTerminateToolBatch fs)))) ?Q s1"
    if "at_phase s1 (InTurn (running es)) ms" and es: "map entry_call es = take k tcs"
      and k: "tcs \<noteq> [] \<longrightarrow> 0 < k" "never_aborted env \<longrightarrow> k = length tcs"
    for es k and s1 :: "('a, agent_event) eff_state"
    unfolding wp_bind [of "act_loop _ _"]
  proof (rule wp_loop [where I = "\<lambda>es' s'. map entry_call es' = map entry_call es \<and>
        at_phase s' (InTurn (running es')) ms"])
    show "map entry_call es = map entry_call es \<and> at_phase s1 (InTurn (running es)) ms" using that(1) by simp
  next
    fix es' :: "'a call_entry list" and s2 :: "('a, agent_event) eff_state"
    assume I: "map entry_call es' = map entry_call es \<and> at_phase s2 (InTurn (running es')) ms"
    then show "wp (parallel_step env cfg ctx am es') (\<lambda>r s'. case r of
          Inl msg \<Rightarrow> (case Inl msg of Inl msg \<Rightarrow> ?Q (Inl msg) s' | Inr fs \<Rightarrow>
              wp (act_bind (announce_all env fs []) (\<lambda>messages. act_return (messages, shouldTerminateToolBatch fs))) ?Q s')
        | Inr next \<Rightarrow> (case next of
              Inl es'' \<Rightarrow> map entry_call es'' = map entry_call es \<and> at_phase s' (InTurn (running es'')) ms
            | Inr fs \<Rightarrow> (case Inr fs of Inl msg \<Rightarrow> ?Q (Inl msg) s' | Inr fs \<Rightarrow>
                wp (act_bind (announce_all env fs []) (\<lambda>messages. act_return (messages, shouldTerminateToolBatch fs)))
                  ?Q s'))) s2"
      by (intro wp_mono [OF wp_parallel_step]) (use announce [OF _ _ k] es in auto)
  qed
  show ?thesis
    unfolding executeToolCallsParallel_def wp_bind [of "parallel_prepare _ _ _ _ _ _"]
  proof (rule wp_mono [OF wp_parallel_prepare])
    show "at_phase s (InTurn (running [])) ms" using assms by simp
  qed (elim exE conjE, simp only: sum.case append_Nil, rule run, assumption+)
qed

lemma wp_executeToolCalls:
  assumes "at_phase s (InTurn 0) ms"
  shows "wp (executeToolCalls env cfg ctx am) (\<lambda>r s'. \<exists>new t. r = Inr (new, t) \<and>
    batch_result env (tool_calls am) new \<and> at_phase s' (InTurn 0) (ms @ map ToolResultMsg new)) s"
proof -
  have "wp (executeToolCallsSequential env cfg ctx am tcs) (\<lambda>r s'. \<exists>new t. r = Inr (new, t) \<and>
      batch_result env tcs new \<and> at_phase s' (InTurn 0) (ms @ map ToolResultMsg new)) s" for tcs
    unfolding executeToolCallsSequential_def wp_bind
    by (rule wp_mono [OF wp_sequential [OF assms]]) (auto simp: wp_return)
  then show ?thesis
    using wp_parallel [OF assms] by (simp add: executeToolCalls_def Let_def)
qed

subsection \<open>Streaming\<close>

text \<open>While a response streams: the messages of the context and the phase.\<close>

definition stream_inv ::
  "agent_message list \<Rightarrow> agent_message list \<Rightarrow> bool \<times> agent_message list \<Rightarrow> ('w, agent_event) eff_state \<Rightarrow> bool" where
  "stream_inv base ms v s \<longleftrightarrow>
     (case v of (added, msgs) \<Rightarrow>
        if added then (\<exists>ps m. msgs = base @ ps @ [m]) \<and> (\<exists>m. is_assistant m \<and> at_phase s (Open m) ms)
        else msgs = base \<and> at_phase s (InTurn 0) ms)"

lemma stream_inv_world [simp]: "stream_inv base ms v (s\<lparr>world := w\<rparr>) = stream_inv base ms v s"
  by (cases v) (simp add: stream_inv_def)

lemma stream_inv_unfinished: "stream_inv base ms v s \<Longrightarrow> unfinished_run s"
  by (cases v) (auto simp: stream_inv_def dest: at_phase_unfinished split: if_splits)

definition stream_post ::
  "agent_message list \<Rightarrow> agent_message list \<Rightarrow> (assistant_message \<times> agent_message list) thrown
     \<Rightarrow> ('w, agent_event) eff_state \<Rightarrow> bool" where
  "stream_post base ms r s \<longleftrightarrow>
     (case r of
        Inl msg \<Rightarrow> unfinished_run s
      | Inr (m, msgs) \<Rightarrow> at_phase s (InTurn 0) (ms @ [AssistantMsg m]) \<and>
          (\<exists>ps. msgs = base @ ps @ [AssistantMsg m]))"

lemma wp_finish_response:
  assumes "stream_inv base ms (added, msgs) s"
  shows "wp (finish_response env added msgs) (stream_post base ms) s"
  using assms stream_inv_unfinished [OF assms]
  by (auto simp: finish_response_def wp_rules stream_post_def stream_inv_def at_phase_def replace_last_def
      butlast_append split: prod.splits sum.splits)

lemma wp_stream_step:
  assumes "stream_inv base ms v s"
  shows "wp (stream_step env v) (\<lambda>r s'. case r of
      Inl msg \<Rightarrow> stream_post base ms (Inl msg) s'
    | Inr next \<Rightarrow> (case next of Inl v' \<Rightarrow> stream_inv base ms v' s' | Inr x \<Rightarrow> stream_post base ms (Inr x) s')) s"
proof -
  obtain added msgs where v: "v = (added, msgs)" by fastforce
  let ?Q = "\<lambda>r s'. case r of
      Inl msg \<Rightarrow> stream_post base ms (Inl msg) s'
    | Inr next \<Rightarrow> (case next of Inl v' \<Rightarrow> stream_inv base ms v' s' | Inr x \<Rightarrow> stream_post base ms (Inr x) s')"
  have fin: "wp (act_bind (finish_response env added msgs) (\<lambda>r. act_return (Inr r))) ?Q (s\<lparr>world := w\<rparr>)" for w
    unfolding wp_bind
    by (rule wp_mono [OF wp_finish_response [of base ms]])
      (use assms v in \<open>auto simp: wp_return split: sum.splits\<close>)
  have start: "stream_inv base ms (True, msgs @ [AssistantMsg p])
      \<lparr>world = w, events = events s @ [MessageStart (AssistantMsg p)]\<rparr>" for p w
    using assms v by (auto simp: stream_inv_def at_phase_def split: if_splits)
  have update: "stream_inv base ms (added, replace_last msgs (AssistantMsg p))
      \<lparr>world = w, events = events s @ [MessageUpdate (AssistantMsg p) e]\<rparr>" if added for p e w
    using assms v that by (auto simp: stream_inv_def at_phase_def replace_last_def butlast_append)
  show ?thesis
    using assms v fin start update stream_inv_unfinished [OF assms]
    by (auto simp: stream_step_def wp_bind [of "act_call _"] wp_bind [of "act_get _"] wp_call wp_get wp_throw
        wp_return wp_then wp_emit_phase apfst_def map_prod_def stream_post_def
        split: prod.splits stream_pull.splits stream_event.splits)
qed

definition response_post ::
  "'w agent_context \<Rightarrow> agent_message list \<Rightarrow> (assistant_message \<times> 'w agent_context) thrown
     \<Rightarrow> ('w, agent_event) eff_state \<Rightarrow> bool" where
  "response_post ctx ms r s \<longleftrightarrow>
     (case r of
        Inl msg \<Rightarrow> unfinished_run s
      | Inr (m, ctx') \<Rightarrow> at_phase s (InTurn 0) (ms @ [AssistantMsg m]) \<and>
          (\<exists>ps. ctx' = ctx\<lparr>ac_messages := ac_messages ctx @ ps @ [AssistantMsg m]\<rparr>))"

lemma response_post_thrown [simp]: "response_post ctx ms (Inl msg) s = unfinished_run s"
  by (simp add: response_post_def)

lemma wp_streamAssistantResponse:
  assumes "at_phase s (InTurn 0) ms"
  shows "wp (streamAssistantResponse env cfg ctx) (response_post ctx ms) s"
proof -
  have loop: "wp (act_bind (act_loop (stream_step env) (False, ac_messages ctx)) (\<lambda>(message, messages').
       act_return (message, ctx\<lparr>ac_messages := messages'\<rparr>))) (response_post ctx ms) s1"
    if "at_phase s1 (InTurn 0) ms" for s1 :: "('a, agent_event) eff_state"
    unfolding wp_bind
  proof (rule wp_mono)
    show "wp (act_loop (stream_step env) (False, ac_messages ctx)) (stream_post (ac_messages ctx) ms) s1"
      by (rule wp_loop [where I = "stream_inv (ac_messages ctx) ms", OF _ wp_stream_step])
        (use that in \<open>auto simp: stream_inv_def\<close>)
  qed (auto simp: stream_post_def response_post_def wp_return split: sum.splits prod.splits)
  have un: "unfinished_run s" using at_phase_unfinished [OF assms] by simp
  have rest: "wp (act_then (act_call f) (act_bind (act_loop (stream_step env) (False, ac_messages ctx))
      (\<lambda>(message, messages'). act_return (message, ctx\<lparr>ac_messages := messages'\<rparr>)))) (response_post ctx ms)
      (s\<lparr>world := w\<rparr>)" for f w
    using loop assms un by (auto simp: wp_then wp_call split: prod.splits sum.splits)
  show ?thesis
    unfolding streamAssistantResponse_def
    using rest un
    by (auto simp: wp_bind [of "act_return _"] wp_bind [of "act_call _"] wp_call wp_return
        split: option.split prod.split sum.split)
qed

subsection \<open>Turns\<close>

text \<open>Between turns the new messages are those whose end was announced.\<close>

definition turn_inv :: "'w loop_vars \<Rightarrow> ('w, agent_event) eff_state \<Rightarrow> bool" where
  "turn_inv v s \<longleftrightarrow> at_phase s (if lv_firstTurn v then InTurn 0 else Between) (lv_newMessages v)"

definition loop_post :: "agent_message list thrown \<Rightarrow> ('w, agent_event) eff_state \<Rightarrow> bool" where
  "loop_post r s \<longleftrightarrow>
     (case r of
        Inl msg \<Rightarrow> unfinished_run s
      | Inr new \<Rightarrow> at_phase s Finished new \<and> (\<exists>es. events s = es @ [AgentEnd new]))"

definition turn_post ::
  "('w loop_vars + agent_message list) thrown \<Rightarrow> ('w, agent_event) eff_state \<Rightarrow> bool" where
  "turn_post r s \<longleftrightarrow>
     (case r of
        Inl msg \<Rightarrow> loop_post (Inl msg) s
      | Inr next \<Rightarrow> (case next of Inl v \<Rightarrow> turn_inv v s | Inr new \<Rightarrow> loop_post (Inr new) s))"

lemma turn_post_simps [simp]:
  "turn_post (Inl msg) s = unfinished_run s"
  "turn_post (Inr (Inl v)) s = turn_inv v s"
  "turn_post (Inr (Inr new)) s = loop_post (Inr new) s"
  by (simp_all add: turn_post_def loop_post_def)

lemma wp_end_agent:
  assumes "at_phase s Between ms"
  shows "wp (end_agent env ms) turn_post s"
  using assms by (simp add: end_agent_def wp_rules loop_post_def at_phase_def)

lemma wp_continue_loop:
  assumes "at_phase s Between (tx_newMessages tx)"
  shows "wp (continue_loop env tx cfg) turn_post s"
proof -
  have un: "unfinished_run s" using at_phase_unfinished [OF assms] by simp
  have fin: "wp (end_agent env (tx_newMessages tx)) turn_post (s\<lparr>world := w\<rparr>)" for w
    using assms by (intro wp_end_agent) simp
  show ?thesis
    unfolding continue_loop_def
    using un fin fin [of "world s"] assms
    by (auto simp: wp_bind [of "act_return _"] wp_bind [of "act_call _"] wp_call wp_return Let_def
        queued_messages_def turn_inv_def split: option.split prod.split sum.split)
qed

lemma wp_turn_end:
  assumes "at_phase s (InTurn 0) (new1 @ map ToolResultMsg rs)"
  shows "wp (turn_end env cfg ctx1 new1 m rs t) turn_post s"
proof -
  let ?s = "\<lparr>world = env_sink env (TurnEnd (AssistantMsg m) rs) (world s), events = events s @ [TurnEnd (AssistantMsg m) rs]\<rparr>"
  have ph: "at_phase (?s\<lparr>world := w\<rparr>) Between (new1 @ map ToolResultMsg rs)" for w
    using assms by (simp add: at_phase_def)
  have un: "unfinished_run (?s\<lparr>world := w\<rparr>)" for w
    by (rule at_phase_unfinished [OF ph]) simp
  note fin = wp_end_agent [OF ph] wp_continue_loop
  show ?thesis
    unfolding turn_end_def Let_def wp_then wp_emit_phase sum.case
    using fin(1) [of env "world ?s"] fin(1) fin(2) [of _ _ env cfg] ph ph [of "world ?s"] un
    by (auto simp: wp_bind [of "act_return _"] wp_bind [of "act_call _"] wp_call wp_return
        split: option.split prod.split sum.split)
qed

lemma wp_loop_turn:
  assumes "turn_inv v s"
  shows "wp (loop_turn env v) turn_post s"
proof -
  let ?ctx = "(lv_context v)\<lparr>ac_messages := ac_messages (lv_context v) @ lv_pending v\<rparr>"
  let ?new = "lv_newMessages v @ lv_pending v" and ?cfg = "lv_config v"
  have after: "wp (act_bind (if tool_calls m = [] then act_return ([], False) else executeToolCalls env ?cfg ctx1 m)
      (\<lambda>(toolResults, allTerminate). turn_end env ?cfg ctx1 (?new @ [AssistantMsg m]) m toolResults allTerminate))
      turn_post s1"
    if "at_phase s1 (InTurn 0) (?new @ [AssistantMsg m])" for m ctx1 and s1 :: "('a, agent_event) eff_state"
  proof (cases "tool_calls m = []")
    case True
    then show ?thesis using that by (simp add: wp_bind wp_return wp_turn_end)
  next
    case False
    then show ?thesis
      using that by (auto simp: wp_bind intro!: wp_mono [OF wp_executeToolCalls [OF that]] wp_turn_end)
  qed
  have failed: "wp (act_then (emit env (TurnEnd (AssistantMsg m) [])) (end_agent env (?new @ [AssistantMsg m]))) turn_post s1"
    if "at_phase s1 (InTurn 0) (?new @ [AssistantMsg m])" for m and s1 :: "('a, agent_event) eff_state"
    unfolding wp_then wp_emit_phase sum.case
    by (rule wp_end_agent) (use that in \<open>auto simp: at_phase_def\<close>)
  define rest where "rest = (\<lambda>(m, ctx1). if a_stopReason m = StopError \<or> a_stopReason m = StopAborted
      then act_then (emit env (TurnEnd (AssistantMsg m) [])) (end_agent env (?new @ [AssistantMsg m]))
      else act_bind (if tool_calls m = [] then act_return ([], False) else executeToolCalls env ?cfg ctx1 m)
        (\<lambda>(toolResults, allTerminate).
           turn_end env ?cfg ctx1 (?new @ [AssistantMsg m]) m toolResults allTerminate))"
  have turn: "loop_turn env v = act_then (if lv_firstTurn v then act_return () else emit env TurnStart)
      (act_then (act_each (announce_message env) (lv_pending v))
        (act_bind (streamAssistantResponse env ?cfg ?ctx) rest))"
    by (simp only: loop_turn_def Let_def rest_def)
  have respond: "wp (act_bind (streamAssistantResponse env ?cfg ?ctx) rest) turn_post s1"
    if "at_phase s1 (InTurn 0) ?new" for s1 :: "('a, agent_event) eff_state"
    unfolding wp_bind
  proof (rule wp_mono [OF wp_streamAssistantResponse [OF that]], split sum.split, intro conjI allI impI)
    fix r s' x
    assume "response_post ?ctx ?new r s'" "r = Inr x"
    moreover obtain m ctx1 where "x = (m, ctx1)" by fastforce
    ultimately have "at_phase s' (InTurn 0) (?new @ [AssistantMsg m])" "x = (m, ctx1)"
      by (auto simp: response_post_def)
    then show "wp (rest x) turn_post s'"
      using after [of s' m ctx1] failed [of s' m] by (simp add: rest_def)
  qed simp
  have pending: "wp (act_each (announce_message env) (lv_pending v)) (\<lambda>r s'. r = Inr () \<and> at_phase s' (InTurn 0) ?new) s1"
    if "at_phase s1 (InTurn 0) (lv_newMessages v)" for s1 :: "('a, agent_event) eff_state"
    by (rule wp_announce_messages [OF that])
  have announced: "wp (act_then (act_each (announce_message env) (lv_pending v))
      (act_bind (streamAssistantResponse env ?cfg ?ctx) rest)) turn_post s1"
    if "at_phase s1 (InTurn 0) (lv_newMessages v)" for s1 :: "('a, agent_event) eff_state"
    unfolding wp_then by (rule wp_mono [OF pending [OF that]]) (use respond in auto)
  show ?thesis
    unfolding turn wp_then [of "if _ then _ else _"] using assms announced
    by (auto simp: turn_inv_def wp_return wp_emit_phase intro!: announced split: if_splits)
      (auto simp: at_phase_def)
qed

lemma wp_runLoop:
  assumes "at_phase s (InTurn 0) new"
  shows "wp (runLoop env cfg ctx new) loop_post s"
proof -
  have "wp (act_loop (loop_turn env) v) loop_post s1" if "turn_inv v s1"
    for v and s1 :: "('a, agent_event) eff_state"
    by (rule wp_loop [where I = turn_inv, OF that])
      (rule wp_mono [OF wp_loop_turn], simp_all add: turn_post_def)
  then show ?thesis
    unfolding runLoop_def using assms at_phase_unfinished [OF assms]
    by (auto simp: queued_messages_def wp_bind wp_return wp_call turn_inv_def loop_post_def
        split: option.split prod.split sum.split)
qed

lemma start_phase: "at_phase \<lparr>world = w, events = [AgentStart, TurnStart]\<rparr> (InTurn 0) []"
  by (simp add: at_phase_def phase_of_def ended_def map_filter_def)

lemma wp_runAgentLoop:
  assumes "events s = []"
  shows "wp (runAgentLoop env prompts ctx cfg) loop_post s"
proof -
  have "wp (act_then (act_each (announce_message env) prompts)
      (runLoop env cfg (ctx\<lparr>ac_messages := ac_messages ctx @ prompts\<rparr>) prompts)) loop_post
      \<lparr>world = w, events = [AgentStart, TurnStart]\<rparr>" for w
    unfolding wp_then by (rule wp_mono [OF wp_announce_messages [OF start_phase]]) (auto intro: wp_runLoop)
  then show ?thesis
    using assms by (simp add: runAgentLoop_def wp_then [of "emit _ _"] wp_emit_phase)
qed

lemma wp_runAgentLoopContinue:
  assumes "events s = []" "ac_messages ctx \<noteq> []"
  shows "wp (runAgentLoopContinue env ctx cfg) loop_post s"
  using assms wp_runLoop [OF start_phase]
  by (simp add: runAgentLoopContinue_def wp_then wp_emit_phase)

text \<open>
  C2: A run of the agent loop follows the event protocol, whatever the provider, the tools, the
  hooks and the order of concurrent calls do.  If it returns, the last event is the end of the
  agent, and the messages returned and announced there are exactly those whose end was announced
  during the run, in that order.  If it throws, no end of the agent was announced.
\<close>

theorem agent_loop_event_protocol:
  assumes "runAgentLoop env prompts ctx cfg \<lparr>world = w, events = []\<rparr> = Some (r, s)"
  shows "case r of
      Inr new \<Rightarrow> phase_of (events s) = Some Finished \<and> ended (events s) = new \<and> last (events s) = AgentEnd new
    | Inl msg \<Rightarrow> phase_of (events s) \<notin> {None, Some Finished}"
proof -
  have "loop_post r s"
    using wp_runAgentLoop [of "\<lparr>world = w, events = []\<rparr>" env prompts ctx cfg] assms by (simp add: wp_def)
  then show ?thesis
    by (auto simp: loop_post_def at_phase_def unfinished_run_def split: sum.splits) (metis last_snoc)
qed


subsection \<open>A run of the loop\<close>

text \<open>The world of the demonstration: what the stream still brings, and the final responses.\<close>

type_synonym demo_world = "stream_pull list \<times> assistant_message list"

definition demo_response :: "assistant_block list \<Rightarrow> stop_reason \<Rightarrow> assistant_message" where
  "demo_response bs stop = \<lparr>a_content = bs, a_api = [], a_provider = [], a_model = [], a_usage = None,
     a_stopReason = stop, a_errorMessage = None, a_timestamp = None\<rparr>"

definition demo_tool_call :: tool_call where
  "demo_tool_call = \<lparr>tc_id = str ''1'', tc_name = str ''t'', tc_arguments = JObj []\<rparr>"

definition demo_result :: agent_tool_result where
  "demo_result = \<lparr>res_content = [], res_details = None, res_terminate = None\<rparr>"

definition demo_tool :: "demo_world agent_tool" where
  "demo_tool = \<lparr>at_name = str ''t'', at_executionMode = None, at_prepareArguments = None,
     at_validate = (\<lambda>tc. Inr (tc_arguments tc)), at_permissionClassification = None,
     at_execute = (\<lambda>i tcid args w. (Returned demo_result, w))\<rparr>"

definition demo_context :: "demo_world agent_context" where
  "demo_context = \<lparr>ac_systemPrompt = [], ac_messages = [], ac_tools = Some [demo_tool]\<rparr>"

definition demo_config :: "demo_world agent_loop_config" where
  "demo_config = \<lparr>cfg_model = \<lparr>mr_id = [], mr_api = [], mr_provider = []\<rparr>, cfg_reasoning = None, cfg_apiKey = None,
     cfg_convertToLlm = (\<lambda>ms w. (Inr [], w)), cfg_transformContext = None, cfg_getApiKey = None,
     cfg_shouldStopAfterTurn = None, cfg_prepareNextTurn = None, cfg_getSteeringMessages = None,
     cfg_getFollowUpMessages = None, cfg_toolExecution = Some Sequential, cfg_beforeToolCall = None,
     cfg_afterToolCall = None, cfg_onControlPlanePrompt = None\<rparr>"

definition demo_env :: "demo_world loop_env" where
  "demo_env = \<lparr>env_stream = (\<lambda>m l c k w. (Inr (), w)),
     env_next = (\<lambda>(ps, rs). case ps of [] \<Rightarrow> (PulledDone, (ps, rs)) | p # ps' \<Rightarrow> (p, (ps', rs))),
     env_result = (\<lambda>(ps, rs). (Inr (hd rs), (ps, tl rs))),
     env_aborted = (\<lambda>w. False), env_now = (\<lambda>w. (None, w)), env_sha256 = (\<lambda>s. []),
     env_pick = (\<lambda>w. (0, w)), env_sink = (\<lambda>e w. w)\<rparr>"

lemmas demo_defs = demo_env_def demo_config_def demo_context_def demo_tool_def demo_result_def
  demo_tool_call_def demo_response_def

lemmas action_eval = act_return_def act_throw_def act_bind_def act_then_def act_catch_def act_call_def
  act_get_def act_emit_def act_lift_def emit_def Let_def

lemma demo_prepare:
  "prepareToolCall demo_env demo_config demo_context am demo_tool_call s =
     Some (Inr (Prepared demo_tool_call demo_tool (JObj [])), s)"
  by (simp add: prepareToolCall_def prepare_checked_def prepareToolCallArguments_def classify_call_def
      before_hook_def ask_prompt_def effective_prompt_def synthesized_prompt_def context_tools_def
      demo_defs action_eval)

definition demo_message :: tool_result_message where
  "demo_message = createToolResultMessage
     \<lparr>fz_toolCall = demo_tool_call, fz_result = demo_result, fz_isError = False\<rparr> None"

definition demo_tool_events :: "agent_event list" where
  "demo_tool_events = [ToolExecutionStart (str ''1'') (str ''t'') (JObj []),
     ToolExecutionEnd (str ''1'') (str ''t'') demo_result False,
     MessageStart (ToolResultMsg demo_message), MessageEnd (ToolResultMsg demo_message)]"

lemma demo_env_simps [simp]:
  "env_stream demo_env m l c k w = (Inr (), w)"
  "env_next demo_env (p # ps, rs) = (p, (ps, rs))" "env_next demo_env ([], rs) = (PulledDone, ([], rs))"
  "env_result demo_env (ps, am # rs) = (Inr am, (ps, rs))"
  "env_aborted demo_env w = False" "env_now demo_env w = (None, w)" "env_sink demo_env e w = w"
  by (simp_all add: demo_env_def)

lemma demo_execute:
  "executePreparedToolCall demo_env 0 demo_tool_call demo_tool args s = Some (Inr (demo_result, False), s)"
proof -
  have "at_execute demo_tool i tcid args w = (Returned demo_result, w)" for i tcid w
    by (simp add: demo_tool_def)
  then show ?thesis
    by (simp add: executePreparedToolCall_def act_loop.simps execute_step_def action_eval)
qed

lemma demo_batch:
  "executeToolCalls demo_env demo_config demo_context
       (demo_response [AToolCall demo_tool_call] StopToolUse) \<lparr>world = w, events = es\<rparr> =
     Some (Inr ([demo_message], False), \<lparr>world = w, events = es @ demo_tool_events\<rparr>)"
proof -
  have calls: "tool_calls (demo_response [AToolCall demo_tool_call] StopToolUse) = [demo_tool_call]"
    by (simp add: tool_calls_def demo_response_def map_filter_def)
  have sequential: "cfg_toolExecution demo_config = Some Sequential" "cfg_afterToolCall demo_config = None"
    by (simp_all add: demo_config_def)
  have names: "tc_id demo_tool_call = str ''1''" "tc_name demo_tool_call = str ''t''"
    "tc_arguments demo_tool_call = JObj []" by (simp_all add: demo_tool_call_def)
  show ?thesis
    unfolding executeToolCalls_def calls Let_def
    by (simp add: sequential executeToolCallsSequential_def run_preparation_def demo_prepare demo_execute
        finalizeExecutedToolCall_def announce_result_def emitToolResultMessage_def emitToolExecutionEnd_def
        shouldTerminateToolBatch_def demo_tool_events_def demo_message_def[symmetric] names action_eval)
      (simp add: demo_result_def)
qed


definition demo_answer :: assistant_message where
  "demo_answer = demo_response [AText (str ''x'')] StopEnd"

definition demo_prompt :: agent_message where
  "demo_prompt = UserMsg (Plain (str ''q'')) None"

lemma demo_config_simps [simp]:
  "cfg_model demo_config = \<lparr>mr_id = [], mr_api = [], mr_provider = []\<rparr>" "cfg_reasoning demo_config = None"
  "cfg_apiKey demo_config = None" "cfg_convertToLlm demo_config ms w = (Inr [], w)"
  "cfg_transformContext demo_config = None" "cfg_getApiKey demo_config = None"
  "cfg_shouldStopAfterTurn demo_config = None" "cfg_prepareNextTurn demo_config = None"
  "cfg_getSteeringMessages demo_config = None" "cfg_getFollowUpMessages demo_config = None"
  by (simp_all add: demo_config_def)

lemma demo_stream:
  "streamAssistantResponse demo_env demo_config ctx
       \<lparr>world = ([Pulled (SStart m), Pulled (SDone StopEnd m)], [demo_answer]), events = es\<rparr> =
     Some (Inr (demo_answer, ctx\<lparr>ac_messages := ac_messages ctx @ [AssistantMsg demo_answer]\<rparr>),
       \<lparr>world = ([], []), events = es @ [MessageStart (AssistantMsg m), MessageEnd (AssistantMsg demo_answer)]\<rparr>)"
  by (simp add: streamAssistantResponse_def act_loop.simps stream_step_def finish_response_def replace_last_def
      butlast_append action_eval)

lemma demo_turn:
  "loop_turn demo_env \<lparr>lv_context = ctx, lv_config = demo_config, lv_firstTurn = True, lv_pending = [],
        lv_newMessages = new\<rparr>
       \<lparr>world = ([Pulled (SStart m), Pulled (SDone StopEnd m)], [demo_answer]), events = es\<rparr> =
     Some (Inr (Inr (new @ [AssistantMsg demo_answer])),
       \<lparr>world = ([], []), events = es @ [MessageStart (AssistantMsg m), MessageEnd (AssistantMsg demo_answer),
          TurnEnd (AssistantMsg demo_answer) [], AgentEnd (new @ [AssistantMsg demo_answer])]\<rparr>)"
proof -
  have "a_stopReason demo_answer = StopEnd" "tool_calls demo_answer = []"
    by (simp_all add: demo_answer_def demo_response_def tool_calls_def map_filter_def)
  then show ?thesis
    by (simp add: loop_turn_def demo_stream turn_end_def continue_loop_def apply_update_def queued_messages_def
        end_agent_def action_eval)
qed

lemma demo_run:
  "\<exists>s. runAgentLoop demo_env [demo_prompt] demo_context demo_config
       \<lparr>world = ([Pulled (SStart demo_answer), Pulled (SDone StopEnd demo_answer)], [demo_answer]), events = []\<rparr> =
     Some (Inr [demo_prompt, AssistantMsg demo_answer], s) \<and> length (events s) = 8"
  by (simp add: runAgentLoop_def runLoop_def queued_messages_def announce_message_def act_loop.simps demo_turn
      action_eval)

theorem agent_loop_event_protocol_witness:
  "\<exists>s :: (demo_world, agent_event) eff_state. length (events s) = 8 \<and> phase_of (events s) = Some Finished \<and>
     ended (events s) = [demo_prompt, AssistantMsg demo_answer] \<and>
     last (events s) = AgentEnd [demo_prompt, AssistantMsg demo_answer]"
proof -
  obtain s where s: "runAgentLoop demo_env [demo_prompt] demo_context demo_config
      \<lparr>world = ([Pulled (SStart demo_answer), Pulled (SDone StopEnd demo_answer)], [demo_answer]), events = []\<rparr> =
    Some (Inr [demo_prompt, AssistantMsg demo_answer], s)" "length (events s) = 8"
    using demo_run by blast
  then show ?thesis using agent_loop_event_protocol [OF s(1)] by auto
qed

end
