(* ===== verification/AgentGate.thy ===== *)
theory AgentGate
  imports AgentLoop
begin

text \<open>
  What the gate in front of a tool call of \<open>agent-loop.ts\<close> lets through: the classification of the
  tool cannot be waived by a hook, and an approval is bound to the call and its arguments.
\<close>

subsection \<open>What the gate lets through\<close>

text \<open>The embedder was asked about exactly this call and allowed it.\<close>

definition approved ::
  "'w loop_env \<Rightarrow> 'w agent_loop_config \<Rightarrow> tool_call \<Rightarrow> json \<Rightarrow> js_string \<Rightarrow> ('w, agent_event) eff_state \<Rightarrow> bool" where
  "approved env cfg tc args reason s \<longleftrightarrow>
     (\<exists>ask label payload w w'. cfg_onControlPlanePrompt cfg = Some ask \<and>
        ask \<lparr>cp_toolCallId = tc_id tc, cp_toolName = tc_name tc, cp_argsHash = computeArgsHash env args,
             cp_label = label, cp_payload = payload, cp_reason = reason\<rparr> w = (Inr CPAllow, w') \<and>
        last (events s) = ControlPlanePromptResolved (tc_id tc) (tc_name tc) (computeArgsHash env args)
          label (str ''allow'') None)"

definition gate_passed ::
  "'w loop_env \<Rightarrow> 'w agent_loop_config \<Rightarrow> 'w agent_tool \<Rightarrow> tool_call \<Rightarrow> json \<Rightarrow> ('w, agent_event) eff_state \<Rightarrow> bool" where
  "gate_passed env cfg tool tc args s \<longleftrightarrow>
     (\<exists>ptc. prepareToolCallArguments tool tc = Inr ptc \<and> at_validate tool ptc = Inr args) \<and>
     (case classify_call tool args of
        Inl msg \<Rightarrow> False
      | Inr c \<Rightarrow> (case c of ClassAllow \<Rightarrow> True | ClassBlock reason \<Rightarrow> False
                    | ClassPrompt reason \<Rightarrow> approved env cfg tc args reason s)) \<and>
     \<not> env_aborted env (world s)"

lemma wp_emit_env [wp_rules]:
  "wp (emit env e) Q s = Q (Inr ()) \<lparr>world = env_sink env e (world s), events = events s @ [e]\<rparr>"
  by (simp add: emit_def wp_emit)

lemma wp_ask_prompt:
  "wp (ask_prompt env cfg p) (\<lambda>r s'. (\<forall>x. r = Inr (Some x) \<longrightarrow> (\<exists>msg. x = refuse msg)) \<and>
     (r = Inr None \<longrightarrow> (case p of None \<Rightarrow> True
     | Some q \<Rightarrow> (\<exists>ask w w'. cfg_onControlPlanePrompt cfg = Some ask \<and> ask q w = (Inr CPAllow, w') \<and>
          last (events s') = ControlPlanePromptResolved (cp_toolCallId q) (cp_toolName q) (cp_argsHash q)
            (cp_label q) (str ''allow'') None)))) s"
  by (auto simp: ask_prompt_def wp_rules decision_type_def
      split: option.splits prod.splits sum.splits control_plane_decision.splits)

lemma wp_before_hook:
  "wp (before_hook env cfg bc) (\<lambda>r s'. \<forall>x. r = Inr (Inl x) \<longrightarrow> (\<exists>msg. x = refuse msg)) s"
  by (auto simp: before_hook_def wp_rules split: option.splits prod.splits sum.splits)

text \<open>The prompt that is asked keeps the binding fields of the call, whatever the hook supplies.\<close>

lemma effective_prompt_binding:
  assumes "synthesized_prompt env tc args (ClassPrompt reason) = p"
  shows "\<exists>label payload. effective_prompt env tc args p hook = Some
    \<lparr>cp_toolCallId = tc_id tc, cp_toolName = tc_name tc, cp_argsHash = computeArgsHash env args,
     cp_label = label, cp_payload = payload, cp_reason = reason\<rparr>"
  using assms by (auto simp: effective_prompt_def synthesized_prompt_def split: option.splits)

definition gate_post ::
  "'w loop_env \<Rightarrow> 'w agent_loop_config \<Rightarrow> 'w agent_tool \<Rightarrow> tool_call \<Rightarrow> 'w preparation thrown
     \<Rightarrow> ('w, agent_event) eff_state \<Rightarrow> bool" where
  "gate_post env cfg tool tc r s \<longleftrightarrow>
     (case r of Inr (Prepared tc' tool' args) \<Rightarrow> tc' = tc \<and> tool' = tool \<and> gate_passed env cfg tool tc args s
      | _ \<Rightarrow> True)"

lemma gate_post_simps [simp]:
  "gate_post env cfg tool tc (Inl msg) s" "gate_post env cfg tool tc (Inr (refuse msg)) s"
  by (simp_all add: gate_post_def refuse_def)

lemma wp_gate_ask:
  fixes s :: "('w, agent_event) eff_state"
  assumes "prepareToolCallArguments tool tc = Inr ptc" "at_validate tool ptc = Inr args"
    and c: "classify_call tool args = Inr c" "\<forall>reason. c \<noteq> ClassBlock reason"
  shows "wp (act_bind (ask_prompt env cfg (effective_prompt env tc args (synthesized_prompt env tc args c) hook))
      (\<lambda>denied. case denied of
         Some refusal \<Rightarrow> act_return refusal
       | None \<Rightarrow> act_bind (act_get (env_aborted env)) (\<lambda>aborted.
           act_return (if aborted then refuse (str ''Operation aborted'') else Prepared tc tool args))))
      (gate_post env cfg tool tc) s"
  unfolding wp_bind [of "ask_prompt _ _ _"]
proof (rule wp_mono [OF wp_ask_prompt], split sum.split, intro conjI allI impI)
  fix r and x :: "'w preparation option" and s' :: "('w, agent_event) eff_state"
  assume post: "(\<forall>x. r = Inr (Some x) \<longrightarrow> (\<exists>msg. x = refuse msg)) \<and> (r = Inr None \<longrightarrow>
      (case effective_prompt env tc args (synthesized_prompt env tc args c) hook of None \<Rightarrow> True
       | Some q \<Rightarrow> (\<exists>ask w w'. cfg_onControlPlanePrompt cfg = Some ask \<and> ask q w = (Inr CPAllow, w') \<and>
          last (events s') = ControlPlanePromptResolved (cp_toolCallId q) (cp_toolName q) (cp_argsHash q)
            (cp_label q) (str ''allow'') None)))"
    and r: "r = Inr x"
  have "approved env cfg tc args reason s'" if "c = ClassPrompt reason" "x = None" for reason
    using effective_prompt_binding [of env tc args reason, OF refl, of hook] post r that
    by (auto simp: approved_def) blast
  then have "gate_passed env cfg tool tc args s'" if "x = None" "\<not> env_aborted env (world s')"
    using assms that by (auto simp: gate_passed_def split: permission_classification.split)
  then show "wp (case x of
         Some refusal \<Rightarrow> act_return refusal
       | None \<Rightarrow> act_bind (act_get (env_aborted env)) (\<lambda>aborted.
           act_return (if aborted then refuse (str ''Operation aborted'') else Prepared tc tool args)))
      (gate_post env cfg tool tc) s'"
    using post r by (cases x) (auto simp: wp_bind wp_get wp_return gate_post_def [of _ _ _ _ "Inr (Prepared _ _ _)"])
qed simp

lemma wp_prepare_checked:
  "wp (prepare_checked env cfg ctx am tc tool) (gate_post env cfg tool tc) s"
proof -
  have hook: "wp (act_bind (before_hook env cfg bc) (\<lambda>hook. case hook of
         Inl refusal \<Rightarrow> act_return refusal
       | Inr hookPrompt \<Rightarrow>
           act_bind (ask_prompt env cfg (effective_prompt env tc args (synthesized_prompt env tc args c) hookPrompt))
             (\<lambda>denied. case denied of
                Some refusal \<Rightarrow> act_return refusal
              | None \<Rightarrow> act_bind (act_get (env_aborted env)) (\<lambda>aborted.
                  act_return (if aborted then refuse (str ''Operation aborted'') else Prepared tc tool args)))))
      (gate_post env cfg tool tc) s1"
    if "prepareToolCallArguments tool tc = Inr ptc" "at_validate tool ptc = Inr args"
      "classify_call tool args = Inr c" "\<forall>reason. c \<noteq> ClassBlock reason" for ptc args c bc s1
    unfolding wp_bind [of "before_hook _ _ _"]
    by (rule wp_mono [OF wp_before_hook])
      (use wp_gate_ask [OF that] in \<open>auto simp: wp_return split: sum.split\<close>)
  show ?thesis
    unfolding prepare_checked_def
    by (auto simp: wp_bind [of "act_lift _"] wp_lift wp_return intro!: hook
        split: sum.split permission_classification.split)
qed

lemma wp_prepareToolCall:
  "wp (prepareToolCall env cfg ctx am tc) (\<lambda>r s'. case find (\<lambda>t. at_name t = tc_name tc) (context_tools ctx) of
      None \<Rightarrow> \<exists>msg. r = Inr (refuse msg)
    | Some tool \<Rightarrow> gate_post env cfg tool tc r s') s"
  unfolding prepareToolCall_def
  by (auto simp: wp_return wp_catch intro: wp_mono [OF wp_prepare_checked] split: option.split sum.split)


definition gate_env :: "unit loop_env" where
  "gate_env = \<lparr>env_stream = (\<lambda>m l c k w. (Inr (), w)), env_next = (\<lambda>w. (PulledDone, w)),
     env_result = (\<lambda>w. (Inl [], w)), env_aborted = (\<lambda>w. False), env_now = (\<lambda>w. (None, w)),
     env_sha256 = (\<lambda>s. [171]), env_pick = (\<lambda>w. (0, w)), env_sink = (\<lambda>e w. w)\<rparr>"

definition gate_config :: "unit agent_loop_config" where
  "gate_config = \<lparr>cfg_model = \<lparr>mr_id = [], mr_api = [], mr_provider = []\<rparr>, cfg_reasoning = None, cfg_apiKey = None,
     cfg_convertToLlm = (\<lambda>ms w. (Inr [], w)), cfg_transformContext = None, cfg_getApiKey = None,
     cfg_shouldStopAfterTurn = None, cfg_prepareNextTurn = None, cfg_getSteeringMessages = None,
     cfg_getFollowUpMessages = None, cfg_toolExecution = None, cfg_beforeToolCall = None,
     cfg_afterToolCall = None, cfg_onControlPlanePrompt = Some (\<lambda>p w. (Inr CPAllow, w))\<rparr>"

definition gate_call :: tool_call where
  "gate_call = \<lparr>tc_id = str ''1'', tc_name = str ''t'', tc_arguments = JObj []\<rparr>"

definition gate_tool :: "unit agent_tool" where
  "gate_tool = \<lparr>at_name = str ''t'', at_executionMode = None, at_prepareArguments = None,
     at_validate = (\<lambda>tc. Inr (tc_arguments tc)),
     at_permissionClassification = Some (\<lambda>args. Inr (Some (ClassPrompt (str ''writes'')))),
     at_execute = (\<lambda>i tcid args w. (Threw [], w))\<rparr>"

definition gate_context :: "unit agent_context" where
  "gate_context = \<lparr>ac_systemPrompt = [], ac_messages = [], ac_tools = Some [gate_tool]\<rparr>"

lemma gate_prepare:
  "\<exists>s'. prepareToolCall gate_env gate_config gate_context am gate_call \<lparr>world = (), events = []\<rparr> =
     Some (Inr (Prepared gate_call gate_tool (JObj [])), s') \<and> length (events s') = 1"
  by (simp add: prepareToolCall_def prepare_checked_def prepareToolCallArguments_def classify_call_def
      before_hook_def ask_prompt_def effective_prompt_def synthesized_prompt_def context_tools_def
      gate_env_def gate_config_def gate_call_def gate_tool_def gate_context_def
      act_return_def act_bind_def act_then_def act_catch_def act_call_def act_get_def act_emit_def
      act_lift_def emit_def Let_def)


end
