(* ===== verification/AgentWalk.thy ===== *)
theory AgentWalk
  imports AgentGate
begin

text \<open>
  One traversal of the agent loop for all relations between the states before and after: what the
  calls out of the loop keep and every emitted event keeps, the whole loop keeps.
\<close>

text \<open>What a hook of the configuration may do to the world.\<close>

definition hook_keeps :: "(('w, 'e) eff_state \<Rightarrow> ('w, 'e) eff_state \<Rightarrow> bool) \<Rightarrow> ('x \<Rightarrow> 'w \<Rightarrow> 'a thrown \<times> 'w) option \<Rightarrow> bool" where
  "hook_keeps R h \<longleftrightarrow> (case h of None \<Rightarrow> True | Some f \<Rightarrow> \<forall>x. keeps R (act_call (f x)))"

definition queue_keeps :: "(('w, 'e) eff_state \<Rightarrow> ('w, 'e) eff_state \<Rightarrow> bool) \<Rightarrow> ('w \<Rightarrow> 'a thrown \<times> 'w) option \<Rightarrow> bool" where
  "queue_keeps R h \<longleftrightarrow> (case h of None \<Rightarrow> True | Some f \<Rightarrow> keeps R (act_call f))"

definition pure_call :: "('w \<Rightarrow> 'a \<times> 'w) \<Rightarrow> 'w \<Rightarrow> 'a thrown \<times> 'w" where
  "pure_call f w = apfst Inr (f w)"

definition env_keeps :: "(('w, agent_event) eff_state \<Rightarrow> ('w, agent_event) eff_state \<Rightarrow> bool) \<Rightarrow> 'w loop_env \<Rightarrow> bool" where
  "env_keeps R env \<longleftrightarrow>
     (\<forall>m l c k. keeps R (act_call (env_stream env m l c k))) \<and> keeps R (act_call (env_result env)) \<and>
     keeps R (act_call (pure_call (env_next env))) \<and> keeps R (act_call (pure_call (env_now env))) \<and>
     keeps R (act_call (pure_call (env_pick env))) \<and> (\<forall>e. keeps R (emit env e))"

definition tool_keeps :: "(('w, agent_event) eff_state \<Rightarrow> ('w, agent_event) eff_state \<Rightarrow> bool) \<Rightarrow> 'w agent_tool \<Rightarrow> bool" where
  "tool_keeps R t \<longleftrightarrow> (\<forall>i tcid args. keeps R (act_call (pure_call (at_execute t i tcid args))))"

definition context_keeps :: "(('w, agent_event) eff_state \<Rightarrow> ('w, agent_event) eff_state \<Rightarrow> bool) \<Rightarrow> 'w agent_context \<Rightarrow> bool" where
  "context_keeps R ctx \<longleftrightarrow> list_all (tool_keeps R) (context_tools ctx)"

definition update_keeps ::
  "(('w, agent_event) eff_state \<Rightarrow> ('w, agent_event) eff_state \<Rightarrow> bool) \<Rightarrow> 'w turn_update option \<Rightarrow> bool" where
  "update_keeps R u \<longleftrightarrow>
     (case u of None \<Rightarrow> True | Some t \<Rightarrow> (case tu_context t of None \<Rightarrow> True | Some c \<Rightarrow> context_keeps R c))"

definition config_keeps ::
  "(('w, agent_event) eff_state \<Rightarrow> ('w, agent_event) eff_state \<Rightarrow> bool) \<Rightarrow> 'w agent_loop_config \<Rightarrow> bool" where
  "config_keeps R cfg \<longleftrightarrow>
     (\<forall>ms. keeps R (act_call (cfg_convertToLlm cfg ms))) \<and> hook_keeps R (cfg_transformContext cfg) \<and>
     hook_keeps R (cfg_getApiKey cfg) \<and> hook_keeps R (cfg_shouldStopAfterTurn cfg) \<and>
     hook_keeps R (cfg_prepareNextTurn cfg) \<and> queue_keeps R (cfg_getSteeringMessages cfg) \<and>
     queue_keeps R (cfg_getFollowUpMessages cfg) \<and> hook_keeps R (cfg_beforeToolCall cfg) \<and>
     hook_keeps R (cfg_afterToolCall cfg) \<and> hook_keeps R (cfg_onControlPlanePrompt cfg) \<and>
     (case cfg_prepareNextTurn cfg of None \<Rightarrow> True
      | Some f \<Rightarrow> \<forall>tx w u. fst (f tx w) = Inr u \<longrightarrow> update_keeps R u)"

definition vars_keep :: "(('w, agent_event) eff_state \<Rightarrow> ('w, agent_event) eff_state \<Rightarrow> bool) \<Rightarrow> 'w loop_vars \<Rightarrow> bool" where
  "vars_keep R v \<longleftrightarrow> config_keeps R (lv_config v) \<and> context_keeps R (lv_context v)"

lemma pure_call_eq [simp]: "(\<lambda>w. apfst Inr (f w)) = pure_call f"
  by (simp add: fun_eq_iff pure_call_def)

lemma context_keeps_messages [simp]:
  "context_keeps R (ctx\<lparr>ac_messages := ms\<rparr>) = context_keeps R ctx"
  by (simp add: context_keeps_def context_tools_def)

lemma config_keeps_update [simp]:
  "config_keeps R (cfg\<lparr>cfg_model := m, cfg_reasoning := l\<rparr>) = config_keeps R cfg"
  "config_keeps R (cfg\<lparr>cfg_model := m\<rparr>) = config_keeps R cfg"
  "config_keeps R (cfg\<lparr>cfg_reasoning := l\<rparr>) = config_keeps R cfg"
  by (simp_all add: config_keeps_def)

text \<open>What an action returns satisfies P.\<close>

definition gives :: "('a \<Rightarrow> bool) \<Rightarrow> ('w, 'e, 'a) action \<Rightarrow> bool" where
  "gives P m \<longleftrightarrow> (\<forall>s. wp m (\<lambda>r s'. \<forall>x. r = Inr x \<longrightarrow> P x) s)"

lemma gives_basic:
  "P x \<Longrightarrow> gives P (act_return x)" "gives P (act_throw msg)"
  by (simp_all add: gives_def wp_rules)

lemma gives_call: "(\<And>w x. fst (f w) = Inr x \<Longrightarrow> P x) \<Longrightarrow> gives P (act_call f)"
  by (auto simp: gives_def wp_call split: prod.splits) (metis fst_conv)

lemma gives_any: "gives (\<lambda>x. True) m"
  by (auto simp: gives_def wp_def split: option.splits)

lemma gives_bind_post:
  assumes "gives P m" "\<And>x. P x \<Longrightarrow> gives Q (f x)"
  shows "gives Q (act_bind m f)"
  unfolding gives_def wp_bind
proof (rule allI, rule wp_mono)
  show "wp m (\<lambda>r s'. \<forall>x. r = Inr x \<longrightarrow> P x) s" for s using assms(1) by (simp add: gives_def)
qed (use assms(2) in \<open>auto simp: gives_def split: sum.splits\<close>)

lemma gives_bind: "(\<And>x. gives Q (f x)) \<Longrightarrow> gives Q (act_bind m f)"
  by (rule gives_bind_post [OF gives_any])

lemma gives_then: "gives Q n \<Longrightarrow> gives Q (act_then m n)"
  unfolding act_then_def by (rule gives_bind)

lemma gives_catch: "gives P m \<Longrightarrow> (\<And>msg. gives P (h msg)) \<Longrightarrow> gives P (act_catch m h)"
  unfolding gives_def wp_catch
  by (rule allI, rule wp_mono [of m "\<lambda>r s'. \<forall>x. r = Inr x \<longrightarrow> P x"]) (auto split: sum.splits)

lemmas gives_rules = gives_basic gives_bind gives_then gives_catch

context action_relation
begin

lemma keeps_bind_post:
  assumes "keeps R m" "gives P m" "\<And>x. P x \<Longrightarrow> keeps R (f x)"
  shows "keeps R (act_bind m f)"
  unfolding keeps_def wp_bind
proof (rule allI, rule wp_mono)
  show "wp m (\<lambda>r s'. R s s' \<and> (\<forall>x. r = Inr x \<longrightarrow> P x)) s" for s
    using assms(1,2) by (intro wp_conj) (simp_all add: keeps_def gives_def)
  show "case r of Inl msg \<Rightarrow> R s s' | Inr x \<Rightarrow> wp (f x) (\<lambda>r. R s) s'"
    if "R s s' \<and> (\<forall>x. r = Inr x \<longrightarrow> P x)" for r s s'
    using that assms(3) by (auto intro: wp_after split: sum.splits)
qed

lemma keeps_loop_post:
  assumes "I v" "\<And>v. I v \<Longrightarrow> keeps R (body v)"
    and "\<And>v. I v \<Longrightarrow> gives (\<lambda>x. case x of Inl v' \<Rightarrow> I v' | Inr r \<Rightarrow> True) (body v)"
  shows "keeps R (act_loop body v)"
  unfolding keeps_def
proof
  fix s
  show "wp (act_loop body v) (\<lambda>r s'. R s s') s"
  proof (rule wp_loop [where I = "\<lambda>v s'. I v \<and> R s s'"])
    show "I v \<and> R s s" using assms(1) by (simp add: R_refl)
    show "wp (body v') (\<lambda>r s''. case r of Inl msg \<Rightarrow> R s s''
        | Inr next \<Rightarrow> (case next of Inl v' \<Rightarrow> I v' \<and> R s s'' | Inr x \<Rightarrow> R s s'')) s'"
      if "I v' \<and> R s s'" for v' s'
      by (rule wp_mono [OF wp_conj [OF wp_after [OF assms(2)]
          assms(3) [unfolded gives_def, THEN spec]]]) (use that in \<open>auto split: sum.splits\<close>)
  qed
qed

end

text \<open>The parts of the loop, in the order of the theory \<open>AgentLoop\<close>.\<close>

locale loop_relation = action_relation R
  for R :: "('w, agent_event) eff_state \<Rightarrow> ('w, agent_event) eff_state \<Rightarrow> bool"
begin

lemma keeps_emit: "env_keeps R env \<Longrightarrow> keeps R (emit env e)"
  by (simp add: env_keeps_def)

lemma keeps_hook: "hook_keeps R h \<Longrightarrow> keeps R (case h of None \<Rightarrow> act_return y | Some f \<Rightarrow> act_call (f x))"
  by (auto simp: hook_keeps_def intro: keeps_basic split: option.splits)

lemma keeps_queue: "queue_keeps R h \<Longrightarrow> keeps R (queued_messages h)"
  by (auto simp: queue_keeps_def queued_messages_def intro: keeps_basic split: option.splits)

lemma keeps_before_hook: "config_keeps R cfg \<Longrightarrow> keeps R (before_hook env cfg bc)"
  by (auto simp: before_hook_def config_keeps_def hook_keeps_def intro!: keeps_rules split: option.splits)

lemma keeps_ask_prompt: "env_keeps R env \<Longrightarrow> config_keeps R cfg \<Longrightarrow> keeps R (ask_prompt env cfg p)"
  by (auto simp: ask_prompt_def config_keeps_def hook_keeps_def intro!: keeps_rules keeps_emit split: option.splits)

lemma keeps_prepareToolCall:
  assumes "env_keeps R env" "config_keeps R cfg"
  shows "keeps R (prepareToolCall env cfg ctx am tc)"
  unfolding prepareToolCall_def prepare_checked_def
  by (auto intro!: keeps_rules keeps_before_hook keeps_ask_prompt assms
      split: option.splits sum.splits permission_classification.splits)

lemma keeps_execute_step:
  assumes "env_keeps R env" "tool_keeps R tool"
  shows "keeps R (execute_step env i tc tool args)"
  using assms(2)
  by (auto simp: execute_step_def tool_keeps_def intro!: keeps_rules keeps_emit assms(1) split: tool_progress.splits)

lemma keeps_executePrepared:
  "env_keeps R env \<Longrightarrow> tool_keeps R tool \<Longrightarrow> keeps R (executePreparedToolCall env i tc tool args)"
  unfolding executePreparedToolCall_def by (intro keeps_loop keeps_execute_step)

lemma keeps_finalize: "config_keeps R cfg \<Longrightarrow> keeps R (finalizeExecutedToolCall cfg ctx am tc args res err)"
  by (auto simp: finalizeExecutedToolCall_def config_keeps_def hook_keeps_def intro!: keeps_rules split: option.splits)

lemma keeps_announce_result: "env_keeps R env \<Longrightarrow> keeps R (announce_result env f)"
  unfolding announce_result_def emitToolResultMessage_def Let_def
  by (auto intro!: keeps_rules keeps_emit simp: env_keeps_def)

lemma keeps_tool_end: "env_keeps R env \<Longrightarrow> keeps R (emitToolExecutionEnd env f)"
  by (simp add: emitToolExecutionEnd_def keeps_emit)

end

text \<open>A prepared call uses a tool of the context.\<close>

definition tool_known :: "'w agent_context \<Rightarrow> 'w preparation \<Rightarrow> bool" where
  "tool_known ctx p \<longleftrightarrow> (case p of Prepared tc tool args \<Rightarrow> tool \<in> set (context_tools ctx) | _ \<Rightarrow> True)"

lemma gives_tool_known: "gives (tool_known ctx) (prepareToolCall env cfg ctx am tc)"
  unfolding gives_def
proof (rule allI, rule wp_mono [OF wp_prepareToolCall])
  show "\<forall>x. r = Inr x \<longrightarrow> tool_known ctx x"
    if "case find (\<lambda>t. at_name t = tc_name tc) (context_tools ctx) of
      None \<Rightarrow> \<exists>msg. r = Inr (refuse msg) | Some tool \<Rightarrow> gate_post env cfg tool tc r s'" for r s'
    using that
    by (auto simp: tool_known_def gate_post_def refuse_def find_Some_iff split: option.splits preparation.splits)
qed

lemma context_tool_keeps: "context_keeps R ctx \<Longrightarrow> tool \<in> set (context_tools ctx) \<Longrightarrow> tool_keeps R tool"
  by (auto simp: context_keeps_def list_all_iff)

fun entry_keeps :: "(('w, agent_event) eff_state \<Rightarrow> ('w, agent_event) eff_state \<Rightarrow> bool) \<Rightarrow> 'w call_entry \<Rightarrow> bool" where
  "entry_keeps R (ERunning tc tool args) = tool_keeps R tool"
| "entry_keeps R _ = True"

context loop_relation
begin

lemma keeps_run_preparation:
  assumes "env_keeps R env" "config_keeps R cfg" "context_keeps R ctx" "tool_known ctx p"
  shows "keeps R (run_preparation env cfg ctx am i tc p)"
  using assms(4) context_tool_keeps [OF assms(3)]
  by (auto simp: run_preparation_def tool_known_def intro!: keeps_rules keeps_executePrepared keeps_finalize assms(1,2)
      split: preparation.splits)

lemma keeps_sequential:
  assumes "env_keeps R env" "config_keeps R cfg" "context_keeps R ctx"
  shows "keeps R (sequential_calls env cfg ctx am i tcs fins msgs)"
proof (induction tcs arbitrary: i fins msgs)
  case Nil
  then show ?case by (simp add: keeps_basic)
next
  case (Cons tc tcs)
  have "keeps R (if b then act_return x else sequential_calls env cfg ctx am j tcs fs ms)" for b x j fs ms
    using Cons.IH by (simp add: keeps_basic)
  then show ?case
    unfolding sequential_calls.simps
    by (intro keeps_then keeps_bind_post [OF _ gives_tool_known [where ctx = ctx]] keeps_bind keeps_basic
        keeps_emit keeps_tool_end keeps_prepareToolCall keeps_run_preparation keeps_announce_result assms)
qed

lemma keeps_advance_entry:
  assumes "env_keeps R env" "config_keeps R cfg" "entry_keeps R e"
  shows "keeps R (advance_entry env cfg ctx am i e)"
  using assms
  by (cases e) (auto simp: advance_entry_def intro!: keeps_rules keeps_execute_step keeps_finalize keeps_tool_end)

lemma keeps_parallel_step:
  assumes "env_keeps R env" "config_keeps R cfg" "list_all (entry_keeps R) es"
  shows "keeps R (parallel_step env cfg ctx am es)"
proof (cases "unfinished es = []")
  case False
  have "keeps R (advance_entry env cfg ctx am (unfinished es ! (n mod length (unfinished es)))
      (es ! (unfinished es ! (n mod length (unfinished es)))))" for n
  proof (rule keeps_advance_entry [OF assms(1,2)])
    have "unfinished es ! (n mod length (unfinished es)) \<in> set (unfinished es)" using False by simp
    then have "unfinished es ! (n mod length (unfinished es)) < length es" by (auto simp: unfinished_def)
    then show "entry_keeps R (es ! (unfinished es ! (n mod length (unfinished es))))"
      using assms(3) by (simp add: list_all_length)
  qed
  then show ?thesis
    using False assms(1) by (auto simp: parallel_step_def Let_def env_keeps_def intro!: keeps_rules)
qed (simp add: parallel_step_def keeps_basic)

lemma keeps_parallel_loop:
  assumes "env_keeps R env" "config_keeps R cfg" "list_all (entry_keeps R) es"
  shows "keeps R (act_loop (parallel_step env cfg ctx am) es)"
proof (rule keeps_loop_post [where I = "list_all (entry_keeps R)"])
  fix es :: "'w call_entry list"
  assume es: "list_all (entry_keeps R) es"
  then show "keeps R (parallel_step env cfg ctx am es)" by (rule keeps_parallel_step [OF assms(1,2)])
  have entry: "gives (entry_keeps R) (advance_entry env cfg ctx am i e)" if "entry_keeps R e" for i e
    using that by (cases e) (auto simp: advance_entry_def intro!: gives_rules split: sum.splits prod.splits)
  have upd: "list_all (entry_keeps R) (es[i := e])" if "entry_keeps R e" for i e
    using es that by (metis list_all_iff set_update_subset_insert insertE subsetD)
  have e: "entry_keeps R (es ! (unfinished es ! (n mod length (unfinished es))))" if "unfinished es \<noteq> []" for n
  proof -
    have "unfinished es ! (n mod length (unfinished es)) \<in> set (unfinished es)" using that by simp
    then show ?thesis using es by (auto simp: unfinished_def list_all_length)
  qed
  show "gives (\<lambda>x. case x of Inl es' \<Rightarrow> list_all (entry_keeps R) es' | Inr r \<Rightarrow> True) (parallel_step env cfg ctx am es)"
  proof (cases "unfinished es = []")
    case False
    then show ?thesis
      unfolding parallel_step_def if_not_P [OF False] Let_def
      by (intro gives_bind gives_bind_post [OF entry [OF e [OF False]]] gives_basic) (simp add: upd)
  qed (simp add: parallel_step_def gives_basic)
qed (rule assms(3))

lemma keeps_parallel_prepare:
  assumes "env_keeps R env" "config_keeps R cfg"
  shows "keeps R (parallel_prepare env cfg ctx am tcs es)"
proof (induction tcs arbitrary: es)
  case Nil
  then show ?case by (simp add: keeps_basic)
next
  case (Cons tc tcs)
  then show ?case
    by (auto intro!: keeps_rules keeps_emit keeps_tool_end keeps_prepareToolCall assms
        simp: Let_def split: preparation.splits)
qed

lemma parallel_prepare_entries_keep:
  assumes "context_keeps R ctx" "list_all (entry_keeps R) es"
  shows "gives (list_all (entry_keeps R)) (parallel_prepare env cfg ctx am tcs es)"
  using assms(2)
proof (induction tcs arbitrary: es)
  case Nil
  then show ?case by (simp add: gives_basic)
next
  case (Cons tc tcs)
  have rest: "gives (list_all (entry_keeps R)) (act_bind (act_get (env_aborted env)) (\<lambda>aborted.
      if aborted then act_return (es @ [e]) else parallel_prepare env cfg ctx am tcs (es @ [e])))"
    if "entry_keeps R e" for e
    using that Cons by (auto intro!: gives_bind gives_basic)
  show ?case
    unfolding parallel_prepare.simps
    by (rule gives_then, rule gives_bind_post [OF gives_tool_known [where ctx = ctx]],
        rule gives_bind_post [where P = "entry_keeps R"])
      (auto intro!: gives_basic gives_then rest simp: Let_def tool_known_def context_tool_keeps [OF assms(1)]
        split: preparation.splits)
qed

lemma keeps_executeToolCalls:
  assumes "env_keeps R env" "config_keeps R cfg" "context_keeps R ctx"
  shows "keeps R (executeToolCalls env cfg ctx am)"
proof -
  have announce: "keeps R (announce_all env fs ms)" for fs ms
    by (induction fs arbitrary: ms) (auto intro: keeps_basic keeps_bind keeps_announce_result assms)
  have "keeps R (executeToolCallsSequential env cfg ctx am tcs)" for tcs
    unfolding executeToolCallsSequential_def by (auto intro!: keeps_rules keeps_sequential assms)
  moreover have "keeps R (executeToolCallsParallel env cfg ctx am tcs)" for tcs
    unfolding executeToolCallsParallel_def
    by (rule keeps_bind_post [OF keeps_parallel_prepare [OF assms(1,2)] parallel_prepare_entries_keep [OF assms(3)]])
      (simp, intro keeps_bind keeps_parallel_loop announce keeps_basic assms, assumption)
  ultimately show ?thesis by (simp add: executeToolCalls_def Let_def)
qed

lemma keeps_finish_response: "env_keeps R env \<Longrightarrow> keeps R (finish_response env added msgs)"
  by (auto simp: finish_response_def env_keeps_def intro!: keeps_rules)

lemma keeps_stream_step:
  assumes "env_keeps R env"
  shows "keeps R (stream_step env v)"
  using assms
  by (auto simp: stream_step_def env_keeps_def intro!: keeps_rules keeps_emit keeps_finish_response
      split: prod.split stream_pull.split stream_event.split)

lemma keeps_streamAssistantResponse:
  assumes "env_keeps R env" "config_keeps R cfg"
  shows "keeps R (streamAssistantResponse env cfg ctx)"
  unfolding streamAssistantResponse_def
  using assms
  by (auto simp: config_keeps_def env_keeps_def
      intro!: keeps_rules keeps_hook keeps_stream_step [OF assms(1)])

text \<open>Turns; the context may be replaced between turns, by one whose tools keep the relation.\<close>

end

definition next_keeps :: "(('w, agent_event) eff_state \<Rightarrow> ('w, agent_event) eff_state \<Rightarrow> bool) \<Rightarrow> 'w loop_vars + 'r \<Rightarrow> bool" where
  "next_keeps R x \<longleftrightarrow> (case x of Inl v \<Rightarrow> vars_keep R v | Inr r \<Rightarrow> True)"

lemma apply_update_keeps:
  assumes "update_keeps R u" "context_keeps R ctx" "config_keeps R cfg" "apply_update u ctx cfg = (ctx', cfg')"
  shows "context_keeps R ctx'" "config_keeps R cfg'"
  using assms by (auto simp: apply_update_def update_keeps_def split: option.splits)

lemma gives_prepared_update:
  assumes "config_keeps R cfg"
  shows "gives (update_keeps R) (case cfg_prepareNextTurn cfg of None \<Rightarrow> act_return None | Some f \<Rightarrow> act_call (f tx))"
  using assms
  by (auto simp: config_keeps_def update_keeps_def intro!: gives_basic gives_call split: option.split)

context loop_relation
begin

lemma keeps_end_agent: "env_keeps R env \<Longrightarrow> keeps R (end_agent env ms)"
  unfolding end_agent_def by (intro keeps_then keeps_emit keeps_basic)

lemma continue_loop_keeps:
  assumes "env_keeps R env" "config_keeps R cfg" "context_keeps R (tx_context tx)"
  shows "keeps R (continue_loop env tx cfg) \<and> gives (next_keeps R) (continue_loop env tx cfg)"
proof -
  define rest where "rest = (\<lambda>u. let (ctx', cfg') = apply_update u (tx_context tx) cfg;
         continues = (a_stopReason (tx_message tx) = StopToolUse)
     in act_bind (queued_messages (cfg_getSteeringMessages cfg')) (\<lambda>steering.
        act_bind (if \<not> continues \<and> steering = [] then queued_messages (cfg_getFollowUpMessages cfg')
                  else act_return steering) (\<lambda>queued.
          if queued = [] \<and> \<not> continues then end_agent env (tx_newMessages tx)
          else act_return (Inl \<lparr>lv_context = ctx', lv_config = cfg', lv_firstTurn = False,
                                lv_pending = queued, lv_newMessages = tx_newMessages tx\<rparr>))))"
  have eq: "continue_loop env tx cfg = act_bind (case cfg_prepareNextTurn cfg of
      None \<Rightarrow> act_return None | Some f \<Rightarrow> act_call (f tx)) rest"
    by (simp only: continue_loop_def rest_def)
  have rest: "keeps R (rest u) \<and> gives (next_keeps R) (rest u)" if u: "update_keeps R u" for u
  proof -
    obtain ctx' cfg' where e: "apply_update u (tx_context tx) cfg = (ctx', cfg')" by fastforce
    note keep = apply_update_keeps [OF u assms(3,2) e]
    then have "keeps R (queued_messages (cfg_getSteeringMessages cfg'))"
        "keeps R (queued_messages (cfg_getFollowUpMessages cfg'))"
      by (auto simp: config_keeps_def intro: keeps_queue)
    then show ?thesis
      using keep
      by (auto simp: rest_def e Let_def end_agent_def next_keeps_def vars_keep_def
          intro!: keeps_bind keeps_basic keeps_then keeps_emit assms(1) gives_rules)
  qed
  have "keeps R (case cfg_prepareNextTurn cfg of None \<Rightarrow> act_return None | Some f \<Rightarrow> act_call (f tx))"
    using assms(2) by (intro keeps_hook) (simp add: config_keeps_def)
  then show ?thesis
    unfolding eq using rest
    by (auto intro: keeps_bind_post [OF _ gives_prepared_update [OF assms(2)]]
        gives_bind_post [OF gives_prepared_update [OF assms(2)]])
qed

lemma turn_end_keeps:
  assumes "env_keeps R env" "config_keeps R cfg" "context_keeps R ctx"
  shows "keeps R (turn_end env cfg ctx new m rs t) \<and> gives (next_keeps R) (turn_end env cfg ctx new m rs t)"
proof -
  have hook: "keeps R (case cfg_shouldStopAfterTurn cfg of None \<Rightarrow> act_return False | Some f \<Rightarrow> act_call (f tx))" for tx
    using assms(2) by (intro keeps_hook) (simp add: config_keeps_def)
  have "keeps R (end_agent env ms) \<and> gives (next_keeps R) (end_agent env ms)" for ms
    by (auto simp: end_agent_def next_keeps_def intro!: keeps_then keeps_emit keeps_basic gives_rules assms(1))
  then show ?thesis
    unfolding turn_end_def Let_def
    using continue_loop_keeps [OF assms(1,2)] assms(3)
    by (auto intro!: keeps_then keeps_bind keeps_emit hook gives_then gives_bind assms(1))
qed

lemma loop_turn_keeps:
  assumes "env_keeps R env" "vars_keep R v"
  shows "keeps R (loop_turn env v) \<and> gives (next_keeps R) (loop_turn env v)"
proof -
  let ?ctx = "(lv_context v)\<lparr>ac_messages := ac_messages (lv_context v) @ lv_pending v\<rparr>"
  have cfg: "config_keeps R (lv_config v)" and ctx: "context_keeps R ?ctx"
    using assms(2) by (simp_all add: vars_keep_def)
  define rest where "rest = (\<lambda>(m, ctx1). if a_stopReason m = StopError \<or> a_stopReason m = StopAborted
      then act_then (emit env (TurnEnd (AssistantMsg m) [])) (end_agent env ((lv_newMessages v @ lv_pending v) @ [AssistantMsg m]))
      else act_bind (if tool_calls m = [] then act_return ([], False) else executeToolCalls env (lv_config v) ctx1 m)
        (\<lambda>(toolResults, allTerminate).
           turn_end env (lv_config v) ctx1 ((lv_newMessages v @ lv_pending v) @ [AssistantMsg m]) m toolResults allTerminate))"
  have turn: "loop_turn env v = act_then (if lv_firstTurn v then act_return () else emit env TurnStart)
      (act_then (act_each (announce_message env) (lv_pending v))
        (act_bind (streamAssistantResponse env (lv_config v) ?ctx) rest))"
    by (simp only: loop_turn_def Let_def rest_def)
  have rest: "keeps R (rest mc) \<and> gives (next_keeps R) (rest mc)" if "context_keeps R (snd mc)" for mc
    using that turn_end_keeps [OF assms(1) cfg, of "snd mc"]
    by (auto simp: rest_def end_agent_def next_keeps_def split: prod.split
        intro!: keeps_then keeps_bind keeps_emit keeps_basic keeps_executeToolCalls assms(1) cfg gives_rules)
  have response: "gives (\<lambda>mc. context_keeps R (snd mc)) (streamAssistantResponse env (lv_config v) ?ctx)"
    unfolding streamAssistantResponse_def using ctx by (auto intro!: gives_bind gives_then gives_basic)
  have start: "keeps R (if lv_firstTurn v then act_return () else emit env TurnStart)"
    by (simp add: keeps_basic keeps_emit assms(1))
  have announce: "keeps R (act_each (announce_message env) ms)" for ms
    unfolding announce_message_def by (intro keeps_each keeps_then keeps_emit assms(1))
  show ?thesis
    unfolding turn
    by (intro conjI keeps_then gives_then start announce
        keeps_bind_post [OF keeps_streamAssistantResponse [OF assms(1) cfg] response]
        gives_bind_post [OF response] conjunct1 [OF rest] conjunct2 [OF rest])
qed

lemma keeps_runLoop:
  assumes "env_keeps R env" "config_keeps R cfg" "context_keeps R ctx"
  shows "keeps R (runLoop env cfg ctx new)"
  unfolding runLoop_def
proof (rule keeps_bind)
  show "keeps R (queued_messages (cfg_getSteeringMessages cfg))"
    using assms(2) by (intro keeps_queue) (simp add: config_keeps_def)
  show "keeps R (act_loop (loop_turn env) \<lparr>lv_context = ctx, lv_config = cfg, lv_firstTurn = True,
      lv_pending = pending, lv_newMessages = new\<rparr>)" for pending
  proof (rule keeps_loop_post [where I = "vars_keep R"])
    show "gives (\<lambda>x. case x of Inl v \<Rightarrow> vars_keep R v | Inr r \<Rightarrow> True) (loop_turn env v)" if "vars_keep R v" for v
      using loop_turn_keeps [OF assms(1) that] by (simp add: next_keeps_def [abs_def])
  qed (use assms loop_turn_keeps [OF assms(1)] in \<open>auto simp: vars_keep_def\<close>)
qed

lemma keeps_runAgentLoop:
  assumes "env_keeps R env" "config_keeps R cfg" "context_keeps R ctx"
  shows "keeps R (runAgentLoop env prompts ctx cfg)"
  unfolding runAgentLoop_def announce_message_def
  by (intro keeps_then keeps_each keeps_emit keeps_runLoop) (simp_all add: assms)

lemma keeps_runAgentLoopContinue:
  assumes "env_keeps R env" "config_keeps R cfg" "context_keeps R ctx"
  shows "keeps R (runAgentLoopContinue env ctx cfg)"
  by (auto simp: runAgentLoopContinue_def intro!: keeps_then keeps_emit keeps_runLoop keeps_basic assms)

end

end
