(* ===== verification/AgentReturns.thy ===== *)
theory AgentReturns
  imports AgentLoopProps AgentWalk
begin

text \<open>
  Termination of the agent loop.  The world carries a budget: a number that every pull of the
  provider's stream and every update of a running tool lowers, and that nothing else raises.  With
  such a budget every loop of the agent returns.
\<close>

subsection \<open>Actions that return and do not raise the budget\<close>

definition spends :: "('w \<Rightarrow> nat) \<Rightarrow> ('w, 'e) eff_state \<Rightarrow> ('w, 'e) eff_state \<Rightarrow> bool" where
  "spends \<mu> s s' \<longleftrightarrow> \<mu> (world s') \<le> \<mu> (world s)"

interpretation sp: action_relation "spends \<mu>" for \<mu> :: "'w \<Rightarrow> nat"
  by unfold_locales (auto simp: spends_def)

definition calm :: "('w \<Rightarrow> nat) \<Rightarrow> ('w \<Rightarrow> 'a \<times> 'w) \<Rightarrow> bool" where
  "calm \<mu> f \<longleftrightarrow> (\<forall>w. \<mu> (snd (f w)) \<le> \<mu> w)"

definition settles :: "('w \<Rightarrow> nat) \<Rightarrow> ('w, 'e, 'a) action \<Rightarrow> bool" where
  "settles \<mu> m \<longleftrightarrow> keeps (spends \<mu>) m \<and> (\<forall>s. returns m s)"

lemma settles_basic:
  "settles \<mu> (act_return x)" "settles \<mu> (act_throw msg)" "settles \<mu> (act_get g)" "settles \<mu> (act_lift r)"
  by (simp_all add: settles_def sp.keeps_basic)

lemma settles_call: "calm \<mu> f \<Longrightarrow> settles \<mu> (act_call f)"
  by (auto simp: settles_def keeps_def wp_call spends_def calm_def split: prod.splits) (metis snd_conv)

lemma settles_bind_post:
  assumes "settles \<mu> m" "gives P m" "\<And>x. P x \<Longrightarrow> settles \<mu> (f x)"
  shows "settles \<mu> (act_bind m f)"
  unfolding settles_def
proof (intro conjI allI)
  show "returns (act_bind m f) s" for s
  proof (rule returns_bind)
    show "returns m s" using assms(1) by (simp add: settles_def)
    show "wp m (\<lambda>r s'. case r of Inl _ \<Rightarrow> True | Inr x \<Rightarrow> returns (f x) s') s"
      by (rule wp_mono [of m "\<lambda>r s'. \<forall>x. r = Inr x \<longrightarrow> P x"])
        (use assms(2,3) in \<open>auto simp: gives_def settles_def split: sum.splits\<close>)
  qed
  show "keeps (spends \<mu>) (act_bind m f)"
    unfolding keeps_def wp_bind
  proof (rule allI, rule wp_mono)
    show "wp m (\<lambda>r s'. spends \<mu> s s' \<and> (\<forall>x. r = Inr x \<longrightarrow> P x)) s" for s
      using assms(1,2) by (intro wp_conj) (simp_all add: settles_def keeps_def gives_def)
    show "case r of Inl msg \<Rightarrow> spends \<mu> s s' | Inr x \<Rightarrow> wp (f x) (\<lambda>r. spends \<mu> s) s'"
      if "spends \<mu> s s' \<and> (\<forall>x. r = Inr x \<longrightarrow> P x)" for r s s'
      using that assms(3) by (auto simp: settles_def intro: sp.wp_after split: sum.splits)
  qed
qed

lemma settles_bind: "settles \<mu> m \<Longrightarrow> (\<And>x. settles \<mu> (f x)) \<Longrightarrow> settles \<mu> (act_bind m f)"
  by (rule settles_bind_post [OF _ gives_any])

lemma settles_then: "settles \<mu> m \<Longrightarrow> settles \<mu> n \<Longrightarrow> settles \<mu> (act_then m n)"
  unfolding act_then_def by (rule settles_bind)

lemma settles_catch: "settles \<mu> m \<Longrightarrow> (\<And>msg. settles \<mu> (h msg)) \<Longrightarrow> settles \<mu> (act_catch m h)"
  unfolding settles_def
  by (auto intro!: sp.keeps_catch returns_catch) (auto simp: wp_def split: option.splits sum.splits)

lemma settles_each: "(\<And>x. settles \<mu> (f x)) \<Longrightarrow> settles \<mu> (act_each f xs)"
  by (induction xs) (auto intro: settles_basic settles_then)

text \<open>A loop settles when each round that goes on lowers the budget plus a measure of its variables.\<close>

lemma settles_loop:
  fixes body :: "'v \<Rightarrow> ('w, 'e, 'v + 'r) action"
  assumes "I v" "\<And>v. I v \<Longrightarrow> settles \<mu> (body v)"
    and step: "\<And>v s. I v \<Longrightarrow> wp (body v) (\<lambda>r s'. \<forall>v'. r = Inr (Inl v') \<longrightarrow>
        I v' \<and> \<mu> (world s') + N v' < \<mu> (world s) + N v) s"
  shows "settles \<mu> (act_loop body v)"
  unfolding settles_def
proof (intro conjI allI)
  show "returns (act_loop body v) s" for s
    by (rule loop_returns [where I = "\<lambda>v s. I v" and M = "\<lambda>v s. \<mu> (world s) + N v"])
      (use assms in \<open>auto simp: settles_def intro!: wp_mono [OF step] split: sum.splits\<close>)
  show "keeps (spends \<mu>) (act_loop body v)"
    unfolding keeps_def
  proof (rule allI, rule wp_loop [where I = "\<lambda>v s'. I v \<and> spends \<mu> s s'" for s])
    show "I v \<and> spends \<mu> s s" for s using assms(1) by (simp add: sp.R_refl)
    fix v' and s s' :: "('w, 'e) eff_state"
    assume I: "I v' \<and> spends \<mu> s s'"
    have "wp (body v') (\<lambda>r s''. spends \<mu> s s'' \<and> (\<forall>v'. r = Inr (Inl v') \<longrightarrow> I v')) s'"
      by (intro wp_conj sp.wp_after) (use I assms(2) in \<open>auto simp: settles_def intro!: wp_mono [OF step]\<close>)
    then show "wp (body v') (\<lambda>r s''. case r of Inl msg \<Rightarrow> spends \<mu> s s''
        | Inr next \<Rightarrow> (case next of Inl v' \<Rightarrow> I v' \<and> spends \<mu> s s'' | Inr x \<Rightarrow> spends \<mu> s s'')) s'"
      by (rule wp_mono) (auto split: sum.splits)
  qed
qed

lemmas settles_rules = settles_basic settles_call settles_bind settles_then settles_catch settles_each

lemma wp_spent: "settles \<mu> m \<Longrightarrow> \<mu> (world s) < k \<Longrightarrow> wp m (\<lambda>r s'. \<mu> (world s') < k) s"
  by (rule wp_mono [of m "\<lambda>r s'. spends \<mu> s s'"]) (auto simp: settles_def keeps_def spends_def)

subsection \<open>The budget of the outside world\<close>

definition calm_hook :: "('w \<Rightarrow> nat) \<Rightarrow> ('x \<Rightarrow> 'w \<Rightarrow> 'a \<times> 'w) option \<Rightarrow> bool" where
  "calm_hook \<mu> h \<longleftrightarrow> (case h of None \<Rightarrow> True | Some f \<Rightarrow> \<forall>x. calm \<mu> (f x))"

definition calm_queue :: "('w \<Rightarrow> nat) \<Rightarrow> ('w \<Rightarrow> 'a \<times> 'w) option \<Rightarrow> bool" where
  "calm_queue \<mu> h \<longleftrightarrow> (case h of None \<Rightarrow> True | Some f \<Rightarrow> calm \<mu> f)"

definition finite_env :: "('w \<Rightarrow> nat) \<Rightarrow> 'w loop_env \<Rightarrow> bool" where
  "finite_env \<mu> env \<longleftrightarrow>
     (\<forall>m l c k. calm \<mu> (env_stream env m l c k)) \<and> calm \<mu> (env_result env) \<and> calm \<mu> (env_now env) \<and>
     calm \<mu> (env_pick env) \<and> (\<forall>e w. \<mu> (env_sink env e w) \<le> \<mu> w) \<and>
     (\<forall>w. case env_next env w of (p, w') \<Rightarrow>
        (case p of Pulled e \<Rightarrow> \<mu> w' < \<mu> w | PulledDone \<Rightarrow> \<mu> w' < \<mu> w | _ \<Rightarrow> \<mu> w' \<le> \<mu> w))"

definition finite_tool :: "('w \<Rightarrow> nat) \<Rightarrow> 'w agent_tool \<Rightarrow> bool" where
  "finite_tool \<mu> t \<longleftrightarrow>
     (\<forall>i tcid args w. case at_execute t i tcid args w of (p, w') \<Rightarrow>
        (case p of Progress r \<Rightarrow> \<mu> w' < \<mu> w | _ \<Rightarrow> \<mu> w' \<le> \<mu> w))"

definition finite_context :: "('w \<Rightarrow> nat) \<Rightarrow> 'w agent_context \<Rightarrow> bool" where
  "finite_context \<mu> ctx \<longleftrightarrow> list_all (finite_tool \<mu>) (context_tools ctx)"

text \<open>A next turn may bring other tools, but only such.\<close>

definition finite_update :: "('w \<Rightarrow> nat) \<Rightarrow> 'w turn_update option \<Rightarrow> bool" where
  "finite_update \<mu> u \<longleftrightarrow>
     (case u of None \<Rightarrow> True | Some t \<Rightarrow> (case tu_context t of None \<Rightarrow> True | Some c \<Rightarrow> finite_context \<mu> c))"

definition calm_config :: "('w \<Rightarrow> nat) \<Rightarrow> 'w agent_loop_config \<Rightarrow> bool" where
  "calm_config \<mu> cfg \<longleftrightarrow>
     (\<forall>ms. calm \<mu> (cfg_convertToLlm cfg ms)) \<and> calm_hook \<mu> (cfg_transformContext cfg) \<and>
     calm_hook \<mu> (cfg_getApiKey cfg) \<and> calm_hook \<mu> (cfg_shouldStopAfterTurn cfg) \<and>
     calm_hook \<mu> (cfg_prepareNextTurn cfg) \<and> calm_queue \<mu> (cfg_getSteeringMessages cfg) \<and>
     calm_queue \<mu> (cfg_getFollowUpMessages cfg) \<and> calm_hook \<mu> (cfg_beforeToolCall cfg) \<and>
     calm_hook \<mu> (cfg_afterToolCall cfg) \<and> calm_hook \<mu> (cfg_onControlPlanePrompt cfg) \<and>
     (case cfg_prepareNextTurn cfg of None \<Rightarrow> True
      | Some f \<Rightarrow> \<forall>tx w u. fst (f tx w) = Inr u \<longrightarrow> finite_update \<mu> u)"

lemma calm_pure: "calm \<mu> f \<Longrightarrow> calm \<mu> (pure_call f)"
  by (simp add: calm_def pure_call_def)

lemma settles_hook: "calm_hook \<mu> h \<Longrightarrow> settles \<mu> (case h of None \<Rightarrow> act_return y | Some f \<Rightarrow> act_call (f x))"
  by (auto simp: calm_hook_def intro!: settles_basic settles_call split: option.splits)

lemma settles_queue: "calm_queue \<mu> h \<Longrightarrow> settles \<mu> (queued_messages h)"
  by (auto simp: calm_queue_def queued_messages_def intro!: settles_basic settles_call split: option.splits)

lemma settles_emit: "finite_env \<mu> env \<Longrightarrow> settles \<mu> (emit env e)"
  by (simp add: settles_def keeps_def wp_emit_phase spends_def finite_env_def)
    (auto simp: emit_def)

lemma settles_before_hook:
  assumes "calm_config \<mu> cfg"
  shows "settles \<mu> (before_hook env cfg bc)"
  using assms
  by (auto simp: before_hook_def calm_config_def calm_hook_def intro!: settles_rules split: option.splits)

lemma settles_ask_prompt:
  assumes "finite_env \<mu> env" "calm_config \<mu> cfg"
  shows "settles \<mu> (ask_prompt env cfg p)"
  using assms
  by (auto simp: ask_prompt_def calm_config_def calm_hook_def intro!: settles_rules settles_emit
      split: option.splits)

lemma settles_prepareToolCall:
  assumes "finite_env \<mu> env" "calm_config \<mu> cfg"
  shows "settles \<mu> (prepareToolCall env cfg ctx am tc)"
  unfolding prepareToolCall_def prepare_checked_def
  by (auto intro!: settles_rules settles_before_hook settles_ask_prompt assms
      split: option.splits sum.splits permission_classification.splits)

lemma settles_execute_step:
  assumes "finite_env \<mu> env" "finite_tool \<mu> tool"
  shows "settles \<mu> (execute_step env i tc tool args)"
proof -
  have "case at_execute tool i (tc_id tc) args w of (p, w') \<Rightarrow>
      (case p of Progress r \<Rightarrow> \<mu> w' < \<mu> w | _ \<Rightarrow> \<mu> w' \<le> \<mu> w)" for w
    using assms(2) by (simp add: finite_tool_def)
  then have "\<mu> (snd (at_execute tool i (tc_id tc) args w)) \<le> \<mu> w" for w
    by (cases "at_execute tool i (tc_id tc) args w"; cases "fst (at_execute tool i (tc_id tc) args w)")
      (metis (no_types, lifting) case_prod_conv fst_conv less_imp_le snd_conv tool_progress.case)+
  then have "calm \<mu> (at_execute tool i (tc_id tc) args)" by (simp add: calm_def)
  then show ?thesis
    unfolding execute_step_def
    by (auto intro!: settles_rules calm_pure settles_emit assms(1) split: tool_progress.splits)
qed

lemma execute_step_progress:
  assumes "finite_env \<mu> env" "finite_tool \<mu> tool"
  shows "wp (execute_step env i tc tool args) (\<lambda>r s'. \<forall>u. r = Inr (Inl u) \<longrightarrow> \<mu> (world s') < \<mu> (world s)) s"
proof -
  have sink: "\<mu> (env_sink env e w) \<le> \<mu> w" for e w using assms(1) by (simp add: finite_env_def)
  have "\<mu> w' < \<mu> w" if "at_execute tool i (tc_id tc) args w = (Progress p, w')" for w w' p
    using assms(2) that by (force simp: finite_tool_def split: prod.splits)
  then show ?thesis
    by (auto simp: execute_step_def wp_rules pure_call_def apfst_def map_prod_def intro: le_less_trans [OF sink]
        split: tool_progress.splits prod.splits)
qed

lemma settles_executePrepared:
  assumes "finite_env \<mu> env" "finite_tool \<mu> tool"
  shows "settles \<mu> (executePreparedToolCall env i tc tool args)"
  unfolding executePreparedToolCall_def
  by (rule settles_loop [where I = "\<lambda>_. True" and N = "\<lambda>_. 0"])
    (auto intro: settles_execute_step [OF assms] wp_mono [OF execute_step_progress [OF assms]])

lemma settles_finalize: "calm_config \<mu> cfg \<Longrightarrow> settles \<mu> (finalizeExecutedToolCall cfg ctx am tc args res err)"
  by (auto simp: finalizeExecutedToolCall_def calm_config_def calm_hook_def intro!: settles_rules
      split: option.splits)

lemma settles_announce_result: "finite_env \<mu> env \<Longrightarrow> settles \<mu> (announce_result env f)"
  unfolding announce_result_def emitToolResultMessage_def Let_def
  by (auto intro!: settles_rules settles_emit calm_pure simp: finite_env_def)

subsection \<open>Batches\<close>

lemma context_tool: "finite_context \<mu> ctx \<Longrightarrow> tool \<in> set (context_tools ctx) \<Longrightarrow> finite_tool \<mu> tool"
  by (auto simp: finite_context_def list_all_iff)

lemma settles_run_preparation:
  assumes "finite_env \<mu> env" "calm_config \<mu> cfg" "finite_context \<mu> ctx"
    and "tool_known ctx p"
  shows "settles \<mu> (run_preparation env cfg ctx am i tc p)"
  using assms(4) context_tool [OF assms(3)]
  by (auto simp: run_preparation_def tool_known_def intro!: settles_rules settles_executePrepared settles_finalize assms(1,2)
      split: preparation.splits)

lemma settles_sequential:
  assumes "finite_env \<mu> env" "calm_config \<mu> cfg" "finite_context \<mu> ctx"
  shows "settles \<mu> (sequential_calls env cfg ctx am i tcs fins msgs)"
proof (induction tcs arbitrary: i fins msgs)
  case Nil
  then show ?case by (simp add: settles_basic)
next
  case (Cons tc tcs)
  have "settles \<mu> (if b then act_return x else sequential_calls env cfg ctx am j tcs fs ms)" for b x j fs ms
    using Cons.IH by (simp add: settles_basic)
  then show ?case
    unfolding sequential_calls.simps
    by (intro settles_then settles_bind_post [OF _ gives_tool_known [where ctx = ctx]] settles_bind settles_basic
        settles_emit settles_prepareToolCall settles_run_preparation settles_announce_result assms)
      (auto simp: emitToolExecutionEnd_def intro: settles_emit [OF assms(1)])
qed

text \<open>How many steps an entry of a concurrent batch still takes, besides its updates.\<close>

fun stage :: "'w call_entry \<Rightarrow> nat" where
  "stage (EFinal f) = 0"
| "stage (EEnding f) = 1"
| "stage (EExecuted tc args r e) = 2"
| "stage (ERunning tc tool args) = 3"

fun finite_entry :: "('w \<Rightarrow> nat) \<Rightarrow> 'w call_entry \<Rightarrow> bool" where
  "finite_entry \<mu> (ERunning tc tool args) = finite_tool \<mu> tool"
| "finite_entry \<mu> _ = True"

lemma advance_entry_settles:
  assumes "finite_env \<mu> env" "calm_config \<mu> cfg" "finite_entry \<mu> e"
  shows "settles \<mu> (advance_entry env cfg ctx am i e)"
  using assms
  by (cases e) (auto simp: advance_entry_def emitToolExecutionEnd_def
      intro!: settles_rules settles_execute_step settles_finalize settles_emit)

lemma advance_entry_progress:
  assumes "finite_env \<mu> env" "calm_config \<mu> cfg" "finite_entry \<mu> e" "\<not> is_final e"
  shows "wp (advance_entry env cfg ctx am i e) (\<lambda>r s'. \<forall>e'. r = Inr e' \<longrightarrow>
    finite_entry \<mu> e' \<and> \<mu> (world s') + stage e' < \<mu> (world s) + stage e) s"
proof (cases e)
  case (ERunning tc tool args)
  have "wp (execute_step env i tc tool args) (\<lambda>r s'. spends \<mu> s s' \<and>
      (\<forall>u. r = Inr (Inl u) \<longrightarrow> \<mu> (world s') < \<mu> (world s))) s"
    using settles_execute_step [OF assms(1)] ERunning assms(3) execute_step_progress [OF assms(1)]
    by (intro wp_conj) (auto simp: settles_def keeps_def)
  then show ?thesis
    using ERunning assms(3)
    by (auto simp: advance_entry_def wp_bind wp_return spends_def elim!: wp_mono split: sum.splits prod.splits)
next
  case (EExecuted tc args res err)
  have "wp (finalizeExecutedToolCall cfg ctx am tc args res err) (\<lambda>r s'. spends \<mu> s s') s"
    using settles_finalize [OF assms(2)] by (auto simp: settles_def keeps_def)
  then show ?thesis
    using EExecuted
    by (auto simp: advance_entry_def wp_bind wp_return spends_def elim!: wp_mono split: sum.splits)
next
  case (EEnding f)
  then show ?thesis
    using assms(1)
    by (auto simp: advance_entry_def emitToolExecutionEnd_def wp_rules finite_env_def le_imp_less_Suc)
qed (use assms(4) in simp)

definition stages :: "'w call_entry list \<Rightarrow> nat" where
  "stages es = sum_list (map stage es)"

lemma stages_update: "i < length es \<Longrightarrow> stages (es[i := e]) + stage (es ! i) = stages es + stage e"
  unfolding stages_def
  by (simp add: map_update sum_list_update)
    (metis elem_le_sum_list le_add_diff_inverse2 length_map nth_map trans_le_add1 add.commute)

lemma settles_parallel_loop:
  assumes "finite_env \<mu> env" "calm_config \<mu> cfg" "list_all (finite_entry \<mu>) es"
  shows "settles \<mu> (act_loop (parallel_step env cfg ctx am) es)"
proof (rule settles_loop [where I = "list_all (finite_entry \<mu>)" and N = stages])
  show "list_all (finite_entry \<mu>) es" by (rule assms(3))
next
  fix es :: "'a call_entry list"
  assume I: "list_all (finite_entry \<mu>) es"
  have ok: "finite_entry \<mu> (es ! i)" if "i < length es" for i using I that by (simp add: list_all_length)
  show "settles \<mu> (parallel_step env cfg ctx am es)"
  proof (cases "unfinished es = []")
    case False
    have "settles \<mu> (advance_entry env cfg ctx am (unfinished es ! (n mod length (unfinished es)))
        (es ! (unfinished es ! (n mod length (unfinished es)))))" for n
      using unfinished_nth [OF False, of n] ok by (intro advance_entry_settles assms) (simp add: Let_def)
    then show ?thesis
      using False assms(1)
      by (auto simp: parallel_step_def Let_def finite_env_def intro!: settles_rules calm_pure)
  qed (simp add: parallel_step_def settles_basic)
next
  fix es :: "'a call_entry list" and s :: "('a, agent_event) eff_state"
  assume I: "list_all (finite_entry \<mu>) es"
  show "wp (parallel_step env cfg ctx am es) (\<lambda>r s'. \<forall>es'. r = Inr (Inl es') \<longrightarrow>
      list_all (finite_entry \<mu>) es' \<and> \<mu> (world s') + stages es' < \<mu> (world s) + stages es) s"
  proof (cases "unfinished es = []")
    case False
    have step: "wp (act_bind (advance_entry env cfg ctx am i (es ! i)) (\<lambda>entry. act_return (Inl (es[i := entry]))))
        (\<lambda>r s'. \<forall>es'. r = Inr (Inl es') \<longrightarrow>
          list_all (finite_entry \<mu>) es' \<and> \<mu> (world s') + stages es' < \<mu> (world s) + stages es) s1"
      if i: "i < length es" "\<not> is_final (es ! i)" and le: "\<mu> (world s1) \<le> \<mu> (world s)"
      for i and s1 :: "('a, agent_event) eff_state"
      unfolding wp_bind
    proof (rule wp_mono [OF advance_entry_progress [OF assms(1,2) _ i(2)]])
      show "finite_entry \<mu> (es ! i)" using I i(1) by (simp add: list_all_length)
    next
      fix r and s' :: "('a, agent_event) eff_state"
      assume a: "\<forall>e'. r = Inr e' \<longrightarrow> finite_entry \<mu> e' \<and> \<mu> (world s') + stage e' < \<mu> (world s1) + stage (es ! i)"
      show "case r of Inl msg \<Rightarrow> \<forall>es'. Inl msg = Inr (Inl es') \<longrightarrow> list_all (finite_entry \<mu>) es' \<and>
            \<mu> (world s') + stages es' < \<mu> (world s) + stages es
        | Inr e \<Rightarrow> wp (act_return (Inl (es[i := e]))) (\<lambda>r s'. \<forall>es'. r = Inr (Inl es') \<longrightarrow>
            list_all (finite_entry \<mu>) es' \<and> \<mu> (world s') + stages es' < \<mu> (world s) + stages es) s'"
      proof (cases r)
        case (Inr e)
        then have e: "finite_entry \<mu> e" "\<mu> (world s') + stage e < \<mu> (world s1) + stage (es ! i)"
          using a by auto
        have "list_all (finite_entry \<mu>) (es[i := e])"
          using I e(1) by (metis list_all_iff set_update_subset_insert insertE subsetD)
        moreover have "\<mu> (world s') + stages (es[i := e]) < \<mu> (world s) + stages es"
          using e(2) le stages_update [OF i(1), of e] by linarith
        ultimately show ?thesis using Inr by (simp add: wp_return)
      qed simp
    qed
    have "calm \<mu> (env_pick env)" using assms(1) by (simp add: finite_env_def)
    then have pick: "\<mu> w' \<le> \<mu> w" if "env_pick env w = (n, w')" for w w' n
      using that by (metis calm_def snd_conv)
    show ?thesis
      using False unfinished_nth [OF False]
      by (simp add: parallel_step_def wp_bind [of "act_call _"] wp_call pure_call_def apfst_def map_prod_def Let_def
          split: prod.splits) (intro allI impI step, simp_all add: pick)
  qed (simp add: parallel_step_def wp_return)
qed

lemma settles_announce_all: "finite_env \<mu> env \<Longrightarrow> settles \<mu> (announce_all env fs ms)"
  by (induction fs arbitrary: ms) (auto intro: settles_basic settles_bind settles_announce_result)

lemma parallel_prepare_entries:
  assumes "finite_context \<mu> ctx" "list_all (finite_entry \<mu>) es"
  shows "gives (list_all (finite_entry \<mu>)) (parallel_prepare env cfg ctx am tcs es)"
  using assms(2)
proof (induction tcs arbitrary: es)
  case Nil
  then show ?case by (simp add: gives_basic)
next
  case (Cons tc tcs)
  have rest: "gives (list_all (finite_entry \<mu>)) (act_bind (act_get (env_aborted env)) (\<lambda>aborted.
      if aborted then act_return (es @ [e]) else parallel_prepare env cfg ctx am tcs (es @ [e])))"
    if "finite_entry \<mu> e" for e
    using that Cons by (auto intro!: gives_bind gives_basic)
  show ?case
    unfolding parallel_prepare.simps
    by (rule gives_then, rule gives_bind_post [OF gives_tool_known [where ctx = ctx]],
        rule gives_bind_post [where P = "finite_entry \<mu>"])
      (auto intro!: gives_basic gives_then rest simp: Let_def tool_known_def context_tool [OF assms(1)]
        split: preparation.splits)
qed

lemma settles_parallel_prepare:
  assumes "finite_env \<mu> env" "calm_config \<mu> cfg"
  shows "settles \<mu> (parallel_prepare env cfg ctx am tcs es)"
proof (induction tcs arbitrary: es)
  case Nil
  then show ?case by (simp add: settles_basic)
next
  case (Cons tc tcs)
  then show ?case
    by (auto intro!: settles_rules settles_emit settles_prepareToolCall assms
        simp: Let_def emitToolExecutionEnd_def split: preparation.splits)
qed

lemma settles_executeToolCalls:
  assumes "finite_env \<mu> env" "calm_config \<mu> cfg" "finite_context \<mu> ctx"
  shows "settles \<mu> (executeToolCalls env cfg ctx am)"
proof -
  have "settles \<mu> (executeToolCallsSequential env cfg ctx am tcs)" for tcs
    unfolding executeToolCallsSequential_def
    by (auto intro!: settles_rules settles_sequential assms)
  moreover have "settles \<mu> (executeToolCallsParallel env cfg ctx am tcs)" for tcs
    unfolding executeToolCallsParallel_def
    by (rule settles_bind_post [OF settles_parallel_prepare [OF assms(1,2)] parallel_prepare_entries [OF assms(3)]])
      (auto intro!: settles_rules settles_parallel_loop settles_announce_all assms)
  ultimately show ?thesis by (simp add: executeToolCalls_def Let_def)
qed

subsection \<open>Responses\<close>

lemma settles_finish_response:
  assumes "finite_env \<mu> env"
  shows "settles \<mu> (finish_response env added msgs)"
  using assms
  by (auto simp: finish_response_def finite_env_def intro!: settles_rules settles_emit [OF assms])

lemma next_lowers:
  assumes "finite_env \<mu> env" "env_next env w = (p, w')"
  shows "case p of Pulled e \<Rightarrow> \<mu> w' < \<mu> w | PulledDone \<Rightarrow> \<mu> w' < \<mu> w | _ \<Rightarrow> \<mu> w' \<le> \<mu> w"
proof -
  have "\<forall>w. case env_next env w of (p, w') \<Rightarrow>
      (case p of Pulled e \<Rightarrow> \<mu> w' < \<mu> w | PulledDone \<Rightarrow> \<mu> w' < \<mu> w | _ \<Rightarrow> \<mu> w' \<le> \<mu> w)"
    using assms(1) unfolding finite_env_def by (elim conjE)
  from spec [OF this, of w] show ?thesis using assms(2) by simp
qed

lemma calm_next:
  assumes "finite_env \<mu> env"
  shows "calm \<mu> (env_next env)"
  unfolding calm_def
proof
  fix w
  obtain p w' where "env_next env w = (p, w')" by fastforce
  then show "\<mu> (snd (env_next env w)) \<le> \<mu> w"
    using next_lowers [OF assms] by (fastforce split: stream_pull.splits)
qed

lemma settles_stream_step:
  assumes "finite_env \<mu> env"
  shows "settles \<mu> (stream_step env v)"
  unfolding stream_step_def
  by (auto intro!: settles_rules settles_emit settles_finish_response calm_pure calm_next assms
      split: prod.split stream_pull.split stream_event.split)

text \<open>Every round of the event loop that does not throw lowers the budget.\<close>

definition below :: "('w \<Rightarrow> nat) \<Rightarrow> nat \<Rightarrow> 'a thrown \<Rightarrow> ('w, 'e) eff_state \<Rightarrow> bool" where
  "below \<mu> k r s \<longleftrightarrow> (case r of Inl msg \<Rightarrow> True | Inr x \<Rightarrow> \<mu> (world s) < k)"

lemma below_simps [simp]: "below \<mu> k (Inl msg) s" "below \<mu> k (Inr x) s = (\<mu> (world s) < k)"
  by (simp_all add: below_def)

lemma settles_below: "settles \<mu> m \<Longrightarrow> \<mu> (world s) < k \<Longrightarrow> wp m (below \<mu> k) s"
  by (erule (1) wp_mono [OF wp_spent]) (simp add: below_def split: sum.split)

lemma stream_step_lowers:
  assumes "finite_env \<mu> env"
  shows "wp (stream_step env v) (below \<mu> (\<mu> (world s))) s"
proof -
  let ?Q = "below \<mu> (\<mu> (world s))"
  have sink: "\<mu> (env_sink env e w) \<le> \<mu> w" for e w using assms(1) by (simp add: finite_env_def)
  have fin: "wp (act_bind (finish_response env added msgs) (\<lambda>r. act_return (Inr r))) ?Q (s\<lparr>world := w\<rparr>)"
    if "\<mu> w < \<mu> (world s)" for added msgs w
    using that by (intro settles_below settles_bind settles_finish_response settles_basic assms) simp
  have step: "wp (act_return y) ?Q \<lparr>world = env_sink env e w, events = es\<rparr>"
      "wp (act_return y) ?Q (s\<lparr>world := w\<rparr>)"
    if "\<mu> w < \<mu> (world s)" for y :: "bool \<times> agent_message list + assistant_message \<times> agent_message list" and e w es
    using that le_less_trans [OF sink that] by (auto simp: wp_return)
  obtain added msgs where v: "v = (added, msgs)" by fastforce
  show ?thesis
    unfolding stream_step_def v using next_lowers [OF assms, of "world s"]
    by (auto simp: wp_bind [of "act_call _"] wp_bind [of "act_get _"] wp_call wp_get wp_throw wp_then
        wp_emit_phase pure_call_def apfst_def map_prod_def intro!: fin step
        split: prod.splits stream_pull.splits stream_event.splits)
qed

lemma settles_stream_loop:
  assumes "finite_env \<mu> env"
  shows "settles \<mu> (act_loop (stream_step env) v)"
proof (rule settles_loop [where I = "\<lambda>_. True" and N = "\<lambda>_. 0"])
  show "wp (stream_step env v) (\<lambda>r s'. \<forall>v'. r = Inr (Inl v') \<longrightarrow> True \<and> \<mu> (world s') + 0 < \<mu> (world s) + 0) s" for v s
    by (rule wp_mono [OF stream_step_lowers [OF assms]]) auto
qed (auto intro: settles_stream_step assms)

lemma stream_loop_lowers:
  assumes "finite_env \<mu> env"
  shows "wp (act_loop (stream_step env) v) (below \<mu> (\<mu> (world s))) s"
proof (rule wp_loop [where I = "\<lambda>v s'. spends \<mu> s s'"])
  show "wp (stream_step env v) (\<lambda>r s''. case r of
      Inl msg \<Rightarrow> below \<mu> (\<mu> (world s)) (Inl msg) s''
    | Inr next \<Rightarrow> (case next of Inl v' \<Rightarrow> spends \<mu> s s'' | Inr x \<Rightarrow> below \<mu> (\<mu> (world s)) (Inr x) s'')) s'"
    if "spends \<mu> s s'" for v s'
    by (rule wp_mono [OF stream_step_lowers [OF assms]]) (use that in \<open>auto simp: spends_def split: sum.splits\<close>)
qed (simp add: sp.R_refl)

lemma settles_streamAssistantResponse:
  assumes "finite_env \<mu> env" "calm_config \<mu> cfg"
  shows "settles \<mu> (streamAssistantResponse env cfg ctx)"
  unfolding streamAssistantResponse_def
  using assms
  by (auto simp: calm_config_def finite_env_def
      intro!: settles_rules settles_hook settles_stream_loop [OF assms(1)])

lemma response_lowers:
  assumes "finite_env \<mu> env" "calm_config \<mu> cfg"
  shows "wp (streamAssistantResponse env cfg ctx) (below \<mu> (\<mu> (world s))) s"
proof -
  have loop: "wp (act_bind (act_loop (stream_step env) v) (\<lambda>(message, messages').
      act_return (message, ctx\<lparr>ac_messages := messages'\<rparr>))) (below \<mu> (\<mu> (world s))) s1"
    if "spends \<mu> s s1" for v and s1 :: "('a, agent_event) eff_state"
    unfolding wp_bind
    by (rule wp_mono [OF stream_loop_lowers [OF assms(1)]])
      (use that in \<open>auto simp: spends_def wp_return below_def split: sum.splits prod.splits\<close>)
  have after: "wp (act_bind m f) (below \<mu> (\<mu> (world s))) s1"
    if "settles \<mu> m" "spends \<mu> s s1" "\<And>x s2. spends \<mu> s s2 \<Longrightarrow> wp (f x) (below \<mu> (\<mu> (world s))) s2"
    for s1 :: "('a, agent_event) eff_state" and m :: "('a, 'b) loop_action"
      and f :: "'b \<Rightarrow> ('a, assistant_message \<times> 'a agent_context) loop_action"
    unfolding wp_bind
    by (rule wp_mono [OF sp.wp_after]) (use that in \<open>auto simp: settles_def split: sum.splits\<close>)
  have hooks: "settles \<mu> (case cfg_transformContext cfg of None \<Rightarrow> act_return ms | Some f \<Rightarrow> act_call (f ms))"
      "settles \<mu> (act_call (cfg_convertToLlm cfg ms))"
      "settles \<mu> (case cfg_getApiKey cfg of None \<Rightarrow> act_return None | Some f \<Rightarrow> act_call (f p))"
      "settles \<mu> (act_call (env_stream env mo l c k))" for ms p mo l c k
    using assms by (auto simp: calm_config_def finite_env_def intro!: settles_hook settles_call)
  show ?thesis
    unfolding streamAssistantResponse_def act_then_def
    by (intro after hooks loop sp.R_refl)
qed

subsection \<open>The loop\<close>

definition finite_vars :: "('w \<Rightarrow> nat) \<Rightarrow> 'w loop_vars \<Rightarrow> bool" where
  "finite_vars \<mu> v \<longleftrightarrow> calm_config \<mu> (lv_config v) \<and> finite_context \<mu> (lv_context v)"

definition finite_next :: "('w \<Rightarrow> nat) \<Rightarrow> 'w loop_vars + 'r \<Rightarrow> bool" where
  "finite_next \<mu> x \<longleftrightarrow> (case x of Inl v \<Rightarrow> finite_vars \<mu> v | Inr r \<Rightarrow> True)"

lemma finite_context_messages [simp]:
  "finite_context \<mu> (ctx\<lparr>ac_messages := ms\<rparr>) = finite_context \<mu> ctx"
  by (simp add: finite_context_def context_tools_def)

lemma calm_config_update [simp]:
  "calm_config \<mu> (cfg\<lparr>cfg_model := m, cfg_reasoning := l\<rparr>) = calm_config \<mu> cfg"
  "calm_config \<mu> (cfg\<lparr>cfg_model := m\<rparr>) = calm_config \<mu> cfg"
  "calm_config \<mu> (cfg\<lparr>cfg_reasoning := l\<rparr>) = calm_config \<mu> cfg"
  by (simp_all add: calm_config_def)

lemma apply_update_finite:
  assumes "finite_update \<mu> u" "finite_context \<mu> ctx" "calm_config \<mu> cfg" "apply_update u ctx cfg = (ctx', cfg')"
  shows "finite_context \<mu> ctx'" "calm_config \<mu> cfg'"
  using assms by (auto simp: apply_update_def finite_update_def split: option.splits)

lemma settles_end_agent: "finite_env \<mu> env \<Longrightarrow> settles \<mu> (end_agent env ms)"
  unfolding end_agent_def by (auto intro!: settles_rules settles_emit)

lemma prepared_update:
  assumes "calm_config \<mu> cfg"
  shows "gives (finite_update \<mu>) (case cfg_prepareNextTurn cfg of None \<Rightarrow> act_return None | Some f \<Rightarrow> act_call (f tx))"
proof (cases "cfg_prepareNextTurn cfg")
  case None
  then show ?thesis by (simp add: gives_basic finite_update_def)
next
  case (Some f)
  then have "fst (f tx w) = Inr u \<Longrightarrow> finite_update \<mu> u" for w u using assms by (simp add: calm_config_def)
  then show ?thesis using Some
    by (auto simp: gives_def wp_call split: prod.splits) (metis fst_conv)
qed

lemma continue_loop_finite:
  assumes "finite_env \<mu> env" "calm_config \<mu> cfg" "finite_context \<mu> (tx_context tx)"
  shows "settles \<mu> (continue_loop env tx cfg)" "gives (finite_next \<mu>) (continue_loop env tx cfg)"
proof -
  have hook: "settles \<mu> (case cfg_prepareNextTurn cfg of None \<Rightarrow> act_return None | Some f \<Rightarrow> act_call (f tx))"
    using assms(2) by (intro settles_hook) (simp add: calm_config_def)
  show "settles \<mu> (continue_loop env tx cfg)"
    unfolding continue_loop_def
  proof (rule settles_bind_post [OF hook prepared_update [OF assms(2)]])
    fix u
    assume u: "finite_update \<mu> u"
    obtain ctx' cfg' where e: "apply_update u (tx_context tx) cfg = (ctx', cfg')" by fastforce
    then have "calm_config \<mu> cfg'" using apply_update_finite [OF u assms(3,2) e] by simp
    then have "settles \<mu> (queued_messages (cfg_getSteeringMessages cfg'))"
        "settles \<mu> (queued_messages (cfg_getFollowUpMessages cfg'))"
      by (auto simp: calm_config_def intro: settles_queue)
    then show "settles \<mu> (let (ctx', cfg') = apply_update u (tx_context tx) cfg;
         continues = (a_stopReason (tx_message tx) = StopToolUse)
     in act_bind (queued_messages (cfg_getSteeringMessages cfg')) (\<lambda>steering.
        act_bind (if \<not> continues \<and> steering = [] then queued_messages (cfg_getFollowUpMessages cfg')
                  else act_return steering) (\<lambda>queued.
          if queued = [] \<and> \<not> continues then end_agent env (tx_newMessages tx)
          else act_return (Inl \<lparr>lv_context = ctx', lv_config = cfg', lv_firstTurn = False,
                                lv_pending = queued, lv_newMessages = tx_newMessages tx\<rparr>))))"
      by (auto simp: e Let_def intro!: settles_rules settles_end_agent assms(1))
  qed
  show "gives (finite_next \<mu>) (continue_loop env tx cfg)"
    unfolding continue_loop_def
  proof (rule gives_bind_post [OF prepared_update [OF assms(2)]])
    fix u
    assume u: "finite_update \<mu> u"
    obtain ctx' cfg' where e: "apply_update u (tx_context tx) cfg = (ctx', cfg')" by fastforce
    note fin = apply_update_finite [OF u assms(3,2) e]
    show "gives (finite_next \<mu>) (let (ctx', cfg') = apply_update u (tx_context tx) cfg;
         continues = (a_stopReason (tx_message tx) = StopToolUse)
     in act_bind (queued_messages (cfg_getSteeringMessages cfg')) (\<lambda>steering.
        act_bind (if \<not> continues \<and> steering = [] then queued_messages (cfg_getFollowUpMessages cfg')
                  else act_return steering) (\<lambda>queued.
          if queued = [] \<and> \<not> continues then end_agent env (tx_newMessages tx)
          else act_return (Inl \<lparr>lv_context = ctx', lv_config = cfg', lv_firstTurn = False,
                                lv_pending = queued, lv_newMessages = tx_newMessages tx\<rparr>))))"
      using fin
      by (auto simp: e Let_def end_agent_def finite_next_def finite_vars_def
          intro!: gives_bind gives_then gives_basic)
  qed
qed

lemma turn_end_finite:
  assumes "finite_env \<mu> env" "calm_config \<mu> cfg" "finite_context \<mu> ctx"
  shows "settles \<mu> (turn_end env cfg ctx new m rs t)" "gives (finite_next \<mu>) (turn_end env cfg ctx new m rs t)"
proof -
  have hook: "settles \<mu> (case cfg_shouldStopAfterTurn cfg of None \<Rightarrow> act_return False | Some f \<Rightarrow> act_call (f tx))" for tx
    using assms(2) by (intro settles_hook) (simp add: calm_config_def)
  show "settles \<mu> (turn_end env cfg ctx new m rs t)"
    unfolding turn_end_def Let_def
    by (auto intro!: settles_then settles_bind settles_emit hook settles_end_agent continue_loop_finite(1)
        assms(1,2) simp: assms(3))
  show "gives (finite_next \<mu>) (turn_end env cfg ctx new m rs t)"
    unfolding turn_end_def Let_def
    by (auto intro!: gives_then gives_bind continue_loop_finite(2) gives_basic assms(1,2)
        simp: assms(3) end_agent_def finite_next_def)
qed

text \<open>A response keeps the tools of the context.\<close>

lemma response_context:
  assumes "finite_context \<mu> ctx"
  shows "gives (\<lambda>(message, ctx'). finite_context \<mu> ctx') (streamAssistantResponse env cfg ctx)"
  unfolding streamAssistantResponse_def
  using assms by (auto intro!: gives_bind gives_then gives_basic)

lemma turn_rest_finite:
  fixes message :: assistant_message
  assumes "finite_env \<mu> env" "calm_config \<mu> cfg" "finite_context \<mu> ctx"
  shows "settles \<mu> (act_bind (if tool_calls message = [] then act_return ([], False)
           else executeToolCalls env cfg ctx message) (\<lambda>(rs, t). turn_end env cfg ctx new message rs t))"
    and "gives (finite_next \<mu>) (act_bind (if tool_calls message = [] then act_return ([], False)
           else executeToolCalls env cfg ctx message) (\<lambda>(rs, t). turn_end env cfg ctx new message rs t))"
  by (auto intro!: settles_bind settles_basic settles_executeToolCalls turn_end_finite gives_bind assms
      split: prod.split)

definition turn_after ::
  "'w loop_env \<Rightarrow> 'w loop_vars \<Rightarrow> assistant_message \<times> 'w agent_context
     \<Rightarrow> ('w, 'w loop_vars + agent_message list) loop_action" where
  "turn_after env v = (\<lambda>(message, ctx1).
     let new1 = (lv_newMessages v @ lv_pending v) @ [AssistantMsg message]
     in if a_stopReason message = StopError \<or> a_stopReason message = StopAborted
        then act_then (emit env (TurnEnd (AssistantMsg message) [])) (end_agent env new1)
        else act_bind (if tool_calls message = [] then act_return ([], False)
                       else executeToolCalls env (lv_config v) ctx1 message) (\<lambda>(toolResults, allTerminate).
          turn_end env (lv_config v) ctx1 new1 message toolResults allTerminate))"

lemma loop_turn_parts:
  "loop_turn env v =
     act_then (if lv_firstTurn v then act_return () else emit env TurnStart)
     (act_then (act_each (announce_message env) (lv_pending v))
       (act_bind (streamAssistantResponse env (lv_config v)
          ((lv_context v)\<lparr>ac_messages := ac_messages (lv_context v) @ lv_pending v\<rparr>)) (turn_after env v)))"
  by (simp only: loop_turn_def turn_after_def Let_def)

lemma turn_after_finite:
  assumes "finite_env \<mu> env" "calm_config \<mu> (lv_config v)" "finite_context \<mu> (snd mc)"
  shows "settles \<mu> (turn_after env v mc)" "gives (finite_next \<mu>) (turn_after env v mc)"
proof -
  obtain m c where mc: "mc = (m, c)" by fastforce
  note rest = turn_rest_finite [OF assms(1,2), of c m]
  show "settles \<mu> (turn_after env v mc)"
    using assms(3) rest(1)
    by (simp add: turn_after_def mc Let_def settles_then settles_emit settles_end_agent assms(1))
  show "gives (finite_next \<mu>) (turn_after env v mc)"
    using assms(3) rest(2)
    by (auto simp: turn_after_def mc Let_def end_agent_def finite_next_def intro!: gives_then gives_basic)
qed

lemma settles_announce_messages: "finite_env \<mu> env \<Longrightarrow> settles \<mu> (act_each (announce_message env) ms)"
  unfolding announce_message_def by (auto intro!: settles_rules settles_emit)

lemma settles_loop_turn:
  assumes "finite_env \<mu> env" "finite_vars \<mu> v"
  shows "settles \<mu> (loop_turn env v)"
  unfolding loop_turn_parts
proof (intro settles_then settles_announce_messages assms(1))
  show "settles \<mu> (if lv_firstTurn v then act_return () else emit env TurnStart)"
    by (simp add: settles_basic settles_emit assms(1))
  show "settles \<mu> (act_bind (streamAssistantResponse env (lv_config v)
          ((lv_context v)\<lparr>ac_messages := ac_messages (lv_context v) @ lv_pending v\<rparr>)) (turn_after env v))"
    by (rule settles_bind_post [OF settles_streamAssistantResponse response_context])
      (use assms in \<open>auto simp: finite_vars_def split: prod.splits intro: turn_after_finite\<close>)
qed

text \<open>A turn that goes on leaves a smaller budget, because it has read a response.\<close>

definition next_below :: "('w \<Rightarrow> nat) \<Rightarrow> nat \<Rightarrow> ('w loop_vars + 'r) thrown \<Rightarrow> ('w, 'e) eff_state \<Rightarrow> bool" where
  "next_below \<mu> k r s \<longleftrightarrow>
     (case r of Inl msg \<Rightarrow> True | Inr x \<Rightarrow> \<mu> (world s) < k \<and> finite_next \<mu> x)"

lemma loop_turn_lowers:
  fixes s :: "('w, agent_event) eff_state"
  assumes "finite_env \<mu> env" "finite_vars \<mu> v"
  shows "wp (loop_turn env v) (next_below \<mu> (\<mu> (world s))) s"
proof -
  let ?Q = "next_below \<mu> (\<mu> (world s))"
  let ?ctx = "(lv_context v)\<lparr>ac_messages := ac_messages (lv_context v) @ lv_pending v\<rparr>"
  have cfg: "calm_config \<mu> (lv_config v)" and ctx: "finite_context \<mu> ?ctx"
    using assms(2) by (simp_all add: finite_vars_def)
  have after: "wp (turn_after env v mc) ?Q s2"
    if "\<mu> (world s2) < \<mu> (world s)" "finite_context \<mu> (snd mc)" for mc and s2 :: "('w, agent_event) eff_state"
    by (rule wp_mono [OF wp_conj [OF wp_spent [OF turn_after_finite(1) [OF assms(1) cfg that(2)] that(1)]
        turn_after_finite(2) [OF assms(1) cfg that(2), unfolded gives_def, THEN spec]]])
      (simp add: next_below_def split: sum.splits)
  have response: "wp (act_bind (streamAssistantResponse env (lv_config v) ?ctx) (turn_after env v)) ?Q s1"
    if "spends \<mu> s s1" for s1 :: "('w, agent_event) eff_state"
    unfolding wp_bind
    by (rule wp_mono [OF wp_conj [OF response_lowers [OF assms(1) cfg]
        response_context [OF ctx, unfolded gives_def, THEN spec]]])
      (use that in \<open>auto simp: spends_def next_below_def split: sum.splits prod.splits intro!: after\<close>)
  have next': "wp (act_then m n) ?Q s1"
    if "settles \<mu> m" "spends \<mu> s s1" "\<And>s2. spends \<mu> s s2 \<Longrightarrow> wp n ?Q s2"
    for s1 :: "('w, agent_event) eff_state" and m :: "('w, unit) loop_action"
      and n :: "('w, 'w loop_vars + agent_message list) loop_action"
    unfolding wp_then
    by (rule wp_mono [OF sp.wp_after])
      (use that in \<open>auto simp: settles_def next_below_def split: sum.splits\<close>)
  show ?thesis
    unfolding loop_turn_parts
    by (intro next' settles_announce_messages response assms(1) sp.R_refl)
      (simp_all add: settles_basic settles_emit assms(1))
qed

lemma settles_runLoop:
  assumes "finite_env \<mu> env" "calm_config \<mu> cfg" "finite_context \<mu> ctx"
  shows "settles \<mu> (runLoop env cfg ctx new)"
  unfolding runLoop_def
proof (rule settles_bind)
  show "settles \<mu> (queued_messages (cfg_getSteeringMessages cfg))"
    using assms(2) by (intro settles_queue) (simp add: calm_config_def)
  show "settles \<mu> (act_loop (loop_turn env) \<lparr>lv_context = ctx, lv_config = cfg, lv_firstTurn = True,
      lv_pending = pending, lv_newMessages = new\<rparr>)" for pending
  proof (rule settles_loop [where I = "finite_vars \<mu>" and N = "\<lambda>_. 0"])
    fix v and s :: "('a, agent_event) eff_state"
    assume "finite_vars \<mu> v"
    then show "wp (loop_turn env v) (\<lambda>r s'. \<forall>v'. r = Inr (Inl v') \<longrightarrow>
        finite_vars \<mu> v' \<and> \<mu> (world s') + 0 < \<mu> (world s) + 0) s"
      by (intro wp_mono [OF loop_turn_lowers [OF assms(1)]]) (auto simp: next_below_def finite_next_def)
  qed (use assms in \<open>auto simp: finite_vars_def intro: settles_loop_turn\<close>)
qed

lemma settles_runAgentLoop:
  assumes "finite_env \<mu> env" "calm_config \<mu> cfg" "finite_context \<mu> ctx"
  shows "settles \<mu> (runAgentLoop env prompts ctx cfg)"
  unfolding runAgentLoop_def
  by (intro settles_then settles_emit settles_announce_messages settles_runLoop) (simp_all add: assms)


text \<open>A provider whose stream is cut off after what it still brings.\<close>

definition cut_env :: "demo_world loop_env" where
  "cut_env = demo_env\<lparr>env_next := (\<lambda>(ps, rs). case ps of
     [] \<Rightarrow> (PullThrew (str ''cut off''), (ps, rs)) | p # ps' \<Rightarrow> (p, (ps', rs)))\<rparr>"

definition demo_budget :: "demo_world \<Rightarrow> nat" where
  "demo_budget = (\<lambda>(ps, rs). length ps)"


end
