(* ===== verification/Agent.thy ===== *)
theory Agent
  imports AgentLoop
begin

text \<open>
  \<open>packages/agent/src/agent.ts\<close>: the class \<open>Agent\<close>, which owns the transcript, the queues of
  steering and follow-up messages and the state derived from the events of the loop.  The world of
  the loop is the agent's state with what is outside; hooks, tools and listeners act on both.  The
  listeners are named by numbers and do not throw; the set of listeners does not change while an
  event is delivered.
\<close>

subsection \<open>State\<close>

datatype queue_mode = QueueAll | OneAtATime

record pending_queue =
  pq_messages :: "agent_message list"
  pq_mode :: queue_mode

definition new_pending_queue :: "queue_mode \<Rightarrow> pending_queue" where
  "new_pending_queue mode = \<lparr>pq_messages = [], pq_mode = mode\<rparr>"

definition enqueue :: "agent_message \<Rightarrow> pending_queue \<Rightarrow> pending_queue" where
  "enqueue m q = q\<lparr>pq_messages := pq_messages q @ [m]\<rparr>"

definition hasItems :: "pending_queue \<Rightarrow> bool" where
  "hasItems q \<longleftrightarrow> pq_messages q \<noteq> []"

definition drain :: "pending_queue \<Rightarrow> agent_message list \<times> pending_queue" where
  "drain q =
     (case pq_mode q of
        QueueAll \<Rightarrow> (pq_messages q, q\<lparr>pq_messages := []\<rparr>)
      | OneAtATime \<Rightarrow>
          (case pq_messages q of
             [] \<Rightarrow> ([], q)
           | m # ms \<Rightarrow> ([m], q\<lparr>pq_messages := ms\<rparr>)))"

definition clear_queue :: "pending_queue \<Rightarrow> pending_queue" where
  "clear_queue q = q\<lparr>pq_messages := []\<rparr>"

record agent =
  ag_systemPrompt :: js_string
  ag_model :: model_ref
  ag_thinkingLevel :: thinking_level
  ag_messages :: "agent_message list"
  ag_isStreaming :: bool
  ag_streamingMessage :: "agent_message option"
  ag_pendingToolCalls :: "js_string set"
  ag_errorMessage :: "js_string option"
  ag_listeners :: "nat list"
  ag_steeringQueue :: pending_queue
  ag_followUpQueue :: pending_queue
  ag_activeRun :: "bool option"            \<comment> \<open>of the active run: whether it was aborted\<close>
  ag_skipPoll :: bool                      \<comment> \<open>\<open>skipInitialSteeringPoll\<close> of the active run\<close>

record 'o agent_world =
  aw_agent :: agent
  aw_outside :: 'o

definition DEFAULT_MODEL :: model_ref where
  "DEFAULT_MODEL = \<lparr>mr_id = str ''unknown'', mr_api = str ''unknown'', mr_provider = str ''unknown''\<rparr>"

definition EMPTY_USAGE :: usage where
  "EMPTY_USAGE = \<lparr>u_input = 0, u_output = 0, u_cacheRead = 0, u_cacheWrite = 0, u_totalTokens = 0\<rparr>"

record agent_options =
  ao_systemPrompt :: "js_string option"
  ao_model :: "model_ref option"
  ao_thinkingLevel :: "thinking_level option"
  ao_messages :: "agent_message list option"
  ao_steeringMode :: "queue_mode option"
  ao_followUpMode :: "queue_mode option"

definition or_default :: "'a option \<Rightarrow> 'a \<Rightarrow> 'a" where
  "or_default v d = (case v of None \<Rightarrow> d | Some x \<Rightarrow> x)"

definition new_Agent :: "agent_options \<Rightarrow> agent" where
  "new_Agent opts =
     \<lparr>ag_systemPrompt = or_default (ao_systemPrompt opts) [], ag_model = or_default (ao_model opts) DEFAULT_MODEL,
      ag_thinkingLevel = or_default (ao_thinkingLevel opts) TLOff, ag_messages = or_default (ao_messages opts) [],
      ag_isStreaming = False, ag_streamingMessage = None, ag_pendingToolCalls = {}, ag_errorMessage = None,
      ag_listeners = [], ag_steeringQueue = new_pending_queue (or_default (ao_steeringMode opts) OneAtATime),
      ag_followUpQueue = new_pending_queue (or_default (ao_followUpMode opts) OneAtATime), ag_activeRun = None,
      ag_skipPoll = False\<rparr>"

text \<open>The messages that the default \<open>convertToLlm\<close> passes on.\<close>

definition defaultConvertToLlm :: "agent_message list \<Rightarrow> llm_message list" where
  "defaultConvertToLlm ms = List.map_filter (\<lambda>m. case m of LlmMessage l \<Rightarrow> Some l | _ \<Rightarrow> None) ms"

subsection \<open>Calls that are allowed at any time\<close>

datatype api_call =
    Steer agent_message
  | FollowUp agent_message
  | ClearSteeringQueue
  | ClearFollowUpQueue
  | ClearAllQueues
  | SetSteeringMode queue_mode
  | SetFollowUpMode queue_mode
  | Abort

definition abort_run :: "agent \<Rightarrow> agent" where
  "abort_run a = (case ag_activeRun a of None \<Rightarrow> a | Some _ \<Rightarrow> a\<lparr>ag_activeRun := Some True\<rparr>)"

fun agent_call :: "api_call \<Rightarrow> agent \<Rightarrow> agent" where
  "agent_call (Steer m) a = a\<lparr>ag_steeringQueue := enqueue m (ag_steeringQueue a)\<rparr>"
| "agent_call (FollowUp m) a = a\<lparr>ag_followUpQueue := enqueue m (ag_followUpQueue a)\<rparr>"
| "agent_call ClearSteeringQueue a = a\<lparr>ag_steeringQueue := clear_queue (ag_steeringQueue a)\<rparr>"
| "agent_call ClearFollowUpQueue a = a\<lparr>ag_followUpQueue := clear_queue (ag_followUpQueue a)\<rparr>"
| "agent_call ClearAllQueues a =
     a\<lparr>ag_steeringQueue := clear_queue (ag_steeringQueue a), ag_followUpQueue := clear_queue (ag_followUpQueue a)\<rparr>"
| "agent_call (SetSteeringMode m) a = a\<lparr>ag_steeringQueue := (ag_steeringQueue a)\<lparr>pq_mode := m\<rparr>\<rparr>"
| "agent_call (SetFollowUpMode m) a = a\<lparr>ag_followUpQueue := (ag_followUpQueue a)\<lparr>pq_mode := m\<rparr>\<rparr>"
| "agent_call Abort a = abort_run a"

definition hasQueuedMessages :: "agent \<Rightarrow> bool" where
  "hasQueuedMessages a \<longleftrightarrow> hasItems (ag_steeringQueue a) \<or> hasItems (ag_followUpQueue a)"

definition subscribe :: "nat \<Rightarrow> agent \<Rightarrow> agent" where
  "subscribe l a = (if l \<in> set (ag_listeners a) then a else a\<lparr>ag_listeners := ag_listeners a @ [l]\<rparr>)"

definition unsubscribe :: "nat \<Rightarrow> agent \<Rightarrow> agent" where
  "unsubscribe l a = a\<lparr>ag_listeners := filter (\<lambda>x. x \<noteq> l) (ag_listeners a)\<rparr>"

definition reset_agent :: "agent \<Rightarrow> agent" where
  "reset_agent a =
     a\<lparr>ag_messages := [], ag_isStreaming := False, ag_streamingMessage := None, ag_pendingToolCalls := {},
       ag_errorMessage := None, ag_followUpQueue := clear_queue (ag_followUpQueue a),
       ag_steeringQueue := clear_queue (ag_steeringQueue a)\<rparr>"

subsection \<open>Events\<close>

text \<open>The error message of an assistant message, where it is not empty.\<close>

fun turn_error :: "agent_message \<Rightarrow> js_string option" where
  "turn_error (LlmMessage (LAssistant am)) =
     (case a_errorMessage am of Some e \<Rightarrow> if e = [] then None else Some e | None \<Rightarrow> None)"
| "turn_error _ = None"

text \<open>The state that follows from an event, before the listeners see it.\<close>

fun reduce :: "agent_event \<Rightarrow> agent \<Rightarrow> agent" where
  "reduce (MessageStart m) a = a\<lparr>ag_streamingMessage := Some m\<rparr>"
| "reduce (MessageUpdate m e) a = a\<lparr>ag_streamingMessage := Some m\<rparr>"
| "reduce (MessageEnd m) a = a\<lparr>ag_streamingMessage := None, ag_messages := ag_messages a @ [m]\<rparr>"
| "reduce (ToolExecutionStart i nm args) a = a\<lparr>ag_pendingToolCalls := insert i (ag_pendingToolCalls a)\<rparr>"
| "reduce (ToolExecutionEnd i nm r e) a = a\<lparr>ag_pendingToolCalls := ag_pendingToolCalls a - {i}\<rparr>"
| "reduce (TurnEnd m rs) a = (case turn_error m of Some e \<Rightarrow> a\<lparr>ag_errorMessage := Some e\<rparr> | None \<Rightarrow> a)"
| "reduce (AgentEnd ms) a = a\<lparr>ag_streamingMessage := None\<rparr>"
| "reduce _ a = a"

definition on_agent :: "(agent \<Rightarrow> agent) \<Rightarrow> 'o agent_world \<Rightarrow> 'o agent_world" where
  "on_agent f w = w\<lparr>aw_agent := f (aw_agent w)\<rparr>"

type_synonym 'o listener = "nat \<Rightarrow> agent_event \<Rightarrow> bool \<Rightarrow> 'o agent_world \<Rightarrow> 'o agent_world"

text \<open>A listener gets the event and the signal of the run, whose state it sees when it is called.\<close>

definition run_aborted :: "'o agent_world \<Rightarrow> bool" where
  "run_aborted w \<longleftrightarrow> ag_activeRun (aw_agent w) = Some True"

definition processEvents :: "'o listener \<Rightarrow> agent_event \<Rightarrow> 'o agent_world \<Rightarrow> 'o agent_world" where
  "processEvents listener e w =
     (let w1 = on_agent (reduce e) w
      in fold (\<lambda>l w'. listener l e (run_aborted w') w') (ag_listeners (aw_agent w1)) w1)"

subsection \<open>Runs\<close>

definition agent_env :: "'o listener \<Rightarrow> 'o agent_world loop_env \<Rightarrow> 'o agent_world loop_env" where
  "agent_env listener env = env\<lparr>env_aborted := run_aborted, env_sink := processEvents listener\<rparr>"

definition drain_steering :: "'o agent_world \<Rightarrow> agent_message list thrown \<times> 'o agent_world" where
  "drain_steering w =
     (let a = aw_agent w
      in if ag_skipPoll a then (Inr [], on_agent (ag_skipPoll_update (\<lambda>_. False)) w)
         else (case drain (ag_steeringQueue a) of
                 (ms, q) \<Rightarrow> (Inr ms, on_agent (ag_steeringQueue_update (\<lambda>_. q)) w)))"

definition drain_followUp :: "'o agent_world \<Rightarrow> agent_message list thrown \<times> 'o agent_world" where
  "drain_followUp w =
     (case drain (ag_followUpQueue (aw_agent w)) of
        (ms, q) \<Rightarrow> (Inr ms, on_agent (ag_followUpQueue_update (\<lambda>_. q)) w))"

text \<open>The parts of an agent that do not change: its hooks, tools, listeners and surroundings.\<close>

record 'o agent_setup =
  su_env :: "'o agent_world loop_env"
  su_listener :: "'o listener"
  su_tools :: "'o agent_world agent_tool list"
  su_convertToLlm :: "(agent_message list \<Rightarrow> 'o agent_world \<Rightarrow> llm_message list thrown \<times> 'o agent_world) option"
  su_transformContext :: "(agent_message list \<Rightarrow> 'o agent_world \<Rightarrow> agent_message list thrown \<times> 'o agent_world) option"
  su_getApiKey :: "(js_string \<Rightarrow> 'o agent_world \<Rightarrow> js_string option thrown \<times> 'o agent_world) option"
  su_beforeToolCall :: "('o agent_world before_context \<Rightarrow> 'o agent_world \<Rightarrow> before_tool_call_result option thrown \<times> 'o agent_world) option"
  su_afterToolCall :: "('o agent_world after_context \<Rightarrow> 'o agent_world \<Rightarrow> after_tool_call_result option thrown \<times> 'o agent_world) option"
  su_onControlPlanePrompt :: "(control_plane_prompt \<Rightarrow> 'o agent_world \<Rightarrow> control_plane_decision thrown \<times> 'o agent_world) option"
  su_prepareNextTurn :: "('o agent_world \<Rightarrow> 'o agent_world turn_update option thrown \<times> 'o agent_world) option"
  su_toolExecution :: "execution_mode option"

definition createLoopConfig :: "'o agent_setup \<Rightarrow> agent \<Rightarrow> 'o agent_world agent_loop_config" where
  "createLoopConfig su a =
     \<lparr>cfg_model = ag_model a,
      cfg_reasoning = (if ag_thinkingLevel a = TLOff then None else Some (ag_thinkingLevel a)),
      cfg_apiKey = None,
      cfg_convertToLlm = (case su_convertToLlm su of
                            Some f \<Rightarrow> f
                          | None \<Rightarrow> (\<lambda>ms w. (Inr (defaultConvertToLlm ms), w))),
      cfg_transformContext = su_transformContext su,
      cfg_getApiKey = su_getApiKey su,
      cfg_shouldStopAfterTurn = None,
      cfg_prepareNextTurn = map_option (\<lambda>f tx. f) (su_prepareNextTurn su),
      cfg_getSteeringMessages = Some drain_steering,
      cfg_getFollowUpMessages = Some drain_followUp,
      cfg_toolExecution = Some (or_default (su_toolExecution su) Parallel),
      cfg_beforeToolCall = su_beforeToolCall su,
      cfg_afterToolCall = su_afterToolCall su,
      cfg_onControlPlanePrompt = su_onControlPlanePrompt su\<rparr>"

definition createContextSnapshot :: "'o agent_world agent_tool list \<Rightarrow> agent \<Rightarrow> 'o agent_world agent_context" where
  "createContextSnapshot tools a =
     \<lparr>ac_systemPrompt = ag_systemPrompt a, ac_messages = ag_messages a, ac_tools = Some tools\<rparr>"

definition failure_message :: "agent \<Rightarrow> js_string \<Rightarrow> bool \<Rightarrow> ms \<Rightarrow> assistant_message" where
  "failure_message a msg aborted now =
     \<lparr>a_content = [AText []], a_api = mr_api (ag_model a), a_provider = mr_provider (ag_model a),
      a_model = mr_id (ag_model a), a_usage = Some EMPTY_USAGE,
      a_stopReason = (if aborted then StopAborted else StopError), a_errorMessage = Some msg, a_timestamp = now\<rparr>"

definition handleRunFailure ::
  "'o agent_world loop_env \<Rightarrow> js_string \<Rightarrow> bool \<Rightarrow> ('o agent_world, unit) loop_action" where
  "handleRunFailure env msg aborted =
     act_bind (act_get aw_agent) (\<lambda>a.
     act_bind (act_call (\<lambda>w. apfst Inr (env_now env w))) (\<lambda>now.
       let m = AssistantMsg (failure_message a msg aborted now)
       in act_then (emit env (MessageStart m))
          (act_then (emit env (MessageEnd m))
          (act_then (emit env (TurnEnd m []))
            (emit env (AgentEnd [m]))))))"

definition start_run :: "bool \<Rightarrow> agent \<Rightarrow> agent" where
  "start_run skip a =
     a\<lparr>ag_activeRun := Some False, ag_isStreaming := True, ag_streamingMessage := None, ag_errorMessage := None,
       ag_skipPoll := skip\<rparr>"

definition finishRun :: "agent \<Rightarrow> agent" where
  "finishRun a =
     a\<lparr>ag_isStreaming := False, ag_streamingMessage := None, ag_pendingToolCalls := {}, ag_activeRun := None\<rparr>"

definition act_agent :: "(agent \<Rightarrow> agent) \<Rightarrow> ('o agent_world, unit) loop_action" where
  "act_agent f = act_call (\<lambda>w. (Inr (), on_agent f w))"

definition runWithLifecycle ::
  "'o agent_world loop_env \<Rightarrow> bool \<Rightarrow> (agent \<Rightarrow> ('o agent_world, agent_message list) loop_action)
     \<Rightarrow> ('o agent_world, unit) loop_action" where
  "runWithLifecycle env skip executor =
     act_bind (act_get aw_agent) (\<lambda>a.
       if ag_activeRun a \<noteq> None then act_throw (str ''Agent is already processing.'')
       else act_then (act_agent (start_run skip))
            (act_then
              (act_catch (act_bind (executor (start_run skip a)) (\<lambda>_. act_return ()))
                (\<lambda>msg. act_bind (act_get run_aborted) (handleRunFailure env msg)))
              (act_agent finishRun)))"

definition runPromptMessages ::
  "'o agent_setup \<Rightarrow> agent_message list \<Rightarrow> bool \<Rightarrow> ('o agent_world, unit) loop_action" where
  "runPromptMessages su messages skip =
     (let env = agent_env (su_listener su) (su_env su)
      in runWithLifecycle env skip (\<lambda>a.
           runAgentLoop env messages (createContextSnapshot (su_tools su) a) (createLoopConfig su a)))"

definition runContinuation :: "'o agent_setup \<Rightarrow> ('o agent_world, unit) loop_action" where
  "runContinuation su =
     (let env = agent_env (su_listener su) (su_env su)
      in runWithLifecycle env False (\<lambda>a.
           runAgentLoopContinue env (createContextSnapshot (su_tools su) a) (createLoopConfig su a)))"

datatype prompt_input =
    PromptText js_string "user_block list"       \<comment> \<open>the text and the images\<close>
  | PromptMessages "agent_message list"          \<comment> \<open>one message is a list of one\<close>

definition normalizePromptInput :: "prompt_input \<Rightarrow> ms \<Rightarrow> agent_message list" where
  "normalizePromptInput input now =
     (case input of
        PromptMessages ms \<Rightarrow> ms
      | PromptText text images \<Rightarrow> [UserMsg (Blocks (UText text # images)) now])"

definition PROMPT_BUSY :: js_string where
  "PROMPT_BUSY = str ''Agent is already processing a prompt. Use steer() or followUp() to queue messages, ''
     @ str ''or wait for completion.''"

definition prompt :: "'o agent_setup \<Rightarrow> prompt_input \<Rightarrow> ('o agent_world, unit) loop_action" where
  "prompt su input =
     act_bind (act_get aw_agent) (\<lambda>a.
       if ag_activeRun a \<noteq> None then act_throw PROMPT_BUSY
       else act_bind
              (case input of
                 PromptText text images \<Rightarrow> act_call (\<lambda>w. apfst Inr (env_now (su_env su) w))
               | PromptMessages ms \<Rightarrow> act_return None) (\<lambda>now.
            runPromptMessages su (normalizePromptInput input now) False))"

fun is_assistant_role :: "agent_message \<Rightarrow> bool" where
  "is_assistant_role (AssistantMsg m) = True"
| "is_assistant_role _ = False"

definition continue_agent :: "'o agent_setup \<Rightarrow> ('o agent_world, unit) loop_action" where
  "continue_agent su =
     act_bind (act_get aw_agent) (\<lambda>a.
       if ag_activeRun a \<noteq> None
       then act_throw (str ''Agent is already processing. Wait for completion before continuing.'')
       else if ag_messages a = [] then act_throw (str ''No messages to continue from'')
       else if is_assistant_role (last (ag_messages a))
       then (case drain (ag_steeringQueue a) of
               (steering, q) \<Rightarrow>
                 act_then (act_agent (ag_steeringQueue_update (\<lambda>_. q)))
                 (if steering \<noteq> [] then runPromptMessages su steering True
                  else (case drain (ag_followUpQueue a) of
                          (followUps, q') \<Rightarrow>
                            act_then (act_agent (ag_followUpQueue_update (\<lambda>_. q')))
                            (if followUps \<noteq> [] then runPromptMessages su followUps False
                             else act_throw (str ''Cannot continue from message role: assistant'')))))
       else runContinuation su)"

end
