(* ===== verification/AgentProps.thy ===== *)
theory AgentProps
  imports Agent AgentWalk AgentLoopProps
begin

text \<open>
  The agent's state follows from the events of its runs: the transcript grows by exactly the
  messages whose end was announced, and after a run, whether it succeeded or failed, the agent is
  idle again.
\<close>

subsection \<open>What hooks, tools and listeners may do\<close>

definition by_calls :: "'o agent_world \<Rightarrow> 'o agent_world \<Rightarrow> bool" where
  "by_calls w w' \<longleftrightarrow> (\<exists>cs. aw_agent w' = fold agent_call cs (aw_agent w))"

definition calls_only :: "('o agent_world \<Rightarrow> 'a \<times> 'o agent_world) \<Rightarrow> bool" where
  "calls_only f \<longleftrightarrow> (\<forall>w. by_calls w (snd (f w)))"

definition hook_calls_only :: "('x \<Rightarrow> 'o agent_world \<Rightarrow> 'a \<times> 'o agent_world) option \<Rightarrow> bool" where
  "hook_calls_only h \<longleftrightarrow> (case h of None \<Rightarrow> True | Some f \<Rightarrow> \<forall>x. calls_only (f x))"

definition tool_calls_only :: "'o agent_world agent_tool \<Rightarrow> bool" where
  "tool_calls_only t \<longleftrightarrow> (\<forall>i tcid args. calls_only (at_execute t i tcid args))"

text \<open>
  Everything around the agent changes it through its public calls only: it may steer, queue
  follow-ups, clear the queues, set their modes and abort, but it does not reset the agent or
  assign its state during a run.
\<close>

definition env_calls_only :: "'o agent_world loop_env \<Rightarrow> bool" where
  "env_calls_only env \<longleftrightarrow>
     (\<forall>m l c k. calls_only (env_stream env m l c k)) \<and> calls_only (env_next env) \<and>
     calls_only (env_result env) \<and> calls_only (env_now env) \<and> calls_only (env_pick env)"

definition listener_calls_only :: "'o listener \<Rightarrow> bool" where
  "listener_calls_only listener \<longleftrightarrow> (\<forall>l e b. calls_only (\<lambda>w. ((), listener l e b w)))"

definition setup_calls_only :: "'o agent_setup \<Rightarrow> bool" where
  "setup_calls_only su \<longleftrightarrow>
     env_calls_only (su_env su) \<and> listener_calls_only (su_listener su) \<and>
     list_all tool_calls_only (su_tools su) \<and> hook_calls_only (su_convertToLlm su) \<and>
     hook_calls_only (su_transformContext su) \<and> hook_calls_only (su_getApiKey su) \<and>
     hook_calls_only (su_beforeToolCall su) \<and> hook_calls_only (su_afterToolCall su) \<and>
     hook_calls_only (su_onControlPlanePrompt su) \<and>
     (case su_prepareNextTurn su of None \<Rightarrow> True
      | Some f \<Rightarrow> calls_only f \<and>
          (\<forall>w t c. fst (f w) = Inr (Some t) \<and> tu_context t = Some c \<longrightarrow> list_all tool_calls_only (context_tools c)))"

subsection \<open>The state as a fold over the events\<close>

text \<open>The part of the state that the public calls do not touch.\<close>

definition derived where
  "derived a = (ag_messages a, ag_streamingMessage a, ag_pendingToolCalls a, ag_errorMessage a,
     ag_isStreaming a, ag_listeners a, ag_activeRun a = None)"

lemma derived_call [simp]: "derived (agent_call c a) = derived a"
  by (cases c) (auto simp: derived_def abort_run_def split: option.splits)

lemma derived_calls [simp]: "derived (fold agent_call cs a) = derived a"
  by (induction cs arbitrary: a) simp_all

lemma derived_reduce: "derived a = derived b \<Longrightarrow> derived (reduce e a) = derived (reduce e b)"
proof (cases e)
  case (TurnEnd m rs)
  assume "derived a = derived b"
  then show ?thesis
    using TurnEnd by (simp add: derived_def split: option.split)
qed (simp_all add: derived_def)

lemma derived_reduce_all: "derived a = derived b \<Longrightarrow> derived (fold reduce es a) = derived (fold reduce es b)"
proof (induction es arbitrary: a b)
  case (Cons e es)
  show ?case using Cons.IH [OF derived_reduce [OF Cons.prems]] by simp
qed simp

definition follows :: "('o agent_world, agent_event) eff_state \<Rightarrow> ('o agent_world, agent_event) eff_state \<Rightarrow> bool" where
  "follows s s' \<longleftrightarrow> (\<exists>es. events s' = events s @ es \<and>
     derived (aw_agent (world s')) = derived (fold reduce es (aw_agent (world s))))"

interpretation fl: loop_relation follows
proof
  show "follows s s" for s :: "('o agent_world, agent_event) eff_state"
    by (auto simp: follows_def intro: exI [of _ "[]"])
  show "follows s s''" if st: "follows s s'" "follows s' s''"
    for s s' s'' :: "('o agent_world, agent_event) eff_state"
  proof -
    obtain es where es: "events s' = events s @ es"
      "derived (aw_agent (world s')) = derived (fold reduce es (aw_agent (world s)))"
      using st(1) by (auto simp: follows_def)
    obtain fs where fs: "events s'' = events s' @ fs"
      "derived (aw_agent (world s'')) = derived (fold reduce fs (aw_agent (world s')))"
      using st(2) by (auto simp: follows_def)
    have "derived (aw_agent (world s'')) = derived (fold reduce (es @ fs) (aw_agent (world s)))"
      using fs(2) derived_reduce_all [OF es(2), of fs] by simp
    then show ?thesis unfolding follows_def using es(1) fs(1) by (intro exI [of _ "es @ fs"]) simp
  qed
qed

lemma follows_same: "derived (aw_agent w) = derived (aw_agent (world s)) \<Longrightarrow> follows s (s\<lparr>world := w\<rparr>)"
  by (auto simp: follows_def intro: exI [of _ "[]"])

lemma calls_derived: "calls_only f \<Longrightarrow> derived (aw_agent (snd (f w))) = derived (aw_agent w)"
  unfolding calls_only_def by_calls_def by (metis derived_calls)

lemma follows_call: "calls_only f \<Longrightarrow> keeps follows (act_call f)"
  by (auto simp: keeps_def wp_call split: prod.splits intro!: follows_same)
    (metis calls_derived snd_conv)

lemma follows_pure: "calls_only f \<Longrightarrow> keeps follows (act_call (pure_call f))"
  by (rule follows_call) (simp add: calls_only_def pure_call_def)

lemma listeners_derived:
  assumes "listener_calls_only listener"
  shows "derived (aw_agent (fold (\<lambda>l w'. listener l e (run_aborted w') w') ls w)) = derived (aw_agent w)"
proof (induction ls arbitrary: w)
  case (Cons l ls)
  have "derived (aw_agent (listener l e (run_aborted w) w)) = derived (aw_agent w)"
    using assms calls_derived [of "\<lambda>w. ((), listener l e b w)" w for b]
    by (simp add: listener_calls_only_def)
  then show ?case using Cons.IH by simp
qed simp

lemma processEvents_derived:
  assumes "listener_calls_only listener"
  shows "derived (aw_agent (processEvents listener e w)) = derived (reduce e (aw_agent w))"
  by (simp add: processEvents_def Let_def listeners_derived [OF assms] on_agent_def)

lemma follows_emit:
  assumes "listener_calls_only listener"
  shows "keeps follows (emit (agent_env listener env) e)"
  by (auto simp: keeps_def wp_emit_phase follows_def agent_env_def processEvents_derived [OF assms]
      intro!: exI [of _ "[e]"])

lemma follows_env:
  assumes "setup_calls_only su"
  shows "env_keeps follows (agent_env (su_listener su) (su_env su))"
  using assms
  by (auto simp: env_keeps_def setup_calls_only_def env_calls_only_def intro!: follows_emit)
    (auto simp: agent_env_def intro: follows_call follows_pure)

lemma follows_tools: "list_all tool_calls_only ts \<Longrightarrow> list_all (tool_keeps follows) ts"
  by (auto simp: list_all_iff tool_calls_only_def tool_keeps_def intro: follows_pure)

lemma follows_context:
  "setup_calls_only su \<Longrightarrow> context_keeps follows (createContextSnapshot (su_tools su) a)"
  by (simp add: setup_calls_only_def context_keeps_def createContextSnapshot_def context_tools_def follows_tools)

lemma drain_derived:
  "derived (aw_agent (snd (drain_steering w))) = derived (aw_agent w)"
  "derived (aw_agent (snd (drain_followUp w))) = derived (aw_agent w)"
  by (simp_all add: drain_steering_def drain_followUp_def on_agent_def derived_def Let_def split: prod.split)

lemma follows_drain:
  "keeps follows (act_call drain_steering)" "keeps follows (act_call drain_followUp)"
  by (auto simp: keeps_def wp_call split: prod.splits intro!: follows_same) (metis drain_derived snd_conv)+

lemma follows_hook: "hook_calls_only h \<Longrightarrow> hook_keeps follows h"
  by (auto simp: hook_calls_only_def hook_keeps_def intro: follows_call split: option.splits)

lemma follows_config:
  assumes "setup_calls_only su"
  shows "config_keeps follows (createLoopConfig su a)"
proof -
  have "keeps follows (act_call (cfg_convertToLlm (createLoopConfig su a) ms))" for ms
    using assms
    by (auto simp: createLoopConfig_def setup_calls_only_def hook_calls_only_def calls_only_def by_calls_def
        intro!: follows_call exI [of _ "[]"] split: option.splits)
  moreover have "hook_keeps follows (cfg_prepareNextTurn (createLoopConfig su a)) \<and>
      (case cfg_prepareNextTurn (createLoopConfig su a) of None \<Rightarrow> True
       | Some f \<Rightarrow> \<forall>tx w u. fst (f tx w) = Inr u \<longrightarrow> update_keeps follows u)"
    using assms
    by (auto simp: createLoopConfig_def setup_calls_only_def hook_keeps_def update_keeps_def context_keeps_def
        intro!: follows_call follows_tools split: option.splits)
  ultimately show ?thesis
    using assms
    by (auto simp: config_keeps_def createLoopConfig_def setup_calls_only_def queue_keeps_def
        hook_keeps_def [of _ None] intro: follows_hook follows_drain)
qed

subsection \<open>Runs\<close>

lemma fold_reduce_messages: "ag_messages (fold reduce es a) = ag_messages a @ ended es"
proof (induction es rule: rev_induct)
  case (snoc e es)
  then show ?case by (cases e) (auto split: option.splits)
qed simp

lemma fold_reduce_snoc [simp]: "fold reduce (es @ [e]) a = reduce e (fold reduce es a)"
  by simp

lemma follows_start: "follows s s' \<Longrightarrow> events s = [] \<Longrightarrow>
    derived (aw_agent (world s')) = derived (fold reduce (events s') (aw_agent (world s)))"
  by (auto simp: follows_def)

text \<open>The failure is told to the listeners like a turn of one message.\<close>

definition failure_events :: "assistant_message \<Rightarrow> agent_event list" where
  "failure_events m = [MessageStart (AssistantMsg m), MessageEnd (AssistantMsg m), TurnEnd (AssistantMsg m) [],
     AgentEnd [AssistantMsg m]]"

definition run_events :: "agent_event list \<Rightarrow> bool" where
  "run_events es \<longleftrightarrow>
     phase_of es = Some Finished \<and> last es = AgentEnd (ended es) \<or>
     (\<exists>fs m. es = fs @ failure_events m \<and> phase_of fs \<notin> {None, Some Finished} \<and>
        a_stopReason m \<in> {StopError, StopAborted})"

lemma follows_failure:
  assumes "setup_calls_only su"
  shows "keeps follows (handleRunFailure (agent_env (su_listener su) (su_env su)) msg aborted)"
  using follows_env [OF assms]
  by (auto simp: handleRunFailure_def Let_def env_keeps_def intro!: fl.keeps_rules)

lemma failure_run_events:
  assumes "unfinished_run s"
  shows "wp (handleRunFailure env msg aborted) (\<lambda>r s'. r = Inr () \<and> run_events (events s')) s"
  using assms
  by (auto simp: handleRunFailure_def wp_rules Let_def apfst_def map_prod_def run_events_def failure_events_def
      unfinished_run_def failure_message_def split: prod.splits
      intro!: exI [of _ "events s"] exI [of _ "failure_message a msg aborted now" for a now])

definition idle :: "agent \<Rightarrow> bool" where
  "idle a \<longleftrightarrow> ag_activeRun a = None \<and> \<not> ag_isStreaming a \<and> ag_streamingMessage a = None \<and> ag_pendingToolCalls a = {}"

text \<open>The last error message that the turns of a run announced.\<close>

fun note_error :: "agent_event \<Rightarrow> js_string option \<Rightarrow> js_string option" where
  "note_error (TurnEnd m rs) acc = (case turn_error m of Some e \<Rightarrow> Some e | None \<Rightarrow> acc)"
| "note_error _ acc = acc"

definition run_error :: "agent_event list \<Rightarrow> js_string option" where
  "run_error es = fold note_error es None"

lemma fold_reduce_error: "ag_errorMessage (fold reduce es a) = fold note_error es (ag_errorMessage a)"
proof (induction es rule: rev_induct)
  case (snoc e es)
  then show ?case by (cases e) (auto split: option.splits)
qed simp

lemma fold_reduce_listeners: "ag_listeners (fold reduce es a) = ag_listeners a"
proof (induction es rule: rev_induct)
  case (snoc e es)
  then show ?case by (cases e) (auto split: option.splits)
qed simp

definition run_post :: "agent \<Rightarrow> unit thrown \<Rightarrow> ('o agent_world, agent_event) eff_state \<Rightarrow> bool" where
  "run_post a r s \<longleftrightarrow>
     r = Inr () \<and> run_events (events s) \<and> idle (aw_agent (world s)) \<and>
     ag_messages (aw_agent (world s)) = ag_messages a @ ended (events s) \<and>
     ag_errorMessage (aw_agent (world s)) = run_error (events s) \<and>
     ag_listeners (aw_agent (world s)) = ag_listeners a"

lemma run_post_finish:
  fixes s :: "('o agent_world, agent_event) eff_state"
  assumes "follows s1 s" "events s1 = []" "aw_agent (world s1) = start_run skip a" "run_events (events s)"
  shows "run_post a (Inr ()) (s\<lparr>world := on_agent finishRun (world s)\<rparr>)"
proof -
  have "derived (aw_agent (world s)) = derived (fold reduce (events s) (start_run skip a))"
    using follows_start [OF assms(1,2)] assms(3) by simp
  then have "ag_messages (aw_agent (world s)) = ag_messages a @ ended (events s)"
      "ag_errorMessage (aw_agent (world s)) = run_error (events s)"
      "ag_listeners (aw_agent (world s)) = ag_listeners a"
    by (auto simp: derived_def fold_reduce_messages fold_reduce_error fold_reduce_listeners run_error_def start_run_def)
  then show ?thesis using assms(4) by (simp add: run_post_def on_agent_def finishRun_def idle_def)
qed

lemma wp_runWithLifecycle:
  fixes s :: "('o agent_world, agent_event) eff_state"
  assumes su: "setup_calls_only su" and idle: "ag_activeRun (aw_agent (world s)) = None" and start: "events s = []"
    and ex: "keeps follows (executor (start_run skip (aw_agent (world s))))"
    and post: "\<And>s1. events s1 = [] \<Longrightarrow> wp (executor (start_run skip (aw_agent (world s)))) loop_post s1"
  shows "wp (runWithLifecycle (agent_env (su_listener su) (su_env su)) skip executor) (run_post (aw_agent (world s))) s"
proof -
  let ?a = "start_run skip (aw_agent (world s))" and ?env = "agent_env (su_listener su) (su_env su)"
  let ?s1 = "s\<lparr>world := on_agent (start_run skip) (world s)\<rparr>"
  let ?Q = "\<lambda>r s'. r = Inr () \<and> follows ?s1 s' \<and> run_events (events s')"
  have ok: "?Q (Inr ()) s'" if "loop_post (Inr x) s'" "follows ?s1 s'" for x s'
    using that by (auto simp: loop_post_def at_phase_def run_events_def) (metis last_snoc)
  have failed: "wp (act_bind (act_get run_aborted) (handleRunFailure ?env msg)) ?Q s'"
    if un: "unfinished_run s'" and fw: "follows ?s1 s'" for msg and s' :: "('o agent_world, agent_event) eff_state"
    unfolding wp_bind wp_get sum.case
    by (rule wp_mono [OF wp_conj [OF failure_run_events [OF un] fl.wp_after [OF follows_failure [OF su] fw]]]) simp
  have "wp (act_bind (executor ?a) (\<lambda>_. act_return ())) (\<lambda>r s'. case r of
      Inl msg \<Rightarrow> unfinished_run s' \<and> follows ?s1 s' | Inr _ \<Rightarrow> ?Q (Inr ()) s') ?s1"
    unfolding wp_bind
    by (rule wp_mono [OF wp_conj [OF post fl.wp_after [OF ex fl.R_refl]]])
      (use start ok in \<open>auto simp: wp_return loop_post_def split: sum.splits\<close>)
  then have "wp (act_catch (act_bind (executor ?a) (\<lambda>_. act_return ()))
      (\<lambda>msg. act_bind (act_get run_aborted) (handleRunFailure ?env msg))) ?Q ?s1"
    unfolding wp_catch by (rule wp_mono) (auto intro!: failed split: sum.splits)
  moreover have "run_post (aw_agent (world s)) (Inr ()) (s'\<lparr>world := on_agent finishRun (world s')\<rparr>)"
    if "follows ?s1 s'" "run_events (events s')" for s'
    by (rule run_post_finish [OF that(1) _ _ that(2)]) (simp_all add: start on_agent_def)
  ultimately show ?thesis
    unfolding runWithLifecycle_def act_agent_def
    by (simp add: wp_bind [of "act_get _"] wp_get wp_then [of "act_call _"] wp_call idle wp_then [of "act_catch _ _"])
      (erule wp_mono, auto simp: wp_call)
qed

lemma wp_runPromptMessages:
  fixes s :: "('o agent_world, agent_event) eff_state"
  assumes "setup_calls_only su" "ag_activeRun (aw_agent (world s)) = None" "events s = []"
  shows "wp (runPromptMessages su ms skip) (run_post (aw_agent (world s))) s"
  unfolding runPromptMessages_def Let_def
  by (rule wp_runWithLifecycle [OF assms])
    (auto intro: fl.keeps_runAgentLoop follows_env follows_config follows_context wp_runAgentLoop assms(1))

lemma wp_runContinuation:
  fixes s :: "('o agent_world, agent_event) eff_state"
  assumes "setup_calls_only su" "ag_activeRun (aw_agent (world s)) = None" "events s = []"
    "ag_messages (aw_agent (world s)) \<noteq> []"
  shows "wp (runContinuation su) (run_post (aw_agent (world s))) s"
  unfolding runContinuation_def Let_def
  by (rule wp_runWithLifecycle [OF assms(1-3)])
    (use assms(4) in \<open>auto intro!: fl.keeps_runAgentLoopContinue follows_env [OF assms(1)]
        follows_config [OF assms(1)] follows_context [OF assms(1)] wp_runAgentLoopContinue\<close>,
      simp add: createContextSnapshot_def start_run_def)

definition settled_run ::
  "agent \<Rightarrow> unit thrown \<Rightarrow> ('o agent_world, agent_event) eff_state \<Rightarrow> bool" where
  "settled_run a r s \<longleftrightarrow> run_post a r s \<or> (\<exists>msg. r = Inl msg) \<and> events s = [] \<and> derived (aw_agent (world s)) = derived a"

lemma run_post_derived: "run_post a r s \<Longrightarrow> derived b = derived a \<Longrightarrow> run_post b r s"
  by (simp add: run_post_def derived_def)

lemma wp_prompt:
  fixes s :: "('o agent_world, agent_event) eff_state"
  assumes "setup_calls_only su" "ag_activeRun (aw_agent (world s)) = None" "events s = []"
  shows "wp (prompt su input) (run_post (aw_agent (world s))) s"
proof -
  have "wp (runPromptMessages su ms False) (run_post (aw_agent (world s))) (s\<lparr>world := w\<rparr>)"
    if "derived (aw_agent w) = derived (aw_agent (world s))" for ms w
  proof (rule wp_mono [OF wp_runPromptMessages [OF assms(1)]])
    show "ag_activeRun (aw_agent (world (s\<lparr>world := w\<rparr>))) = None" using that assms(2) by (simp add: derived_def)
    show "run_post (aw_agent (world s)) r s'" if "run_post (aw_agent (world (s\<lparr>world := w\<rparr>))) r s'" for r s'
      using run_post_derived [OF that] \<open>derived (aw_agent w) = _\<close> by simp
  qed (simp add: assms(3))
  moreover have "derived (aw_agent (snd (env_now (su_env su) w))) = derived (aw_agent w)" for w
    using assms(1) by (intro calls_derived) (simp add: setup_calls_only_def env_calls_only_def)
  ultimately show ?thesis
    unfolding prompt_def wp_bind [of "act_get _"] wp_get sum.case
    using assms(2) wp_runPromptMessages [OF assms]
    by (auto simp: wp_bind wp_call wp_return pure_call_def apfst_def map_prod_def split: prompt_input.splits prod.splits)
      (metis snd_conv)
qed

lemma wp_continue_agent:
  fixes s :: "('o agent_world, agent_event) eff_state"
  assumes "setup_calls_only su" "ag_activeRun (aw_agent (world s)) = None" "events s = []"
  shows "wp (continue_agent su) (settled_run (aw_agent (world s))) s"
proof -
  let ?a = "aw_agent (world s)"
  have run: "wp (runPromptMessages su ms skip) (settled_run ?a) (s\<lparr>world := w\<rparr>)"
    if "derived (aw_agent w) = derived ?a" for ms skip w
  proof (rule wp_mono [OF wp_runPromptMessages [OF assms(1)]])
    show "ag_activeRun (aw_agent (world (s\<lparr>world := w\<rparr>))) = None" using that assms(2) by (simp add: derived_def)
    show "settled_run ?a r s'" if "run_post (aw_agent (world (s\<lparr>world := w\<rparr>))) r s'" for r s'
      using run_post_derived [OF that] \<open>derived (aw_agent w) = _\<close> by (simp add: settled_run_def)
  qed (simp add: assms(3))
  have drained: "derived (ag_steeringQueue_update f a) = derived a" "derived (ag_followUpQueue_update f a) = derived a" for f a
    by (simp_all add: derived_def)
  have cont: "wp (runContinuation su) (settled_run ?a) s" if "ag_messages ?a \<noteq> []"
    by (rule wp_mono [OF wp_runContinuation [OF assms that]]) (simp add: settled_run_def)
  show ?thesis
    unfolding continue_agent_def wp_bind [of "act_get _"] wp_get sum.case act_agent_def
    using assms(2,3) cont
    by (auto simp: wp_then wp_call wp_throw settled_run_def [of _ "Inl _"] drained on_agent_def intro!: run
        split: prod.split)
qed


text \<open>
  Continuing follows the same rules: from an idle agent it either rejects, without an event and
  with nothing but the queues changed, or runs to an idle agent whose transcript has grown by the
  messages whose end was announced.
\<close>

lemma agent_continue_settles:
  assumes "setup_calls_only su" "ag_activeRun (aw_agent w) = None"
    and "continue_agent su \<lparr>world = w, events = []\<rparr> = Some (r, s)"
  shows "case r of
      Inr u \<Rightarrow> run_events (events s) \<and> idle (aw_agent (world s)) \<and>
        ag_messages (aw_agent (world s)) = ag_messages (aw_agent w) @ ended (events s)
    | Inl msg \<Rightarrow> events s = [] \<and> derived (aw_agent (world s)) = derived (aw_agent w)"
  using wp_continue_agent [OF assms(1), of "\<lparr>world = w, events = []\<rparr>"] assms(2,3)
  by (auto simp: wp_def settled_run_def run_post_def)

text \<open>An agent whose provider rejects every request.\<close>

definition refusing_env :: "unit agent_world loop_env" where
  "refusing_env = \<lparr>env_stream = (\<lambda>m l c k w. (Inl (str ''no key''), w)),
     env_next = (\<lambda>w. (PulledDone, w)), env_result = (\<lambda>w. (Inl [], w)), env_aborted = (\<lambda>w. False),
     env_now = (\<lambda>w. (None, w)), env_sha256 = (\<lambda>s. []), env_pick = (\<lambda>w. (0, w)), env_sink = (\<lambda>e w. w)\<rparr>"

definition refusing_setup :: "unit agent_setup" where
  "refusing_setup = \<lparr>su_env = refusing_env, su_listener = (\<lambda>l e b. on_agent (agent_call (FollowUp demo_prompt))),
     su_tools = [], su_convertToLlm = None, su_transformContext = None, su_getApiKey = None,
     su_beforeToolCall = None, su_afterToolCall = None, su_onControlPlanePrompt = None,
     su_prepareNextTurn = None, su_toolExecution = None\<rparr>"

definition fresh_world :: "unit agent_world" where
  "fresh_world = \<lparr>aw_agent = subscribe 0 (new_Agent \<lparr>ao_systemPrompt = None, ao_model = None,
     ao_thinkingLevel = None, ao_messages = None, ao_steeringMode = None, ao_followUpMode = None\<rparr>),
     aw_outside = ()\<rparr>"

lemma refusing_calls: "setup_calls_only refusing_setup"
  by (auto simp: setup_calls_only_def refusing_setup_def refusing_env_def env_calls_only_def hook_calls_only_def
      listener_calls_only_def calls_only_def by_calls_def on_agent_def
      intro: exI [of _ "[]"] exI [of _ "[FollowUp demo_prompt]"])

definition resumed_world :: "unit agent_world" where
  "resumed_world = on_agent (ag_messages_update (\<lambda>_. [demo_prompt])) fresh_world"

lemmas refusing_defs = runPromptMessages_def runWithLifecycle_def handleRunFailure_def runAgentLoop_def
  runLoop_def queued_messages_def announce_message_def loop_turn_def
  streamAssistantResponse_def act_agent_def action_eval refusing_setup_def refusing_env_def fresh_world_def
  new_Agent_def subscribe_def or_default_def new_pending_queue_def agent_env_def createLoopConfig_def
  createContextSnapshot_def normalizePromptInput_def start_run_def drain_steering_def drain_def
  defaultConvertToLlm_def processEvents_def on_agent_def run_aborted_def enqueue_def finishRun_def
  failure_message_def DEFAULT_MODEL_def demo_prompt_def runContinuation_def runAgentLoopContinue_def

lemma refusing_run:
  "\<exists>s. prompt refusing_setup (PromptMessages [demo_prompt]) \<lparr>world = fresh_world, events = []\<rparr> = Some (Inr (), s) \<and>
     length (events s) = 8"
  by (simp add: prompt_def act_loop.simps refusing_defs)

lemma refusing_continuation:
  "\<exists>s. continue_agent refusing_setup \<lparr>world = resumed_world, events = []\<rparr> = Some (Inr (), s) \<and>
     length (events s) = 6"
  by (simp add: continue_agent_def resumed_world_def act_loop.simps refusing_defs)

lemma fresh_idle:
  "ag_activeRun (aw_agent fresh_world) = None" "ag_activeRun (aw_agent resumed_world) = None"
  "ag_messages (aw_agent fresh_world) = []" "ag_messages (aw_agent resumed_world) = [demo_prompt]"
  by (simp_all add: fresh_world_def resumed_world_def subscribe_def new_Agent_def on_agent_def or_default_def)


lemma agent_continue_example:
  "\<exists>s :: (unit agent_world, agent_event) eff_state. length (events s) = 6 \<and> run_events (events s) \<and>
     idle (aw_agent (world s)) \<and> ag_messages (aw_agent (world s)) = demo_prompt # ended (events s)"
proof -
  obtain s where s: "continue_agent refusing_setup \<lparr>world = resumed_world, events = []\<rparr> = Some (Inr (), s)"
      "length (events s) = 6"
    using refusing_continuation by blast
  then show ?thesis
    using agent_continue_settles [OF refusing_calls fresh_idle(2) s(1)] by (auto simp: fresh_idle)
qed

end
