(* ===== verification/EventStream.thy ===== *)
theory EventStream
  imports Prelude
begin

text \<open>
  \<open>packages/ai/src/utils/event-stream.ts\<close>: the stream between a producer of events and the readers
  of its iterators.  A reader that waits is named by a number; the operations return what the
  readers get.  \<open>isComplete\<close> and \<open>extractResult\<close> are the arguments of the constructor.
\<close>

subsection \<open>The stream\<close>

record ('e, 'r) event_stream =
  es_queue :: "'e list"
  es_waiting :: "nat list"
  es_done :: bool
  es_result :: "'r option"                  \<comment> \<open>what \<open>finalResultPromise\<close> was resolved to\<close>

datatype 'e delivery = Yielded nat 'e | Ended nat

definition new_EventStream :: "('e, 'r) event_stream" where
  "new_EventStream = \<lparr>es_queue = [], es_waiting = [], es_done = False, es_result = None\<rparr>"

text \<open>A promise is resolved once; later calls have no effect.\<close>

definition resolve_result :: "'r \<Rightarrow> ('e, 'r) event_stream \<Rightarrow> ('e, 'r) event_stream" where
  "resolve_result r st = (case es_result st of None \<Rightarrow> st\<lparr>es_result := Some r\<rparr> | Some _ \<Rightarrow> st)"

definition stream_push ::
  "('e \<Rightarrow> bool) \<Rightarrow> ('e \<Rightarrow> 'r) \<Rightarrow> 'e \<Rightarrow> ('e, 'r) event_stream \<Rightarrow> ('e, 'r) event_stream \<times> 'e delivery list" where
  "stream_push isComplete extractResult e st =
     (if es_done st then (st, [])
      else (let st1 = (if isComplete e then resolve_result (extractResult e) (st\<lparr>es_done := True\<rparr>) else st)
            in case es_waiting st1 of
                 w # ws \<Rightarrow> (st1\<lparr>es_waiting := ws\<rparr>, [Yielded w e])
               | [] \<Rightarrow> (st1\<lparr>es_queue := es_queue st1 @ [e]\<rparr>, [])))"

definition stream_end :: "'r option \<Rightarrow> ('e, 'r) event_stream \<Rightarrow> ('e, 'r) event_stream \<times> 'e delivery list" where
  "stream_end result st =
     (let st1 = st\<lparr>es_done := True\<rparr>;
          st2 = (case result of None \<Rightarrow> st1 | Some r \<Rightarrow> resolve_result r st1)
      in (st2\<lparr>es_waiting := []\<rparr>, map Ended (es_waiting st2)))"

text \<open>One round of the iterator of the reader \<open>n\<close>.\<close>

definition stream_next :: "nat \<Rightarrow> ('e, 'r) event_stream \<Rightarrow> ('e, 'r) event_stream \<times> 'e delivery list" where
  "stream_next n st =
     (case es_queue st of
        e # q \<Rightarrow> (st\<lparr>es_queue := q\<rparr>, [Yielded n e])
      | [] \<Rightarrow> if es_done st then (st, [Ended n])
              else (st\<lparr>es_waiting := es_waiting st @ [n]\<rparr>, []))"

subsection \<open>Runs\<close>

datatype ('e, 'r) producer_call = PPush 'e | PEnd "'r option"

text \<open>A producer's calls, with the rounds of readers at any time between them.\<close>

inductive stream_run ::
  "('e \<Rightarrow> bool) \<Rightarrow> ('e \<Rightarrow> 'r) \<Rightarrow> ('e, 'r) producer_call list \<Rightarrow> ('e, 'r) event_stream \<Rightarrow> 'e delivery list \<Rightarrow> bool"
  for isComplete :: "'e \<Rightarrow> bool" and extractResult :: "'e \<Rightarrow> 'r" where
  start: "stream_run isComplete extractResult [] new_EventStream []"
| push: "stream_run isComplete extractResult cs st ds \<Longrightarrow> stream_push isComplete extractResult e st = (st', new) \<Longrightarrow>
    stream_run isComplete extractResult (cs @ [PPush e]) st' (ds @ new)"
| ends: "stream_run isComplete extractResult cs st ds \<Longrightarrow> stream_end r st = (st', new) \<Longrightarrow>
    stream_run isComplete extractResult (cs @ [PEnd r]) st' (ds @ new)"
| read: "stream_run isComplete extractResult cs st ds \<Longrightarrow> stream_next n st = (st', new) \<Longrightarrow>
    stream_run isComplete extractResult cs st' (ds @ new)"

fun yielded :: "'e delivery list \<Rightarrow> 'e list" where
  "yielded [] = []"
| "yielded (Yielded n e # ds) = e # yielded ds"
| "yielded (Ended n # ds) = yielded ds"

lemma yielded_append [simp]: "yielded (xs @ ys) = yielded xs @ yielded ys"
  by (induction xs rule: yielded.induct) auto

lemma yielded_Ended [simp]: "yielded (map Ended ns) = []"
  by (induction ns) auto

text \<open>What the stream takes from its producer: everything until it is done.\<close>

definition finishes :: "('e \<Rightarrow> bool) \<Rightarrow> ('e, 'r) producer_call \<Rightarrow> bool" where
  "finishes isComplete c = (case c of PPush e \<Rightarrow> isComplete e | PEnd r \<Rightarrow> True)"

fun accepted :: "('e \<Rightarrow> bool) \<Rightarrow> bool \<Rightarrow> ('e, 'r) producer_call list \<Rightarrow> 'e list" where
  "accepted isComplete over [] = []"
| "accepted isComplete over (PPush e # cs) =
     (if over then accepted isComplete over cs else e # accepted isComplete (isComplete e) cs)"
| "accepted isComplete over (PEnd r # cs) = accepted isComplete True cs"

text \<open>The result: what the first call that resolves the promise says.\<close>

fun stream_result :: "('e \<Rightarrow> bool) \<Rightarrow> ('e \<Rightarrow> 'r) \<Rightarrow> bool \<Rightarrow> ('e, 'r) producer_call list \<Rightarrow> 'r option" where
  "stream_result isComplete extractResult over [] = None"
| "stream_result isComplete extractResult over (PPush e # cs) =
     (if \<not> over \<and> isComplete e then Some (extractResult e) else stream_result isComplete extractResult over cs)"
| "stream_result isComplete extractResult over (PEnd (Some r) # cs) = Some r"
| "stream_result isComplete extractResult over (PEnd None # cs) = stream_result isComplete extractResult True cs"

lemma accepted_snoc:
  "accepted isComplete over (cs @ [c]) = accepted isComplete over cs @
     (case c of PPush e \<Rightarrow> if over \<or> list_ex (finishes isComplete) cs then [] else [e] | PEnd r \<Rightarrow> [])"
  by (induction isComplete over cs rule: accepted.induct) (auto simp: finishes_def split: producer_call.splits)

lemma stream_result_snoc:
  "stream_result isComplete extractResult over (cs @ [c]) =
     (case stream_result isComplete extractResult over cs of
        Some r \<Rightarrow> Some r
      | None \<Rightarrow> (case c of PPush e \<Rightarrow> if \<not> over \<and> \<not> list_ex (finishes isComplete) cs \<and> isComplete e
                                        then Some (extractResult e) else None
                 | PEnd r \<Rightarrow> r))"
proof (induction isComplete extractResult over cs rule: stream_result.induct)
  case (1 isComplete extractResult over)
  have "stream_result isComplete extractResult over [PEnd r] = r" for r by (cases r) simp_all
  then show ?case by (cases c) simp_all
qed (auto simp: finishes_def split: option.splits producer_call.splits)

text \<open>A reader never waits beside an event, and nobody waits once the stream has ended.\<close>

definition event_stream_inv ::
  "('e \<Rightarrow> bool) \<Rightarrow> ('e \<Rightarrow> 'r) \<Rightarrow> ('e, 'r) producer_call list \<Rightarrow> ('e, 'r) event_stream \<Rightarrow> 'e delivery list \<Rightarrow> bool" where
  "event_stream_inv isComplete extractResult cs st ds \<longleftrightarrow>
     yielded ds @ es_queue st = accepted isComplete False cs \<and>
     (es_queue st \<noteq> [] \<longrightarrow> es_waiting st = []) \<and>
     es_done st = list_ex (finishes isComplete) cs \<and>
     es_result st = stream_result isComplete extractResult False cs"

lemma stream_run_inv:
  "stream_run isComplete extractResult cs st ds \<Longrightarrow> event_stream_inv isComplete extractResult cs st ds"
proof (induction rule: stream_run.induct)
  case start
  show ?case by (simp add: event_stream_inv_def new_EventStream_def)
next
  case (push cs st ds e st' new)
  then show ?case
    by (auto simp: event_stream_inv_def stream_push_def accepted_snoc stream_result_snoc resolve_result_def Let_def
        finishes_def split: if_splits list.splits option.splits)
next
  case (ends cs st ds r st' new)
  then show ?case
    by (auto simp: event_stream_inv_def stream_end_def accepted_snoc stream_result_snoc resolve_result_def Let_def
        finishes_def split: option.splits)
next
  case (read cs st ds n st' new)
  then show ?case
    by (auto simp: event_stream_inv_def stream_next_def split: list.splits if_splits)
qed

end
