(* ===== verification/AgentStream.thy ===== *)
theory AgentStream
  imports EventStream AgentLoopProps
begin

text \<open>
  The stream that \<open>agentLoop\<close> and \<open>agentLoopContinue\<close> of \<open>agent-loop.ts\<close> return: the events of the
  run as its producer, read at any time.
\<close>

definition agent_complete :: "agent_event \<Rightarrow> bool" where
  "agent_complete e = (case e of AgentEnd ms \<Rightarrow> True | _ \<Rightarrow> False)"

definition agent_messages_of :: "agent_event \<Rightarrow> agent_message list" where
  "agent_messages_of e = (case e of AgentEnd ms \<Rightarrow> ms | _ \<Rightarrow> [])"

type_synonym agent_producer = "(agent_event, agent_message list) producer_call list"

text \<open>The calls that the run makes on the stream; without a handler, a thrown error ends in none.\<close>

definition run_calls :: "agent_message list thrown \<Rightarrow> agent_event list \<Rightarrow> agent_producer" where
  "run_calls r es = map PPush es @ (case r of Inl msg \<Rightarrow> [] | Inr ms \<Rightarrow> [PEnd (Some ms)])"

definition agentLoop ::
  "'w loop_env \<Rightarrow> agent_message list \<Rightarrow> 'w agent_context \<Rightarrow> 'w agent_loop_config \<Rightarrow> 'w \<Rightarrow> agent_producer option" where
  "agentLoop env prompts ctx cfg w =
     (case runAgentLoop env prompts ctx cfg \<lparr>world = w, events = []\<rparr> of
        None \<Rightarrow> None
      | Some (r, s) \<Rightarrow> Some (run_calls r (events s)))"

definition agentLoopContinue ::
  "'w loop_env \<Rightarrow> 'w agent_context \<Rightarrow> 'w agent_loop_config \<Rightarrow> 'w \<Rightarrow> agent_producer thrown option" where
  "agentLoopContinue env ctx cfg w =
     (if ac_messages ctx = [] then Some (Inl NO_MESSAGES_ERROR)
      else (case runAgentLoopContinue env ctx cfg \<lparr>world = w, events = []\<rparr> of
              None \<Rightarrow> None
            | Some (r, s) \<Rightarrow> Some (Inr (run_calls r (events s)))))"

lemma event_step_Finished [simp]: "event_step Finished e = None"
  by (cases e) simp_all

lemma event_step_end: "event_step p e = Some q \<Longrightarrow> agent_complete e \<longleftrightarrow> q = Finished"
  by (cases "(p, e)" rule: event_step.cases) (auto simp: agent_complete_def split: if_splits)

lemma phase_complete:
  "phase_of es = Some p \<Longrightarrow> list_ex agent_complete es \<longleftrightarrow> p = Finished"
proof (induction es arbitrary: p rule: rev_induct)
  case (snoc e es)
  then obtain q where q: "phase_of es = Some q" "event_step q e = Some p"
    by (auto simp: bind_eq_Some_conv)
  then show ?case using snoc.IH [OF q(1)] event_step_end [OF q(2)] by auto
qed simp

lemma accepted_incomplete:
  "\<not> list_ex agent_complete es \<Longrightarrow> accepted agent_complete False (map PPush es @ cs) = es @ accepted agent_complete False cs"
  by (induction es) auto

lemma result_incomplete:
  "\<not> list_ex agent_complete es \<Longrightarrow>
     stream_result agent_complete agent_messages_of False (map PPush es @ cs) =
     stream_result agent_complete agent_messages_of False cs"
  by (induction es) auto

lemma finishes_push [simp]: "list_ex (finishes c) (map PPush es) = list_ex c es"
  by (induction es) (auto simp: finishes_def)

text \<open>A run that returns: all its events are taken, and the stream ends.\<close>

lemma returned_run:
  assumes "phase_of es = Some Finished" "es \<noteq> []" "last es = AgentEnd ms"
  shows "accepted agent_complete False (run_calls (Inr ms) es) = es"
    "stream_result agent_complete agent_messages_of False (run_calls (Inr ms) es) = Some ms"
    "list_ex (finishes agent_complete) (run_calls (Inr ms) es)"
proof -
  obtain fs where fs: "es = fs @ [AgentEnd ms]" using assms(2,3) by (metis append_butlast_last_id)
  obtain p where p: "phase_of fs = Some p" "event_step p (AgentEnd ms) = Some Finished"
    using assms(1) fs by (auto simp: bind_eq_Some_conv)
  then have "\<not> list_ex agent_complete fs"
    using phase_complete [OF p(1)] by (cases p) auto
  then show "accepted agent_complete False (run_calls (Inr ms) es) = es"
      "stream_result agent_complete agent_messages_of False (run_calls (Inr ms) es) = Some ms"
    by (simp_all add: run_calls_def fs accepted_incomplete result_incomplete agent_complete_def agent_messages_of_def)
  show "list_ex (finishes agent_complete) (run_calls (Inr ms) es)"
    by (simp add: run_calls_def finishes_def)
qed

text \<open>A run that throws: all its events are taken, and the stream does not end.\<close>

lemma thrown_run:
  assumes "phase_of es \<notin> {None, Some Finished}"
  shows "accepted agent_complete False (run_calls (Inl msg) es) = es"
    "stream_result agent_complete agent_messages_of False (run_calls (Inl msg) es) = None"
    "\<not> list_ex (finishes agent_complete) (run_calls (Inl msg) es)"
proof -
  have "\<not> list_ex agent_complete es" using assms phase_complete by auto
  then show "accepted agent_complete False (run_calls (Inl msg) es) = es"
      "stream_result agent_complete agent_messages_of False (run_calls (Inl msg) es) = None"
      "\<not> list_ex (finishes agent_complete) (run_calls (Inl msg) es)"
    using accepted_incomplete [of es "[]"] result_incomplete [of es "[]"]
    by (simp_all add: run_calls_def)
qed

lemma ended_streams:
  assumes "stream_run isComplete extractResult cs st ds"
  shows "(\<exists>n. Ended n \<in> set ds) \<longrightarrow> list_ex (finishes isComplete) cs"
  using assms
proof (induction rule: stream_run.induct)
  case (read cs st ds n st' new)
  then show ?case
    using stream_run_inv [OF read.hyps(1)]
    by (auto simp: stream_next_def event_stream_inv_def split: list.splits if_splits)
qed (auto simp: stream_push_def Let_def finishes_def split: list.splits if_splits)

text \<open>
  C16: the stream that \<open>agentLoop\<close> returns gives its readers exactly the events of the run, in order,
  however the reading and the run interleave.  When the run returns, the stream is done and its
  result is what the run returned.  When the run throws (an abort while a response is streamed
  does), the stream is never done: its result stays open and no reader is ever told that there is
  nothing more to come.
\<close>

theorem agent_stream_delivers:
  assumes "runAgentLoop env prompts ctx cfg \<lparr>world = w, events = []\<rparr> = Some (r, s)"
    and "agentLoop env prompts ctx cfg w = Some calls"
    and "stream_run agent_complete agent_messages_of calls st ds"
  shows "yielded ds @ es_queue st = events s \<and>
    (case r of
       Inr new \<Rightarrow> es_done st \<and> es_result st = Some new
     | Inl msg \<Rightarrow> \<not> es_done st \<and> es_result st = None \<and> (\<forall>n. Ended n \<notin> set ds))"
proof -
  have calls: "calls = run_calls r (events s)" using assms(1,2) by (simp add: agentLoop_def)
  have inv: "event_stream_inv agent_complete agent_messages_of calls st ds" by (rule stream_run_inv [OF assms(3)])
  have post: "loop_post r s"
    using wp_runAgentLoop [of "\<lparr>world = w, events = []\<rparr>" env prompts ctx cfg] assms(1) by (simp add: wp_def)
  show ?thesis
  proof (cases r)
    case (Inr new)
    then have "phase_of (events s) = Some Finished" "events s \<noteq> []" "last (events s) = AgentEnd new"
      using post by (auto simp: loop_post_def at_phase_def) (metis last_snoc)
    from returned_run [OF this] show ?thesis
      using inv by (simp add: calls Inr event_stream_inv_def)
  next
    case (Inl msg)
    then have "phase_of (events s) \<notin> {None, Some Finished}"
      using post by (auto simp: loop_post_def unfinished_run_def)
    from thrown_run [OF this, of msg] show ?thesis
      using inv ended_streams [OF assms(3)] by (auto simp: calls Inl event_stream_inv_def)
  qed
qed

text \<open>A run of the stream without reads.\<close>

lemma unread_stream:
  "\<exists>st. stream_run isComplete extractResult cs st [] \<and> es_waiting st = []"
proof (induction cs rule: rev_induct)
  case Nil
  then show ?case using stream_run.start by (fastforce simp: new_EventStream_def)
next
  case (snoc c cs)
  then obtain st where st: "stream_run isComplete extractResult cs st []" "es_waiting st = []" by blast
  show ?case
  proof (cases c)
    case (PPush e)
    have "snd (stream_push isComplete extractResult e st) = []"
        "es_waiting (fst (stream_push isComplete extractResult e st)) = []"
      using st(2) by (simp_all add: stream_push_def Let_def resolve_result_def split: option.split)
    then show ?thesis
      using stream_run.push [OF st(1) surjective_pairing [of "stream_push isComplete extractResult e st"]] PPush
      by auto
  next
    case (PEnd r)
    have "snd (stream_end r st) = []" "es_waiting (fst (stream_end r st)) = []"
      using st(2) by (simp_all add: stream_end_def Let_def resolve_result_def split: option.split)
    then show ?thesis
      using stream_run.ends [OF st(1) surjective_pairing [of "stream_end r st"]] PEnd by auto
  qed
qed

definition aborted_env :: "demo_world loop_env" where
  "aborted_env = demo_env\<lparr>env_aborted := (\<lambda>w. True)\<rparr>"

lemma aborted_env_simps [simp]:
  "env_stream aborted_env m l c k w = (Inr (), w)" "env_aborted aborted_env w" "env_sink aborted_env e w = w"
  by (simp_all add: aborted_env_def demo_env_def)

lemma aborted_run:
  "\<exists>s. runAgentLoop aborted_env [demo_prompt] demo_context demo_config \<lparr>world = ([], []), events = []\<rparr> =
     Some (Inl (str ''aborted''), s) \<and> length (events s) = 4"
  by (simp add: runAgentLoop_def runLoop_def queued_messages_def announce_message_def act_loop.simps
      loop_turn_def streamAssistantResponse_def stream_step_def action_eval)

theorem agent_stream_delivers_witness:
  "\<exists>calls st. stream_run agent_complete agent_messages_of calls st [] \<and>
     agentLoop aborted_env [demo_prompt] demo_context demo_config ([], []) = Some calls \<and>
     length (es_queue st) = 4 \<and> \<not> es_done st \<and> es_result st = None"
proof -
  obtain s where s: "runAgentLoop aborted_env [demo_prompt] demo_context demo_config
      \<lparr>world = ([], []), events = []\<rparr> = Some (Inl (str ''aborted''), s)" "length (events s) = 4"
    using aborted_run by blast
  then have a: "agentLoop aborted_env [demo_prompt] demo_context demo_config ([], []) =
      Some (run_calls (Inl (str ''aborted'')) (events s))"
    by (simp add: agentLoop_def)
  obtain st where st: "stream_run agent_complete agent_messages_of (run_calls (Inl (str ''aborted'')) (events s)) st []"
    using unread_stream by blast
  show ?thesis
    using agent_stream_delivers [OF s(1) a st] a st s(2) by fastforce
qed

end
