(* ===== verification/Utf8.thy ===== *)
theory Utf8
  imports Json Truncate "HOL-Library.Word"
begin

unbundle bit_operations_syntax

text \<open>
  Text that the harness shortens: \<open>truncateOnCharBoundary\<close>, \<open>previewForBanner\<close> and the two label
  caps of \<open>harness/agent-harness.ts\<close>.  The first works on the UTF-8 bytes of a \<open>Buffer\<close> (words of
  eight bits), the others on the code points that \<open>Array.from\<close> yields.  \<open>Buffer.from\<close> encodes an
  unpaired surrogate as U+FFFD; \<open>toString\<close> is only applied to a prefix that ends at a character,
  so the decoder needs no more than the well-formed sequences.
\<close>

type_synonym byte = "8 word"

subsection \<open>Characters and their encoding\<close>

text \<open>\<open>Array.from\<close>: a surrogate pair is one element.\<close>

fun chars :: "js_string \<Rightarrow> js_string list" where
  "chars [] = []"
| "chars (c # cs) =
     (if high_surrogate c \<and> starts_low cs then [c, hd cs] # chars (tl cs) else [c] # chars cs)"

fun code_point :: "js_string \<Rightarrow> nat" where
  "code_point [c] = (if high_surrogate c \<or> low_surrogate c then 0xfffd else c)"
| "code_point (c # d # _) = 0x10000 + (c - 0xd800) * 0x400 + (d - 0xdc00)"
| "code_point [] = 0"

definition utf8_char :: "nat \<Rightarrow> byte list" where
  "utf8_char p =
     (if p < 0x80 then [of_nat p]
      else if p < 0x800 then [of_nat (0xc0 + p div 0x40), of_nat (0x80 + p mod 0x40)]
      else if p < 0x10000 then
        [of_nat (0xe0 + p div 0x1000), of_nat (0x80 + p div 0x40 mod 0x40), of_nat (0x80 + p mod 0x40)]
      else
        [of_nat (0xf0 + p div 0x40000), of_nat (0x80 + p div 0x1000 mod 0x40),
         of_nat (0x80 + p div 0x40 mod 0x40), of_nat (0x80 + p mod 0x40)])"

definition utf8_encode :: "js_string \<Rightarrow> byte list" where
  "utf8_encode s = concat (map (\<lambda>ch. utf8_char (code_point ch)) (chars s))"

definition utf16_char :: "nat \<Rightarrow> js_string" where
  "utf16_char p =
     (if p < 0x10000 then [p]
      else [0xd800 + (p - 0x10000) div 0x400, 0xdc00 + (p - 0x10000) mod 0x400])"

definition tail_bits :: "byte \<Rightarrow> nat" where
  "tail_bits b = unat b - 0x80"

text \<open>The first character of a byte sequence and the rest.\<close>

fun utf8_next :: "byte list \<Rightarrow> nat \<times> byte list" where
  "utf8_next (a # bs) =
     (let n = unat a
      in if n < 0x80 then (n, bs)
         else if n < 0xe0 then
           (case bs of b # r \<Rightarrow> ((n - 0xc0) * 0x40 + tail_bits b, r) | _ \<Rightarrow> (0xfffd, []))
         else if n < 0xf0 then
           (case bs of
              b # c # r \<Rightarrow> ((n - 0xe0) * 0x1000 + tail_bits b * 0x40 + tail_bits c, r)
            | _ \<Rightarrow> (0xfffd, []))
         else
           (case bs of
              b # c # d # r \<Rightarrow>
                ((n - 0xf0) * 0x40000 + tail_bits b * 0x1000 + tail_bits c * 0x40 + tail_bits d, r)
            | _ \<Rightarrow> (0xfffd, [])))"
| "utf8_next [] = (0xfffd, [])"

function utf8_decode :: "byte list \<Rightarrow> js_string" where
  "utf8_decode bs =
     (if bs = [] then [] else (let (p, rest) = utf8_next bs in utf16_char p @ utf8_decode rest))"
  by pat_completeness auto

lemma utf8_next_shorter: "bs \<noteq> [] \<Longrightarrow> length (snd (utf8_next bs)) < length bs"
  by (cases bs) (auto simp: Let_def split: list.splits)

termination utf8_decode
  by (relation "measure length") (auto dest!: utf8_next_shorter simp: prod_eq_iff)

declare utf8_decode.simps [simp del]

subsection \<open>The caps of the harness\<close>

definition continuation_byte :: "byte \<Rightarrow> bool" where
  "continuation_byte b \<longleftrightarrow> b AND 0xc0 = 0x80"

text \<open>The loop that walks the cut back to the start of a character.\<close>

fun char_cut :: "byte list \<Rightarrow> nat \<Rightarrow> nat" where
  "char_cut buf 0 = 0"
| "char_cut buf (Suc n) = (if continuation_byte (buf ! Suc n) then char_cut buf n else Suc n)"

definition TRUNCATION_MARKER :: js_string where
  "TRUNCATION_MARKER = 0x2026 # str ''[truncated]''"

definition truncateOnCharBoundary :: "js_string \<Rightarrow> nat \<Rightarrow> js_string \<times> bool" where
  "truncateOnCharBoundary body capBytes =
     (let buf = utf8_encode body
      in if length buf \<le> capBytes then (body, False)
         else
           (let budget = capBytes - length (utf8_encode TRUNCATION_MARKER);
                cut = char_cut buf (min budget (length buf))
            in (utf8_decode (take cut buf) @ TRUNCATION_MARKER, True)))"

definition previewForBanner :: "js_string \<Rightarrow> nat \<Rightarrow> js_string" where
  "previewForBanner text maxChars =
     (let cs = chars text
      in if length cs \<le> maxChars then text else concat (take maxChars cs) @ [0x2026])"

definition CONTROL_PLANE_PROMPT_LABEL_CAP_CHARS :: nat where
  "CONTROL_PLANE_PROMPT_LABEL_CAP_CHARS = 200"

definition TRIGGER_PROMPT_REASON_CAP_CHARS :: nat where
  "TRIGGER_PROMPT_REASON_CAP_CHARS = 512"

definition capControlPlaneAuditLabel :: "js_string \<Rightarrow> js_string" where
  "capControlPlaneAuditLabel label =
     (let cs = chars label
      in if length cs \<le> CONTROL_PLANE_PROMPT_LABEL_CAP_CHARS then label
         else concat (take (CONTROL_PLANE_PROMPT_LABEL_CAP_CHARS - 1) cs) @ [0x2026])"

definition capTriggerPromptReason :: "js_string \<Rightarrow> js_string" where
  "capTriggerPromptReason reason =
     (let cs = chars reason
      in if length cs \<le> TRIGGER_PROMPT_REASON_CAP_CHARS then reason
         else concat (take (TRIGGER_PROMPT_REASON_CAP_CHARS - 1) cs) @ [0x2026])"

subsection \<open>Encoding and decoding\<close>

lemma chars_pair: "high_surrogate c \<Longrightarrow> low_surrogate d \<Longrightarrow> chars (c # d # s) = [c, d] # chars s"
  by simp

lemma chars_unit: "\<not> (high_surrogate c \<and> starts_low s) \<Longrightarrow> chars (c # s) = [c] # chars s"
  by auto

declare chars.simps(2) [simp del]

lemma concat_chars [simp]: "concat (chars s) = s"
  by (induction s rule: utf16_induct) (simp_all add: chars_pair chars_unit)

lemma unat_byte [simp]: "n < 256 \<Longrightarrow> unat (of_nat n :: byte) = n"
  by (simp add: unat_of_nat take_bit_eq_mod)

lemma continuation_table:
  "list_all (\<lambda>n. continuation_byte (of_nat n) = (n div 64 = 2)) [0..<256]"
  by code_simp

lemma continuation_of_nat: "n < 256 \<Longrightarrow> continuation_byte (of_nat n) \<longleftrightarrow> n div 64 = 2"
  using continuation_table by (auto simp: list_all_iff)

lemma three_digits: "(p div 4096) * 4096 + p div 64 mod 64 * 64 + p mod 64 = (p :: nat)"
  using div_mult_mod_eq [of p 64] div_mult_mod_eq [of "p div 64" 64] div_mult2_eq [of p 64 64, simplified] by linarith

lemma four_digits:
  "(p div 262144) * 262144 + p div 4096 mod 64 * 4096 + p div 64 mod 64 * 64 + p mod 64 = (p :: nat)"
  using three_digits [of p] div_mult_mod_eq [of "p div 4096" 64] div_mult2_eq [of p 4096 64, simplified] by linarith

lemma tail_bits_of_nat: "n < 64 \<Longrightarrow> tail_bits (of_nat (128 + n)) = n"
  unfolding tail_bits_def by (subst unat_byte) simp_all

lemma utf8_next_char:
  assumes "p < 0x110000"
  shows "utf8_next (utf8_char p @ r) = (p, r)"
proof -
  have u: "unat (of_nat (m + n) :: byte) = m + n" if "m + n < 256" for m n
    using that by (rule unat_byte)
  consider "p < 128" | "128 \<le> p" "p < 2048" | "2048 \<le> p" "p < 65536" | "65536 \<le> p" by linarith
  then show ?thesis
  proof cases
    case 1
    then show ?thesis by (simp add: utf8_char_def)
  next
    case 2
    then have "p div 64 < 32" by simp
    then show ?thesis using 2
      by (simp add: utf8_char_def u tail_bits_of_nat del: of_nat_add)
  next
    case 3
    then have "p div 4096 < 16" by simp
    then show ?thesis using 3 three_digits [of p]
      by (simp add: utf8_char_def u tail_bits_of_nat del: of_nat_add)
  next
    case 4
    then have "p div 262144 < 5" using assms by simp
    then show ?thesis using 4 four_digits [of p]
      by (simp add: utf8_char_def u tail_bits_of_nat del: of_nat_add)
  qed
qed

text \<open>Encoding and decoding replaces the unpaired surrogates and nothing else.\<close>

lemma utf8_encode_Nil [simp]: "utf8_encode [] = []"
  by (simp add: utf8_encode_def)

lemma utf8_encode_pair:
  "high_surrogate c \<Longrightarrow> low_surrogate d \<Longrightarrow> utf8_encode (c # d # s) = utf8_char (code_point [c, d]) @ utf8_encode s"
  by (simp add: utf8_encode_def chars_pair)

lemma utf8_encode_unit:
  "\<not> (high_surrogate c \<and> starts_low s) \<Longrightarrow> utf8_encode (c # s) = utf8_char (code_point [c]) @ utf8_encode s"
  by (simp add: utf8_encode_def chars_unit)

lemma utf8_char_not_Nil [simp]: "utf8_char p \<noteq> []"
  by (simp add: utf8_char_def)

lemma utf8_decode_char: "p < 0x110000 \<Longrightarrow> utf8_decode (utf8_char p @ r) = utf16_char p @ utf8_decode r"
  by (simp add: utf8_decode.simps [of "utf8_char p @ r"] utf8_next_char)

lemma pair_digits:
  assumes "high_surrogate c" "low_surrogate d"
  shows "utf16_char (code_point [c, d]) = [c, d]" "code_point [c, d] < 0x110000" "0x10000 \<le> code_point [c, d]"
proof -
  obtain x y where x: "c = 0xd800 + x" "x < 0x400" and y: "d = 0xdc00 + y" "y < 0x400"
    using assms le_Suc_ex [of "0xd800" c] le_Suc_ex [of "0xdc00" d]
    by (auto simp: high_surrogate_def low_surrogate_def)
  then show "utf16_char (code_point [c, d]) = [c, d]" "code_point [c, d] < 0x110000"
      "0x10000 \<le> code_point [c, d]"
    by (simp_all add: utf16_char_def)
qed

lemma utf8_decode_encode: "js_units s \<Longrightarrow> utf8_decode (utf8_encode s) = replaceUnpairedSurrogates s"
proof (induction s rule: utf16_induct)
  case Nil
  then show ?case by (simp add: utf8_decode.simps)
next
  case (Pair c d s)
  then show ?case
    by (simp add: utf8_encode_pair utf8_decode_char pair_digits replace_pair js_units_def del: code_point.simps)
next
  case (Unit c s)
  then show ?case
    by (simp add: utf8_encode_unit utf8_decode_char replace_unit utf16_char_def js_units_def)
qed

lemma length_utf8_char:
  "length (utf8_char p) = (if p < 0x80 then 1 else if p < 0x800 then 2 else if p < 0x10000 then 3 else 4)"
  by (simp add: utf8_char_def)

lemma length_utf8_encode: "js_units s \<Longrightarrow> length (utf8_encode s) = utf8ByteLength s"
  unfolding utf8ByteLength_eq_loop
proof (induction s rule: utf16_induct)
  case (Pair c d s)
  then show ?case
    using pair_digits(3) [of c d]
    by (simp add: utf8_encode_pair utf8_loop_pair length_utf8_char js_units_def)
next
  case (Unit c s)
  then show ?case
    by (auto simp: utf8_encode_unit utf8_loop_unit length_utf8_char js_units_def unit_bytes_def
        high_surrogate_def low_surrogate_def)
qed simp

subsection \<open>Where the cut falls\<close>

text \<open>A block of bytes that encodes one character.\<close>

definition char_block :: "byte list \<Rightarrow> bool" where
  "char_block b \<longleftrightarrow> b \<noteq> [] \<and> \<not> continuation_byte (hd b) \<and> list_all continuation_byte (tl b)"

lemma utf8_char_block:
  assumes "p < 0x110000"
  shows "char_block (utf8_char p)"
proof -
  have "p div 64 < 32" if "p < 2048" using that by simp
  moreover have "p div 4096 < 16" if "p < 65536" using that by simp
  moreover have "p div 262144 < 5" using assms by simp
  ultimately show ?thesis
    by (auto simp: char_block_def utf8_char_def continuation_of_nat simp del: of_nat_add)
qed

text \<open>How many of the blocks fit into a number of bytes.\<close>

fun fitting :: "nat \<Rightarrow> 'a list list \<Rightarrow> nat" where
  "fitting n [] = 0"
| "fitting n (b # bs) = (if length b \<le> n then Suc (fitting (n - length b) bs) else 0)"

lemma fitting_le: "length (concat (take (fitting n bs) bs)) \<le> n" "fitting n bs \<le> length bs"
  by (induction bs arbitrary: n) (auto, metis add.commute le_diff_conv2)

lemma fitting_maximal:
  "fitting n bs < length bs \<Longrightarrow> n < length (concat (take (Suc (fitting n bs)) bs))"
  by (induction bs arbitrary: n) (auto split: if_splits, force)

lemma char_cut_inside: "n < length b \<Longrightarrow> char_block b \<Longrightarrow> char_cut (b @ r) n = 0"
proof (induction n)
  case (Suc n)
  then have "continuation_byte ((b @ r) ! Suc n)"
    by (cases b) (auto simp: char_block_def list_all_length nth_append)
  with Suc show ?case by simp
qed simp

lemma char_cut_beyond:
  assumes "char_block b" "r \<noteq> []" "\<not> continuation_byte (hd r)"
  shows "char_cut (b @ r) (length b + m) = length b + char_cut r m"
proof (induction m)
  case 0
  obtain k where k: "length b = Suc k" using assms(1) by (cases b) (auto simp: char_block_def)
  then have "(b @ r) ! Suc k = hd r" using assms(2) by (simp add: nth_append hd_conv_nth)
  then show ?case using k assms(3) by simp
next
  case (Suc m)
  then show ?case by (simp add: nth_append)
qed

lemma char_cut_blocks:
  "list_all char_block bs \<Longrightarrow> n < length (concat bs) \<Longrightarrow>
     char_cut (concat bs) n = length (concat (take (fitting n bs) bs))"
proof (induction bs arbitrary: n)
  case (Cons b bs)
  show ?case
  proof (cases "n < length b")
    case True
    then show ?thesis using Cons.prems by (simp add: char_cut_inside)
  next
    case False
    obtain b' bs' where bs: "bs = b' # bs'" using False Cons.prems(2) by (cases bs) auto
    have "concat bs \<noteq> []" "\<not> continuation_byte (hd (concat bs))"
      using Cons.prems(1) bs by (auto simp: char_block_def)
    from char_cut_beyond [OF _ this, of b "n - length b"]
    show ?thesis using Cons False by simp
  qed
qed simp

lemma code_point_bound: "js_units s \<Longrightarrow> ch \<in> set (chars s) \<Longrightarrow> code_point ch < 0x110000"
proof (induction s rule: utf16_induct)
  case (Pair c d s)
  then show ?case using pair_digits(2) [of c d] by (auto simp: chars_pair js_units_def)
next
  case (Unit c s)
  then show ?case by (auto simp: chars_unit js_units_def)
qed simp

lemma chars_prefix: "chars (concat (take k (chars s))) = take k (chars s)"
proof (induction s arbitrary: k rule: utf16_induct)
  case (Pair c d s)
  then show ?case by (cases k) (simp_all add: chars_pair)
next
  case (Unit c s)
  show ?case
  proof (cases k)
    case (Suc n)
    have "concat (take n (chars s)) = take (length (concat (take n (chars s)))) s"
      by (metis append_eq_conv_conj append_take_drop_id concat_append concat_chars)
    then have "\<not> (high_surrogate c \<and> starts_low (concat (take n (chars s))))"
      using Unit(1) by (cases s) (auto simp: starts_low_def take_Cons split: nat.splits)
    then show ?thesis using Suc Unit by (simp add: chars_unit)
  qed simp
qed simp

lemma utf8_encode_prefix:
  "utf8_encode (concat (take k (chars s))) = concat (take k (map (\<lambda>ch. utf8_char (code_point ch)) (chars s)))"
  by (simp add: utf8_encode_def chars_prefix take_map)

lemma js_units_prefix: "js_units s \<Longrightarrow> js_units (concat (take k (chars s)))"
  unfolding js_units_def by (metis Un_iff append_take_drop_id concat_append concat_chars set_append)

lemma marker_bytes [simp]: "utf8_loop TRUNCATION_MARKER = 14" "js_units TRUNCATION_MARKER"
  by (simp_all add: TRUNCATION_MARKER_def str_def utf8_loop_ascii_prefix utf8_loop_unit unit_bytes_def js_units_def
      high_surrogate_def)

lemma length_marker [simp]: "length (utf8_encode TRUNCATION_MARKER) = 14"
  by (simp add: length_utf8_encode utf8ByteLength_eq_loop)

lemma truncate_cut:
  assumes "js_units s" "14 \<le> cap" "cap < utf8ByteLength s"
  obtains k where "k < length (chars s)"
    "truncateOnCharBoundary s cap = (replaceUnpairedSurrogates (concat (take k (chars s))) @ TRUNCATION_MARKER, True)"
    "utf8ByteLength (concat (take k (chars s))) \<le> cap - 14"
    "cap - 14 < utf8ByteLength (concat (take (Suc k) (chars s)))"
proof -
  let ?bs = "map (\<lambda>ch. utf8_char (code_point ch)) (chars s)"
  let ?n = "cap - 14"
  let ?k = "fitting ?n ?bs"
  have len: "length (utf8_encode s) = utf8ByteLength s" by (rule length_utf8_encode [OF assms(1)])
  have enc: "utf8_encode s = concat ?bs" by (simp add: utf8_encode_def)
  have "list_all char_block ?bs"
    using assms(1) by (auto simp: list_all_iff intro!: utf8_char_block code_point_bound)
  moreover have "?n < length (concat ?bs)" using assms(2,3) len enc by simp
  ultimately have cut: "char_cut (utf8_encode s) ?n = length (concat (take ?k ?bs))"
    unfolding enc by (rule char_cut_blocks)
  have "take (length (concat (take ?k ?bs))) (utf8_encode s) = concat (take ?k ?bs)"
    unfolding enc by (metis append_eq_conv_conj append_take_drop_id concat_append)
  then have taken: "take (char_cut (utf8_encode s) ?n) (utf8_encode s) = utf8_encode (concat (take ?k (chars s)))"
    by (simp add: cut utf8_encode_prefix)
  have k: "?k < length (chars s)"
  proof (rule ccontr)
    assume "\<not> ?k < length (chars s)"
    then have "concat (take ?k ?bs) = concat ?bs" by simp
    then show False using fitting_le(1) [of ?n ?bs] \<open>?n < length (concat ?bs)\<close> by simp
  qed
  have pre: "length (concat (take j ?bs)) = utf8ByteLength (concat (take j (chars s)))" for j
    using length_utf8_encode [OF js_units_prefix [OF assms(1)], of j] by (simp add: utf8_encode_prefix)
  show thesis
  proof (rule that [of ?k])
    show "truncateOnCharBoundary s cap =
        (replaceUnpairedSurrogates (concat (take ?k (chars s))) @ TRUNCATION_MARKER, True)"
      using assms(2,3) len taken
      by (simp add: truncateOnCharBoundary_def Let_def min_absorb1 utf8_decode_encode [OF js_units_prefix [OF assms(1)]])
    show "utf8ByteLength (concat (take ?k (chars s))) \<le> cap - 14" using fitting_le(1) [of ?n ?bs] pre by simp
    show "cap - 14 < utf8ByteLength (concat (take (Suc ?k) (chars s)))"
      using fitting_maximal [of ?n ?bs] k pre [of "Suc ?k"] by simp
  qed (rule k)
qed

lemma utf8ByteLength_marked: "utf8ByteLength (s @ TRUNCATION_MARKER) = utf8ByteLength s + 14"
  by (simp add: utf8ByteLength_eq_loop utf8_loop_append TRUNCATION_MARKER_def low_surrogate_def
      flip: marker_bytes(1))

text \<open>
  C30: \<open>truncateOnCharBoundary\<close> never exceeds its cap in UTF-8 bytes, marker included, and keeps a
  body that fits as it is.  A body that does not fit is cut after the last whole character that
  leaves room for the marker: no character is split, and one character more would not fit.
\<close>

theorem truncateOnCharBoundary_bound:
  assumes "js_units body" "14 \<le> capBytes" "truncateOnCharBoundary body capBytes = (out, shortened)"
  shows "utf8ByteLength out \<le> capBytes \<and> (shortened \<longleftrightarrow> capBytes < utf8ByteLength body) \<and> (\<not> shortened \<longrightarrow> out = body)
    \<and> (shortened \<longrightarrow> (\<exists>k < length (chars body).
        out = replaceUnpairedSurrogates (concat (take k (chars body))) @ TRUNCATION_MARKER
        \<and> capBytes < utf8ByteLength (concat (take (Suc k) (chars body))) + 14))"
proof (cases "capBytes < utf8ByteLength body")
  case True
  obtain k where "k < length (chars body)"
    "truncateOnCharBoundary body capBytes = (replaceUnpairedSurrogates (concat (take k (chars body))) @ TRUNCATION_MARKER, True)"
    "utf8ByteLength (concat (take k (chars body))) \<le> capBytes - 14"
    "capBytes - 14 < utf8ByteLength (concat (take (Suc k) (chars body)))"
    by (rule truncate_cut [OF assms(1,2) True])
  then show ?thesis
    using True assms(2,3) utf8ByteLength_marked [of "replaceUnpairedSurrogates (concat (take k (chars body)))"]
    by (auto simp: utf8ByteLength_eq_loop utf8_loop_replace)
next
  case False
  then have "truncateOnCharBoundary body capBytes = (body, False)"
    by (simp add: truncateOnCharBoundary_def length_utf8_encode [OF assms(1)])
  then show ?thesis using False assms(3) by simp
qed

theorem truncateOnCharBoundary_bound_witness:
  "\<exists>out shortened. truncateOnCharBoundary (replicate 3 0x20ac @ replicate 9 97) 16 = (out, shortened)
     \<and> utf8ByteLength out \<le> 16"
proof -
  obtain out shortened where o: "truncateOnCharBoundary (replicate 3 0x20ac @ replicate 9 97) 16 = (out, shortened)"
    by (cases "truncateOnCharBoundary (replicate 3 0x20ac @ replicate 9 97) 16")
  have "js_units (replicate 3 0x20ac @ replicate 9 97)" by (simp add: js_units_def)
  from truncateOnCharBoundary_bound [OF this _ o] o show ?thesis by auto
qed

end
