(* ===== verification/JsText.thy ===== *)
theory JsText
  imports Permission
begin

text \<open>
  Searching and replacing in JavaScript strings: \<open>indexOf\<close>, \<open>includes\<close>, \<open>replaceAll\<close> and
  \<open>endsWith\<close>, shared by the templates, the skills and the triggers.
\<close>

text \<open>\<open>indexOf\<close>, as the text before and the text after the first occurrence.\<close>

fun split_first :: "js_string \<Rightarrow> js_string \<Rightarrow> (js_string \<times> js_string) option" where
  "split_first sep [] = (if sep = [] then Some ([], []) else None)"
| "split_first sep (c # cs) =
     (if starts_with sep (c # cs) then Some ([], drop (length sep) (c # cs))
      else (case split_first sep cs of Some (a, b) \<Rightarrow> Some (c # a, b) | None \<Rightarrow> None))"

definition js_includes :: "js_string \<Rightarrow> js_string \<Rightarrow> bool" where
  "js_includes s sub \<longleftrightarrow> split_first sub s \<noteq> None"

lemma split_first_Some: "split_first sep s = Some (a, b) \<Longrightarrow> s = a @ sep @ b"
proof (induction sep s arbitrary: a b rule: split_first.induct)
  case (2 sep c cs)
  show ?case
  proof (cases "starts_with sep (c # cs)")
    case True
    then show ?thesis using 2(2) append_take_drop_id [of "length sep" "c # cs"] by (auto simp: starts_with_def)
  next
    case False
    then show ?thesis using 2 by (auto split: option.splits)
  qed
qed (simp split: if_splits)

lemma split_first_shorter: "split_first sep s = Some (a, b) \<Longrightarrow> sep \<noteq> [] \<Longrightarrow> length b < length s"
  by (drule split_first_Some) simp

text \<open>\<open>replaceAll\<close>\<close>

function replace_all :: "js_string \<Rightarrow> js_string \<Rightarrow> js_string \<Rightarrow> js_string" where
  "replace_all old new s =
     (if old = [] then s
      else (case split_first old s of
              None \<Rightarrow> s
            | Some (a, b) \<Rightarrow> a @ new @ replace_all old new b))"
  by pat_completeness auto

termination replace_all
  by (relation "measure (\<lambda>(old, new, s). length s)") (auto dest: split_first_shorter)

declare replace_all.simps [simp del]

definition ends_with :: "js_string \<Rightarrow> js_string \<Rightarrow> bool" where
  "ends_with suffix s \<longleftrightarrow> starts_with (rev suffix) (rev s)"

text \<open>\<open>indexOf(sub, from)\<close>, None for \<open>-1\<close>.\<close>

definition index_from :: "js_string \<Rightarrow> js_string \<Rightarrow> nat \<Rightarrow> nat option" where
  "index_from sub s i = (case split_first sub (drop i s) of Some (a, b) \<Rightarrow> Some (i + length a) | None \<Rightarrow> None)"

lemma split_first_first:
  "split_first sep s = Some (a, b) \<Longrightarrow> i < length a \<Longrightarrow> \<not> starts_with sep (drop i s)"
proof (induction sep s arbitrary: a b i rule: split_first.induct)
  case (2 sep c cs)
  then show ?case by (cases i) (auto split: if_splits option.splits)
qed (simp split: if_splits)

end
