(* ===== verification/TriggerText.thy ===== *)
theory TriggerText
  imports Trigger Utf8 Overflow JsText
begin

text \<open>
  The pure functions behind the triggers of \<open>harness/agent-harness.ts\<close>: the prefix of injected
  messages, the request that asks for approval, the templates of promotions with the fields they
  may use, and the condition on result details.  SHA-256 is an argument (\<open>sha256Hex\<close>).
\<close>

definition PROMOTION_BODY_CAP_BYTES :: nat where
  "PROMOTION_BODY_CAP_BYTES = 4096"

definition trigger_prefix :: "js_string \<Rightarrow> js_string" where
  "trigger_prefix traceId = str ''[Trigger '' @ traceId @ str ''] ''"

definition ensureTriggerPrefix :: "js_string \<Rightarrow> js_string \<Rightarrow> js_string \<times> bool" where
  "ensureTriggerPrefix body traceId =
     (let expected = trigger_prefix traceId
      in if starts_with expected body then (body, False) else (expected @ body, True))"

subsection \<open>Identifiers in a payload\<close>

fun json_path :: "json option \<Rightarrow> js_string list \<Rightarrow> json option" where
  "json_path v [] = v"
| "json_path v (key # keys) =
     (case v of Some (JObj ms) \<Rightarrow> json_path (map_get ms key) keys | _ \<Rightarrow> None)"

definition triggerJsonString :: "trigger \<Rightarrow> js_string list \<Rightarrow> js_string option" where
  "triggerJsonString t path = json_string (json_path (payload t) path)"

definition hex_unit :: "nat \<Rightarrow> bool" where
  "hex_unit c \<longleftrightarrow> (48 \<le> c \<and> c \<le> 57) \<or> (97 \<le> lower_unit c \<and> lower_unit c \<le> 102)"

text \<open>\<open>UUID_RE\<close>: groups of 8, 4, 4, 4 and 12 hexadecimal digits of either case.\<close>

definition is_uuid :: "js_string \<Rightarrow> bool" where
  "is_uuid s \<longleftrightarrow>
     map length (js_split 45 s) = [8, 4, 4, 4, 12] \<and> list_all (list_all hex_unit) (js_split 45 s)"

definition validatedPayloadAgentId :: "trigger \<Rightarrow> js_string list \<Rightarrow> js_string option" where
  "validatedPayloadAgentId t path =
     (case triggerJsonString t path of
        Some value \<Rightarrow> if is_uuid value then Some value else None
      | None \<Rightarrow> None)"

definition class_start :: "nat \<Rightarrow> bool" where
  "class_start c \<longleftrightarrow> 97 \<le> c \<and> c \<le> 122"

definition class_unit :: "nat \<Rightarrow> bool" where
  "class_unit c \<longleftrightarrow> class_start c \<or> (48 \<le> c \<and> c \<le> 57) \<or> c = 95 \<or> c = 46 \<or> c = 58 \<or> c = 45"

text \<open>
  \<open>toLowerCase\<close> is written for ASCII: a value with any other character fails the last test, so its
  lower case never matters.
\<close>

definition isValidActionClass :: "js_string \<Rightarrow> bool" where
  "isValidActionClass value =
     (if length value = 0 \<or> length value > 64 then False
      else
        (let lower = map lower_unit value
         in if starts_with (str ''sk-'') lower \<or> js_includes lower (str ''bearer'')
              \<or> js_includes lower (str ''token'') then False
            else class_start (hd value) \<and> list_all class_unit (tl value)))"

definition validatedPayloadActionClass :: "trigger \<Rightarrow> js_string list \<Rightarrow> js_string option" where
  "validatedPayloadActionClass t path =
     (case triggerJsonString t path of
        Some value \<Rightarrow> if isValidActionClass value then Some value else None
      | None \<Rightarrow> None)"

subsection \<open>The request for approval\<close>

fun source_kind_name :: "source_kind \<Rightarrow> js_string" where
  "source_kind_name SKLocal = str ''local''"
| "source_kind_name SKMcp = str ''mcp''"

fun visibility_name :: "payload_visibility \<Rightarrow> js_string" where
  "visibility_name PVLocal = str ''local''"
| "visibility_name PVShared = str ''shared''"
| "visibility_name PVRedacted = str ''redacted''"

fun scope_name :: "credential_scope \<Rightarrow> js_string" where
  "scope_name ScopeUser = str ''User''"
| "scope_name ScopeProject = str ''Project''"
| "scope_name ScopeTeam = str ''Team''"
| "scope_name ScopeAgent = str ''Agent''"
| "scope_name ScopeNone = str ''None''"

fun policy_name :: "replacement_policy \<Rightarrow> js_string" where
  "policy_name LatestReplaces = str ''latest_replaces''"
| "policy_name Coalesce = str ''coalesce''"
| "policy_name Drop = str ''drop''"

text \<open>\<open>value ?? null\<close>\<close>

fun json_or_null :: "js_string option \<Rightarrow> json" where
  "json_or_null (Some s) = JStr s"
| "json_or_null None = JNull"

record trigger_prompt_request =
  triggerPromptId :: js_string
  req_traceId :: js_string
  req_sourceLabel :: js_string
  receiverAgentId :: "js_string option"
  senderAgentId :: js_string
  actionClass :: js_string
  triggerSummary :: "js_string option"
  req_payload :: json
  req_reason :: js_string

text \<open>\<open>a ?? b\<close>\<close>

fun nullish :: "'a option \<Rightarrow> 'a option \<Rightarrow> 'a option" where
  "nullish (Some x) _ = Some x"
| "nullish None y = y"

text \<open>The summary of a request: an empty one counts as absent.\<close>

definition request_summary :: "trigger \<Rightarrow> js_string option" where
  "request_summary t =
     (case payload_summary t of
        Some s \<Rightarrow> if s = [] then None else Some (fst (truncateOnCharBoundary s PROMOTION_BODY_CAP_BYTES))
      | None \<Rightarrow> None)"

definition buildTriggerPromptRequest ::
  "(js_string \<Rightarrow> js_string) \<Rightarrow> trigger \<Rightarrow> js_string \<Rightarrow> trigger_prompt_request" where
  "buildTriggerPromptRequest sha256Hex t reason =
     (let receiver =
            nullish (validatedPayloadAgentId t [str ''_meta'', str ''receiver_agent_id''])
              (validatedPayloadAgentId t [str ''receiver_agent_id'']);
          sender =
            (case nullish (validatedPayloadAgentId t [str ''_meta'', str ''sender_agent_id''])
                    (nullish (validatedPayloadAgentId t [str ''sender_agent_id''])
                      (validatedPayloadAgentId t [str ''agent_id''])) of
               Some a \<Rightarrow> a
             | None \<Rightarrow> capControlPlaneAuditLabel (principal_id (authority t)));
          cls =
            (case nullish (validatedPayloadActionClass t [str ''_meta'', str ''action_class''])
                    (validatedPayloadActionClass t [str ''action_class'']) of
               Some c \<Rightarrow> c
             | None \<Rightarrow> capControlPlaneAuditLabel (event_label t));
          summary = request_summary t;
          payload = JObj
            [(str ''source_kind'', JStr (source_kind_name (source_kind t))),
             (str ''source_label'', JStr (capControlPlaneAuditLabel (source_label t))),
             (str ''event_label'', JStr (capControlPlaneAuditLabel (event_label t))),
             (str ''payload_visibility'', JStr (visibility_name (payload_visibility t))),
             (str ''payload_summary'', json_or_null summary),
             (str ''authority'', JObj
               [(str ''principal_id'', JStr (principal_id (authority t))),
                (str ''principal_label'', JStr (capControlPlaneAuditLabel (principal_label (authority t)))),
                (str ''credential_scope'', JStr (scope_name (credential_scope (authority t)))),
                (str ''allowed_source_actions'',
                   JArr (map JStr (allowed_source_actions (authority t))))])];
          binding = json_stringify (JArr
            [JStr (str ''trigger_prompt:v1''), JStr (idempotency_key t), JStr (trace_id t),
             JStr (source_kind_name (source_kind t)), JStr (source_label t), JStr (event_label t),
             json_or_null receiver, JStr sender, JStr cls])
      in \<lparr>triggerPromptId = sha256Hex binding, req_traceId = trace_id t,
          req_sourceLabel = capControlPlaneAuditLabel (source_label t), receiverAgentId = receiver,
          senderAgentId = sender, actionClass = cls, triggerSummary = summary, req_payload = payload,
          req_reason = capTriggerPromptReason reason\<rparr>)"

subsection \<open>Actions\<close>

datatype trigger_delivery = SubAgent | InjectSummary | InjectAndRun

record promotion_condition =
  jsonPointer :: js_string
  anyOf :: "js_string list"

datatype promote_action =
    PromoteNone
  | PromoteNow "js_string option"                               \<comment> \<open>\<open>templateBody\<close>\<close>
  | PromoteWhenSummary "js_string option" "js_string list"      \<comment> \<open>\<open>requiredSubstrings\<close>\<close>
  | PromoteWhenDetails "js_string option" promotion_condition

record trigger_action =
  act_prompt :: js_string
  act_promote :: promote_action
  promoteRequiresApproval :: bool
  act_delivery :: trigger_delivery

definition defaultTriggerAction :: "trigger \<Rightarrow> trigger_action" where
  "defaultTriggerAction t =
     \<lparr>act_prompt = source_label t @ str '' fired: '' @ event_label t, act_promote = PromoteNone,
      promoteRequiresApproval = False, act_delivery = SubAgent\<rparr>"

fun is_assistant :: "agent_message \<Rightarrow> bool" where
  "is_assistant (AssistantMsg m) = True"
| "is_assistant _ = False"

fun assistant_texts :: "agent_message \<Rightarrow> js_string list" where
  "assistant_texts (AssistantMsg m) = concat (map (\<lambda>b. case b of AText t \<Rightarrow> [t] | _ \<Rightarrow> []) (a_content m))"
| "assistant_texts _ = []"

text \<open>\<open>lastAssistantText\<close>: the text of the last assistant message, absent when that one has none.\<close>

definition lastAssistantText :: "agent_message list \<Rightarrow> js_string option" where
  "lastAssistantText messages =
     (case find is_assistant (rev messages) of
        None \<Rightarrow> None
      | Some m \<Rightarrow>
          (let text = js_join [10] (assistant_texts m)
           in if text = [] then None else Some (fst (truncateOnCharBoundary text 4096))))"

subsection \<open>Templates of promotions\<close>

definition FORBIDDEN_TEMPLATE_FIELDS :: "js_string list" where
  "FORBIDDEN_TEMPLATE_FIELDS = [str ''trigger.payload'', str ''trigger.authority.allowed_source_actions'']"

definition DEFAULT_PROMOTE_SUMMARY_TEMPLATE :: js_string where
  "DEFAULT_PROMOTE_SUMMARY_TEMPLATE =
     str ''[Trigger {{trace_id}}] {{trigger.source_label}} fired {{trigger.event_label}}.'' @ [10]
       @ str ''Result: {{result.summary}}''"

fun source_fields :: "trigger_source \<Rightarrow> (js_string \<times> js_string) list" where
  "source_fields (McpSource server meth) =
     [(str ''trigger.source.kind'', str ''mcp''), (str ''trigger.source.server_name'', server),
      (str ''trigger.source.method'', meth)]"
| "source_fields (LocalSource subkind) =
     [(str ''trigger.source.kind'', str ''local''), (str ''trigger.source.subkind'', subkind)]"
| "source_fields (AgentDelegate a d) = [(str ''trigger.source.kind'', str ''agent_delegate'')]"

fun or_empty :: "js_string option \<Rightarrow> js_string" where
  "or_empty (Some s) = s"
| "or_empty None = []"

definition buildTemplateContext ::
  "js_string \<Rightarrow> trigger \<Rightarrow> bool \<Rightarrow> js_string option \<Rightarrow> nat \<Rightarrow> (js_string, js_string) js_map" where
  "buildTemplateContext traceId t success summary messageCount =
     map_of_entries
       ((str ''trace_id'', traceId) # source_fields (source t) @
        [(str ''trigger.source_label'', source_label t),
         (str ''trigger.event_label'', event_label t),
         (str ''trigger.payload_summary'', or_empty (payload_summary t)),
         (str ''trigger.received_at'', received_at t),
         (str ''trigger.idempotency_key'', idempotency_key t),
         (str ''trigger.authority.principal_id'', principal_id (authority t)),
         (str ''trigger.authority.principal_label'', principal_label (authority t)),
         (str ''trigger.authority.credential_scope'', scope_name (credential_scope (authority t))),
         (str ''result.summary'', or_empty summary),
         (str ''result.status'', if success then str ''success'' else str ''failed''),
         (str ''result.message_count'', show_nat messageCount),
         (str ''result.cost_usd'', str ''null''),
         (str ''result.branch_id'', str ''null'')])"

datatype render_error = UnknownField js_string | ForbiddenField js_string

definition OPEN_MARK :: js_string where "OPEN_MARK = str ''{{''"
definition CLOSE_MARK :: js_string where "CLOSE_MARK = str ''}}''"

text \<open>The loop of \<open>renderPromotionTemplate\<close> with its variables \<open>rest\<close> and \<open>out\<close>.\<close>

function render_loop ::
  "(js_string, js_string) js_map \<Rightarrow> js_string \<Rightarrow> js_string \<Rightarrow> render_error + js_string" where
  "render_loop ctx rest out =
     (case split_first OPEN_MARK rest of
        None \<Rightarrow> Inr (out @ rest)
      | Some (before, afterOpen) \<Rightarrow>
          (case split_first CLOSE_MARK afterOpen of
             None \<Rightarrow> Inl (UnknownField (str ''unknown template field: unclosed `{{` placeholder''))
           | Some (inner, after) \<Rightarrow>
               (let name = trim inner
                in if List.member FORBIDDEN_TEMPLATE_FIELDS name \<or> starts_with (str ''_meta'') name
                   then Inl (ForbiddenField (str ''forbidden template field: '' @ name))
                   else
                     (case map_get ctx name of
                        None \<Rightarrow> Inl (UnknownField (str ''unknown template field: '' @ name))
                      | Some v \<Rightarrow> render_loop ctx after (out @ before @ v)))))"
  by pat_completeness auto

termination render_loop
proof (relation "measure (\<lambda>(ctx, rest, out). length rest)", simp)
  fix ctx rest out x before afterOpen xa inner after name v
  assume "split_first OPEN_MARK rest = Some x" "(before, afterOpen) = x"
    "split_first CLOSE_MARK afterOpen = Some xa" "(inner, after) = xa"
  then have "length afterOpen < length rest" "length after < length afterOpen"
    by (auto dest!: split_first_shorter simp: OPEN_MARK_def CLOSE_MARK_def)
  then show "((ctx, after, out @ before @ v), ctx, rest, out) \<in> measure (\<lambda>(ctx, rest, out). length rest)"
    by simp
qed

declare render_loop.simps [simp del]

definition renderPromotionTemplate ::
  "js_string \<Rightarrow> (js_string, js_string) js_map \<Rightarrow> render_error + js_string" where
  "renderPromotionTemplate body ctx = render_loop ctx body []"

subsection \<open>Conditions on result details\<close>

definition pointer_token :: "js_string \<Rightarrow> js_string" where
  "pointer_token token = replace_all (str ''~0'') (str ''~'') (replace_all (str ''~1'') (str ''/'') token)"

text \<open>
  \<open>current[token]\<close> of a JSON value that is an object: its own member, or an element or the length
  of an array.  Members inherited from the prototypes are not modelled.
\<close>

definition array_index :: "js_string \<Rightarrow> nat option" where
  "array_index token =
     (let n = digits_value token
      in if token \<noteq> [] \<and> list_all digit token \<and> show_nat n = token then Some n else None)"

fun json_index :: "json \<Rightarrow> js_string \<Rightarrow> json option" where
  "json_index (JObj ms) token = map_get ms token"
| "json_index (JArr vs) token =
     (if token = str ''length'' then Some (JNum (int (length vs)))
      else (case array_index token of
              Some i \<Rightarrow> if i < length vs then Some (vs ! i) else None
            | None \<Rightarrow> None))"
| "json_index _ token = None"

fun resolve_tokens :: "json option \<Rightarrow> js_string list \<Rightarrow> json option" where
  "resolve_tokens current [] = current"
| "resolve_tokens current (token # tokens) =
     (case current of
        None \<Rightarrow> None
      | Some v \<Rightarrow> resolve_tokens (json_index v token) tokens)"

definition resolveJsonPointer :: "json option \<Rightarrow> js_string \<Rightarrow> json option" where
  "resolveJsonPointer root pointer =
     (if pointer = [] then root
      else resolve_tokens root (map pointer_token (tl (js_split 47 pointer))))"

datatype skip_reason = ResultDetailsMissing | ResultDetailsNotArray | NoMatchingRuleId

fun skip_reason_name :: "skip_reason \<Rightarrow> js_string" where
  "skip_reason_name ResultDetailsMissing = str ''result_details_missing''"
| "skip_reason_name ResultDetailsNotArray = str ''result_details_not_array''"
| "skip_reason_name NoMatchingRuleId = str ''no_matching_rule_id''"

fun matched_ids :: "js_string list \<Rightarrow> json list \<Rightarrow> js_string list" where
  "matched_ids ids [] = []"
| "matched_ids ids (JStr s # vs) = (if List.member ids s then s # matched_ids ids vs else matched_ids ids vs)"
| "matched_ids ids (_ # vs) = matched_ids ids vs"

definition evaluatePromotionCondition ::
  "promotion_condition \<Rightarrow> json option \<Rightarrow> skip_reason + js_string list" where
  "evaluatePromotionCondition c details =
     (case resolveJsonPointer details (jsonPointer c) of
        None \<Rightarrow> Inl ResultDetailsMissing
      | Some (JArr vs) \<Rightarrow>
          (let matched = matched_ids (anyOf c) vs
           in if matched = [] then Inl NoMatchingRuleId else Inr matched)
      | Some _ \<Rightarrow> Inl ResultDetailsNotArray)"

end
