(* ===== verification/Templates.thy ===== *)
theory Templates
  imports JsText Json JsonlStorage
begin

text \<open>
  \<open>harness/prompt-templates.ts\<close>, \<open>harness/system-prompt.ts\<close> and the functions on paths and front
  matter they share with \<open>harness/skills.ts\<close>.  The YAML parser is an argument: it throws or yields
  a value, here a JSON value.  The file system of the loaders is an argument, a record of the
  operations they read with.
\<close>

subsection \<open>Regular expressions of the substitutions\<close>

text \<open>
  \<open>GetSubstitution\<close> of ECMAScript for a pattern without groups: the replacement may refer to the
  match and to the text before and after it.
\<close>

fun expand_replacement :: "js_string \<Rightarrow> js_string \<Rightarrow> js_string \<Rightarrow> js_string \<Rightarrow> js_string" where
  "expand_replacement before matched after [] = []"
| "expand_replacement before matched after (c # cs) =
     (case cs of
        [] \<Rightarrow> [c]
      | d # ds \<Rightarrow>
          if c = 36 \<and> d = 36 then 36 # expand_replacement before matched after ds
          else if c = 36 \<and> d = 38 then matched @ expand_replacement before matched after ds
          else if c = 36 \<and> d = 96 then before @ expand_replacement before matched after ds
          else if c = 36 \<and> d = 39 then after @ expand_replacement before matched after ds
          else c # expand_replacement before matched after cs)"

text \<open>\<open>s.replace(/literal/g, replacement)\<close>; \<open>before\<close> is the part of the string that is passed.\<close>

function replace_literal :: "js_string \<Rightarrow> js_string \<Rightarrow> js_string \<Rightarrow> js_string \<Rightarrow> js_string" where
  "replace_literal literal repl before s =
     (if literal = [] then s
      else (case split_first literal s of
              None \<Rightarrow> s
            | Some (a, b) \<Rightarrow>
                a @ expand_replacement (before @ a) literal b repl
                  @ replace_literal literal repl (before @ a @ literal) b))"
  by pat_completeness auto

termination replace_literal
  by (relation "measure (\<lambda>(literal, repl, before, s). length s)") (auto dest: split_first_shorter)

declare replace_literal.simps [simp del]

text \<open>\<open>/\$(\d+)/g\<close> with \<open>args[parseInt(num) - 1] ?? ""\<close>\<close>

definition positional_arg :: "js_string list \<Rightarrow> js_string \<Rightarrow> js_string" where
  "positional_arg args num =
     (let n = digits_value num in if 1 \<le> n \<and> n \<le> length args then args ! (n - 1) else [])"

function sub_positional :: "js_string list \<Rightarrow> js_string \<Rightarrow> js_string" where
  "sub_positional args [] = []"
| "sub_positional args (c # cs) =
     (if c = 36 \<and> takeWhile digit cs \<noteq> []
      then positional_arg args (takeWhile digit cs) @ sub_positional args (dropWhile digit cs)
      else c # sub_positional args cs)"
  by pat_completeness auto

termination sub_positional
  by (relation "measure (\<lambda>(args, s). length s)") (auto simp: le_imp_less_Suc length_dropWhile_le)

text \<open>\<open>/\$\{@:(\d+)(?::(\d+))?\}/\<close> at the start of a string: the two numbers and the rest.\<close>

definition match_slice :: "js_string \<Rightarrow> (js_string \<times> js_string option \<times> js_string) option" where
  "match_slice s =
     (if \<not> starts_with (str ''${@:'') s then None
      else
        (let s1 = drop 4 s; start = takeWhile digit s1; s2 = dropWhile digit s1
         in if start = [] then None
            else if starts_with [125] s2 then Some (start, None, drop 1 s2)
            else if starts_with [58] s2 then
              (let len = takeWhile digit (drop 1 s2); s3 = dropWhile digit (drop 1 s2)
               in if len \<noteq> [] \<and> starts_with [125] s3 then Some (start, Some len, drop 1 s3) else None)
            else None))"

definition slice_args :: "js_string list \<Rightarrow> js_string \<Rightarrow> js_string option \<Rightarrow> js_string" where
  "slice_args args start len =
     (let first = digits_value start - 1
      in js_join [32]
           (case len of
              Some l \<Rightarrow> take (digits_value l) (drop first args)
            | None \<Rightarrow> drop first args))"

lemma match_slice_shorter: "match_slice s = Some (a, l, r) \<Longrightarrow> length r < length s"
proof -
  assume m: "match_slice s = Some (a, l, r)"
  have d: "length (dropWhile digit x) \<le> length x" for x by (rule length_dropWhile_le)
  have "4 \<le> length s"
    using m by (cases "starts_with (str ''${@:'') s")
      (auto simp: match_slice_def starts_with_def str_def dest!: arg_cong [where f = length])
  then show ?thesis
    using m d [of "drop 4 s"] d [of "drop 1 (dropWhile digit (drop 4 s))"]
    by (auto simp: match_slice_def Let_def split: if_splits)
qed

function sub_slices :: "js_string list \<Rightarrow> js_string \<Rightarrow> js_string" where
  "sub_slices args [] = []"
| "sub_slices args (c # cs) =
     (case match_slice (c # cs) of
        Some (start, len, rest) \<Rightarrow> slice_args args start len @ sub_slices args rest
      | None \<Rightarrow> c # sub_slices args cs)"
  by pat_completeness auto

termination sub_slices
  by (relation "measure (\<lambda>(args, s). length s)") (auto dest: match_slice_shorter)

definition substituteArgs :: "js_string \<Rightarrow> js_string list \<Rightarrow> js_string" where
  "substituteArgs content args =
     (let r1 = sub_positional args content;
          r2 = sub_slices args r1;
          allArgs = js_join [32] args;
          r3 = replace_literal (str ''$ARGUMENTS'') allArgs [] r2
      in replace_literal (str ''$@'') allArgs [] r3)"

subsection \<open>Arguments\<close>

fun command_args_loop :: "js_string \<Rightarrow> js_string list \<Rightarrow> js_string \<Rightarrow> nat option \<Rightarrow> js_string list" where
  "command_args_loop [] args current inQuote = (if current \<noteq> [] then args @ [current] else args)"
| "command_args_loop (c # cs) args current inQuote =
     (case inQuote of
        Some q \<Rightarrow>
          if c = q then command_args_loop cs args current None
          else command_args_loop cs args (current @ [c]) inQuote
      | None \<Rightarrow>
          if c = 34 \<or> c = 39 then command_args_loop cs args current (Some c)
          else if c = 32 \<or> c = 9 then
            (if current \<noteq> [] then command_args_loop cs (args @ [current]) [] None
             else command_args_loop cs args current None)
          else command_args_loop cs args (current @ [c]) None)"

definition parseCommandArgs :: "js_string \<Rightarrow> js_string list" where
  "parseCommandArgs argsString = command_args_loop argsString [] [] None"

subsection \<open>Templates\<close>

record prompt_template =
  pt_name :: js_string
  pt_description :: "js_string option"
  pt_content :: js_string
  pt_filePath :: js_string

definition formatPromptTemplateInvocation :: "prompt_template \<Rightarrow> js_string list \<Rightarrow> js_string" where
  "formatPromptTemplateInvocation template args = substituteArgs (pt_content template) args"

definition registry_get :: "prompt_template list \<Rightarrow> js_string \<Rightarrow> prompt_template option" where
  "registry_get templates name = find (\<lambda>t. pt_name t = name) templates"

text \<open>The variables of \<open>interpolate\<close> are in the order of \<open>Object.entries\<close>.\<close>

definition render_var :: "json \<Rightarrow> js_string" where
  "render_var v = (case v of JStr s \<Rightarrow> s | _ \<Rightarrow> json_stringify v)"

definition interpolate :: "prompt_template \<Rightarrow> (js_string \<times> json) list \<Rightarrow> js_string" where
  "interpolate template vars =
     fold (\<lambda>(key, v) out. replace_all (str ''{{'' @ key @ str ''}}'') (render_var v) out) vars (pt_content template)"

subsection \<open>Paths and front matter\<close>

definition strip_slashes :: "js_string \<Rightarrow> js_string" where
  "strip_slashes path = rev (dropWhile (\<lambda>c. c = 47) (rev path))"

definition joinEnvPath :: "js_string \<Rightarrow> js_string \<Rightarrow> js_string" where
  "joinEnvPath base child = strip_slashes base @ [47] @ dropWhile (\<lambda>c. c = 47) child"

definition basenameEnvPath :: "js_string \<Rightarrow> js_string" where
  "basenameEnvPath path = rev (takeWhile (\<lambda>c. c \<noteq> 47) (rev (strip_slashes path)))"

definition dirnameEnvPath :: "js_string \<Rightarrow> js_string" where
  "dirnameEnvPath path =
     (let normalized = strip_slashes path;
          dir = rev (drop 1 (dropWhile (\<lambda>c. c \<noteq> 47) (rev normalized)))
      in if dir = [] then [47] else dir)"

definition relativeEnvPath :: "js_string \<Rightarrow> js_string \<Rightarrow> js_string" where
  "relativeEnvPath root path =
     (let r = strip_slashes root; p = strip_slashes path
      in if p = r then []
         else if starts_with (r @ [47]) p then drop (length r + 1) p
         else dropWhile (\<lambda>c. c = 47) p)"

text \<open>\<open>content.replace(/\r\n/g, "\n").replace(/\r/g, "\n")\<close>\<close>

fun normalize_newlines :: "js_string \<Rightarrow> js_string" where
  "normalize_newlines [] = []"
| "normalize_newlines (c # cs) =
     (if c = 13 then 10 # normalize_newlines (if starts_with [10] cs then drop 1 cs else cs)
      else c # normalize_newlines cs)"

definition parseFrontmatter ::
  "(js_string \<Rightarrow> js_string + json) \<Rightarrow> js_string \<Rightarrow> js_string + (json \<times> js_string)" where
  "parseFrontmatter yaml content =
     (let normalized = normalize_newlines content
      in if \<not> starts_with (str ''---'') normalized then Inr (JObj [], normalized)
         else
           (case index_from (10 # str ''---'') normalized 3 of
              None \<Rightarrow> Inr (JObj [], normalized)
            | Some endIndex \<Rightarrow>
                (let yamlString = take (endIndex - 4) (drop 4 normalized);
                     body = trim (drop (endIndex + 4) normalized)
                 in case yaml yamlString of
                      Inl msg \<Rightarrow> Inl msg
                    | Inr fm \<Rightarrow> Inr (if fm = JNull then JObj [] else fm, body))))"

subsection \<open>The file loader\<close>

datatype file_kind = KindFile | KindDirectory | KindSymlink

record file_info =
  fi_name :: js_string
  fi_path :: js_string
  fi_kind :: file_kind

record env_files =
  ef_fileInfo :: "js_string \<Rightarrow> file_error + file_info"
  ef_listDir :: "js_string \<Rightarrow> file_error + file_info list"
  ef_readTextFile :: "js_string \<Rightarrow> file_error + js_string"
  ef_canonicalPath :: "js_string \<Rightarrow> file_error + js_string"

datatype diagnostic_code = FileInfoFailed | ListFailed | ReadFailed | ParseFailed | InvalidMetadata

record load_diagnostic =
  ld_code :: diagnostic_code
  ld_message :: js_string
  ld_path :: js_string

fun file_error_message :: "file_error \<Rightarrow> js_string" where
  "file_error_message (FileError code msg) = msg"

fun is_not_found :: "file_error \<Rightarrow> bool" where
  "is_not_found (FileError code msg) = (code = FileNotFound)"

definition load_warning :: "diagnostic_code \<Rightarrow> file_error \<Rightarrow> js_string \<Rightarrow> load_diagnostic" where
  "load_warning code err path = \<lparr>ld_code = code, ld_message = file_error_message err, ld_path = path\<rparr>"

text \<open>\<open>basename.replace(/\.md$/i, "")\<close>\<close>

definition strip_md :: "js_string \<Rightarrow> js_string" where
  "strip_md name =
     (let n = length name - 3
      in if length name \<ge> 3 \<and> drop n name \<in> {[46, m, d] | m d. (m = 109 \<or> m = 77) \<and> (d = 100 \<or> d = 68)}
         then take n name else name)"

definition loadTemplateFromFile ::
  "(js_string \<Rightarrow> js_string + json) \<Rightarrow> env_files \<Rightarrow> js_string \<Rightarrow> prompt_template option \<times> load_diagnostic list" where
  "loadTemplateFromFile yaml env filePath =
     (case ef_readTextFile env filePath of
        Inl err \<Rightarrow> (None, [load_warning ReadFailed err filePath])
      | Inr raw \<Rightarrow>
          (case parseFrontmatter yaml raw of
             Inl msg \<Rightarrow> (None, [\<lparr>ld_code = ParseFailed, ld_message = msg, ld_path = filePath\<rparr>])
           | Inr (fm, body) \<Rightarrow>
               (Some \<lparr>pt_name = (case json_string (json_get fm (str ''name'')) of
                                   Some n \<Rightarrow> n | None \<Rightarrow> strip_md (basenameEnvPath filePath)),
                      pt_description = json_string (json_get fm (str ''description'')),
                      pt_content = body, pt_filePath = filePath\<rparr>, [])))"

fun load_template_entries ::
  "(js_string \<Rightarrow> js_string + json) \<Rightarrow> env_files \<Rightarrow> file_info list \<Rightarrow> prompt_template list \<times> load_diagnostic list" where
  "load_template_entries yaml env [] = ([], [])"
| "load_template_entries yaml env (e # es) =
     (let (ts, ds) = load_template_entries yaml env es
      in if ends_with (str ''.md'') (fi_name e) \<and> fi_kind e = KindFile then
           (let (t, ds') = loadTemplateFromFile yaml env (fi_path e)
            in ((case t of Some t \<Rightarrow> [t] | None \<Rightarrow> []) @ ts, ds' @ ds))
         else (ts, ds))"

definition loadTemplatesFromDir ::
  "(js_string \<Rightarrow> js_string + json) \<Rightarrow> env_files \<Rightarrow> js_string \<Rightarrow> prompt_template list \<times> load_diagnostic list" where
  "loadTemplatesFromDir yaml env dir =
     (case ef_listDir env dir of
        Inl err \<Rightarrow> ([], [load_warning ListFailed err dir])
      | Inr entries \<Rightarrow> load_template_entries yaml env entries)"

fun loadPromptTemplates ::
  "(js_string \<Rightarrow> js_string + json) \<Rightarrow> env_files \<Rightarrow> js_string list \<Rightarrow> prompt_template list \<times> load_diagnostic list" where
  "loadPromptTemplates yaml env [] = ([], [])"
| "loadPromptTemplates yaml env (dir # dirs) =
     (let (ts, ds) =
            (case ef_fileInfo env dir of
               Inl err \<Rightarrow> ([], if is_not_found err then [] else [load_warning FileInfoFailed err dir])
             | Inr info \<Rightarrow>
                 if fi_kind info = KindDirectory then loadTemplatesFromDir yaml env (fi_path info) else ([], []));
          (ts', ds') = loadPromptTemplates yaml env dirs
      in (ts @ ts', ds @ ds'))"

fun loadSourcedPromptTemplates ::
  "(js_string \<Rightarrow> js_string + json) \<Rightarrow> env_files \<Rightarrow> (js_string \<times> 's) list \<Rightarrow> (prompt_template \<Rightarrow> 's \<Rightarrow> 't)
     \<Rightarrow> ('t \<times> 's) list \<times> (load_diagnostic \<times> 's) list" where
  "loadSourcedPromptTemplates yaml env [] mapTemplate = ([], [])"
| "loadSourcedPromptTemplates yaml env ((path, src) # inputs) mapTemplate =
     (let (ts, ds) = loadPromptTemplates yaml env [path];
          (ts', ds') = loadSourcedPromptTemplates yaml env inputs mapTemplate
      in (map (\<lambda>t. (mapTemplate t src, src)) ts @ ts', map (\<lambda>d. (d, src)) ds @ ds'))"

text \<open>Lemmas on the argument parser and the substitutions.\<close>

definition quote_arg :: "js_string \<Rightarrow> js_string" where
  "quote_arg a = 34 # a @ [34]"

lemma command_args_quoted:
  "34 \<notin> set a \<Longrightarrow>
   command_args_loop (a @ 34 # rest) args current (Some 34) = command_args_loop rest args (current @ a) None"
  by (induction a arbitrary: current) auto

lemma command_args_quote_arg:
  "34 \<notin> set a \<Longrightarrow>
   command_args_loop (quote_arg a @ rest) args current None = command_args_loop rest args (current @ a) None"
  by (simp add: quote_arg_def command_args_quoted)

lemma command_args_join:
  "\<forall>a\<in>set bs. a \<noteq> [] \<and> 34 \<notin> set a \<Longrightarrow>
   command_args_loop (js_join [32] (map quote_arg bs)) args [] None = args @ bs"
proof (induction bs arbitrary: args)
  case Nil
  show ?case by simp
next
  case (Cons b bs)
  have b: "b \<noteq> []" "34 \<notin> set b" and bs: "\<forall>a\<in>set bs. a \<noteq> [] \<and> 34 \<notin> set a"
    using Cons.prems by auto
  show ?case
  proof (cases bs)
    case Nil
    then show ?thesis using b command_args_quote_arg [of b "[]"] by simp
  next
    case (Cons c cs)
    then show ?thesis
      using b Cons.IH [OF bs, of "args @ [b]"] by (simp add: command_args_quote_arg)
  qed
qed



lemma empty_quoted_argument_dropped:
  "parseCommandArgs (js_join [32] (map quote_arg [str ''a'', [], str ''b''])) = [str ''a'', str ''b'']"
  by (simp add: parseCommandArgs_def quote_arg_def str_def)

text \<open>The text of an argument is read as a replacement pattern, and expanded again.\<close>

lemma dollar_argument_corrupted:
  "substituteArgs (str ''pay $@ now'') [str ''$$5''] = str ''pay $5 now''"
  "substituteArgs (str ''say $ARGUMENTS'') [str ''a$&b''] = str ''say a$ARGUMENTSb''"
  "substituteArgs (str ''$1'') [str ''$@'', str ''x''] = str ''$@ x''"
  by code_simp+

end
