(* ===== verification/Skills.thy ===== *)
theory Skills
  imports Templates "HOL-Library.List_Lexorder" "HOL-Library.Multiset"
begin

text \<open>
  \<open>harness/skills.ts\<close> and the catalog of \<open>harness/system-prompt.ts\<close>: skills are Markdown files with
  front matter, found by a walk over a directory with an explicit stack.  The library \<open>ignore\<close> is
  the argument \<open>ignores\<close>, from the patterns added to a matcher and a path to whether it is ignored.
  The walk need not end, so it is a \<open>partial_function\<close>.
\<close>

subsection \<open>Skills\<close>

record skill =
  sk_name :: js_string
  sk_description :: js_string
  sk_content :: js_string
  sk_filePath :: js_string
  sk_disableModelInvocation :: bool

definition formatSkillInvocation :: "skill \<Rightarrow> js_string option \<Rightarrow> js_string" where
  "formatSkillInvocation s additionalInstructions =
     (let skillBlock = str ''<skill name=\"'' @ sk_name s @ str ''\" location=\"'' @ sk_filePath s @ str ''\">'' @ [10]
            @ str ''References are relative to '' @ dirnameEnvPath (sk_filePath s) @ str ''.'' @ [10, 10]
            @ sk_content s @ [10] @ str ''</skill>''
      in case additionalInstructions of
           Some t \<Rightarrow> skillBlock @ [10, 10] @ t
         | None \<Rightarrow> skillBlock)"

definition SKILL_BLOCK_PREAMBLE :: "js_string list" where
  "SKILL_BLOCK_PREAMBLE = map str
     [''The user has provided skills they want you to use whenever the user request can be solved with their help.'',
      ''Below is a list of skills with their unique names and descriptions of what they do.'',
      ''Use the `Skill` tool to invoke a skill by name when applicable.'',
      ''When a skill file references a relative path, resolve it against the skill directory (parent of SKILL.md / dirname of the path) and use that absolute path in tool commands.'']"

definition formatSkillsForSystemPrompt :: "skill list \<Rightarrow> js_string" where
  "formatSkillsForSystemPrompt skills =
     (if skills = [] then []
      else str ''<skills>'' @ [10] @ concat (map (\<lambda>line. line @ [10]) SKILL_BLOCK_PREAMBLE) @ [10]
        @ concat (map (\<lambda>s. str ''- name: '' @ sk_name s @ [10] @ str ''  description: '' @ sk_description s @ [10]) skills)
        @ str ''</skills>'')"

subsection \<open>Loading a file\<close>

definition MAX_NAME_LENGTH :: nat where "MAX_NAME_LENGTH = 64"
definition MAX_DESCRIPTION_LENGTH :: nat where "MAX_DESCRIPTION_LENGTH = 1024"

definition name_unit :: "nat \<Rightarrow> bool" where
  "name_unit c \<longleftrightarrow> (97 \<le> c \<and> c \<le> 122) \<or> digit c \<or> c = 45"

definition validateName :: "js_string \<Rightarrow> js_string \<Rightarrow> js_string list" where
  "validateName name parentDirName =
     (if name \<noteq> parentDirName
      then [str ''name \"'' @ name @ str ''\" does not match parent directory \"'' @ parentDirName @ str ''\"''] else [])
     @ (if length name > MAX_NAME_LENGTH
        then [str ''name exceeds '' @ show_nat MAX_NAME_LENGTH @ str '' characters ('' @ show_nat (length name) @ str '')'']
        else [])
     @ (if name \<noteq> [] \<and> list_all name_unit name then []
        else [str ''name contains invalid characters (must be lowercase a-z, 0-9, hyphens only)''])
     @ (if starts_with [45] name \<or> ends_with [45] name then [str ''name must not start or end with a hyphen''] else [])
     @ (if js_includes name (str ''--'') then [str ''name must not contain consecutive hyphens''] else [])"

definition validateDescription :: "js_string \<Rightarrow> js_string list" where
  "validateDescription description =
     (if trim description = [] then [str ''description is required'']
      else if length description > MAX_DESCRIPTION_LENGTH
      then [str ''description exceeds '' @ show_nat MAX_DESCRIPTION_LENGTH @ str '' characters (''
              @ show_nat (length description) @ str '')'']
      else [])"

definition invalid_metadata :: "js_string \<Rightarrow> js_string list \<Rightarrow> load_diagnostic list" where
  "invalid_metadata filePath errors =
     map (\<lambda>e. \<lparr>ld_code = InvalidMetadata, ld_message = e, ld_path = filePath\<rparr>) errors"

definition skill_of_frontmatter :: "js_string \<Rightarrow> json \<Rightarrow> js_string \<Rightarrow> skill option \<times> load_diagnostic list" where
  "skill_of_frontmatter filePath fm body =
     (let canonicalFlag = json_get fm (str ''disable_model_invocation'');
          legacyFlag = json_get fm (str ''disable-model-invocation'')
      in if canonicalFlag \<noteq> None \<and> legacyFlag \<noteq> None then
           (None, [\<lparr>ld_code = ParseFailed, ld_message = str ''yaml: duplicate field `disable_model_invocation`'',
                    ld_path = filePath\<rparr>])
         else
           (let disable = (case canonicalFlag of
                             Some v \<Rightarrow> if v = JNull then legacyFlag else Some v
                           | None \<Rightarrow> legacyFlag) = Some (JBool True);
                parentDirName = basenameEnvPath (dirnameEnvPath filePath);
                name = (case json_string (json_get fm (str ''name'')) of Some n \<Rightarrow> n | None \<Rightarrow> parentDirName);
                description = (case json_string (json_get fm (str ''description'')) of Some d \<Rightarrow> d | None \<Rightarrow> []);
                ds = invalid_metadata filePath (validateName name parentDirName @ validateDescription description)
            in if trim description = [] then (None, ds)
               else (Some \<lparr>sk_name = name, sk_description = description, sk_content = body,
                           sk_filePath = filePath, sk_disableModelInvocation = disable\<rparr>, ds)))"

definition loadSkillFromFile ::
  "(js_string \<Rightarrow> js_string + json) \<Rightarrow> env_files \<Rightarrow> js_string \<Rightarrow> skill option \<times> load_diagnostic list" where
  "loadSkillFromFile yaml env filePath =
     (case ef_readTextFile env filePath of
        Inl err \<Rightarrow> (None, [load_warning ReadFailed err filePath])
      | Inr raw \<Rightarrow>
          (case parseFrontmatter yaml raw of
             Inl msg \<Rightarrow> (None, [\<lparr>ld_code = ParseFailed, ld_message = msg, ld_path = filePath\<rparr>])
           | Inr (fm, body) \<Rightarrow> skill_of_frontmatter filePath fm body))"

subsection \<open>Ignore files\<close>

definition IGNORE_FILE_NAMES :: "js_string list" where
  "IGNORE_FILE_NAMES = map str [''.gitignore'', ''.ignore'', ''.fdignore'']"

text \<open>\<open>split(/\r?\n/)\<close>\<close>

definition strip_cr :: "js_string \<Rightarrow> js_string" where
  "strip_cr s = (if s \<noteq> [] \<and> List.last s = 13 then butlast s else s)"

definition split_lines :: "js_string \<Rightarrow> js_string list" where
  "split_lines s = (let ps = js_split 10 s in map strip_cr (butlast ps) @ [List.last ps])"

definition prefixIgnorePattern :: "js_string \<Rightarrow> js_string \<Rightarrow> js_string option" where
  "prefixIgnorePattern line prefix =
     (let trimmed = trim line
      in if trimmed = [] then None
         else if starts_with [35] trimmed then None
         else
           (let negated = starts_with [33] line;
                pattern1 = (if negated \<or> starts_with [92, 33] line then drop 1 line else line);
                pattern2 = (if starts_with [47] pattern1 then drop 1 pattern1 else pattern1);
                prefixed = prefix @ pattern2
            in Some (if negated then 33 # prefixed else prefixed)))"

definition nonempty_pattern :: "js_string option \<Rightarrow> js_string list" where
  "nonempty_pattern p = (case p of Some q \<Rightarrow> if q = [] then [] else [q] | None \<Rightarrow> [])"

definition ignore_patterns :: "js_string \<Rightarrow> js_string \<Rightarrow> js_string list" where
  "ignore_patterns prefix text = concat (map (\<lambda>line. nonempty_pattern (prefixIgnorePattern line prefix)) (split_lines text))"

text \<open>Each file with a pattern replaces the matcher.\<close>

fun addIgnoreRules_loop ::
  "env_files \<Rightarrow> js_string \<Rightarrow> js_string \<Rightarrow> js_string list \<Rightarrow> js_string list \<Rightarrow> js_string list \<times> load_diagnostic list" where
  "addIgnoreRules_loop env dir prefix [] matcher = (matcher, [])"
| "addIgnoreRules_loop env dir prefix (filename # rest) matcher =
     (let ignorePath = joinEnvPath dir filename;
          (matcher', ds) =
            (case ef_fileInfo env ignorePath of
               Inl err \<Rightarrow> (matcher, if is_not_found err then [] else [load_warning FileInfoFailed err ignorePath])
             | Inr info \<Rightarrow>
                 if fi_kind info \<noteq> KindFile then (matcher, [])
                 else (case ef_readTextFile env ignorePath of
                         Inl err \<Rightarrow> (matcher, [load_warning ReadFailed err ignorePath])
                       | Inr text \<Rightarrow>
                           (let patterns = ignore_patterns prefix text
                            in (if patterns = [] then matcher else patterns, []))));
          (matcher'', ds') = addIgnoreRules_loop env dir prefix rest matcher'
      in (matcher'', ds @ ds'))"

definition addIgnoreRules ::
  "env_files \<Rightarrow> js_string \<Rightarrow> js_string \<Rightarrow> js_string list \<Rightarrow> js_string list \<times> load_diagnostic list" where
  "addIgnoreRules env root dir matcher =
     (let relativeDir = relativeEnvPath root dir;
          prefix = (if relativeDir = [] then [] else relativeDir @ [47])
      in addIgnoreRules_loop env dir prefix IGNORE_FILE_NAMES matcher)"

definition isIgnored :: "(js_string list \<Rightarrow> js_string \<Rightarrow> bool) \<Rightarrow> js_string list \<Rightarrow> js_string \<Rightarrow> bool \<Rightarrow> bool" where
  "isIgnored ignores matcher rel isDir \<longleftrightarrow> rel \<noteq> [] \<and> ignores matcher (if isDir then rel @ [47] else rel)"

subsection \<open>The walk\<close>

definition resolveKind :: "env_files \<Rightarrow> file_info \<Rightarrow> file_kind option \<times> load_diagnostic list" where
  "resolveKind env info =
     (if fi_kind info \<noteq> KindSymlink then (Some (fi_kind info), [])
      else
        (case ef_canonicalPath env (fi_path info) of
           Inl err \<Rightarrow> (None, if is_not_found err then [] else [load_warning FileInfoFailed err (fi_path info)])
         | Inr path \<Rightarrow>
             (case ef_fileInfo env path of
                Inl err \<Rightarrow> (None, if is_not_found err then [] else [load_warning FileInfoFailed err (fi_path info)])
              | Inr target \<Rightarrow> (if fi_kind target = KindSymlink then None else Some (fi_kind target), []))))"

record walk_state =
  wk_stack :: "(js_string \<times> bool) list"
  wk_matcher :: "js_string list"
  wk_skills :: "skill list"
  wk_diagnostics :: "load_diagnostic list"

definition add_diagnostics :: "load_diagnostic list \<Rightarrow> walk_state \<Rightarrow> walk_state" where
  "add_diagnostics ds w = w\<lparr>wk_diagnostics := wk_diagnostics w @ ds\<rparr>"

definition add_loaded :: "skill option \<times> load_diagnostic list \<Rightarrow> walk_state \<Rightarrow> walk_state" where
  "add_loaded r w =
     add_diagnostics (snd r)
       (case fst r of Some s \<Rightarrow> w\<lparr>wk_skills := wk_skills w @ [s]\<rparr> | None \<Rightarrow> w)"

text \<open>The first pass: the result tells whether the directory is a skill of its own.\<close>

fun first_pass ::
  "(js_string \<Rightarrow> js_string + json) \<Rightarrow> (js_string list \<Rightarrow> js_string \<Rightarrow> bool) \<Rightarrow> env_files \<Rightarrow> js_string
     \<Rightarrow> file_info list \<Rightarrow> walk_state \<Rightarrow> bool \<times> walk_state" where
  "first_pass yaml ignores env root [] w = (False, w)"
| "first_pass yaml ignores env root (e # es) w =
     (if fi_name e \<noteq> str ''SKILL.md'' then first_pass yaml ignores env root es w
      else
        (let w1 = add_diagnostics (snd (resolveKind env e)) w
         in if fst (resolveKind env e) \<noteq> Some KindFile
              \<or> isIgnored ignores (wk_matcher w1) (relativeEnvPath root (fi_path e)) False
            then first_pass yaml ignores env root es w1
            else (True, add_loaded (loadSkillFromFile yaml env (fi_path e)) w1)))"

definition skipped_entry :: "file_info \<Rightarrow> bool" where
  "skipped_entry e \<longleftrightarrow> starts_with [46] (fi_name e) \<or> fi_name e = str ''node_modules''"

definition second_pass_entry ::
  "(js_string \<Rightarrow> js_string + json) \<Rightarrow> (js_string list \<Rightarrow> js_string \<Rightarrow> bool) \<Rightarrow> env_files \<Rightarrow> js_string
     \<Rightarrow> bool \<Rightarrow> file_info \<Rightarrow> walk_state \<Rightarrow> walk_state" where
  "second_pass_entry yaml ignores env root includeRootFiles e w =
     (if skipped_entry e then w
      else
        (let w1 = add_diagnostics (snd (resolveKind env e)) w
         in case fst (resolveKind env e) of
              None \<Rightarrow> w1
            | Some kind \<Rightarrow>
                (let isDir = (kind = KindDirectory)
                 in if isIgnored ignores (wk_matcher w1) (relativeEnvPath root (fi_path e)) isDir then w1
                    else if isDir then w1\<lparr>wk_stack := (fi_path e, False) # wk_stack w1\<rparr>
                    else if \<not> includeRootFiles \<or> \<not> ends_with (str ''.md'') (fi_name e) then w1
                    else add_loaded (loadSkillFromFile yaml env (fi_path e)) w1)))"

definition sort_entries :: "file_info list \<Rightarrow> file_info list" where
  "sort_entries entries = sort_key fi_name entries"

definition walkOne ::
  "(js_string \<Rightarrow> js_string + json) \<Rightarrow> (js_string list \<Rightarrow> js_string \<Rightarrow> bool) \<Rightarrow> env_files \<Rightarrow> js_string
     \<Rightarrow> js_string \<Rightarrow> bool \<Rightarrow> walk_state \<Rightarrow> walk_state" where
  "walkOne yaml ignores env root dir includeRootFiles w =
     (let (matcher, ds) = addIgnoreRules env root dir (wk_matcher w);
          w1 = add_diagnostics ds (w\<lparr>wk_matcher := matcher\<rparr>)
      in case ef_listDir env dir of
           Inl err \<Rightarrow> add_diagnostics [load_warning ListFailed err dir] w1
         | Inr entries \<Rightarrow>
             (let (own_skill, w2) = first_pass yaml ignores env root entries w1
              in if own_skill then w2
                 else fold (second_pass_entry yaml ignores env root includeRootFiles) (sort_entries entries) w2))"

partial_function (option) walk_loop ::
  "(js_string \<Rightarrow> js_string + json) \<Rightarrow> (js_string list \<Rightarrow> js_string \<Rightarrow> bool) \<Rightarrow> env_files \<Rightarrow> js_string
     \<Rightarrow> walk_state \<Rightarrow> walk_state option" where
  "walk_loop yaml ignores env root w =
     (case wk_stack w of
        [] \<Rightarrow> Some w
      | (dir, includeRootFiles) # rest \<Rightarrow>
          walk_loop yaml ignores env root (walkOne yaml ignores env root dir includeRootFiles (w\<lparr>wk_stack := rest\<rparr>)))"

definition skill_walk ::
  "(js_string \<Rightarrow> js_string + json) \<Rightarrow> (js_string list \<Rightarrow> js_string \<Rightarrow> bool) \<Rightarrow> env_files \<Rightarrow> js_string
     \<Rightarrow> (skill list \<times> load_diagnostic list) option" where
  "skill_walk yaml ignores env root =
     map_option (\<lambda>w. (wk_skills w, wk_diagnostics w))
       (walk_loop yaml ignores env root
          \<lparr>wk_stack = [(root, True)], wk_matcher = [], wk_skills = [], wk_diagnostics = []\<rparr>)"

definition load_skill_dir ::
  "(js_string \<Rightarrow> js_string + json) \<Rightarrow> (js_string list \<Rightarrow> js_string \<Rightarrow> bool) \<Rightarrow> env_files \<Rightarrow> js_string
     \<Rightarrow> (skill list \<times> load_diagnostic list) option" where
  "load_skill_dir yaml ignores env dir =
     (case ef_fileInfo env dir of
        Inl err \<Rightarrow> Some ([], if is_not_found err then [] else [load_warning FileInfoFailed err dir])
      | Inr info \<Rightarrow>
          if fst (resolveKind env info) \<noteq> Some KindDirectory then Some ([], snd (resolveKind env info))
          else map_option (\<lambda>(ss, ds). (ss, snd (resolveKind env info) @ ds))
                 (skill_walk yaml ignores env (fi_path info)))"

fun loadSkills ::
  "(js_string \<Rightarrow> js_string + json) \<Rightarrow> (js_string list \<Rightarrow> js_string \<Rightarrow> bool) \<Rightarrow> env_files \<Rightarrow> js_string list
     \<Rightarrow> (skill list \<times> load_diagnostic list) option" where
  "loadSkills yaml ignores env [] = Some ([], [])"
| "loadSkills yaml ignores env (dir # dirs) =
     (case load_skill_dir yaml ignores env dir of
        None \<Rightarrow> None
      | Some (ss, ds) \<Rightarrow>
          map_option (\<lambda>(ss', ds'). (ss @ ss', ds @ ds')) (loadSkills yaml ignores env dirs))"

fun loadSourcedSkills ::
  "(js_string \<Rightarrow> js_string + json) \<Rightarrow> (js_string list \<Rightarrow> js_string \<Rightarrow> bool) \<Rightarrow> env_files \<Rightarrow> (js_string \<times> 's) list
     \<Rightarrow> (skill \<Rightarrow> 's \<Rightarrow> 't) \<Rightarrow> (('t \<times> 's) list \<times> (load_diagnostic \<times> 's) list) option" where
  "loadSourcedSkills yaml ignores env [] mapSkill = Some ([], [])"
| "loadSourcedSkills yaml ignores env ((path, src) # inputs) mapSkill =
     (case loadSkills yaml ignores env [path] of
        None \<Rightarrow> None
      | Some (ss, ds) \<Rightarrow>
          map_option (\<lambda>(ss', ds'). (map (\<lambda>s. (mapSkill s src, src)) ss @ ss', map (\<lambda>d. (d, src)) ds @ ds'))
            (loadSourcedSkills yaml ignores env inputs mapSkill))"

subsection \<open>What a walk pushes and loads\<close>

lemmas loading_defs = add_diagnostics_def add_loaded_def

lemma loadSkillFromFile_path: "fst (loadSkillFromFile yaml env p) = Some s \<Longrightarrow> sk_filePath s = p"
  by (auto simp: loadSkillFromFile_def skill_of_frontmatter_def Let_def split: sum.splits if_splits)

lemma loadSkillFromFile_described: "fst (loadSkillFromFile yaml env p) = Some s \<Longrightarrow> trim (sk_description s) \<noteq> []"
  by (auto simp: loadSkillFromFile_def skill_of_frontmatter_def Let_def split: sum.splits if_splits)

definition loaded :: "(js_string \<Rightarrow> js_string + json) \<Rightarrow> env_files \<Rightarrow> walk_state \<Rightarrow> bool" where
  "loaded yaml env w \<longleftrightarrow> (\<forall>s\<in>set (wk_skills w). fst (loadSkillFromFile yaml env (sk_filePath s)) = Some s)"

lemma loaded_add_diagnostics [simp]: "loaded yaml env (add_diagnostics ds w) = loaded yaml env w"
  by (simp add: loaded_def loading_defs)

lemma loaded_updates [simp]:
  "loaded yaml env (w\<lparr>wk_stack := st\<rparr>) = loaded yaml env w"
  "loaded yaml env (w\<lparr>wk_matcher := m\<rparr>) = loaded yaml env w"
  by (simp_all add: loaded_def)

lemma loaded_add_loaded: "loaded yaml env w \<Longrightarrow> loaded yaml env (add_loaded (loadSkillFromFile yaml env p) w)"
  by (auto simp: loaded_def loading_defs dest: loadSkillFromFile_path split: option.splits)

lemma stack_add [simp]:
  "wk_stack (add_diagnostics ds w) = wk_stack w"
  "wk_stack (add_loaded r w) = wk_stack w"
  by (simp_all add: loading_defs split: option.split)

lemma loaded_first_pass:
  "loaded yaml env w \<Longrightarrow> loaded yaml env (snd (first_pass yaml ignores env root es w))"
  by (induction es arbitrary: w) (auto simp: Let_def loaded_add_loaded)

lemma stack_first_pass [simp]: "wk_stack (snd (first_pass yaml ignores env root es w)) = wk_stack w"
  by (induction es arbitrary: w) (auto simp: Let_def)

lemma loaded_second_pass_entry:
  "loaded yaml env w \<Longrightarrow> loaded yaml env (second_pass_entry yaml ignores env root incl e w)"
  by (simp add: second_pass_entry_def Let_def loaded_add_loaded split: option.split)

definition walked :: "env_files \<Rightarrow> file_info \<Rightarrow> bool" where
  "walked env e \<longleftrightarrow> \<not> skipped_entry e \<and> fst (resolveKind env e) = Some KindDirectory"

lemma stack_second_pass_entry:
  "wk_stack (second_pass_entry yaml ignores env root incl e w)
     = (if walked env e \<and> \<not> isIgnored ignores (wk_matcher w) (relativeEnvPath root (fi_path e)) True
        then [(fi_path e, False)] else []) @ wk_stack w"
  by (auto simp: second_pass_entry_def Let_def walked_def add_diagnostics_def split: option.split)

definition subdirectories :: "env_files \<Rightarrow> js_string \<Rightarrow> js_string set" where
  "subdirectories env dir =
     (case ef_listDir env dir of Inl err \<Rightarrow> {} | Inr es \<Rightarrow> fi_path ` {e \<in> set es. walked env e})"

lemma second_pass:
  assumes "loaded yaml env w"
  shows "loaded yaml env (fold (second_pass_entry yaml ignores env root incl) es w)
    \<and> (\<exists>ps. wk_stack (fold (second_pass_entry yaml ignores env root incl) es w) = ps @ wk_stack w
          \<and> fst ` set ps \<subseteq> fi_path ` {e \<in> set es. walked env e})"
  using assms
proof (induction es arbitrary: w)
  case (Cons e es)
  let ?f = "second_pass_entry yaml ignores env root incl"
  obtain ps where ps: "wk_stack (fold ?f es (?f e w)) = ps @ wk_stack (?f e w)"
      "fst ` set ps \<subseteq> fi_path ` {e \<in> set es. walked env e}"
    and l: "loaded yaml env (fold ?f es (?f e w))"
    using Cons.IH [OF loaded_second_pass_entry [OF Cons.prems, of ignores root incl e]] by blast
  obtain qs where qs: "wk_stack (?f e w) = qs @ wk_stack w"
      "fst ` set qs \<subseteq> (if walked env e then {fi_path e} else {})"
    by (rule that) (auto simp: stack_second_pass_entry)
  have "fst ` set (ps @ qs) \<subseteq> fi_path ` {e' \<in> set (e # es). walked env e'}"
    using ps(2) qs(2) by (auto split: if_splits)
  then show ?case using l ps(1) qs(1) by (auto intro!: exI [of _ "ps @ qs"])
qed simp

lemma walkOne_step:
  assumes "loaded yaml env w"
  shows "loaded yaml env (walkOne yaml ignores env root dir incl w)
    \<and> (\<exists>ps. wk_stack (walkOne yaml ignores env root dir incl w) = ps @ wk_stack w
          \<and> fst ` set ps \<subseteq> subdirectories env dir)"
proof (cases "ef_listDir env dir")
  case (Inl err)
  then show ?thesis using assms by (simp add: walkOne_def subdirectories_def case_prod_unfold Let_def)
next
  case (Inr es)
  let ?w1 = "add_diagnostics (snd (addIgnoreRules env root dir (wk_matcher w)))
               (w\<lparr>wk_matcher := fst (addIgnoreRules env root dir (wk_matcher w))\<rparr>)"
  let ?w2 = "snd (first_pass yaml ignores env root es ?w1)"
  have w2: "loaded yaml env ?w2" using assms by (simp add: loaded_first_pass)
  show ?thesis
    using second_pass [OF w2, of ignores root incl "sort_entries es"] w2 Inr
    by (simp add: walkOne_def subdirectories_def sort_entries_def case_prod_unfold Let_def)
qed

lemma walk_loop_pop:
  "wk_stack w = (dir, incl) # rest \<Longrightarrow>
   walk_loop yaml ignores env root w
     = walk_loop yaml ignores env root (walkOne yaml ignores env root dir incl (w\<lparr>wk_stack := rest\<rparr>))"
  by (subst walk_loop.simps) simp

lemma walk_loop_end: "wk_stack w = [] \<Longrightarrow> walk_loop yaml ignores env root w = Some w"
  by (subst walk_loop.simps) simp

subsection \<open>The walk of a finite tree returns\<close>

definition finite_tree :: "env_files \<Rightarrow> (js_string \<Rightarrow> nat) \<Rightarrow> bool" where
  "finite_tree env depth \<longleftrightarrow> (\<forall>dir. \<forall>p\<in>subdirectories env dir. depth p < depth dir)"

definition stack_depths :: "(js_string \<Rightarrow> nat) \<Rightarrow> walk_state \<Rightarrow> nat multiset" where
  "stack_depths depth w = mset (map (\<lambda>d. depth (fst d)) (wk_stack w))"

lemma walkOne_decreases:
  assumes tree: "finite_tree env depth" and l: "loaded yaml env w" and st: "wk_stack w = (dir, incl) # rest"
  shows "(stack_depths depth (walkOne yaml ignores env root dir incl (w\<lparr>wk_stack := rest\<rparr>)), stack_depths depth w)
           \<in> mult less_than"
proof -
  obtain ps where ps: "wk_stack (walkOne yaml ignores env root dir incl (w\<lparr>wk_stack := rest\<rparr>)) = ps @ rest"
      and sub: "fst ` set ps \<subseteq> subdirectories env dir"
    using walkOne_step [of yaml env "w\<lparr>wk_stack := rest\<rparr>" ignores root dir incl] l by auto
  have "(mset (map (\<lambda>d. depth (fst d)) rest) + mset (map (\<lambda>d. depth (fst d)) ps),
         mset (map (\<lambda>d. depth (fst d)) rest) + {#depth dir#}) \<in> mult less_than"
    using tree sub by (intro one_step_implies_mult) (auto simp: finite_tree_def)
  then show ?thesis using ps st by (simp add: stack_depths_def add.commute)
qed

lemma walk_loop_returns:
  assumes tree: "finite_tree env depth"
  shows "loaded yaml env w \<Longrightarrow> \<exists>w'. walk_loop yaml ignores env root w = Some w' \<and> loaded yaml env w'"
proof (induction "stack_depths depth w" arbitrary: w rule: wf_induct_rule [OF wf_mult [OF wf_less_than]])
  case 1
  show ?case
  proof (cases "wk_stack w")
    case Nil
    then show ?thesis using 1(2) by (simp add: walk_loop_end)
  next
    case (Cons d rest)
    obtain dir incl where d: "d = (dir, incl)" by (cases d)
    have st: "wk_stack w = (dir, incl) # rest" using Cons d by simp
    show ?thesis
      using 1(1) [OF walkOne_decreases [OF tree 1(2) st]] walkOne_step [of yaml env "w\<lparr>wk_stack := rest\<rparr>"] 1(2)
      by (simp add: walk_loop_pop [OF st])
  qed
qed

definition all_loaded :: "(js_string \<Rightarrow> js_string + json) \<Rightarrow> env_files \<Rightarrow> skill list \<Rightarrow> bool" where
  "all_loaded yaml env ss \<longleftrightarrow> (\<forall>s\<in>set ss. fst (loadSkillFromFile yaml env (sk_filePath s)) = Some s)"

lemma skill_walk_returns:
  assumes "finite_tree env depth"
  shows "\<exists>ss ds. skill_walk yaml ignores env root = Some (ss, ds) \<and> all_loaded yaml env ss"
  using walk_loop_returns [OF assms, of yaml
      "\<lparr>wk_stack = [(root, True)], wk_matcher = [], wk_skills = [], wk_diagnostics = []\<rparr>" ignores root]
  by (auto simp: skill_walk_def loaded_def all_loaded_def)

lemma load_skill_dir_returns:
  assumes "finite_tree env depth"
  shows "\<exists>ss ds. load_skill_dir yaml ignores env dir = Some (ss, ds) \<and> all_loaded yaml env ss"
proof (cases "ef_fileInfo env dir")
  case (Inr info)
  then show ?thesis
    using skill_walk_returns [OF assms, of yaml ignores "fi_path info"]
    by (auto simp: load_skill_dir_def all_loaded_def)
qed (simp add: load_skill_dir_def all_loaded_def)

lemma loadSkills_some:
  assumes "finite_tree env depth"
  shows "\<exists>ss ds. loadSkills yaml ignores env dirs = Some (ss, ds) \<and> all_loaded yaml env ss"
proof (induction dirs)
  case (Cons dir dirs)
  then show ?case
    using load_skill_dir_returns [OF assms, of yaml ignores dir] by (auto simp: all_loaded_def)
qed (simp add: all_loaded_def)


definition sample_entry :: "string \<Rightarrow> string \<Rightarrow> file_kind \<Rightarrow> file_info" where
  "sample_entry name path kind = \<lparr>fi_name = str name, fi_path = str path, fi_kind = kind\<rparr>"

definition sample_env :: env_files where
  "sample_env =
     \<lparr>ef_fileInfo = (\<lambda>p. if p = str ''/s'' then Inr (sample_entry ''s'' ''/s'' KindDirectory)
                         else Inl (FileError FileNotFound [])),
      ef_listDir = (\<lambda>p. if p = str ''/s'' then Inr [sample_entry ''git'' ''/s/git'' KindDirectory]
                        else if p = str ''/s/git'' then Inr [sample_entry ''SKILL.md'' ''/s/git/SKILL.md'' KindFile]
                        else Inl (FileError FileNotFound [])),
      ef_readTextFile = (\<lambda>p. if p = str ''/s/git/SKILL.md''
                             then Inr (str ''---'' @ [10] @ str ''description: d'' @ [10] @ str ''---'' @ [10] @ str ''Use git.'')
                             else Inl (FileError FileNotFound [])),
      ef_canonicalPath = Inr\<rparr>"

definition sample_yaml :: "js_string \<Rightarrow> js_string + json" where
  "sample_yaml text = Inr (JObj [(str ''description'', JStr (str ''d''))])"


subsection \<open>Links that form a cycle\<close>

lemma walk_loop_some_stack:
  assumes "walk_loop yaml ignores env root w = Some w'"
  shows "(\<forall>dir incl w. wk_stack (walkOne yaml ignores env root dir incl w) \<noteq> []) \<longrightarrow> wk_stack w = []"
proof (rule walk_loop.raw_induct [OF _ assms], intro impI)
  fix walk :: "(js_string \<Rightarrow> js_string + json) \<Rightarrow> (js_string list \<Rightarrow> js_string \<Rightarrow> bool) \<Rightarrow> env_files
    \<Rightarrow> js_string \<Rightarrow> walk_state \<Rightarrow> walk_state option"
  fix yaml ignores env root w w'
  assume IH: "\<And>yaml ignores env root w w'. walk yaml ignores env root w = Some w' \<Longrightarrow>
      (\<forall>dir incl w. wk_stack (walkOne yaml ignores env root dir incl w) \<noteq> []) \<longrightarrow> wk_stack w = []"
    and step: "(case wk_stack w of [] \<Rightarrow> Some w
      | (dir, incl) # rest \<Rightarrow>
          walk yaml ignores env root (walkOne yaml ignores env root dir incl (w\<lparr>wk_stack := rest\<rparr>))) = Some w'"
    and grow: "\<forall>dir incl w. wk_stack (walkOne yaml ignores env root dir incl w) \<noteq> []"
  show "wk_stack w = []"
  proof (cases "wk_stack w")
    case (Cons d rest)
    then show ?thesis
      using IH [of yaml ignores env root "walkOne yaml ignores env root (fst d) (snd d) (w\<lparr>wk_stack := rest\<rparr>)" w']
        step grow by (simp add: case_prod_unfold)
  qed
qed

text \<open>
  A directory that lists a link to itself is walked for ever: nothing records which directories were
  visited.
\<close>

definition loop_link :: "js_string \<Rightarrow> file_info" where
  "loop_link d = \<lparr>fi_name = str ''loop'', fi_path = d @ str ''/loop'', fi_kind = KindSymlink\<rparr>"

definition cyclic_env :: env_files where
  "cyclic_env =
     \<lparr>ef_fileInfo = (\<lambda>p. if ends_with (str ''ignore'') p then Inl (FileError FileNotFound [])
                         else Inr \<lparr>fi_name = str ''s'', fi_path = p, fi_kind = KindDirectory\<rparr>),
      ef_listDir = (\<lambda>p. Inr [loop_link p]),
      ef_readTextFile = (\<lambda>p. Inl (FileError FileNotFound [])),
      ef_canonicalPath = (\<lambda>p. Inr (str ''/s''))\<rparr>"

lemma symlink_cycle_never_returns:
  "skill_walk yaml (\<lambda>ps p. False) cyclic_env root = None"
proof -
  let ?i = "\<lambda>ps p. False"
  have k: "fst (resolveKind cyclic_env (loop_link d)) = Some KindDirectory" for d
    by (simp add: resolveKind_def cyclic_env_def loop_link_def ends_with_def starts_with_def str_def)
  have n: "fi_name (loop_link d) \<noteq> str ''SKILL.md''" "\<not> skipped_entry (loop_link d)" for d
    by (simp_all add: loop_link_def skipped_entry_def starts_with_def str_def)
  have ls: "ef_listDir cyclic_env d = Inr [loop_link d]" for d
    by (simp add: cyclic_env_def)
  have "wk_stack (walkOne yaml ?i cyclic_env root dir incl w) \<noteq> []" for dir incl w
    using k [of dir] n [of dir]
    by (simp add: walkOne_def case_prod_unfold Let_def ls sort_entries_def second_pass_entry_def isIgnored_def)
  then show ?thesis
    using walk_loop_some_stack [of yaml ?i cyclic_env root]
    by (fastforce simp: skill_walk_def)
qed

lemma root_anchor_dropped: "prefixIgnorePattern (str ''/build'') [] = prefixIgnorePattern (str ''build'') []"
  by (simp add: prefixIgnorePattern_def starts_with_def trim_def trim_start_def trim_end_def js_space_def str_def)

lemma nested_pattern_anchored:
  "prefixIgnorePattern (str ''*.tmp'') (str ''a/'') = Some (str ''a/*.tmp'')"
  by (simp add: prefixIgnorePattern_def starts_with_def trim_def trim_start_def trim_end_def js_space_def str_def)

end
