(* ===== verification/HarnessState.thy ===== *)
theory HarnessState
  imports TriggerText TriggerRuntime SessionTypes Agent Skills Budget
begin

text \<open>
  The state of the class \<open>AgentHarness\<close> (\<open>harness/agent-harness.ts\<close>) and the events it emits.  The
  world of its operations is that state with what is outside: the session's storage, the hooks, the
  listeners.  A call out of the class may change both, as other work runs while the call is
  awaited.  An abort controller is the option of its flag: None when the field is \<open>undefined\<close>.
\<close>

datatype harness_phase = PhaseIdle | PhaseTurn | PhaseCompaction | PhaseBranchSummary | PhaseRetry

record running_trigger_state =
  rts_traceId :: js_string
  rts_sourceLabel :: js_string
  rts_eventLabel :: js_string
  rts_startedAt :: js_string
  rts_promptPreview :: js_string

record running_trigger =
  rt_state :: running_trigger_state
  rt_aborted :: bool                       \<comment> \<open>\<open>abort.signal.aborted\<close>\<close>

record harness_tool =
  ht_name :: js_string
  ht_description :: js_string

record harness_resources =
  hr_skills :: "skill list option"
  hr_promptTemplates :: "prompt_template list option"

record harness =
  h_phase :: harness_phase
  h_model :: model_ref
  h_thinkingLevel :: thinking_level
  h_steerQueue :: "agent_message list"
  h_steeringQueueMode :: queue_mode
  h_followUpQueue :: "agent_message list"
  h_followUpQueueMode :: queue_mode
  h_nextTurnQueue :: "agent_message list"
  h_pendingSessionWrites :: "entry_body list"
  h_tools :: "(js_string, harness_tool) js_map"
  h_activeToolNames :: "js_string list"
  h_resources :: harness_resources
  h_compactionSettings :: compaction_settings
  h_pendingBudgetCapTrip :: "js_string option"
  h_runPromise :: bool                     \<comment> \<open>whether \<open>runPromise\<close> is set\<close>
  h_runAbortController :: "bool option"
  h_activeHookAbortController :: "bool option"
  h_triggerRuntime :: trigger_runtime
  h_runningTriggers :: "(js_string, running_trigger) js_map"

text \<open>The options of the constructor that become state; None where they are absent.\<close>

record harness_options =
  ho_model :: model_ref
  ho_thinkingLevel :: "thinking_level option"
  ho_tools :: "harness_tool list option"
  ho_activeToolNames :: "js_string list option"
  ho_resources :: "harness_resources option"
  ho_steeringMode :: "queue_mode option"
  ho_followUpMode :: "queue_mode option"
  ho_compaction :: "compaction_settings option"
  ho_triggerRuntime :: trigger_runtime

definition tool_map :: "harness_tool list \<Rightarrow> (js_string, harness_tool) js_map" where
  "tool_map tools = map_of_entries (map (\<lambda>t. (ht_name t, t)) tools)"

definition given :: "'a option \<Rightarrow> 'a \<Rightarrow> 'a" where
  "given v d = (case v of Some x \<Rightarrow> x | None \<Rightarrow> d)"

definition new_AgentHarness :: "harness_options \<Rightarrow> harness" where
  "new_AgentHarness opts =
     (let tools = given (ho_tools opts) []
      in \<lparr>h_phase = PhaseIdle, h_model = ho_model opts, h_thinkingLevel = given (ho_thinkingLevel opts) TLOff,
          h_steerQueue = [], h_steeringQueueMode = given (ho_steeringMode opts) OneAtATime,
          h_followUpQueue = [], h_followUpQueueMode = given (ho_followUpMode opts) OneAtATime,
          h_nextTurnQueue = [], h_pendingSessionWrites = [], h_tools = tool_map tools,
          h_activeToolNames = given (ho_activeToolNames opts) (map ht_name tools),
          h_resources = given (ho_resources opts) \<lparr>hr_skills = None, hr_promptTemplates = None\<rparr>,
          h_compactionSettings = given (ho_compaction opts) DEFAULT_COMPACTION_SETTINGS,
          h_pendingBudgetCapTrip = None, h_runPromise = False, h_runAbortController = None,
          h_activeHookAbortController = None, h_triggerRuntime = ho_triggerRuntime opts, h_runningTriggers = []\<rparr>)"

lemma new_harness_triggers [simp]:
  "h_runningTriggers (new_AgentHarness opts) = []"
  "h_triggerRuntime (new_AgentHarness opts) = ho_triggerRuntime opts"
  "h_phase (new_AgentHarness opts) = PhaseIdle"
  by (simp_all add: new_AgentHarness_def Let_def)

record 'o harness_world =
  hw_harness :: harness
  hw_outside :: 'o

definition on_harness :: "(harness \<Rightarrow> harness) \<Rightarrow> 'o harness_world \<Rightarrow> 'o harness_world" where
  "on_harness f w = w\<lparr>hw_harness := f (hw_harness w)\<rparr>"

datatype turn_end_kind = EndStop | EndPause | EndContinue | EndBudgetLimited

datatype harness_event =
    TriggerHandlingStart js_string source_kind js_string js_string js_string
      \<comment> \<open>\<open>idempotencyKey\<close>, \<open>sourceKind\<close>, \<open>sourceLabel\<close>, \<open>eventLabel\<close>, \<open>traceId\<close>\<close>
  | TriggerHandled js_string js_string trigger_state "js_string option" json
      \<comment> \<open>\<open>idempotencyKey\<close>, \<open>traceId\<close>, \<open>state\<close>, \<open>auditEntryId\<close>, \<open>evaluatorDecision\<close>\<close>
  | TriggerPromptRequest trigger_prompt_request
  | PersistenceError js_string js_string                     \<comment> \<open>\<open>context\<close>, \<open>message\<close>\<close>
  | TriggerExecutionStarted js_string js_string js_string js_string
      \<comment> \<open>\<open>traceId\<close>, \<open>sourceLabel\<close>, \<open>eventLabel\<close>, \<open>promptPreview\<close>\<close>
  | TriggerCompleted js_string "js_string option" "int option" "json option"
      \<comment> \<open>\<open>traceId\<close>, \<open>summary\<close>, \<open>costUsd\<close>, \<open>details\<close>\<close>
  | TriggerFailed js_string js_string                        \<comment> \<open>\<open>traceId\<close>, \<open>reason\<close>\<close>
  | TriggerRequestsMainRun js_string
  | TriggerPromoted js_string js_string js_string js_string js_string
      \<comment> \<open>\<open>traceId\<close>, \<open>promoteKind\<close>, \<open>insertedEntryId\<close>, \<open>templateName\<close>, \<open>redactionStatus\<close>\<close>
  | PromotionPending js_string js_string js_string js_string
      \<comment> \<open>\<open>traceId\<close>, \<open>promoteKind\<close>, \<open>templateName\<close>, \<open>preview\<close>\<close>
  | TurnEnded turn_end_kind nat "js_string option" "js_string option"
      \<comment> \<open>\<open>decision\<close>, \<open>continuationCount\<close>, \<open>reason\<close>, \<open>nextPromptPreview\<close>\<close>
  | SkillsReloaded nat

definition createUserMessage :: "js_string \<Rightarrow> ms \<Rightarrow> agent_message" where
  "createUserMessage text now = UserMsg (Blocks [UText text]) now"

text \<open>\<open>abortTrigger\<close> and \<open>abortAllTriggers\<close>\<close>

definition abortTrigger :: "js_string \<Rightarrow> harness \<Rightarrow> harness" where
  "abortTrigger traceId h =
     (case map_get (h_runningTriggers h) traceId of
        None \<Rightarrow> h
      | Some r \<Rightarrow> h\<lparr>h_runningTriggers := map_set (h_runningTriggers h) traceId (r\<lparr>rt_aborted := True\<rparr>)\<rparr>)"

definition abortAllTriggers :: "harness \<Rightarrow> harness" where
  "abortAllTriggers h =
     h\<lparr>h_runningTriggers := map (\<lambda>(k, r). (k, r\<lparr>rt_aborted := True\<rparr>)) (h_runningTriggers h)\<rparr>"

definition running_states :: "harness \<Rightarrow> running_trigger_state list" where
  "running_states h = map (\<lambda>(k, r). rt_state r) (h_runningTriggers h)"

end
