(* ===== verification/TriggerFlow.thy ===== *)
theory TriggerFlow
  imports HarnessState
begin

text \<open>
  The life of a trigger in \<open>harness/agent-harness.ts\<close>: \<open>handleTrigger\<close> with its permission hook and
  its approval, the deliveries of an accepted trigger, and the promotion of its result into the
  parent's conversation.  The trace of a run holds the events the harness emits, the answers of the
  hooks, the entries it appends to the session, the messages it queues and the tasks it detaches,
  in their order.  Listeners of harness events are isolated by the code, so the sink is total;
  hooks, the session and the subscribers of queue updates may throw.  The run of a sub-agent,
  raced with its cancellation, is an argument.
\<close>

datatype before_trigger_decision = TriggerAllow | TriggerDeny js_string | TriggerPrompt js_string

datatype trigger_prompt_decision =
    PromptAllow
  | PromptDeny "js_string option"
  | PromptTimeout "js_string option"

text \<open>What ends a sub-agent's race: the messages it has ended and the error of the run, if any.\<close>

type_synonym sub_agent_run = "agent_message list \<times> js_string option"

datatype trigger_step =
    Emitted harness_event
  | HookAnswered "before_trigger_decision thrown"
  | PromptAnswered "trigger_prompt_decision thrown"
  | Appended js_string json "js_string thrown"
  | AppendedMessage agent_message "js_string thrown"
  | QueuedFollowUp agent_message
  | Detached trigger

record 'o trigger_env =
  te_dateParse :: "js_string \<Rightarrow> ms"
  te_sha256Hex :: "js_string \<Rightarrow> js_string"
  te_now :: "'o harness_world \<Rightarrow> ms"
  te_nowISO :: "'o harness_world \<Rightarrow> js_string"
  te_listen :: "harness_event \<Rightarrow> 'o harness_world \<Rightarrow> 'o harness_world"
  te_beforeTrigger ::
    "(trigger \<Rightarrow> trigger_runtime_snapshot \<Rightarrow> 'o harness_world
        \<Rightarrow> before_trigger_decision thrown \<times> 'o harness_world) option"
  te_onTriggerPrompt ::
    "(trigger_prompt_request \<Rightarrow> 'o harness_world \<Rightarrow> trigger_prompt_decision thrown \<times> 'o harness_world) option"
  te_beforeTriggerAction ::
    "(trigger \<Rightarrow> trigger_runtime_snapshot \<Rightarrow> 'o harness_world \<Rightarrow> trigger_action thrown \<times> 'o harness_world) option"
  te_appendCustom :: "js_string \<Rightarrow> json \<Rightarrow> 'o harness_world \<Rightarrow> js_string thrown \<times> 'o harness_world"
  te_appendMessage :: "agent_message \<Rightarrow> 'o harness_world \<Rightarrow> js_string thrown \<times> 'o harness_world"
  te_emitQueueUpdate :: "'o harness_world \<Rightarrow> unit thrown \<times> 'o harness_world"
  te_createTurnState :: "'o harness_world \<Rightarrow> unit thrown \<times> 'o harness_world"
  te_runSubAgent :: "js_string \<Rightarrow> js_string \<Rightarrow> 'o harness_world \<Rightarrow> sub_agent_run \<times> 'o harness_world"
    \<comment> \<open>of the trace id, whose cancellation ends the race, and the prompt\<close>

type_synonym ('o, 'a) trigger_io = "('o harness_world, trigger_step, 'a) action"

definition trigger_sink :: "'o trigger_env \<Rightarrow> trigger_step \<Rightarrow> 'o harness_world \<Rightarrow> 'o harness_world" where
  "trigger_sink env step w = (case step of Emitted e \<Rightarrow> te_listen env e w | _ \<Rightarrow> w)"

definition log_step :: "'o trigger_env \<Rightarrow> trigger_step \<Rightarrow> ('o, unit) trigger_io" where
  "log_step env step = act_emit (trigger_sink env) step"

definition emitHarnessEvent :: "'o trigger_env \<Rightarrow> harness_event \<Rightarrow> ('o, unit) trigger_io" where
  "emitHarnessEvent env e = log_step env (Emitted e)"

text \<open>A call whose answer, or whose error, enters the trace.\<close>

definition act_logged :: "('w \<Rightarrow> 'a thrown \<times> 'w) \<Rightarrow> ('a thrown \<Rightarrow> 'e) \<Rightarrow> ('w, 'e, 'a) action" where
  "act_logged f step s =
     (case f (world s) of (r, w) \<Rightarrow> Some (r, \<lparr>world = w, events = events s @ [step r]\<rparr>))"

definition set_harness :: "(harness \<Rightarrow> harness) \<Rightarrow> ('o, unit) trigger_io" where
  "set_harness f = act_call (\<lambda>w. (Inr (), on_harness f w))"

subsection \<open>handleTrigger\<close>

fun authority_json :: "trigger_authority \<Rightarrow> json" where
  "authority_json a =
     JObj ([(str ''principal_id'', JStr (principal_id a)), (str ''principal_label'', JStr (principal_label a)),
            (str ''credential_scope'', JStr (scope_name (credential_scope a))),
            (str ''allowed_source_actions'', JArr (map JStr (allowed_source_actions a)))]
           @ (case expires_at a of None \<Rightarrow> [] | Some e \<Rightarrow> [(str ''expires_at'', JStr e)]))"

fun trigger_source_json :: "trigger_source \<Rightarrow> json" where
  "trigger_source_json (McpSource server meth) =
     JObj [(str ''kind'', JStr (str ''mcp'')), (str ''server_name'', JStr server), (str ''method'', JStr meth)]"
| "trigger_source_json (LocalSource subkind) =
     JObj [(str ''kind'', JStr (str ''local'')), (str ''subkind'', JStr subkind)]"
| "trigger_source_json (AgentDelegate a d) =
     JObj [(str ''kind'', JStr (str ''agent_delegate'')), (str ''agent_id'', JStr a), (str ''delegation_id'', JStr d)]"

fun trigger_state_name :: "trigger_state \<Rightarrow> js_string" where
  "trigger_state_name Received = str ''received''"
| "trigger_state_name Accepted = str ''accepted''"
| "trigger_state_name Deduped = str ''deduped''"
| "trigger_state_name CycleSuppressed = str ''cycle_suppressed''"
| "trigger_state_name PermissionDenied = str ''permission_denied''"
| "trigger_state_name NeedsApproval = str ''needs_approval''"
| "trigger_state_name Running = str ''running''"
| "trigger_state_name Failed = str ''failed''"
| "trigger_state_name Completed = str ''completed''"

text \<open>A member that is left out when it is \<open>undefined\<close>.\<close>

definition optional_member :: "string \<Rightarrow> json option \<Rightarrow> (js_string \<times> json) list" where
  "optional_member name v = (case v of None \<Rightarrow> [] | Some x \<Rightarrow> [(str name, x)])"

definition trigger_record_json :: "trigger_record \<Rightarrow> json" where
  "trigger_record_json r =
     JObj ([(str ''schema_version'', JNum (schema_version r)),
            (str ''source'', trigger_source_json (rec_source r)),
            (str ''source_kind'', JStr (source_kind_name (rec_source_kind r))),
            (str ''source_label'', JStr (rec_source_label r)),
            (str ''event_label'', JStr (rec_event_label r)),
            (str ''trace_id'', JStr (rec_trace_id r)),
            (str ''authority'', authority_json (rec_authority r)),
            (str ''idempotency_key'', JStr (rec_idempotency_key r)),
            (str ''replacement_policy'', JStr (policy_name (rec_replacement_policy r))),
            (str ''received_at'', JStr (rec_received_at r)),
            (str ''state'', JStr (trigger_state_name (rec_state r))),
            (str ''payload_visibility'', JStr (visibility_name (rec_payload_visibility r)))]
           @ optional_member ''payload_summary'' (map_option JStr (rec_payload_summary r))
           @ optional_member ''evaluator_decision'' (evaluator_decision r)
           @ optional_member ''result_link'' (map_option JStr (result_link r))
           @ optional_member ''rule_name'' (map_option JStr (rule_name r)))"

definition runBeforeTriggerHook :: "'o trigger_env \<Rightarrow> trigger \<Rightarrow> ('o, before_trigger_decision) trigger_io" where
  "runBeforeTriggerHook env t =
     (case te_beforeTrigger env of
        None \<Rightarrow> act_return TriggerAllow
      | Some hook \<Rightarrow>
          act_logged (\<lambda>w. hook t (snapshot (h_triggerRuntime (hw_harness w))) w) HookAnswered)"

fun prompt_decision_name :: "trigger_prompt_decision \<Rightarrow> js_string" where
  "prompt_decision_name PromptAllow = str ''allow''"
| "prompt_decision_name (PromptDeny r) = str ''deny''"
| "prompt_decision_name (PromptTimeout r) = str ''timeout''"

text \<open>The capped reason of a decision that is not an approval.\<close>

fun decision_reason :: "trigger_prompt_decision \<Rightarrow> js_string option" where
  "decision_reason PromptAllow = None"
| "decision_reason (PromptDeny r) = map_option capTriggerPromptReason r"
| "decision_reason (PromptTimeout r) = map_option capTriggerPromptReason r"

text \<open>An audit entry, appended on a best-effort basis: the id of the entry, or None.\<close>

definition append_audit :: "'o trigger_env \<Rightarrow> js_string \<Rightarrow> json \<Rightarrow> js_string \<Rightarrow> js_string
    \<Rightarrow> ('o, js_string option) trigger_io" where
  "append_audit env customType data ctxt what =
     act_catch
       (act_bind (act_logged (te_appendCustom env customType data) (Appended customType data)) (\<lambda>i. act_return (Some i)))
       (\<lambda>msg. act_then (emitHarnessEvent env (PersistenceError ctxt (what @ str '' append failed: '' @ msg)))
                (act_return None))"

definition prompt_audit_json :: "trigger_prompt_request \<Rightarrow> trigger_prompt_decision \<Rightarrow> js_string \<Rightarrow> json" where
  "prompt_audit_json request decision at =
     JObj [(str ''schema_version'', JNum 1),
           (str ''trigger_prompt_id'', JStr (triggerPromptId request)),
           (str ''trace_id'', JStr (req_traceId request)),
           (str ''source_label'', JStr (capControlPlaneAuditLabel (req_sourceLabel request))),
           (str ''receiver_agent_id'', json_or_null (receiverAgentId request)),
           (str ''sender_agent_id'', JStr (senderAgentId request)),
           (str ''action_class'', JStr (actionClass request)),
           (str ''decision'', JStr (prompt_decision_name decision)),
           (str ''reason'', json_or_null (decision_reason decision)),
           (str ''at'', JStr at)]"

definition writeTriggerPromptAudit ::
  "'o trigger_env \<Rightarrow> trigger_prompt_request \<Rightarrow> trigger_prompt_decision \<Rightarrow> ('o, unit) trigger_io" where
  "writeTriggerPromptAudit env request decision =
     act_bind (act_get (te_nowISO env)) (\<lambda>at.
       act_bind (append_audit env (str ''trigger_prompt'') (prompt_audit_json request decision at)
                   (str ''trigger_prompt'') (str ''trigger prompt audit''))
         (\<lambda>_. act_return ()))"

definition NO_PROMPT_HOOK :: js_string where
  "NO_PROMPT_HOOK = str ''trigger prompt required but no onTriggerPrompt hook configured (fail-closed deny ''
     @ [0x2014] @ str '' see issue #110 design v0.2)''"

text \<open>The hook that asks the user, with its abort controller published and cleared.\<close>

definition ask_user :: "'o trigger_env \<Rightarrow> trigger_prompt_request \<Rightarrow> ('o, trigger_prompt_decision) trigger_io" where
  "ask_user env request =
     (case te_onTriggerPrompt env of
        None \<Rightarrow> act_return (PromptDeny (Some NO_PROMPT_HOOK))
      | Some hook \<Rightarrow>
          act_then (set_harness (h_activeHookAbortController_update (\<lambda>_. Some False)))
            (act_bind
              (act_catch (act_logged (hook request) PromptAnswered)
                (\<lambda>msg. act_then (set_harness (h_activeHookAbortController_update (\<lambda>_. None))) (act_throw msg)))
              (\<lambda>d. act_then (set_harness (h_activeHookAbortController_update (\<lambda>_. None))) (act_return d))))"

definition resolveTriggerPrompt ::
  "'o trigger_env \<Rightarrow> trigger \<Rightarrow> js_string \<Rightarrow> ('o, trigger_prompt_request \<times> trigger_prompt_decision) trigger_io" where
  "resolveTriggerPrompt env t reason =
     (let request = buildTriggerPromptRequest (te_sha256Hex env) t reason
      in act_then (emitHarnessEvent env (TriggerPromptRequest request))
           (act_bind (ask_user env request) (\<lambda>decision.
              act_then (writeTriggerPromptAudit env request decision) (act_return (request, decision)))))"

text \<open>The state and the recorded decision of a trigger, by the outcome of its evaluation.\<close>

definition decide_trigger ::
  "'o trigger_env \<Rightarrow> trigger \<Rightarrow> evaluation_outcome \<Rightarrow> ('o, trigger_state \<times> json) trigger_io" where
  "decide_trigger env t outcome =
     (case outcome of
        Accept \<Rightarrow>
          act_bind (runBeforeTriggerHook env t) (\<lambda>d.
            case d of
              TriggerAllow \<Rightarrow>
                act_return (Accepted, JObj [(str ''outcome'', JStr (str ''accept'')),
                                            (str ''permission'', JStr (str ''allow''))])
            | TriggerDeny reason \<Rightarrow>
                act_return (PermissionDenied, JObj [(str ''outcome'', JStr (str ''accept'')),
                                                    (str ''permission'', JStr (str ''deny'')),
                                                    (str ''reason'', JStr reason)])
            | TriggerPrompt reason \<Rightarrow>
                act_bind (resolveTriggerPrompt env t reason) (\<lambda>(request, decision).
                  act_return
                    (if decision = PromptAllow then Accepted else NeedsApproval,
                     JObj ([(str ''outcome'', JStr (str ''accept'')),
                            (str ''permission'', JStr (str ''prompt'')),
                            (str ''trigger_prompt_id'', JStr (triggerPromptId request)),
                            (str ''prompt_decision'', JStr (prompt_decision_name decision)),
                            (str ''reason'', JStr (req_reason request))]
                           @ optional_member ''decision_reason'' (map_option JStr (decision_reason decision))))))
      | DedupedOutcome policy previousTraceId \<Rightarrow>
          act_return (Deduped, JObj [(str ''outcome'', JStr (str ''deduped'')),
                                     (str ''replacement_policy'', JStr (policy_name policy)),
                                     (str ''previous_trace_id'', JStr previousTraceId)])
      | CycleSuppressedOutcome hops \<Rightarrow>
          act_return (CycleSuppressed, JObj [(str ''outcome'', JStr (str ''cycle_suppressed'')),
                                             (str ''hop_count'', JNum (int hops))]))"

definition evaluate_trigger :: "'o trigger_env \<Rightarrow> trigger \<Rightarrow> ('o, evaluation_outcome) trigger_io" where
  "evaluate_trigger env t =
     act_call (\<lambda>w. let (runtime, outcome) = evaluate (te_dateParse env) (h_triggerRuntime (hw_harness w)) t
                   in (Inr outcome, on_harness (h_triggerRuntime_update (\<lambda>_. runtime)) w))"

definition audit_record :: "trigger \<Rightarrow> trigger_state \<Rightarrow> json \<Rightarrow> trigger_record" where
  "audit_record t state decision =
     (triggerRecordReceivedFrom t)\<lparr>rec_state := state, evaluator_decision := Some decision\<rparr>"

definition handleTrigger :: "'o trigger_env \<Rightarrow> trigger \<Rightarrow> ('o, evaluation_outcome) trigger_io" where
  "handleTrigger env t =
     act_then (emitHarnessEvent env (TriggerHandlingStart (idempotency_key t) (source_kind t) (source_label t)
                                       (event_label t) (trace_id t)))
       (act_bind (evaluate_trigger env t) (\<lambda>outcome.
          act_bind (decide_trigger env t outcome) (\<lambda>(state, decision).
            act_bind (append_audit env TRIGGER_RECORD_CUSTOM_TYPE
                        (trigger_record_json (audit_record t state decision))
                        (str ''trigger_audit'') (str ''trigger audit'')) (\<lambda>auditEntryId.
              act_then (emitHarnessEvent env (TriggerHandled (idempotency_key t) (trace_id t) state auditEntryId decision))
                (act_then (if state = Accepted then log_step env (Detached t) else act_return ())
                   (act_return outcome))))))"

subsection \<open>Promotion\<close>

record promotion_params =
  pp_success :: bool
  pp_summary :: "js_string option"
  pp_messageCount :: nat
  pp_details :: "json option"
  pp_promote :: promote_action
  pp_requireApproval :: bool

text \<open>What the condition of a promotion decides: skip silently, skip with an audit, or go on.\<close>

datatype promotion_gate =
    GateReturn
  | GateSkipped skip_reason
  | GateOpen "js_string option" js_string      \<comment> \<open>\<open>templateBodyArg\<close>, \<open>promoteKind\<close>\<close>

definition promotion_decision :: "promotion_params \<Rightarrow> promotion_gate" where
  "promotion_decision p =
     (case pp_promote p of
        PromoteNone \<Rightarrow> GateReturn
      | PromoteNow body \<Rightarrow> GateOpen body (str ''promote_summary_now'')
      | PromoteWhenSummary body needles \<Rightarrow>
          if list_ex (js_includes (or_empty (pp_summary p))) needles
          then GateOpen body (str ''promote_summary_now'') else GateReturn
      | PromoteWhenDetails body cond \<Rightarrow>
          (case evaluatePromotionCondition cond (pp_details p) of
             Inl reason \<Rightarrow> GateSkipped reason
           | Inr _ \<Rightarrow> GateOpen body (str ''promote_summary_when_result_details_match'')))"

record promotion_audit =
  pa_state :: js_string
  pa_traceId :: js_string
  pa_promoteKind :: js_string
  pa_reason :: "js_string option"
  pa_templateName :: "js_string option"
  pa_templateHash :: "js_string option"
  pa_insertedEntryId :: "js_string option"
  pa_redactionStatus :: js_string
  pa_prefixInjected :: bool

definition promotion_audit_json :: "promotion_audit \<Rightarrow> json" where
  "promotion_audit_json a =
     JObj ([(str ''state'', JStr (pa_state a)), (str ''trace_id'', JStr (pa_traceId a)),
            (str ''promote_kind'', JStr (pa_promoteKind a))]
           @ optional_member ''reason'' (map_option JStr (pa_reason a))
           @ [(str ''template_name'', json_or_null (pa_templateName a)),
              (str ''template_hash'', json_or_null (pa_templateHash a)),
              (str ''inserted_entry_id'', json_or_null (pa_insertedEntryId a)),
              (str ''rule_id'', JNull),
              (str ''redaction_status'', JStr (pa_redactionStatus a)),
              (str ''dedup_collapsed'', JBool False),
              (str ''prefix_injected'', JBool (pa_prefixInjected a))])"

definition writeTriggerPromotionAudit :: "'o trigger_env \<Rightarrow> promotion_audit \<Rightarrow> ('o, unit) trigger_io" where
  "writeTriggerPromotionAudit env a =
     act_bind (append_audit env (str ''trigger_promotion'') (promotion_audit_json a) (str ''trigger_promotion'')
                 (str ''trigger_promotion''))
       (\<lambda>_. act_return ())"

text \<open>
  A message for the parent's conversation: pushed on the queue of follow-ups while a turn runs,
  appended to the session otherwise.  The result is the id of the entry, None when it was queued.
\<close>

definition push_follow_up :: "'o trigger_env \<Rightarrow> agent_message \<Rightarrow> ('o, unit) trigger_io" where
  "push_follow_up env m =
     act_then (set_harness (\<lambda>h. h\<lparr>h_followUpQueue := h_followUpQueue h @ [m]\<rparr>))
       (act_then (log_step env (QueuedFollowUp m)) (act_call (te_emitQueueUpdate env)))"

definition template_name :: "js_string option \<Rightarrow> js_string \<Rightarrow> js_string" where
  "template_name templateBody hash =
     (case templateBody of None \<Rightarrow> str ''default'' | Some _ \<Rightarrow> str ''inline:'' @ take 8 hash)"

definition redaction_name :: "bool \<Rightarrow> js_string" where
  "redaction_name shortened = (if shortened then str ''truncated'' else str ''clean'')"

fun render_error_parts :: "render_error \<Rightarrow> js_string \<times> js_string" where
  "render_error_parts (UnknownField msg) = (str ''render_error'', msg)"
| "render_error_parts (ForbiddenField msg) = (str ''forbidden_field'', msg)"

text \<open>The part of \<open>applyPromotion\<close> that injects the message, after the approval is settled.\<close>

definition inject_promotion ::
  "'o trigger_env \<Rightarrow> js_string \<Rightarrow> js_string \<Rightarrow> js_string \<Rightarrow> js_string \<Rightarrow> js_string \<Rightarrow> bool \<Rightarrow> bool
     \<Rightarrow> ('o, unit) trigger_io" where
  "inject_promotion env traceId promoteKind name hash finalBody shortened prefixInjected =
     (let audit = (\<lambda>state entry status.
            \<lparr>pa_state = state, pa_traceId = traceId, pa_promoteKind = promoteKind, pa_reason = None,
             pa_templateName = Some name, pa_templateHash = Some hash, pa_insertedEntryId = entry,
             pa_redactionStatus = status, pa_prefixInjected = prefixInjected\<rparr>);
          finish = (\<lambda>state entry.
            act_then (writeTriggerPromotionAudit env (audit state entry (redaction_name shortened)))
              (emitHarnessEvent env (TriggerPromoted traceId promoteKind (or_empty entry) name (redaction_name shortened))))
      in act_bind (act_get (\<lambda>w. (createUserMessage finalBody (te_now env w), h_phase (hw_harness w))))
           (\<lambda>(userMessage, phase).
             if phase \<noteq> PhaseIdle then
               act_then (push_follow_up env userMessage) (finish (str ''queued'') None)
             else
               act_bind
                 (act_catch
                   (act_bind (act_logged (te_appendMessage env userMessage) (AppendedMessage userMessage))
                      (\<lambda>i. act_return (Some i)))
                   (\<lambda>msg. act_then
                      (emitHarnessEvent env (PersistenceError (str ''trigger_promotion'')
                         (str ''promotion message append failed: '' @ msg)))
                      (act_then (writeTriggerPromotionAudit env (audit (str ''failed'') None (str ''render_error'')))
                         (act_return None))))
                 (\<lambda>entry. case entry of None \<Rightarrow> act_return () | Some _ \<Rightarrow> finish (str ''success'') entry)))"

definition applyPromotion :: "'o trigger_env \<Rightarrow> trigger \<Rightarrow> promotion_params \<Rightarrow> ('o, unit) trigger_io" where
  "applyPromotion env t p =
     (case promotion_decision p of
        GateReturn \<Rightarrow> act_return ()
      | GateSkipped reason \<Rightarrow>
          writeTriggerPromotionAudit env
            \<lparr>pa_state = str ''skipped'', pa_traceId = trace_id t,
             pa_promoteKind = str ''promote_summary_when_result_details_match'',
             pa_reason = Some (skip_reason_name reason), pa_templateName = None, pa_templateHash = None,
             pa_insertedEntryId = None, pa_redactionStatus = str ''skipped'', pa_prefixInjected = False\<rparr>
      | GateOpen templateBody promoteKind \<Rightarrow>
          (let traceId = trace_id t;
               ctx = buildTemplateContext traceId t (pp_success p) (pp_summary p) (pp_messageCount p);
               bodyTemplate = (case templateBody of Some b \<Rightarrow> b | None \<Rightarrow> DEFAULT_PROMOTE_SUMMARY_TEMPLATE);
               hash = te_sha256Hex env bodyTemplate;
               name = template_name templateBody hash
           in case renderPromotionTemplate bodyTemplate ctx of
                Inl err \<Rightarrow>
                  (let (status, msg) = render_error_parts err
                   in act_then
                        (writeTriggerPromotionAudit env
                          \<lparr>pa_state = str ''failed'', pa_traceId = traceId, pa_promoteKind = promoteKind,
                           pa_reason = None, pa_templateName = Some name, pa_templateHash = Some hash,
                           pa_insertedEntryId = None, pa_redactionStatus = status, pa_prefixInjected = False\<rparr>)
                        (emitHarnessEvent env (PersistenceError (str ''trigger_promotion'') msg)))
              | Inr rendered \<Rightarrow>
                  (let (prefixedBody, prefixInjected) = ensureTriggerPrefix rendered traceId;
                       (finalBody, shortened) = truncateOnCharBoundary prefixedBody PROMOTION_BODY_CAP_BYTES
                   in if pp_requireApproval p then
                        act_then
                          (writeTriggerPromotionAudit env
                            \<lparr>pa_state = str ''pending'', pa_traceId = traceId, pa_promoteKind = promoteKind,
                             pa_reason = None, pa_templateName = Some name, pa_templateHash = Some hash,
                             pa_insertedEntryId = None,
                             pa_redactionStatus = redaction_name (length finalBody \<noteq> length prefixedBody),
                             pa_prefixInjected = prefixInjected\<rparr>)
                          (emitHarnessEvent env (PromotionPending traceId promoteKind name finalBody))
                      else inject_promotion env traceId promoteKind name hash finalBody shortened prefixInjected)))"

subsection \<open>Deliveries\<close>

definition result_audit_json ::
  "js_string \<Rightarrow> bool \<Rightarrow> js_string option \<Rightarrow> nat \<Rightarrow> json \<Rightarrow> js_string option \<Rightarrow> (js_string \<times> json) list \<Rightarrow> json" where
  "result_audit_json traceId success summary messageCount cost reason rest =
     JObj ([(str ''trace_id'', JStr traceId), (str ''branch_id'', JNull), (str ''success'', JBool success),
            (str ''summary'', json_or_null summary), (str ''message_count'', JNum (int messageCount)),
            (str ''cost_usd'', cost), (str ''reason'', json_or_null reason), (str ''details'', JNull)] @ rest)"

definition writeTriggerResultAudit :: "'o trigger_env \<Rightarrow> json \<Rightarrow> ('o, unit) trigger_io" where
  "writeTriggerResultAudit env data =
     act_bind (append_audit env (str ''trigger_result'') data (str ''trigger_result'') (str ''trigger_result''))
       (\<lambda>_. act_return ())"

definition runInjectSummaryDelivery :: "'o trigger_env \<Rightarrow> trigger \<Rightarrow> trigger_action \<Rightarrow> ('o, unit) trigger_io" where
  "runInjectSummaryDelivery env t a =
     (let summary = payload_summary t
      in act_then
           (emitHarnessEvent env (TriggerExecutionStarted (trace_id t) (source_label t) (event_label t)
              (previewForBanner (case summary of Some s \<Rightarrow> s | None \<Rightarrow> str ''(no summary)'') 80)))
           (act_then
             (writeTriggerResultAudit env
               (result_audit_json (trace_id t) True summary 0 (JNum 0) None
                  [(str ''delivery'', JStr (str ''inject_summary''))]))
             (act_then (emitHarnessEvent env (TriggerCompleted (trace_id t) summary (Some 0) None))
               (applyPromotion env t
                  \<lparr>pp_success = True, pp_summary = summary, pp_messageCount = 0, pp_details = None,
                   pp_promote = act_promote a, pp_requireApproval = promoteRequiresApproval a\<rparr>))))"

definition runInjectAndRunDelivery :: "'o trigger_env \<Rightarrow> trigger \<Rightarrow> trigger_action \<Rightarrow> ('o, unit) trigger_io" where
  "runInjectAndRunDelivery env t a =
     (let (cappedBody, _) = truncateOnCharBoundary (act_prompt a) PROMOTION_BODY_CAP_BYTES;
          (body, prefixInjected) = ensureTriggerPrefix cappedBody (trace_id t)
      in act_then
           (emitHarnessEvent env (TriggerExecutionStarted (trace_id t) (source_label t) (event_label t)
              (previewForBanner body 80)))
           (act_bind (act_get (\<lambda>w. (createUserMessage body (te_now env w), h_phase (hw_harness w) \<noteq> PhaseIdle)))
             (\<lambda>(userMessage, queued).
               act_then
                 (if queued then push_follow_up env userMessage
                  else
                    act_catch
                      (act_bind (act_logged (te_appendMessage env userMessage) (AppendedMessage userMessage))
                         (\<lambda>_. act_return ()))
                      (\<lambda>msg. emitHarnessEvent env (PersistenceError (str ''trigger_inject_and_run'')
                                (str ''inject_and_run append failed: '' @ msg))))
                 (act_then
                   (writeTriggerResultAudit env
                     (result_audit_json (trace_id t) True (Some body) 0 (JNum 0) None
                        [(str ''delivery'', JStr (str ''inject_and_run'')),
                         (str ''prefix_injected'', JBool prefixInjected),
                         (str ''run_dispatch'',
                            JStr (if queued then str ''follow_up'' else str ''main_run_request''))]))
                   (act_then (emitHarnessEvent env (TriggerCompleted (trace_id t) (Some body) (Some 0) None))
                     (if queued then act_return ()
                      else emitHarnessEvent env (TriggerRequestsMainRun (trace_id t))))))))"

definition register_running :: "'o trigger_env \<Rightarrow> trigger \<Rightarrow> js_string \<Rightarrow> ('o, unit) trigger_io" where
  "register_running env t promptPreview =
     act_call (\<lambda>w. (Inr (), on_harness (\<lambda>h. h\<lparr>h_runningTriggers := map_set (h_runningTriggers h) (trace_id t)
        \<lparr>rt_state = \<lparr>rts_traceId = trace_id t, rts_sourceLabel = source_label t, rts_eventLabel = event_label t,
                     rts_startedAt = te_nowISO env w, rts_promptPreview = promptPreview\<rparr>,
         rt_aborted = False\<rparr>\<rparr>) w))"

definition runSubAgentDelivery :: "'o trigger_env \<Rightarrow> trigger \<Rightarrow> trigger_action \<Rightarrow> ('o, unit) trigger_io" where
  "runSubAgentDelivery env t a =
     (let traceId = trace_id t; promptPreview = previewForBanner (act_prompt a) 80
      in act_then (register_running env t promptPreview)
        (act_then (emitHarnessEvent env (TriggerExecutionStarted traceId (source_label t) (event_label t) promptPreview))
          (act_then (act_call (te_createTurnState env))
            (act_bind (act_call (\<lambda>w. apfst Inr (te_runSubAgent env traceId (act_prompt a) w)))
              (\<lambda>(observedMessages, runError).
                let success = (runError = None);
                    summary = lastAssistantText observedMessages;
                    messageCount = length observedMessages
                in act_then
                     (writeTriggerResultAudit env
                        (result_audit_json traceId success summary messageCount JNull runError []))
                     (act_then
                       (emitHarnessEvent env
                         (case runError of None \<Rightarrow> TriggerCompleted traceId summary None None
                                         | Some reason \<Rightarrow> TriggerFailed traceId reason))
                       (act_then
                         (applyPromotion env t
                            \<lparr>pp_success = success, pp_summary = summary, pp_messageCount = messageCount,
                             pp_details = None, pp_promote = act_promote a,
                             pp_requireApproval = promoteRequiresApproval a\<rparr>)
                         (set_harness (\<lambda>h. h\<lparr>h_runningTriggers := map_delete (h_runningTriggers h) traceId\<rparr>)))))))))"

definition runTriggerAction :: "'o trigger_env \<Rightarrow> trigger \<Rightarrow> ('o, unit) trigger_io" where
  "runTriggerAction env t =
     act_bind
       (case te_beforeTriggerAction env of
          None \<Rightarrow> act_return (defaultTriggerAction t)
        | Some hook \<Rightarrow> act_call (\<lambda>w. hook t (snapshot (h_triggerRuntime (hw_harness w))) w))
       (\<lambda>a. case act_delivery a of
              InjectSummary \<Rightarrow> runInjectSummaryDelivery env t a
            | InjectAndRun \<Rightarrow> runInjectAndRunDelivery env t a
            | SubAgent \<Rightarrow> runSubAgentDelivery env t a)"

text \<open>The detached task of \<open>spawnTriggerAction\<close>: an error becomes a \<open>trigger_failed\<close> event.\<close>

definition trigger_task :: "'o trigger_env \<Rightarrow> trigger \<Rightarrow> ('o, unit) trigger_io" where
  "trigger_task env t =
     act_catch (runTriggerAction env t) (\<lambda>msg. emitHarnessEvent env (TriggerFailed (trace_id t) msg))"

text \<open>
  The pump of \<open>registerNotificationHook\<close> over the triggers that its queue delivers until it is
  closed; an error of \<open>handleTrigger\<close> ends the pump.
\<close>

definition notification_pump :: "'o trigger_env \<Rightarrow> trigger list \<Rightarrow> ('o, unit) trigger_io" where
  "notification_pump env ts =
     act_catch
       (act_each (\<lambda>t. act_bind (handleTrigger env t) (\<lambda>_. act_return ())) ts)
       (\<lambda>msg. emitHarnessEvent env (PersistenceError (str ''notification_hook_pump'') msg))"

end
