(* ===== verification/TriggerProps.thy ===== *)
theory TriggerProps
  imports TriggerFlow
begin

text \<open>
  What holds of the triggers of \<open>harness/agent-harness.ts\<close>: the life of a trigger as a statement about
  its trace, the templates and the bounds of what a promotion puts into the conversation, and the
  registry of running triggers.
\<close>

subsection \<open>Traces of the parts\<close>

lemma wp_logged [wp_rules]:
  "wp (act_logged f step) Q s =
     (case f (world s) of (r, w) \<Rightarrow> Q r \<lparr>world = w, events = events s @ [step r]\<rparr>)"
  by (auto simp: wp_def act_logged_def split: prod.splits)

lemma returns_logged [simp]: "returns (act_logged f step) s"
  by (simp add: returns_def act_logged_def split: prod.splits)

text \<open>The steps of an audit entry: the entry, and the event of a failed append.\<close>

definition audit_steps :: "js_string \<Rightarrow> json \<Rightarrow> js_string \<Rightarrow> js_string \<Rightarrow> js_string thrown \<Rightarrow> trigger_step list" where
  "audit_steps customType data ctxt what r =
     Appended customType data r #
       (case r of
          Inl msg \<Rightarrow> [Emitted (PersistenceError ctxt (what @ str '' append failed: '' @ msg))]
        | Inr _ \<Rightarrow> [])"

fun audit_id :: "js_string thrown \<Rightarrow> js_string option" where
  "audit_id (Inl msg) = None"
| "audit_id (Inr i) = Some i"

lemma wp_append_audit:
  assumes "\<And>r w. Q (Inr (audit_id r)) \<lparr>world = w, events = events s @ audit_steps customType data ctxt what r\<rparr>"
  shows "wp (append_audit env customType data ctxt what) Q s"
  using assms [of "Inl _"] assms [of "Inr _"]
  by (auto simp: append_audit_def emitHarnessEvent_def log_step_def audit_steps_def wp_rules
      split: prod.splits sum.splits)

lemma wp_emitHarnessEvent:
  "wp (emitHarnessEvent env e) Q s =
     Q (Inr ()) \<lparr>world = te_listen env e (world s), events = events s @ [Emitted e]\<rparr>"
  by (simp add: emitHarnessEvent_def log_step_def wp_rules trigger_sink_def)

lemma wp_set_harness: "wp (set_harness f) Q s = Q (Inr ()) (s\<lparr>world := on_harness f (world s)\<rparr>)"
  by (simp add: set_harness_def wp_rules)

text \<open>Nothing here loops: a run always settles.\<close>

definition settles_always :: "('w, 'e, 'a) action \<Rightarrow> bool" where
  "settles_always m \<longleftrightarrow> (\<forall>s. returns m s)"

named_theorems settles_intro \<open>actions that always settle\<close>

lemma always_basic [settles_intro]:
  "settles_always (act_return x)" "settles_always (act_throw msg)" "settles_always (act_call f)"
  "settles_always (act_get g)" "settles_always (act_emit sink e)" "settles_always (act_logged c step)"
  by (simp_all add: settles_always_def)

lemma always_bind [settles_intro]:
  "settles_always m \<Longrightarrow> (\<And>x. settles_always (f x)) \<Longrightarrow> settles_always (act_bind m f)"
  by (auto simp: settles_always_def intro!: returns_bind simp: wp_def split: option.splits sum.splits)

lemma always_then [settles_intro]:
  "settles_always m \<Longrightarrow> settles_always n \<Longrightarrow> settles_always (act_then m n)"
  unfolding act_then_def by (rule always_bind)

lemma always_catch [settles_intro]:
  "settles_always m \<Longrightarrow> (\<And>msg. settles_always (h msg)) \<Longrightarrow> settles_always (act_catch m h)"
  by (auto simp: settles_always_def intro!: returns_catch simp: wp_def split: option.splits sum.splits)

lemma always_steps [settles_intro]:
  "settles_always (emitHarnessEvent env e)" "settles_always (log_step env x)" "settles_always (set_harness g)"
  "settles_always (append_audit env customType data ctxt what)"
  unfolding emitHarnessEvent_def log_step_def set_harness_def append_audit_def
  by (intro settles_intro)+

subsection \<open>The life of a trigger\<close>

fun hook_answers :: "trigger_step list \<Rightarrow> before_trigger_decision list" where
  "hook_answers [] = []"
| "hook_answers (HookAnswered (Inr d) # steps) = d # hook_answers steps"
| "hook_answers (_ # steps) = hook_answers steps"

text \<open>The state a trigger must end in, by its evaluation and by the answers of the hooks.\<close>

definition verdict :: "evaluation_outcome \<Rightarrow> trigger_step list \<Rightarrow> trigger_state" where
  "verdict outcome steps =
     (case outcome of
        Accept \<Rightarrow>
          (case hook_answers steps of
             [] \<Rightarrow> Accepted
           | d # _ \<Rightarrow>
               (case d of
                  TriggerAllow \<Rightarrow> Accepted
                | TriggerDeny _ \<Rightarrow> PermissionDenied
                | TriggerPrompt _ \<Rightarrow>
                    if List.member steps (PromptAnswered (Inr PromptAllow)) then Accepted else NeedsApproval))
      | DedupedOutcome _ _ \<Rightarrow> Deduped
      | CycleSuppressedOutcome _ \<Rightarrow> CycleSuppressed)"

text \<open>A step of the decision: neither the end of the handling nor the start of the action.\<close>

fun deciding_step :: "trigger_step \<Rightarrow> bool" where
  "deciding_step (Emitted (TriggerHandled k i st a d)) = False"
| "deciding_step (Detached t) = False"
| "deciding_step (Appended customType data r) = (customType \<noteq> TRIGGER_RECORD_CUSTOM_TYPE)"
| "deciding_step _ = True"

fun hook_threw :: "trigger_step \<Rightarrow> bool" where
  "hook_threw (HookAnswered (Inl msg)) = True"
| "hook_threw (PromptAnswered (Inl msg)) = True"
| "hook_threw _ = False"

definition decision_post ::
  "evaluation_outcome \<Rightarrow> trigger_step list \<Rightarrow> (trigger_state \<times> json) thrown \<Rightarrow> trigger_step list \<Rightarrow> bool" where
  "decision_post outcome es r steps \<longleftrightarrow>
     (\<exists>new. steps = es @ new \<and> list_all deciding_step new
        \<and> (case r of
             Inl msg \<Rightarrow> outcome = Accept \<and> list_ex hook_threw new
           | Inr (st, dec) \<Rightarrow> st = verdict outcome new))"

lemma decision_postI:
  "steps = es @ new \<Longrightarrow> list_all deciding_step new \<Longrightarrow>
     (case r of Inl msg \<Rightarrow> outcome = Accept \<and> list_ex hook_threw new | Inr (st, dec) \<Rightarrow> st = verdict outcome new) \<Longrightarrow>
     decision_post outcome es r steps"
  by (auto simp: decision_post_def)

lemma audit_steps_deciding:
  "list_all deciding_step (audit_steps (str ''trigger_prompt'') data ctxt what r)"
  "hook_answers (audit_steps customType data ctxt what r) = []"
  "PromptAnswered x \<notin> set (audit_steps customType data ctxt what r)"
  by (auto simp: audit_steps_def TRIGGER_RECORD_CUSTOM_TYPE_def split: sum.splits)

lemma hook_answers_append [simp]: "hook_answers (xs @ ys) = hook_answers xs @ hook_answers ys"
  by (induction xs rule: hook_answers.induct) auto

lemma wp_writeTriggerPromptAudit:
  assumes "\<And>r w data. Q (Inr ()) \<lparr>world = w, events = events s
      @ audit_steps (str ''trigger_prompt'') data (str ''trigger_prompt'') (str ''trigger prompt audit'') r\<rparr>"
  shows "wp (writeTriggerPromptAudit env request decision) Q s"
  unfolding writeTriggerPromptAudit_def wp_bind wp_get sum.case
  by (rule wp_append_audit) (simp add: assms wp_return)

lemma wp_ask_user:
  assumes "\<And>d. d = PromptDeny (Some NO_PROMPT_HOOK) \<Longrightarrow> Q (Inr d) s"
    and "\<And>d w. Q d \<lparr>world = w, events = events s @ [PromptAnswered d]\<rparr>"
  shows "wp (ask_user env request) Q s"
proof (cases "te_onTriggerPrompt env")
  case None
  then show ?thesis using assms(1) by (simp add: ask_user_def wp_return)
next
  case (Some hook)
  then show ?thesis using assms(2) [of "Inl _"] assms(2) [of "Inr _"]
    by (auto simp: ask_user_def wp_rules wp_set_harness split: prod.splits sum.splits)
qed

lemma wp_resolveTriggerPrompt:
  assumes answered: "\<And>request decision asked data r w.
      (if decision = PromptAllow then asked = [PromptAnswered (Inr PromptAllow)]
       else asked = [] \<or> asked = [PromptAnswered (Inr decision)]) \<Longrightarrow>
      Q (Inr (request, decision))
        \<lparr>world = w, events = events s @ Emitted (TriggerPromptRequest request) # asked
           @ audit_steps (str ''trigger_prompt'') data (str ''trigger_prompt'') (str ''trigger prompt audit'') r\<rparr>"
    and threw: "\<And>request msg w.
      Q (Inl msg) \<lparr>world = w, events = events s @ [Emitted (TriggerPromptRequest request), PromptAnswered (Inl msg)]\<rparr>"
  shows "wp (resolveTriggerPrompt env t reason) Q s"
  unfolding resolveTriggerPrompt_def Let_def wp_then wp_emitHarnessEvent sum.case wp_bind
proof (rule wp_ask_user, goal_cases)
  case (1 d)
  then show ?case
    unfolding sum.case wp_then
    by (intro wp_writeTriggerPromptAudit)
      (use answered [where asked = "[]" and decision = d] 1 in \<open>simp add: wp_return\<close>)
next
  case (2 d w)
  show ?case
  proof (cases d)
    case (Inl msg)
    then show ?thesis using threw by simp
  next
    case (Inr x)
    then show ?thesis
      unfolding Inr sum.case wp_then
      by (intro wp_writeTriggerPromptAudit)
        (use answered [where asked = "[PromptAnswered (Inr x)]" and decision = x] in \<open>simp add: wp_return\<close>)
  qed
qed

lemma wp_decide_trigger:
  "wp (decide_trigger env t outcome) (\<lambda>r s'. decision_post outcome (events s) r (events s')) s"
proof (cases outcome)
  case Accept
  show ?thesis
  proof (cases "te_beforeTrigger env")
    case None
    then show ?thesis
      by (auto simp: Accept decide_trigger_def runBeforeTriggerHook_def wp_rules verdict_def
          intro!: decision_postI [of _ _ "[]"])
  next
    case (Some hook)
    obtain r w where h: "hook t (snapshot (h_triggerRuntime (hw_harness (world s)))) (world s) = (r, w)"
      by (cases "hook t (snapshot (h_triggerRuntime (hw_harness (world s)))) (world s)")
    show ?thesis
    proof (cases "\<exists>reason. r = Inr (TriggerPrompt reason)")
      case False
      then show ?thesis
        by (cases r rule: sum.exhaust; cases "projr r")
          (auto simp: Accept Some decide_trigger_def runBeforeTriggerHook_def wp_rules h verdict_def
            intro!: decision_postI [of _ _ "[HookAnswered r]"])
    next
      case True
      then obtain reason where r: "r = Inr (TriggerPrompt reason)" by blast
      show ?thesis
        unfolding Accept decide_trigger_def evaluation_outcome.case runBeforeTriggerHook_def Some option.case
          wp_bind wp_logged h prod.case r sum.case before_trigger_decision.case
        by (rule wp_resolveTriggerPrompt)
          (auto simp: wp_return verdict_def audit_steps_deciding list_all_append
            intro!: decision_postI [of _ _ "HookAnswered (Inr (TriggerPrompt reason)) # _"] split: if_splits)
    qed
  qed
next
  case (DedupedOutcome p i)
  then show ?thesis
    by (auto simp: decide_trigger_def wp_rules verdict_def intro!: decision_postI [of _ _ "[]"])
next
  case (CycleSuppressedOutcome n)
  then show ?thesis
    by (auto simp: decide_trigger_def wp_rules verdict_def intro!: decision_postI [of _ _ "[]"])
qed

text \<open>Everything handleTrigger calls settles.\<close>

lemma always_decide [settles_intro]: "settles_always (decide_trigger env t outcome)"
  unfolding decide_trigger_def runBeforeTriggerHook_def resolveTriggerPrompt_def ask_user_def
    writeTriggerPromptAudit_def Let_def
  by (auto split: evaluation_outcome.split before_trigger_decision.split option.split prod.split
      intro!: settles_intro)

lemma always_handleTrigger: "settles_always (handleTrigger env t)"
  unfolding handleTrigger_def evaluate_trigger_def
  by (auto split: prod.split intro!: settles_intro)

text \<open>The state the code reaches before it evaluates a trigger, and the outcome it gets.\<close>

definition start_event :: "trigger \<Rightarrow> harness_event" where
  "start_event t = TriggerHandlingStart (idempotency_key t) (source_kind t) (source_label t) (event_label t) (trace_id t)"

definition outcome_of :: "'o trigger_env \<Rightarrow> trigger \<Rightarrow> 'o harness_world \<Rightarrow> evaluation_outcome" where
  "outcome_of env t w =
     snd (evaluate (te_dateParse env) (h_triggerRuntime (hw_harness (te_listen env (start_event t) w))) t)"

text \<open>The steps after the decision: the audit record, the event, and the task of an accepted trigger.\<close>

definition closing_steps :: "trigger \<Rightarrow> trigger_state \<Rightarrow> json \<Rightarrow> js_string thrown \<Rightarrow> trigger_step list" where
  "closing_steps t st dec r =
     audit_steps TRIGGER_RECORD_CUSTOM_TYPE (trigger_record_json (audit_record t st dec))
       (str ''trigger_audit'') (str ''trigger audit'') r
     @ Emitted (TriggerHandled (idempotency_key t) (trace_id t) st (audit_id r) dec)
     # (if st = Accepted then [Detached t] else [])"

definition handled_post ::
  "trigger \<Rightarrow> evaluation_outcome \<Rightarrow> trigger_step list \<Rightarrow> evaluation_outcome thrown \<Rightarrow> trigger_step list \<Rightarrow> bool" where
  "handled_post t outcome es r steps \<longleftrightarrow>
     (\<exists>pre. list_all deciding_step pre \<and>
        (case r of
           Inl msg \<Rightarrow> steps = es @ Emitted (start_event t) # pre \<and> outcome = Accept \<and> list_ex hook_threw pre
         | Inr o' \<Rightarrow> o' = outcome \<and>
             (\<exists>dec a. steps = es @ Emitted (start_event t) # pre @ closing_steps t (verdict outcome pre) dec a)))"

lemma wp_closing:
  assumes "decision_post outcome (es @ [Emitted (start_event t)]) (Inr (st, dec)) (events s)"
  shows "wp (act_bind (append_audit env TRIGGER_RECORD_CUSTOM_TYPE (trigger_record_json (audit_record t st dec))
                (str ''trigger_audit'') (str ''trigger audit''))
           (\<lambda>i. act_then (emitHarnessEvent env (TriggerHandled (idempotency_key t) (trace_id t) st i dec))
              (act_then (if st = Accepted then log_step env (Detached t) else act_return ())
                 (act_return outcome))))
         (\<lambda>r s. handled_post t outcome es r (events s)) s"
proof -
  obtain pre where pre: "events s = es @ Emitted (start_event t) # pre" "list_all deciding_step pre" "st = verdict outcome pre"
    using assms by (auto simp: decision_post_def)
  show ?thesis
    unfolding wp_bind
  proof (rule wp_append_audit, goal_cases)
    case (1 r w)
    have "handled_post t outcome es (Inr outcome) (events s @ closing_steps t st dec r)"
      using pre by (auto simp: handled_post_def)
    then show ?case
      by (auto simp: wp_rules wp_emitHarnessEvent log_step_def closing_steps_def)
  qed
qed

lemma wp_handleTrigger:
  "wp (handleTrigger env t) (\<lambda>r s. handled_post t (outcome_of env t w) es r (events s)) \<lparr>world = w, events = es\<rparr>"
proof -
  let ?w = "te_listen env (start_event t) w"
  obtain runtime where ev: "evaluate (te_dateParse env) (h_triggerRuntime (hw_harness ?w)) t = (runtime, outcome_of env t w)"
    unfolding outcome_of_def by (metis prod.collapse)
  show ?thesis
    unfolding handleTrigger_def wp_then wp_emitHarnessEvent sum.case evaluate_trigger_def
      wp_bind [of "act_call _"] wp_call start_event_def [symmetric] eff_state.select_convs ev Let_def prod.case
      wp_bind [of "decide_trigger _ _ _"]
  proof (rule wp_mono [OF wp_decide_trigger], simp, goal_cases)
    case (1 r s)
    show ?case
    proof (cases r)
      case (Inl msg)
      then show ?thesis using 1 by (auto simp: decision_post_def handled_post_def)
    next
      case (Inr x)
      obtain st dec where x: "x = (st, dec)" by (cases x)
      show ?thesis
        unfolding Inr x sum.case prod.case
        by (rule wp_closing) (use 1 Inr x in simp)
    qed
  qed
qed


subsection \<open>Templates\<close>

text \<open>A template as its literal parts and its fields; a field keeps the text between the braces.\<close>

datatype template_part = Literal js_string | Field js_string

fun part_source :: "template_part \<Rightarrow> js_string" where
  "part_source (Literal s) = s"
| "part_source (Field n) = OPEN_MARK @ n @ CLOSE_MARK"

fun part_value :: "(js_string, js_string) js_map \<Rightarrow> template_part \<Rightarrow> js_string option" where
  "part_value ctx (Literal s) = Some s"
| "part_value ctx (Field n) =
     (let name = trim n
      in if List.member FORBIDDEN_TEMPLATE_FIELDS name \<or> starts_with (str ''_meta'') name then None
         else map_get ctx name)"

lemma render_loop_parts:
  "render_loop ctx rest out = Inr res \<Longrightarrow>
     \<exists>parts. rest = concat (map part_source parts) \<and> (\<forall>p \<in> set parts. part_value ctx p \<noteq> None)
        \<and> res = out @ concat (map (\<lambda>p. the (part_value ctx p)) parts)"
proof (induction ctx rest out rule: render_loop.induct)
  case (1 ctx rest out)
  show ?case
  proof (cases "split_first OPEN_MARK rest")
    case None
    then show ?thesis
      using "1.prems" by (intro exI [of _ "[Literal rest]"]) (simp add: render_loop.simps [of ctx rest])
  next
    case (Some x)
    obtain before afterOpen where x: "split_first OPEN_MARK rest = Some (before, afterOpen)"
      using Some by (cases x) auto
    obtain inner after where y: "split_first CLOSE_MARK afterOpen = Some (inner, after)"
      using "1.prems" x by (auto simp: render_loop.simps [of ctx rest] split: option.splits)
    let ?name = "trim inner"
    have allowed: "\<not> (List.member FORBIDDEN_TEMPLATE_FIELDS ?name \<or> starts_with (str ''_meta'') ?name)"
      using "1.prems" x y by (auto simp: render_loop.simps [of ctx rest] Let_def split: if_splits)
    then obtain v where v: "map_get ctx ?name = Some v" and rec: "render_loop ctx after (out @ before @ v) = Inr res"
      using "1.prems" x y by (auto simp: render_loop.simps [of ctx rest] Let_def split: option.splits)
    obtain parts where parts: "after = concat (map part_source parts)" "\<forall>p \<in> set parts. part_value ctx p \<noteq> None"
        "res = (out @ before @ v) @ concat (map (\<lambda>p. the (part_value ctx p)) parts)"
      using "1.IH" [OF x refl y refl refl allowed v rec] by blast
    have "rest = before @ OPEN_MARK @ inner @ CLOSE_MARK @ after"
      using split_first_Some [OF x] split_first_Some [OF y] by simp
    then show ?thesis
      using parts allowed v
      by (intro exI [of _ "Literal before # Field inner # parts"]) simp
  qed
qed



lemma js_units_append [simp]: "js_units (a @ b) \<longleftrightarrow> js_units a \<and> js_units b"
  by (auto simp: js_units_def)

lemma js_units_str [simp]: "js_units (str s)"
  by (auto simp: js_units_def str_def intro: less_trans [OF nat_of_char_less_256])

lemma render_units:
  assumes "renderPromotionTemplate body ctx = Inr out" "js_units body" "\<And>k v. map_get ctx k = Some v \<Longrightarrow> js_units v"
  shows "js_units out"
proof -
  obtain parts where parts: "body = concat (map part_source parts)" "\<forall>p \<in> set parts. part_value ctx p \<noteq> None"
      "out = concat (map (\<lambda>p. the (part_value ctx p)) parts)"
    using render_loop_parts [of ctx body "[]" out] assms(1) by (auto simp: renderPromotionTemplate_def)
  have "js_units (the (part_value ctx p))" if p: "p \<in> set parts" for p
  proof (cases p)
    case (Literal l)
    then show ?thesis using p assms(2) parts(1) by (auto simp: js_units_def)
  next
    case (Field n)
    then show ?thesis using p parts(2) assms(3) by (force simp: Let_def)
  qed
  then show ?thesis by (auto simp: parts(3) js_units_def)
qed

subsection \<open>What a promotion puts into the conversation\<close>

lemma utf8_loop_grows: "t \<noteq> [] \<Longrightarrow> utf8_loop s < utf8_loop (s @ t)"
proof (induction s rule: utf16_induct)
  case Nil
  then show ?case
    by (cases t rule: list.exhaust; cases "high_surrogate (hd t) \<and> starts_low (tl t)"; cases "tl t")
      (auto simp: utf8_loop_unit utf8_loop_pair unit_bytes_def)
next
  case (Pair c d s)
  then show ?case by (simp add: utf8_loop_pair)
next
  case (Unit c s)
  show ?case
  proof (cases "high_surrogate c \<and> starts_low (s @ t)")
    case True
    then have "s = []" using Unit(1) by (cases s) auto
    moreover obtain d ds where "t = d # ds" "low_surrogate d" using True \<open>s = []\<close> by (cases t) auto
    ultimately show ?thesis using True by (simp add: utf8_loop_pair utf8_loop_unit unit_bytes_def)
  next
    case False
    then show ?thesis using Unit by (simp add: utf8_loop_unit)
  qed
qed

lemma replace_well_formed_append:
  "well_formed_utf16 a \<Longrightarrow> replaceUnpairedSurrogates (a @ b) = a @ replaceUnpairedSurrogates b"
proof (induction a rule: utf16_induct)
  case (Unit c a)
  then show ?case by (simp add: replace_unit well_formed_unit)
qed (simp_all add: replace_pair well_formed_pair)

lemma well_formed_append: "well_formed_utf16 a \<Longrightarrow> well_formed_utf16 b \<Longrightarrow> well_formed_utf16 (a @ b)"
proof (induction a rule: utf16_induct)
  case (Unit c a)
  then show ?case by (simp add: well_formed_unit)
qed (simp_all add: well_formed_pair)

lemma well_formed_ascii: "list_all (\<lambda>c. c < 256) a \<Longrightarrow> well_formed_utf16 a"
  by (induction a) (auto simp: well_formed_unit high_surrogate_def low_surrogate_def)

text \<open>A prefix that leaves room for the marker survives the truncation.\<close>

lemma truncate_keeps_prefix:
  assumes "js_units (pre @ x)" "well_formed_utf16 pre" "utf8ByteLength pre + 18 \<le> cap"
  shows "starts_with pre (fst (truncateOnCharBoundary (pre @ x) cap))"
proof (cases "cap < utf8ByteLength (pre @ x)")
  case False
  then show ?thesis
    by (simp add: truncateOnCharBoundary_def length_utf8_encode [OF assms(1)] starts_with_def)
next
  case True
  let ?s = "pre @ x"
  obtain k where k: "k < length (chars ?s)"
    "truncateOnCharBoundary ?s cap = (replaceUnpairedSurrogates (concat (take k (chars ?s))) @ TRUNCATION_MARKER, True)"
    "cap - 14 < utf8ByteLength (concat (take (Suc k) (chars ?s)))"
    by (rule truncate_cut [OF assms(1) _ True]) (use assms(3) in auto)
  let ?kept = "concat (take k (chars ?s))"
  have "length (utf8_encode (concat (take (Suc k) (chars ?s)))) \<le> length (utf8_encode ?kept) + 4"
    using k(1) unfolding utf8_encode_prefix
    by (simp add: take_Suc_conv_app_nth [of k "map _ (chars ?s)"] length_utf8_char)
  then have "utf8ByteLength pre \<le> utf8ByteLength ?kept"
    using k(3) assms(3) by (simp add: length_utf8_encode [OF js_units_prefix [OF assms(1)]])
  then have short: "us = []" if "pre = ?kept @ us" for us
    using that utf8_loop_grows [of us ?kept] by (auto simp: utf8ByteLength_eq_loop)
  obtain rest where "pre @ x = ?kept @ rest"
    by (metis append_take_drop_id concat_append concat_chars)
  then have "\<exists>us. ?kept = pre @ us"
    unfolding append_eq_append_conv2 using short by (metis append_Nil2)
  then obtain us where "?kept = pre @ us" ..
  then show ?thesis
    using k(2) by (simp add: replace_well_formed_append [OF assms(2)] starts_with_def)
qed

definition injected :: "trigger_step list \<Rightarrow> agent_message list" where
  "injected steps =
     List.map_filter (\<lambda>x. case x of QueuedFollowUp m \<Rightarrow> Some m | AppendedMessage m r \<Rightarrow> Some m | _ \<Rightarrow> None) steps"

lemma injected_simps [simp]:
  "injected [] = []" "injected (xs @ ys) = injected xs @ injected ys"
  "injected (QueuedFollowUp m # xs) = m # injected xs" "injected (AppendedMessage m r # xs) = m # injected xs"
  "injected (Emitted e # xs) = injected xs" "injected (Appended c d r # xs) = injected xs"
  by (auto simp: injected_def map_filter_simps List.map_filter_def)

lemma injected_audit [simp]: "injected (audit_steps c d x w r) = []"
  by (auto simp: audit_steps_def split: sum.splits)

text \<open>At most the message is injected, whatever happens to the audit and the queue's subscribers.\<close>

definition injects :: "agent_message list \<Rightarrow> trigger_step list \<Rightarrow> trigger_step list \<Rightarrow> bool" where
  "injects ms es steps \<longleftrightarrow> (\<exists>new. steps = es @ new \<and> injected new = ms)"

lemma injects_append:
  "injects ms es steps \<Longrightarrow> injected extra = [] \<Longrightarrow> injects ms es (steps @ extra)"
  by (auto simp: injects_def)

lemma wp_promotion_audit:
  assumes "\<And>w r data. Q (Inr ()) \<lparr>world = w, events = events s
      @ audit_steps (str ''trigger_promotion'') data (str ''trigger_promotion'') (str ''trigger_promotion'') r\<rparr>"
  shows "wp (writeTriggerPromotionAudit env a) Q s"
  unfolding writeTriggerPromotionAudit_def wp_bind
  by (rule wp_append_audit) (simp add: assms wp_return)

lemma wp_audited_event:
  assumes "injects ms es (events s)"
  shows "wp (act_then (writeTriggerPromotionAudit env a) (emitHarnessEvent env e)) (\<lambda>r s. injects ms es (events s)) s"
  unfolding wp_then
  by (rule wp_promotion_audit) (use assms in \<open>simp add: wp_emitHarnessEvent injects_append\<close>)

lemma wp_push_follow_up:
  assumes "\<And>r w. Q r \<lparr>world = w, events = events s @ [QueuedFollowUp m]\<rparr>"
  shows "wp (push_follow_up env m) Q s"
  by (simp add: push_follow_up_def wp_then wp_set_harness log_step_def wp_emit wp_call assms split: prod.split)

lemma wp_inject_promotion:
  "wp (inject_promotion env traceId kind name hash body short pre)
     (\<lambda>r s'. injects [createUserMessage body (te_now env (world s))] (events s) (events s')) s"
proof -
  let ?m = "createUserMessage body (te_now env (world s))"
  let ?Q = "\<lambda>r s'. injects [?m] (events s) (events s')"
  have one: "injects [?m] (events s) (events s @ [x])" if "x = QueuedFollowUp ?m \<or> x = AppendedMessage ?m r" for x r
    using that by (auto simp: injects_def)
  show ?thesis
  proof (cases "h_phase (hw_harness (world s)) = PhaseIdle")
    case True
    obtain r w where a: "te_appendMessage env ?m (world s) = (r, w)"
      by (cases "te_appendMessage env ?m (world s)")
    show ?thesis
    proof (cases r)
      case (Inl msg)
      then show ?thesis
        unfolding inject_promotion_def Let_def
        by (auto simp: wp_rules True a wp_emitHarnessEvent injects_def intro!: wp_promotion_audit)
    next
      case (Inr i)
      then show ?thesis
        unfolding inject_promotion_def Let_def
        by (simp add: wp_bind wp_get True wp_catch wp_logged a wp_return one wp_audited_event)
    qed
  next
    case False
    show ?thesis
      unfolding inject_promotion_def Let_def wp_bind wp_get sum.case prod.case if_P [OF False] wp_then [of "push_follow_up _ _"]
    proof (rule wp_push_follow_up, goal_cases)
      case (1 r w)
      then show ?case by (cases r) (simp_all add: one wp_audited_event)
    qed
  qed
qed

lemma always_applyPromotion [settles_intro]: "settles_always (applyPromotion env t p)"
  unfolding applyPromotion_def inject_promotion_def push_follow_up_def writeTriggerPromotionAudit_def Let_def
  by (auto split: promotion_gate.split sum.split option.split prod.split intro!: settles_intro)

definition promotion_template :: "promotion_params \<Rightarrow> js_string" where
  "promotion_template p =
     (case promotion_decision p of GateOpen (Some b) k \<Rightarrow> b | _ \<Rightarrow> DEFAULT_PROMOTE_SUMMARY_TEMPLATE)"

definition promotion_context :: "trigger \<Rightarrow> promotion_params \<Rightarrow> (js_string, js_string) js_map" where
  "promotion_context t p =
     buildTemplateContext (trace_id t) t (pp_success p) (pp_summary p) (pp_messageCount p)"

lemma prefixed_body:
  assumes "ensureTriggerPrefix rendered traceId = (prefixed, flag)"
  obtains x where "prefixed = trigger_prefix traceId @ x" "js_units rendered \<Longrightarrow> js_units traceId \<Longrightarrow> js_units prefixed"
proof (cases "starts_with (trigger_prefix traceId) rendered")
  case True
  then have "rendered = trigger_prefix traceId @ drop (length (trigger_prefix traceId)) rendered"
    unfolding starts_with_def by (metis append_take_drop_id)
  then show ?thesis
    using that assms True by (auto simp: ensureTriggerPrefix_def)
next
  case False
  show ?thesis
    using that [of rendered] assms False by (auto simp: ensureTriggerPrefix_def trigger_prefix_def)
qed

lemma trace_id_in_context: "(str ''trace_id'', trace_id t) \<in> set (promotion_context t p)"
proof -
  have "map_get (promotion_context t p) (str ''trace_id'') = Some (trace_id t)"
    unfolding promotion_context_def buildTemplateContext_def map_get_of_entries
    by (cases "source t") simp_all
  then show ?thesis by (rule map_get_in_set)
qed

lemma promoted_body:
  assumes "js_units (promotion_template p)" "list_all (\<lambda>e. js_units (snd e)) (promotion_context t p)"
    "well_formed_utf16 (trace_id t)" "utf8ByteLength (trigger_prefix (trace_id t)) + 18 \<le> 4096"
    "renderPromotionTemplate (promotion_template p) (promotion_context t p) = Inr rendered"
    "ensureTriggerPrefix rendered (trace_id t) = (prefixed, flag)"
    "truncateOnCharBoundary prefixed PROMOTION_BODY_CAP_BYTES = (body, short)"
  shows "starts_with (trigger_prefix (trace_id t)) body \<and> utf8ByteLength body \<le> 4096"
proof -
  have units: "js_units v" if "map_get (promotion_context t p) k = Some v" for k v
    using assms(2) map_get_in_set [OF that] by (auto simp: list_all_iff)
  have "js_units rendered" by (rule render_units [OF assms(5,1) units])
  moreover have "js_units (trace_id t)" using assms(2) trace_id_in_context [of t p] by (force simp: list_all_iff)
  ultimately obtain x where x: "prefixed = trigger_prefix (trace_id t) @ x" "js_units prefixed"
    by (metis prefixed_body [OF assms(6)])
  have "well_formed_utf16 (trigger_prefix (trace_id t))"
    unfolding trigger_prefix_def
    by (intro well_formed_append assms(3) well_formed_ascii) (simp_all add: str_def)
  then have "starts_with (trigger_prefix (trace_id t)) body"
    using truncate_keeps_prefix [of "trigger_prefix (trace_id t)" x 4096] x assms(4,7)
    by (simp add: PROMOTION_BODY_CAP_BYTES_def)
  moreover have "utf8ByteLength body \<le> 4096"
  proof (cases "4096 < utf8ByteLength prefixed")
    case True
    then obtain k where k: "body = replaceUnpairedSurrogates (concat (take k (chars prefixed))) @ TRUNCATION_MARKER"
        "utf8ByteLength (concat (take k (chars prefixed))) \<le> 4096 - 14"
      using truncate_cut [OF x(2) _ True] assms(7) by (auto simp: PROMOTION_BODY_CAP_BYTES_def)
    then show ?thesis
      using utf8ByteLength_marked [of "replaceUnpairedSurrogates (concat (take k (chars prefixed)))"]
      by (simp add: utf8ByteLength_eq_loop utf8_loop_replace)
  next
    case False
    then show ?thesis
      using assms(7)
      by (auto simp: PROMOTION_BODY_CAP_BYTES_def truncateOnCharBoundary_def length_utf8_encode [OF x(2)])
  qed
  ultimately show ?thesis by simp
qed

definition promotion_post :: "'o trigger_env \<Rightarrow> trigger \<Rightarrow> promotion_params \<Rightarrow> 'o harness_world \<Rightarrow> agent_message list \<Rightarrow> bool" where
  "promotion_post env t p w ms \<longleftrightarrow> ms = [] \<or>
     (\<exists>body. ms = [createUserMessage body (te_now env w)] \<and> starts_with (trigger_prefix (trace_id t)) body
        \<and> utf8ByteLength body \<le> 4096 \<and> \<not> pp_requireApproval p
        \<and> (\<exists>b kind. promotion_decision p = GateOpen b kind))"

lemma wp_applyPromotion:
  fixes env :: "'o trigger_env"
  assumes "js_units (promotion_template p)" "list_all (\<lambda>e. js_units (snd e)) (promotion_context t p)"
    "well_formed_utf16 (trace_id t)" "utf8ByteLength (trigger_prefix (trace_id t)) + 18 \<le> 4096"
  shows "wp (applyPromotion env t p) (\<lambda>r s. \<exists>ms. injects ms es (events s) \<and> promotion_post env t p w ms)
    \<lparr>world = w, events = es\<rparr>"
proof -
  let ?ok = "promotion_post env t p w"
  let ?s = "\<lparr>world = w, events = es\<rparr>"
  define Q :: "unit thrown \<Rightarrow> ('o harness_world, trigger_step) eff_state \<Rightarrow> bool"
    where "Q = (\<lambda>r s. \<exists>ms. injects ms es (events s) \<and> ?ok ms)"
  have none: "Q r s'" if "injects [] es (events s')" for r s' using that by (auto simp: Q_def promotion_post_def)
  have start: "injects [] es es" by (simp add: injects_def)
  have "wp (applyPromotion env t p) Q ?s"
  proof (cases "promotion_decision p")
    case GateReturn
    then show ?thesis using none start by (simp add: applyPromotion_def wp_return)
  next
    case (GateSkipped reason)
    then show ?thesis
      by (auto simp: applyPromotion_def injects_def intro!: wp_promotion_audit none)
  next
    case (GateOpen b kind)
    have ctx: "buildTemplateContext (trace_id t) t (pp_success p) (pp_summary p) (pp_messageCount p) = promotion_context t p"
      by (simp add: promotion_context_def)
    have tmpl: "(case b of None \<Rightarrow> DEFAULT_PROMOTE_SUMMARY_TEMPLATE | Some b \<Rightarrow> b) = promotion_template p"
      by (simp add: promotion_template_def GateOpen split: option.split)
    have audited: "wp (act_then (writeTriggerPromotionAudit env a) (emitHarnessEvent env e)) Q ?s" for a e
      by (rule wp_mono [OF wp_audited_event [of "[]" es]]) (use start none in auto)
    show ?thesis
    proof (cases "renderPromotionTemplate (promotion_template p) (promotion_context t p)")
      case (Inl err)
      then show ?thesis
        by (simp add: applyPromotion_def GateOpen ctx tmpl Let_def audited split: prod.split)
    next
      case (Inr rendered)
      obtain prefixed flag where pre: "ensureTriggerPrefix rendered (trace_id t) = (prefixed, flag)"
        by (cases "ensureTriggerPrefix rendered (trace_id t)")
      obtain body short where body: "truncateOnCharBoundary prefixed PROMOTION_BODY_CAP_BYTES = (body, short)"
        by (cases "truncateOnCharBoundary prefixed PROMOTION_BODY_CAP_BYTES")
      have ok: "?ok [createUserMessage body (te_now env w)]" if "\<not> pp_requireApproval p"
        using promoted_body [OF assms Inr pre body] that GateOpen by (auto simp: promotion_post_def)
      have "wp (inject_promotion env (trace_id t) kind nm hs body short flag) Q ?s"
        if "\<not> pp_requireApproval p" for nm hs
        by (rule wp_mono [OF wp_inject_promotion]) (use ok [OF that] in \<open>auto simp: Q_def\<close>)
      then show ?thesis
        by (simp add: applyPromotion_def GateOpen ctx tmpl Let_def Inr pre body audited)
    qed
  qed
  then show ?thesis by (simp add: Q_def)
qed


subsection \<open>Examples\<close>

definition demo_trigger :: trigger where
  "demo_trigger =
     \<lparr>source = LocalSource (str ''cron''), source_kind = SKLocal, source_label = str ''cron'', event_label = str ''tick'',
      payload_visibility = PVLocal, payload_summary = Some (str ''noon''), payload = None,
      idempotency_key = str ''k1'', replacement_policy = Drop, trace_id = str ''t1'',
      authority = \<lparr>principal_id = str ''u'', principal_label = str ''user'', credential_scope = ScopeUser,
                   allowed_source_actions = [], expires_at = None\<rparr>,
      received_at = str ''2026-01-01T12:00:00Z''\<rparr>"

text \<open>An environment without hooks whose calls succeed and change nothing.\<close>

definition quiet_trigger_env :: "unit trigger_env" where
  "quiet_trigger_env =
     \<lparr>te_dateParse = \<lambda>_. Some 0, te_sha256Hex = \<lambda>s. s, te_now = \<lambda>w. Some 0, te_nowISO = \<lambda>w. str ''now'',
      te_listen = \<lambda>e w. w, te_beforeTrigger = None, te_onTriggerPrompt = None, te_beforeTriggerAction = None,
      te_appendCustom = \<lambda>c d w. (Inr (str ''e1''), w), te_appendMessage = \<lambda>m w. (Inr (str ''e2''), w),
      te_emitQueueUpdate = \<lambda>w. (Inr (), w), te_createTurnState = \<lambda>w. (Inr (), w),
      te_runSubAgent = \<lambda>i t w. (([], None), w)\<rparr>"

definition fresh_harness :: "unit harness_world" where
  "fresh_harness =
     \<lparr>hw_harness =
        new_AgentHarness
          \<lparr>ho_model = DEFAULT_MODEL, ho_thinkingLevel = None, ho_tools = None, ho_activeToolNames = None,
           ho_resources = None, ho_steeringMode = None, ho_followUpMode = None, ho_compaction = None,
           ho_triggerRuntime = new_TriggerRuntime None None\<rparr>,
      hw_outside = ()\<rparr>"

definition demo_promotion :: promotion_params where
  "demo_promotion =
     \<lparr>pp_success = True, pp_summary = Some (str ''ok''), pp_messageCount = 1, pp_details = None,
      pp_promote = PromoteNow (Some (str ''{{result.summary}}'')), pp_requireApproval = False\<rparr>"


text \<open>
  The audit of a pending promotion compares lengths in UTF-16 units: a body that was cut is reported
  as clean when the marker is as long as the text it replaces.
\<close>

lemma chars_plain: "list_all (\<lambda>c. \<not> high_surrogate c) s \<Longrightarrow> chars s = map (\<lambda>c. [c]) s"
  by (induction s) (auto simp: chars_unit)

lemma utf8_loop_plain: "list_all (\<lambda>c. \<not> high_surrogate c) s \<Longrightarrow> utf8_loop s = sum_list (map unit_bytes s)"
  by (induction s) (auto simp: utf8_loop_unit)

lemma cut_body_of_same_length:
  assumes "body = replicate 4082 97 @ replicate 12 0x20ac"
  shows "\<exists>out. truncateOnCharBoundary body 4096 = (out, True) \<and> length out = length body"
proof -
  have plain: "list_all (\<lambda>c. \<not> high_surrogate c) body"
    by (simp add: assms list_all_iff high_surrogate_def)
  have take: "concat (take k (chars body)) = take k body" for k
    by (simp add: chars_plain [OF plain] take_map flip: map_map)
  have bytes: "utf8ByteLength (take k body) = min k 4082 + 3 * min (k - 4082) 12" for k
  proof -
    have "list_all (\<lambda>c. \<not> high_surrogate c) (take k body)" using plain by (auto simp: list_all_iff dest: in_set_takeD)
    then show ?thesis
      by (simp add: utf8ByteLength_eq_loop utf8_loop_plain assms take_map sum_list_replicate unit_bytes_def)
  qed
  have units: "js_units body" by (auto simp: assms js_units_def)
  obtain k where k: "k < length (chars body)"
    "truncateOnCharBoundary body 4096 = (replaceUnpairedSurrogates (concat (take k (chars body))) @ TRUNCATION_MARKER, True)"
    "utf8ByteLength (concat (take k (chars body))) \<le> 4096 - 14"
    "4096 - 14 < utf8ByteLength (concat (take (Suc k) (chars body)))"
    by (rule truncate_cut [OF units, of 4096]) (use bytes [of "length body"] in \<open>simp_all add: assms\<close>)
  have "k = 4082" using k(3,4) unfolding take bytes by (simp add: min_def split: if_splits)
  moreover have "replaceUnpairedSurrogates (take k body) = take k body"
    using well_formed_ascii [of "replicate 4082 97"] \<open>k = 4082\<close> by (simp add: assms replace_well_formed list_all_iff)
  ultimately show ?thesis using k(2) by (simp add: take) (simp add: assms TRUNCATION_MARKER_def)
qed

text \<open>A hook that throws ends the pump: later triggers of that source are never handled.\<close>

lemma pump_stops_at_error:
  assumes "handleTrigger env t s = Some (Inl msg, s')"
  shows "notification_pump env (t # ts) s
    = emitHarnessEvent env (PersistenceError (str ''notification_hook_pump'') msg) s'"
  using assms by (simp add: notification_pump_def act_catch_def act_then_def act_bind_def)

text \<open>
  A sub-agent whose turn state cannot be created is never taken off the registry of running
  triggers.
\<close>

definition broken_session_env :: "unit trigger_env" where
  "broken_session_env = quiet_trigger_env\<lparr>te_createTurnState := \<lambda>w. (Inl (str ''disk''), w)\<rparr>"

lemma failed_trigger_stays_registered:
  "\<exists>s. trigger_task broken_session_env demo_trigger \<lparr>world = fresh_harness, events = []\<rparr> = Some (Inr (), s)
     \<and> events s = [Emitted (TriggerExecutionStarted (str ''t1'') (str ''cron'') (str ''tick'') (str ''cron fired: tick'')),
                   Emitted (TriggerFailed (str ''t1'') (str ''disk''))]
     \<and> map rts_traceId (running_states (hw_harness (world s))) = [str ''t1'']"
proof -
  have "previewForBanner (str ''cron'' @ str '' fired: '' @ str ''tick'') 80 = str ''cron fired: tick''"
    by (simp add: previewForBanner_def Let_def chars_plain str_def high_surrogate_def)
  then show ?thesis
    by (simp add: trigger_task_def runTriggerAction_def runSubAgentDelivery_def register_running_def
        broken_session_env_def quiet_trigger_env_def defaultTriggerAction_def demo_trigger_def fresh_harness_def
        act_catch_def act_then_def act_bind_def act_call_def act_return_def emitHarnessEvent_def log_step_def act_emit_def
        trigger_sink_def on_harness_def running_states_def Let_def map_get_def)
qed

end
