(* ===== verification/BranchSummary.thy ===== *)
theory BranchSummary
  imports Compaction
begin

text \<open>
  \<open>packages/agent/src/harness/compaction/branch-summarization.ts\<close>: which entries a move in the
  session tree leaves behind, how much of them fits the budget of the summarizer, and the call of
  the summarizer, whose answer is an argument.
\<close>

subsection \<open>The entries that are left\<close>

text \<open>The id is tested by its truth value: the empty string ends the loop like \<open>null\<close>.\<close>

definition truthy_id :: "js_string option \<Rightarrow> bool" where
  "truthy_id i \<longleftrightarrow> i \<noteq> None \<and> i \<noteq> Some []"

definition commonAncestor :: "session_entry list \<Rightarrow> session_entry list \<Rightarrow> js_string option" where
  "commonAncestor oldPath targetPath =
     map_option e_id (find (\<lambda>e. e_id e \<in> set (map e_id oldPath)) (rev targetPath))"

partial_function (option) collect_loop ::
  "memory_storage \<Rightarrow> js_string option \<Rightarrow> js_string option \<Rightarrow> session_entry list
     \<Rightarrow> session_entry list session_result option" where
  "collect_loop s anc cur es =
     (if \<not> truthy_id cur \<or> cur = anc then Some (Inr (rev es))
      else
        (case getEntry s (the cur) of
           None \<Rightarrow> Some (Inl (SessionError InvalidSession (str ''Entry '' @ the cur @ str '' not found'')))
         | Some e \<Rightarrow> collect_loop s anc (e_parentId e) (es @ [e])))"

definition collectEntriesForBranchSummary ::
  "memory_storage \<Rightarrow> js_string option \<Rightarrow> js_string
     \<Rightarrow> (session_entry list \<times> js_string option) session_result option" where
  "collectEntriesForBranchSummary s oldLeafId targetId =
     (if \<not> truthy_id oldLeafId then Some (Inr ([], None))
      else
        (case getBranch s oldLeafId of
           Inl err \<Rightarrow> Some (Inl err)
         | Inr oldPath \<Rightarrow>
             (case getBranch s (Some targetId) of
                Inl err \<Rightarrow> Some (Inl err)
              | Inr targetPath \<Rightarrow>
                  (let anc = commonAncestor oldPath targetPath
                   in case collect_loop s anc oldLeafId [] of
                        None \<Rightarrow> None
                      | Some (Inl err) \<Rightarrow> Some (Inl err)
                      | Some (Inr es) \<Rightarrow> Some (Inr (es, anc))))))"

subsection \<open>What fits the budget\<close>

fun tool_result_entry :: "entry_body \<Rightarrow> bool" where
  "tool_result_entry (EMessage (LlmMessage (LToolResult _))) = True"
| "tool_result_entry _ = False"

definition branch_message :: "(js_string \<Rightarrow> ms) \<Rightarrow> session_entry \<Rightarrow> agent_message option" where
  "branch_message date_parse e =
     (if tool_result_entry (e_body e) then None else getMessageFromEntry date_parse e)"

fun summary_or_compaction :: "entry_body \<Rightarrow> bool" where
  "summary_or_compaction (EBranchSummary _ _ _ _) = True"
| "summary_or_compaction (ECompaction _ _ _ _ _) = True"
| "summary_or_compaction _ = False"

record branch_preparation =
  bp_messages :: "agent_message list"
  bp_fileOps :: file_operations
  bp_totalTokens :: nat

definition inherited_files :: "session_entry \<Rightarrow> file_operations \<Rightarrow> file_operations" where
  "inherited_files e ops =
     (case e_body e of
        EBranchSummary fromId summary details fromHook \<Rightarrow>
          if fromHook then ops
          else ops\<lparr>fo_read := fold set_add (detail_files details ''readFiles'') (fo_read ops),
                   fo_edited := fold set_add (detail_files details ''modifiedFiles'') (fo_edited ops)\<rparr>
      | _ \<Rightarrow> ops)"

text \<open>
  The loop runs from the last entry to the first.  \<open>totalTokens < tokenBudget * 0.9\<close> is stated on
  integers.
\<close>

fun prepare_loop ::
  "(js_string \<Rightarrow> ms) \<Rightarrow> int \<Rightarrow> session_entry list \<Rightarrow> branch_preparation \<Rightarrow> branch_preparation" where
  "prepare_loop date_parse tokenBudget [] p = p"
| "prepare_loop date_parse tokenBudget (e # es) p =
     (case branch_message date_parse e of
        None \<Rightarrow> prepare_loop date_parse tokenBudget es p
      | Some m \<Rightarrow>
          (let p1 = p\<lparr>bp_fileOps := extractFileOpsFromMessage m (bp_fileOps p)\<rparr>;
               tokens = estimateTokens m;
               p2 = p1\<lparr>bp_messages := m # bp_messages p1, bp_totalTokens := bp_totalTokens p1 + tokens\<rparr>
           in if tokenBudget > 0 \<and> int (bp_totalTokens p1 + tokens) > tokenBudget then
                (if summary_or_compaction (e_body e) \<and> 10 * int (bp_totalTokens p1) < 9 * tokenBudget then p2
                 else p1)
              else prepare_loop date_parse tokenBudget es p2))"

definition prepareBranchEntries ::
  "(js_string \<Rightarrow> ms) \<Rightarrow> session_entry list \<Rightarrow> int \<Rightarrow> branch_preparation" where
  "prepareBranchEntries date_parse entries tokenBudget =
     prepare_loop date_parse tokenBudget (rev entries)
       \<lparr>bp_messages = [], bp_fileOps = fold inherited_files entries createFileOps, bp_totalTokens = 0\<rparr>"

subsection \<open>The summary\<close>

definition BRANCH_SUMMARY_PREAMBLE :: js_string where
  "BRANCH_SUMMARY_PREAMBLE =
     js_join nl [str ''The user explored a different conversation branch before returning here.'',
                 str ''Summary of that exploration:'', [], []]"

definition BRANCH_SUMMARY_PROMPT :: js_string where
  "BRANCH_SUMMARY_PROMPT = js_join nl [
     str ''Create a structured summary of this conversation branch for context when returning later.'',
     [],
     str ''Use this EXACT format:'',
     [],
     str ''## Goal'',
     str ''[What was the user trying to accomplish in this branch?]'',
     [],
     str ''## Constraints & Preferences'',
     str ''- [Any constraints, preferences, or requirements mentioned]'',
     str ''- [Or \"(none)\" if none were mentioned]'',
     [],
     str ''## Progress'',
     str ''### Done'',
     str ''- [x] [Completed tasks/changes]'',
     [],
     str ''### In Progress'',
     str ''- [ ] [Work that was started but not finished]'',
     [],
     str ''### Blocked'',
     str ''- [Issues preventing progress, if any]'',
     [],
     str ''## Key Decisions'',
     str ''- **[Decision]**: [Brief rationale]'',
     [],
     str ''## Next Steps'',
     str ''1. [What should happen next to continue this work]'',
     [],
     str ''Keep each section concise. Preserve exact file paths, function names, and error messages.'']"

record branch_options =
  bo_model :: model_limits
  bo_customInstructions :: "js_string option"
  bo_replaceInstructions :: bool
  bo_reserveTokens :: nat

datatype branch_summary_error = BranchAborted js_string | BranchFailed js_string

record branch_summary_result =
  bs_summary :: js_string
  bs_readFiles :: "js_string list"
  bs_modifiedFiles :: "js_string list"

definition branch_budget :: "branch_options \<Rightarrow> int" where
  "branch_budget options =
     (let w = ml_contextWindow (bo_model options)
      in int (if w = 0 then 128000 else w) - int (bo_reserveTokens options))"

definition branch_instructions :: "branch_options \<Rightarrow> js_string" where
  "branch_instructions options =
     (if bo_replaceInstructions options \<and> filled (bo_customInstructions options)
      then the (bo_customInstructions options)
      else if filled (bo_customInstructions options)
      then BRANCH_SUMMARY_PROMPT @ nl @ nl @ str ''Additional focus: '' @ the (bo_customInstructions options)
      else BRANCH_SUMMARY_PROMPT)"

definition branch_prompt :: "branch_options \<Rightarrow> agent_message list \<Rightarrow> js_string" where
  "branch_prompt options ms =
     str ''<conversation>'' @ nl @ serializeConversation (convertToLlm ms) @ nl @ str ''</conversation>'' @ nl @ nl
       @ branch_instructions options"

definition generateBranchSummary ::
  "(js_string \<Rightarrow> ms) \<Rightarrow> (summary_request \<Rightarrow> assistant_message) \<Rightarrow> session_entry list \<Rightarrow> branch_options
     \<Rightarrow> branch_summary_error + branch_summary_result" where
  "generateBranchSummary date_parse provider entries options =
     (let p = prepareBranchEntries date_parse entries (branch_budget options)
      in if bp_messages p = [] then
           Inr \<lparr>bs_summary = str ''No content to summarize'', bs_readFiles = [], bs_modifiedFiles = []\<rparr>
         else
           (let response = provider \<lparr>rq_maxTokens = 2048, rq_promptText = branch_prompt options (bp_messages p),
                                     rq_reasoning = None\<rparr>
            in if a_stopReason response = StopAborted
               then Inl (BranchAborted (or_default (a_errorMessage response) ''Branch summary aborted''))
               else if a_stopReason response = StopError
               then Inl (BranchFailed (str ''Branch summary failed: ''
                           @ or_default (a_errorMessage response) ''Unknown error''))
               else
                 (let lists = computeFileLists (bp_fileOps p)
                  in Inr \<lparr>bs_summary = BRANCH_SUMMARY_PREAMBLE @ response_text response
                             @ formatFileOperations (fst lists) (snd lists),
                          bs_readFiles = fst lists, bs_modifiedFiles = snd lists\<rparr>)))"

subsection \<open>The walk collects what the target's branch does not have\<close>

lemma chain_unique:
  "parent_chain par byId xs l \<Longrightarrow> parent_chain par byId ys l \<Longrightarrow> xs = ys"
proof (induction xs arbitrary: l ys)
  case Nil
  then show ?case by (cases ys) auto
next
  case (Cons x xs)
  then show ?case by (cases ys) auto
qed

lemma chain_tail: "parent_chain par byId (xs @ e # ys) l \<Longrightarrow> parent_chain par byId ys (par e)"
  by (induction xs arbitrary: l) auto

text \<open>Two branches through one entry agree below it, and an entry is on a branch once.\<close>

lemma chain_tails_equal:
  "parent_chain par byId (xs @ e # ys) l \<Longrightarrow> parent_chain par byId (xs' @ e # ys') l' \<Longrightarrow> ys = ys'"
  using chain_tail chain_unique by metis

lemma chain_once: "parent_chain par byId (xs @ e # ys) l \<Longrightarrow> e \<notin> set ys"
proof
  assume c: "parent_chain par byId (xs @ e # ys) l" and "e \<in> set ys"
  then obtain us vs where "ys = us @ e # vs" by (meson split_list)
  then have "vs = ys" using chain_tails_equal [of par byId xs e ys l "xs @ e # us" vs l] c by simp
  then show False using \<open>ys = us @ e # vs\<close> by (auto dest: arg_cong [where f = length])
qed

lemma stored_key: "storage_inv s \<Longrightarrow> map_get (ms_byId s) i = Some e \<Longrightarrow> e_id e = i"
  using entries_byId_get by (auto simp: storage_inv_def)

lemma chain_same_id:
  assumes "storage_inv s" "parent_chain e_parentId (ms_byId s) xs l" "parent_chain e_parentId (ms_byId s) ys l'"
    and "x \<in> set xs" "y \<in> set ys" "e_id x = e_id y"
  shows "x = y"
proof -
  obtain i j where "map_get (ms_byId s) i = Some x" "map_get (ms_byId s) j = Some y"
    using parent_chain_stored assms(2-5) by metis
  then show ?thesis using stored_key [OF assms(1)] assms(6) by fastforce
qed

lemma collect_loop_chain:
  assumes inv: "storage_inv s"
  shows "parent_chain e_parentId (ms_byId s) rp cur \<Longrightarrow> [] \<notin> e_id ` set rp \<Longrightarrow>
    collect_loop s anc cur acc = Some (Inr (rev (acc @ takeWhile (\<lambda>e. Some (e_id e) \<noteq> anc) rp)))"
proof (induction rp arbitrary: cur acc)
  case Nil
  then show ?case by (simp add: collect_loop.simps truthy_id_def)
next
  case (Cons e rp)
  then obtain i where i: "cur = Some i" "map_get (ms_byId s) i = Some e"
    "parent_chain e_parentId (ms_byId s) rp (e_parentId e)" by auto
  have id: "e_id e = i" "i \<noteq> []" using stored_key [OF inv i(2)] Cons.prems(2) by auto
  show ?case
    using Cons.IH [OF i(3)] Cons.prems(2) i(1,2) id
    by (subst collect_loop.simps) (auto simp: truthy_id_def getEntry_def)
qed

lemma branch_chain:
  assumes "getBranch s (Some i) = Inr p"
  shows "parent_chain e_parentId (ms_byId s) (rev p) (Some i)"
  using path_loop_sound [of e_parentId "ms_byId s" "{}" "[]" "Some i" p] assms
  by (auto simp: getBranch_def getPathToRoot_def path_to_root_def)

definition left_branch :: "session_entry list \<Rightarrow> session_entry list \<Rightarrow> session_entry list \<Rightarrow> js_string option \<Rightarrow> bool" where
  "left_branch p q es anc \<longleftrightarrow>
     (\<exists>pre rest. p = pre @ es \<and> q = pre @ rest \<and> set es \<inter> set q = {}
        \<and> anc = (if pre = [] then None else Some (e_id (last pre))))"

text \<open>With the branches reversed, the scan of \<open>commonAncestor\<close> and the walk split them alike.\<close>

lemma left_branch_split:
  assumes inv: "storage_inv s"
    and p: "parent_chain e_parentId (ms_byId s) rp l" and q: "parent_chain e_parentId (ms_byId s) rq l'"
    and anc: "anc = commonAncestor (rev rp) (rev rq)"
  shows "left_branch (rev rp) (rev rq) (rev (takeWhile (\<lambda>e. Some (e_id e) \<noteq> anc) rp)) anc"
proof (cases "find (\<lambda>e. e_id e \<in> set (map e_id rp)) rq")
  case None
  then have "anc = None" using anc by (simp add: commonAncestor_def)
  moreover have "set rp \<inter> set rq = {}" using None by (auto simp: find_None_iff)
  moreover have "takeWhile (\<lambda>e. Some (e_id e) \<noteq> anc) rp = rp"
    using \<open>anc = None\<close> by (induction rp) auto
  moreover from calculation have "left_branch (rev rp) (rev rq) (rev rp) anc"
    unfolding left_branch_def by (rule_tac x = "[]" in exI) simp
  ultimately show ?thesis by (simp only: )
next
  case (Some a)
  then obtain i where i: "i < length rq" "a = rq ! i" "\<forall>j<i. e_id (rq ! j) \<notin> e_id ` set rp"
    and a: "e_id a \<in> e_id ` set rp"
    by (auto simp: find_Some_iff)
  then obtain us ys where rq: "rq = us @ a # ys" and us: "\<forall>u\<in>set us. e_id u \<notin> e_id ` set rp"
    using id_take_nth_drop [OF i(1)] by (fastforce simp: in_set_conv_nth)
  have anc: "anc = Some (e_id a)" using Some anc by (simp add: commonAncestor_def)
  have "a \<in> set rp" using a chain_same_id [OF inv p q] rq by fastforce
  then obtain zs ys' where rp: "rp = zs @ a # ys'" and zs: "a \<notin> set zs"
    by (meson split_list_first)
  have ys: "ys' = ys" using chain_tails_equal p q rp rq by metis
  have w: "takeWhile (\<lambda>e. Some (e_id e) \<noteq> anc) rp = zs"
    using chain_same_id [OF inv p p, of _ a] zs rp anc
    by (subst rp, subst takeWhile_append2) fastforce+
  have "set zs \<inter> set rq = {}"
    using us rp rq zs ys chain_once [of e_parentId "ms_byId s"] p by (fastforce dest: split_list)
  then show ?thesis
    using w rp rq ys anc by (auto simp: left_branch_def intro!: exI [of _ "rev ys @ [a]"])
qed

text \<open>
  C17: Moving from one entry of a session to another collects exactly the entries of the old branch
  that the new branch does not have: the two branches are a common start followed by the collected
  entries and by the rest of the new branch, and the common ancestor is the last entry of that
  start.  The walk returns.
\<close>
theorem collectEntries_left_branch:
  assumes "storage_inv s"
    and "getBranch s (Some old) = Inr p" and "getBranch s (Some target) = Inr q"
    and "[] \<notin> e_id ` set p" and "old \<noteq> []"
  shows "\<exists>es anc. collectEntriesForBranchSummary s (Some old) target = Some (Inr (es, anc)) \<and> left_branch p q es anc"
  using left_branch_split [OF assms(1) branch_chain [OF assms(2)] branch_chain [OF assms(3)] refl]
    collect_loop_chain [OF assms(1) branch_chain [OF assms(2)], of "commonAncestor p q" "[]"] assms
  by (simp add: collectEntriesForBranchSummary_def truthy_id_def Let_def)

theorem collectEntries_left_branch_witness:
  "\<exists>es anc. collectEntriesForBranchSummary demo_session (Some (str ''b'')) (str ''a'') = Some (Inr (es, anc))
    \<and> left_branch [demo_entry_a, demo_entry_b] [demo_entry_a] es anc"
proof (rule collectEntries_left_branch)
  show "storage_inv demo_session" using demo_session_ok by (simp add: session_ok_def)
  show "getBranch demo_session (Some (str ''b'')) = Inr [demo_entry_a, demo_entry_b]"
    "getBranch demo_session (Some (str ''a'')) = Inr [demo_entry_a]"
    by (simp_all add: demo_session_eq session_eval demo_entry_a_def demo_entry_b_def)
qed (simp_all add: demo_entry_a_def demo_entry_b_def str_def)

subsection \<open>The budget of the summary\<close>

definition message_tokens :: "agent_message list \<Rightarrow> nat" where
  "message_tokens ms = sum_list (map estimateTokens ms)"

definition within_budget ::
  "(js_string \<Rightarrow> ms) \<Rightarrow> int \<Rightarrow> session_entry list \<Rightarrow> nat \<Rightarrow> nat \<Rightarrow> bool" where
  "within_budget date_parse budget rs j tks \<longleftrightarrow>
     (int tks \<le> budget
        \<and> (j = length rs \<or> (\<exists>m. branch_message date_parse (rs ! j) = Some m \<and> int (tks + estimateTokens m) > budget)))
     \<or> (\<exists>m before. 0 < j \<and> branch_message date_parse (rs ! (j - 1)) = Some m
          \<and> summary_or_compaction (e_body (rs ! (j - 1)))
          \<and> tks = before + estimateTokens m \<and> 10 * int before < 9 * budget)"

lemma map_filter_append: "List.map_filter f (xs @ ys) = List.map_filter f xs @ List.map_filter f ys"
  by (simp add: List.map_filter_def)

lemma prepare_loop_budget:
  assumes "0 < budget"
  shows "int (bp_totalTokens p) \<le> budget \<Longrightarrow> \<exists>j\<le>length rs.
    bp_messages (prepare_loop dp budget rs p) = List.map_filter (branch_message dp) (rev (take j rs)) @ bp_messages p
    \<and> bp_totalTokens (prepare_loop dp budget rs p)
        = bp_totalTokens p + message_tokens (List.map_filter (branch_message dp) (rev (take j rs)))
    \<and> within_budget dp budget rs j (bp_totalTokens (prepare_loop dp budget rs p))"
proof (induction rs arbitrary: p)
  case Nil
  then show ?case by (simp add: within_budget_def message_tokens_def map_filter_simps)
next
  case (Cons e rs)
  have lift: "within_budget dp budget (e # rs) (Suc j) t" if "within_budget dp budget rs j t" for j t
    using that by (auto simp: within_budget_def nth_Cons')
  show ?case
  proof (cases "branch_message dp e")
    case None
    obtain j where "j \<le> length rs"
      "bp_messages (prepare_loop dp budget rs p) = List.map_filter (branch_message dp) (rev (take j rs)) @ bp_messages p"
      "bp_totalTokens (prepare_loop dp budget rs p)
        = bp_totalTokens p + message_tokens (List.map_filter (branch_message dp) (rev (take j rs)))"
      "within_budget dp budget rs j (bp_totalTokens (prepare_loop dp budget rs p))"
      using Cons.IH [OF Cons.prems] by blast
    then show ?thesis
      using None lift [of j] by (intro exI [of _ "Suc j"]) (simp add: map_filter_append)
  next
    case (Some m)
    define p1 where "p1 = p\<lparr>bp_fileOps := extractFileOpsFromMessage m (bp_fileOps p)\<rparr>"
    define p2 where "p2 = p1\<lparr>bp_messages := m # bp_messages p1, bp_totalTokens := bp_totalTokens p1 + estimateTokens m\<rparr>"
    have p1: "bp_messages p1 = bp_messages p" "bp_totalTokens p1 = bp_totalTokens p" by (simp_all add: p1_def)
    have p2: "bp_messages p2 = m # bp_messages p" "bp_totalTokens p2 = bp_totalTokens p + estimateTokens m"
      by (simp_all add: p2_def p1)
    have loop: "prepare_loop dp budget (e # rs) p =
        (if int (bp_totalTokens p + estimateTokens m) > budget
         then (if summary_or_compaction (e_body e) \<and> 10 * int (bp_totalTokens p) < 9 * budget then p2 else p1)
         else prepare_loop dp budget rs p2)"
      using Some assms by (simp add: p1_def p2_def Let_def)
    show ?thesis
    proof (cases "int (bp_totalTokens p + estimateTokens m) > budget")
      case True
      show ?thesis
      proof (cases "summary_or_compaction (e_body e) \<and> 10 * int (bp_totalTokens p) < 9 * budget")
        case keep: True
        then show ?thesis
          using loop True Some p2
          by (intro exI [of _ 1]) (auto simp: within_budget_def message_tokens_def)
      next
        case False
        then show ?thesis
          using loop True Some p1 Cons.prems
          by (intro exI [of _ 0]) (auto simp: within_budget_def message_tokens_def)
      qed
    next
      case False
      then obtain j where j: "j \<le> length rs"
        "bp_messages (prepare_loop dp budget rs p2) = List.map_filter (branch_message dp) (rev (take j rs)) @ bp_messages p2"
        "bp_totalTokens (prepare_loop dp budget rs p2)
          = bp_totalTokens p2 + message_tokens (List.map_filter (branch_message dp) (rev (take j rs)))"
        "within_budget dp budget rs j (bp_totalTokens (prepare_loop dp budget rs p2))"
        using Cons.IH [of p2] p2 by auto
      then show ?thesis
        using loop False Some p2 lift [OF j(4)]
        by (intro exI [of _ "Suc j"]) (simp add: map_filter_append message_tokens_def)
    qed
  qed
qed



text \<open>A window that the reserve uses up leaves no budget, which is read as no limit.\<close>

lemma prepare_loop_unlimited:
  "budget \<le> 0 \<Longrightarrow>
   bp_messages (prepare_loop dp budget rs p) = List.map_filter (branch_message dp) (rev rs) @ bp_messages p"
  by (induction rs arbitrary: p) (auto simp: map_filter_append Let_def split: option.split)

lemma small_window_unlimited:
  assumes "0 < ml_contextWindow (bo_model options)"
    and "ml_contextWindow (bo_model options) \<le> bo_reserveTokens options"
  shows "bp_messages (prepareBranchEntries dp es (branch_budget options)) = List.map_filter (branch_message dp) es"
  using assms by (simp add: prepareBranchEntries_def branch_budget_def prepare_loop_unlimited)

end
