(* ===== verification/Harness.thy ===== *)
theory Harness
  imports TriggerFlow Compaction
begin

text \<open>
  The turns of the class \<open>AgentHarness\<close> (\<open>harness/agent-harness.ts\<close>): prompts and their
  continuations, the events of the agent loop and what they write to the session, queues, pending
  writes, compaction, and the setters.  The session, the hooks, the subscribers and the clock are
  functions on the world, which may throw and may change the harness, as other calls run while they
  are awaited.  The agent loop is any caller of the functions the harness hands to it: it says what
  it calls next and is given the answer.  Errors are their messages; the code that
  \<open>normalizeHarnessError\<close> adds to an error is not kept.
\<close>

subsection \<open>Events, hooks and the environment\<close>

datatype own_event =
    QueueUpdate "agent_message list" "agent_message list" "agent_message list"
  | SavePoint bool
  | Settled nat
  | SessionCompacted session_entry bool
  | ModelSelected model_ref model_ref                     \<comment> \<open>\<open>model\<close>, \<open>previousModel\<close>\<close>
  | ThinkingLevelSelected thinking_level thinking_level
  | ResourcesUpdated harness_resources harness_resources
  | HarnessAborted "agent_message list" "agent_message list"

datatype turn_end_action = TurnNoop | TurnStop | TurnPause js_string | TurnContinue js_string

record turn_end_decision =
  td_action :: turn_end_action
  td_payload :: "json option"

record turn_state =
  ts_messages :: "agent_message list"
  ts_resources :: harness_resources
  ts_sessionId :: js_string
  ts_systemPrompt :: js_string
  ts_model :: model_ref
  ts_thinkingLevel :: thinking_level
  ts_tools :: "harness_tool list"
  ts_activeTools :: "harness_tool list"

text \<open>What the agent loop does next, and what it is answered.\<close>

datatype loop_request =
    LoopEmits agent_event
  | LoopGetsSteering
  | LoopGetsFollowUp
  | LoopPreparesNext
  | LoopShouldStop assistant_message
  | LoopReturned "agent_message list"
  | LoopThrew js_string

datatype loop_answer =
    AnswerDone
  | AnswerMessages "agent_message list"
  | AnswerTurn turn_state
  | AnswerStop bool
  | AnswerThrown js_string

text \<open>The result of a compaction, made by \<open>compact\<close> or given by a hook.\<close>

record compact_outcome =
  co_summary :: js_string
  co_firstKeptEntryId :: js_string
  co_tokensBefore :: nat
  co_details :: "json option"

datatype harness_step =
    Published own_event "unit thrown"
  | Forwarded agent_event "unit thrown"
  | Wrote entry_body "js_string thrown"
  | Told harness_event
  | TurnBegan harness_phase "agent_message list"
  | TurnEndAsked nat "turn_end_decision thrown"

record 'o harness_env =
  he_now :: "'o harness_world \<Rightarrow> ms"
  he_dateParse :: "js_string \<Rightarrow> ms"
  he_limits :: "model_ref \<Rightarrow> model_limits"
  he_systemPrompt :: "(js_string + ('o harness_world \<Rightarrow> js_string thrown \<times> 'o harness_world)) option"
  he_listen :: "harness_event \<Rightarrow> 'o harness_world \<Rightarrow> 'o harness_world"
  he_publish :: "own_event \<Rightarrow> 'o harness_world \<Rightarrow> unit thrown \<times> 'o harness_world"
  he_forward :: "agent_event \<Rightarrow> 'o harness_world \<Rightarrow> unit thrown \<times> 'o harness_world"
  he_append :: "entry_body \<Rightarrow> 'o harness_world \<Rightarrow> js_string thrown \<times> 'o harness_world"
  he_getBranch :: "'o harness_world \<Rightarrow> session_entry list thrown \<times> 'o harness_world"
  he_getEntry :: "js_string \<Rightarrow> 'o harness_world \<Rightarrow> session_entry option thrown \<times> 'o harness_world"
  he_sessionId :: "'o harness_world \<Rightarrow> js_string thrown \<times> 'o harness_world"
  he_recordCost :: "usage option \<Rightarrow> 'o harness_world \<Rightarrow> 'o harness_world"
  he_budgetCapError :: "'o harness_world \<Rightarrow> js_string option"
  he_beforeAgentStart ::
    "js_string \<Rightarrow> user_block list \<Rightarrow> turn_state \<Rightarrow> 'o harness_world
       \<Rightarrow> (agent_message list option \<times> js_string option) option thrown \<times> 'o harness_world"
    \<comment> \<open>\<open>messages\<close> and \<open>systemPrompt\<close> of the result\<close>
  he_loopStart :: "agent_message list \<Rightarrow> turn_state \<Rightarrow> js_string \<Rightarrow> 'o harness_world \<Rightarrow> 'o harness_world"
    \<comment> \<open>\<open>runAgentLoop\<close> with the prompts, \<open>runAgentLoopContinue\<close> without any\<close>
  he_loopNext :: "loop_answer \<Rightarrow> 'o harness_world \<Rightarrow> loop_request \<times> 'o harness_world"
  he_onTurnEnd ::
    "(agent_message list \<Rightarrow> nat \<Rightarrow> js_string option \<Rightarrow> 'o harness_world
        \<Rightarrow> turn_end_decision thrown \<times> 'o harness_world) option"
  he_turnContinuationCap :: nat
  he_beforeCompact ::
    "compaction_preparation \<Rightarrow> session_entry list \<Rightarrow> js_string option \<Rightarrow> 'o harness_world
       \<Rightarrow> (bool \<times> compact_outcome option) option thrown \<times> 'o harness_world"
    \<comment> \<open>\<open>cancel\<close> and \<open>compaction\<close> of the result\<close>
  he_auth :: "model_ref \<Rightarrow> 'o harness_world \<Rightarrow> bool thrown \<times> 'o harness_world"
  he_summarizers :: "'o harness_world \<Rightarrow> (summary_provider \<times> summary_provider) \<times> 'o harness_world"
  he_waitForIdle :: "'o harness_world \<Rightarrow> unit thrown \<times> 'o harness_world"
  he_reloadSkills :: "('o harness_world \<Rightarrow> skill list thrown \<times> 'o harness_world) option"
  he_catalogModel :: "js_string \<Rightarrow> js_string \<Rightarrow> model_ref option"

type_synonym ('o, 'a) harness_io = "('o harness_world, harness_step, 'a) action"

subsection \<open>Actions\<close>

text \<open>\<open>try m finally f\<close>, and the outcome of an action as a value.\<close>

definition act_finally :: "('w, 'e, 'a) action \<Rightarrow> ('w, 'e, unit) action \<Rightarrow> ('w, 'e, 'a) action" where
  "act_finally m f s =
     (case m s of
        None \<Rightarrow> None
      | Some (r, s') \<Rightarrow>
          (case f s' of
             None \<Rightarrow> None
           | Some (Inl msg, s'') \<Rightarrow> Some (Inl msg, s'')
           | Some (Inr _, s'') \<Rightarrow> Some (r, s'')))"

definition act_try :: "('w, 'e, 'a) action \<Rightarrow> ('w, 'e, 'a thrown) action" where
  "act_try m s = (case m s of None \<Rightarrow> None | Some (r, s') \<Rightarrow> Some (Inr r, s'))"

definition act_query :: "('w \<Rightarrow> 'a \<times> 'w) \<Rightarrow> ('w, 'e, 'a) action" where
  "act_query f = act_call (\<lambda>w. apfst Inr (f w))"

definition change :: "(harness \<Rightarrow> harness) \<Rightarrow> ('o, unit) harness_io" where
  "change f = act_call (\<lambda>w. (Inr (), on_harness f w))"

definition ask :: "(harness \<Rightarrow> 'a) \<Rightarrow> ('o, 'a) harness_io" where
  "ask f = act_get (\<lambda>w. f (hw_harness w))"

definition tell :: "'o harness_env \<Rightarrow> harness_event \<Rightarrow> ('o, unit) harness_io" where
  "tell env e = act_emit (\<lambda>_. he_listen env e) (Told e)"

definition emitOwn :: "'o harness_env \<Rightarrow> own_event \<Rightarrow> ('o, unit) harness_io" where
  "emitOwn env e = act_logged (he_publish env e) (Published e)"

definition emitAny :: "'o harness_env \<Rightarrow> agent_event \<Rightarrow> ('o, unit) harness_io" where
  "emitAny env e = act_logged (he_forward env e) (Forwarded e)"

definition write_entry :: "'o harness_env \<Rightarrow> entry_body \<Rightarrow> ('o, js_string) harness_io" where
  "write_entry env b = act_logged (he_append env b) (Wrote b)"

definition act_void :: "('w, 'e, 'a) action \<Rightarrow> ('w, 'e, unit) action" where
  "act_void m = act_bind m (\<lambda>_. act_return ())"

subsection \<open>Queues\<close>

definition emitQueueUpdate :: "'o harness_env \<Rightarrow> ('o, unit) harness_io" where
  "emitQueueUpdate env =
     act_bind (ask (\<lambda>h. QueueUpdate (h_steerQueue h) (h_followUpQueue h) (h_nextTurnQueue h))) (emitOwn env)"

datatype queue_name = SteerQueue | FollowUpQueue | NextTurnQueue

fun queue_of :: "queue_name \<Rightarrow> harness \<Rightarrow> agent_message list" where
  "queue_of SteerQueue h = h_steerQueue h"
| "queue_of FollowUpQueue h = h_followUpQueue h"
| "queue_of NextTurnQueue h = h_nextTurnQueue h"

fun set_queue :: "queue_name \<Rightarrow> agent_message list \<Rightarrow> harness \<Rightarrow> harness" where
  "set_queue SteerQueue q h = h\<lparr>h_steerQueue := q\<rparr>"
| "set_queue FollowUpQueue q h = h\<lparr>h_followUpQueue := q\<rparr>"
| "set_queue NextTurnQueue q h = h\<lparr>h_nextTurnQueue := q\<rparr>"

text \<open>The messages taken are put back in front when the update cannot be published.\<close>

definition drain_queue :: "'o harness_env \<Rightarrow> queue_name \<Rightarrow> queue_mode \<Rightarrow> ('o, agent_message list) harness_io" where
  "drain_queue env q mode =
     act_bind (ask (queue_of q)) (\<lambda>queue.
       let ms = (if mode = QueueAll then queue else take 1 queue)
       in if ms = [] then act_return []
          else
            act_then (change (set_queue q (drop (length ms) queue)))
              (act_catch
                (act_then (emitQueueUpdate env) (act_return ms))
                (\<lambda>msg. act_then (change (\<lambda>h. set_queue q (ms @ queue_of q h) h)) (act_throw msg))))"

definition drainQueuedMessages :: "'o harness_env \<Rightarrow> queue_name \<Rightarrow> ('o, agent_message list) harness_io" where
  "drainQueuedMessages env q =
     act_bind (ask (\<lambda>h. if q = SteerQueue then h_steeringQueueMode h else h_followUpQueueMode h)) (drain_queue env q)"

definition user_message :: "js_string \<Rightarrow> user_block list \<Rightarrow> ms \<Rightarrow> agent_message" where
  "user_message text images now = UserMsg (Blocks (UText text # images)) now"

definition push_message :: "'o harness_env \<Rightarrow> queue_name \<Rightarrow> js_string \<Rightarrow> user_block list \<Rightarrow> ('o, unit) harness_io" where
  "push_message env q text images =
     act_bind (act_get (he_now env)) (\<lambda>now.
       act_then (change (\<lambda>h. set_queue q (queue_of q h @ [user_message text images now]) h)) (emitQueueUpdate env))"

definition harness_steer :: "'o harness_env \<Rightarrow> js_string \<Rightarrow> user_block list \<Rightarrow> ('o, unit) harness_io" where
  "harness_steer env text images =
     act_bind (ask h_phase) (\<lambda>phase.
       if phase = PhaseIdle then act_throw (str ''Cannot steer while idle'')
       else push_message env SteerQueue text images)"

definition harness_followUp :: "'o harness_env \<Rightarrow> js_string \<Rightarrow> user_block list \<Rightarrow> ('o, unit) harness_io" where
  "harness_followUp env text images =
     act_bind (ask h_phase) (\<lambda>phase.
       if phase = PhaseIdle then act_throw (str ''Cannot follow up while idle'')
       else push_message env FollowUpQueue text images)"

definition harness_nextTurn :: "'o harness_env \<Rightarrow> js_string \<Rightarrow> user_block list \<Rightarrow> ('o, unit) harness_io" where
  "harness_nextTurn env text images = push_message env NextTurnQueue text images"

subsection \<open>Pending writes\<close>

text \<open>Entries of the other types are dropped.\<close>

definition flush_write :: "'o harness_env \<Rightarrow> entry_body \<Rightarrow> ('o, unit) harness_io" where
  "flush_write env b =
     (case b of
        ECompaction _ _ _ _ _ \<Rightarrow> act_return ()
      | EBranchSummary _ _ _ _ \<Rightarrow> act_return ()
      | ESessionInfo name \<Rightarrow> act_void (write_entry env (ESessionInfo (Some (case name of Some n \<Rightarrow> n | None \<Rightarrow> []))))
      | _ \<Rightarrow> act_void (write_entry env b))"

definition flush_body :: "'o harness_env \<Rightarrow> unit \<Rightarrow> ('o, unit + unit) harness_io" where
  "flush_body env _ =
     act_bind (ask h_pendingSessionWrites) (\<lambda>p.
       case p of
         [] \<Rightarrow> act_return (Inr ())
       | b # _ \<Rightarrow>
           act_then (flush_write env b)
             (act_then (change (\<lambda>h. h\<lparr>h_pendingSessionWrites := tl (h_pendingSessionWrites h)\<rparr>))
               (act_return (Inl ()))))"

definition flushPendingSessionWrites :: "'o harness_env \<Rightarrow> ('o, unit) harness_io" where
  "flushPendingSessionWrites env = act_loop (flush_body env) ()"

text \<open>A write goes to the session when the harness is idle and waits for the run otherwise.\<close>

definition write_or_queue :: "'o harness_env \<Rightarrow> entry_body \<Rightarrow> ('o, unit) harness_io" where
  "write_or_queue env b =
     act_bind (ask h_phase) (\<lambda>phase.
       if phase = PhaseIdle then act_void (write_entry env b)
       else change (\<lambda>h. h\<lparr>h_pendingSessionWrites := h_pendingSessionWrites h @ [b]\<rparr>))"

definition harness_appendMessage :: "'o harness_env \<Rightarrow> agent_message \<Rightarrow> ('o, unit) harness_io" where
  "harness_appendMessage env m = write_or_queue env (EMessage m)"

definition harness_setModel :: "'o harness_env \<Rightarrow> model_ref \<Rightarrow> ('o, unit) harness_io" where
  "harness_setModel env model =
     act_bind (ask h_model) (\<lambda>previous.
       act_then (write_or_queue env (EModelChange (mr_provider model) (mr_id model)))
         (act_then (change (\<lambda>h. h\<lparr>h_model := model\<rparr>)) (emitOwn env (ModelSelected model previous))))"

fun level_name :: "thinking_level \<Rightarrow> js_string" where
  "level_name TLOff = str ''off''"
| "level_name TLMinimal = str ''minimal''"
| "level_name TLLow = str ''low''"
| "level_name TLMedium = str ''medium''"
| "level_name TLHigh = str ''high''"
| "level_name TLXHigh = str ''xhigh''"

definition THINKING_LEVELS :: "thinking_level list" where
  "THINKING_LEVELS = [TLOff, TLMinimal, TLLow, TLMedium, TLHigh, TLXHigh]"

definition parse_level :: "js_string \<Rightarrow> thinking_level option" where
  "parse_level s = find (\<lambda>l. level_name l = s) THINKING_LEVELS"

definition harness_setThinkingLevel :: "'o harness_env \<Rightarrow> thinking_level \<Rightarrow> ('o, unit) harness_io" where
  "harness_setThinkingLevel env level =
     act_bind (ask h_thinkingLevel) (\<lambda>previous.
       act_then (write_or_queue env (EThinkingLevelChange (level_name level)))
         (act_then (change (\<lambda>h. h\<lparr>h_thinkingLevel := level\<rparr>)) (emitOwn env (ThinkingLevelSelected level previous))))"

subsection \<open>Tools and resources\<close>

definition validateToolNames :: "js_string list \<Rightarrow> (js_string, harness_tool) js_map \<Rightarrow> ('o, unit) harness_io" where
  "validateToolNames names tools =
     (let missing = filter (\<lambda>n. map_get tools n = None) names
      in if missing \<noteq> [] then act_throw (str ''Unknown tool(s): '' @ js_join (str '', '') missing) else act_return ())"

definition setActiveTools :: "js_string list \<Rightarrow> ('o, unit) harness_io" where
  "setActiveTools names =
     act_bind (ask h_tools) (\<lambda>tools.
       act_then (validateToolNames names tools) (change (\<lambda>h. h\<lparr>h_activeToolNames := names\<rparr>)))"

definition setTools :: "harness_tool list \<Rightarrow> js_string list option \<Rightarrow> ('o, unit) harness_io" where
  "setTools tools names =
     act_bind (ask h_activeToolNames) (\<lambda>current.
       let next = (case names of Some ns \<Rightarrow> ns | None \<Rightarrow> current)
       in act_then (validateToolNames next (tool_map tools))
            (change (\<lambda>h. h\<lparr>h_tools := tool_map tools, h_activeToolNames := next\<rparr>)))"

definition setResources :: "'o harness_env \<Rightarrow> harness_resources \<Rightarrow> ('o, unit) harness_io" where
  "setResources env resources =
     act_bind (ask h_resources) (\<lambda>previous.
       act_then (change (\<lambda>h. h\<lparr>h_resources := resources\<rparr>)) (emitOwn env (ResourcesUpdated resources previous)))"

definition reloadSkillsFromDisk :: "'o harness_env \<Rightarrow> ('o, skill list) harness_io" where
  "reloadSkillsFromDisk env =
     (case he_reloadSkills env of
        None \<Rightarrow> act_throw (str ''reloadSkillsFn was not configured at harness construction'')
      | Some loader \<Rightarrow>
          act_bind (act_call loader) (\<lambda>skills.
            act_then (change (\<lambda>h. h\<lparr>h_resources := (h_resources h)\<lparr>hr_skills := Some skills\<rparr>\<rparr>))
              (act_then (tell env (SkillsReloaded (length skills))) (act_return skills))))"

subsection \<open>The state of a turn\<close>

definition buildSystemPrompt :: "js_string \<Rightarrow> skill list \<Rightarrow> js_string" where
  "buildSystemPrompt base skills =
     (let skillsBlock = formatSkillsForSystemPrompt skills
      in if base = [] then skillsBlock else if skillsBlock = [] then base else base @ [10, 10] @ skillsBlock)"

definition resource_skills :: "harness_resources \<Rightarrow> skill list" where
  "resource_skills r = (case hr_skills r of Some ss \<Rightarrow> ss | None \<Rightarrow> [])"

definition read_context :: "'o harness_env \<Rightarrow> ('o, session_context) harness_io" where
  "read_context env =
     act_bind (act_call (he_getBranch env)) (\<lambda>es. act_return (buildSessionContext (he_dateParse env) es))"

definition active_tools :: "harness \<Rightarrow> harness_tool list" where
  "active_tools h = List.map_filter (map_get (h_tools h)) (h_activeToolNames h)"

definition turn_system_prompt :: "'o harness_env \<Rightarrow> harness_resources \<Rightarrow> ('o, js_string) harness_io" where
  "turn_system_prompt env resources =
     (case he_systemPrompt env of
        None \<Rightarrow> act_return (str ''You are a helpful assistant.'')
      | Some (Inl base) \<Rightarrow> act_return (buildSystemPrompt base (resource_skills resources))
      | Some (Inr build) \<Rightarrow> act_call build)"

definition createTurnState :: "'o harness_env \<Rightarrow> ('o, turn_state) harness_io" where
  "createTurnState env =
     act_bind (read_context env) (\<lambda>ctx.
     act_bind (ask h_resources) (\<lambda>resources.
     act_bind (act_call (he_sessionId env)) (\<lambda>sessionId.
     act_bind (ask (\<lambda>h. (map snd (h_tools h), active_tools h))) (\<lambda>(tools, active).
     act_bind (turn_system_prompt env resources) (\<lambda>systemPrompt.
     act_bind (ask (\<lambda>h. (h_model h, h_thinkingLevel h))) (\<lambda>(model, level).
       act_return \<lparr>ts_messages = ctx_messages ctx, ts_resources = resources, ts_sessionId = sessionId,
                   ts_systemPrompt = systemPrompt, ts_model = model, ts_thinkingLevel = level,
                   ts_tools = tools, ts_activeTools = active\<rparr>))))))"

text \<open>\<open>rehydrateFromSession\<close> takes model and thinking level from the branch when they are known.\<close>

definition rehydrateFromSession :: "'o harness_env \<Rightarrow> ('o, session_context) harness_io" where
  "rehydrateFromSession env =
     act_bind (read_context env) (\<lambda>ctx.
       act_then
         (change (\<lambda>h.
            let m = (case ctx_model ctx of Some (p, i) \<Rightarrow> he_catalogModel env p i | None \<Rightarrow> None);
                h1 = (case m of Some m \<Rightarrow> h\<lparr>h_model := m\<rparr> | None \<Rightarrow> h)
            in case parse_level (ctx_thinkingLevel ctx) of
                 Some l \<Rightarrow> h1\<lparr>h_thinkingLevel := l\<rparr> | None \<Rightarrow> h1))
         (act_return ctx))"

subsection \<open>Events of the agent loop\<close>

definition record_cost :: "'o harness_env \<Rightarrow> agent_message \<Rightarrow> ('o, unit) harness_io" where
  "record_cost env m =
     (case m of
        LlmMessage (LAssistant a) \<Rightarrow> act_call (\<lambda>w. (Inr (), he_recordCost env (a_usage a) w))
      | _ \<Rightarrow> act_return ())"

definition handleAgentEvent :: "'o harness_env \<Rightarrow> agent_event \<Rightarrow> ('o, unit) harness_io" where
  "handleAgentEvent env e =
     (case e of
        MessageEnd m \<Rightarrow>
          act_then (record_cost env m)
            (act_then (act_void (write_entry env (EMessage m))) (emitAny env e))
      | TurnEnd m results \<Rightarrow>
          act_bind (act_try (emitAny env e)) (\<lambda>outcome.
          act_bind (ask (\<lambda>h. h_pendingSessionWrites h \<noteq> [])) (\<lambda>hadPendingMutations.
            act_then (flushPendingSessionWrites env)
              (case outcome of
                 Inl msg \<Rightarrow> act_throw msg
               | Inr _ \<Rightarrow> emitOwn env (SavePoint hadPendingMutations))))
      | AgentEnd ms \<Rightarrow>
          act_then (flushPendingSessionWrites env)
            (act_then (change (\<lambda>h. h\<lparr>h_phase := PhaseIdle\<rparr>))
              (act_then (emitAny env e)
                (act_bind (ask (\<lambda>h. length (h_nextTurnQueue h))) (\<lambda>n. emitOwn env (Settled n)))))
      | _ \<Rightarrow> emitAny env e)"

definition createFailureMessage :: "model_ref \<Rightarrow> js_string \<Rightarrow> bool \<Rightarrow> ms \<Rightarrow> assistant_message" where
  "createFailureMessage model msg aborted now =
     \<lparr>a_content = [AText []], a_api = mr_api model, a_provider = mr_provider model, a_model = mr_id model,
      a_usage = Some EMPTY_USAGE, a_stopReason = (if aborted then StopAborted else StopError),
      a_errorMessage = Some msg, a_timestamp = now\<rparr>"

definition emitRunFailure ::
  "'o harness_env \<Rightarrow> model_ref \<Rightarrow> js_string \<Rightarrow> bool \<Rightarrow> ('o, agent_message list) harness_io" where
  "emitRunFailure env model msg aborted =
     act_bind (act_get (he_now env)) (\<lambda>now.
       let m = AssistantMsg (createFailureMessage model msg aborted now)
       in act_then (handleAgentEvent env (MessageStart m))
          (act_then (handleAgentEvent env (MessageEnd m))
          (act_then (handleAgentEvent env (TurnEnd m []))
          (act_then (handleAgentEvent env (AgentEnd [m])) (act_return [m])))))"

subsection \<open>The budget gate\<close>

definition checkBudgetCap :: "'o harness_env \<Rightarrow> ('o, unit) harness_io" where
  "checkBudgetCap env =
     act_bind (act_get (he_budgetCapError env)) (\<lambda>e.
       case e of Some msg \<Rightarrow> act_throw msg | None \<Rightarrow> act_return ())"

definition willIssueAnotherRequest :: "harness \<Rightarrow> assistant_message \<Rightarrow> bool" where
  "willIssueAnotherRequest h m \<longleftrightarrow> a_stopReason m = StopToolUse \<or> h_steerQueue h \<noteq> [] \<or> h_followUpQueue h \<noteq> []"

definition budgetCapStopsLoop :: "'o harness_env \<Rightarrow> assistant_message \<Rightarrow> ('o, bool) harness_io" where
  "budgetCapStopsLoop env m =
     act_bind (ask (\<lambda>h. willIssueAnotherRequest h m)) (\<lambda>more_requests.
       if \<not> more_requests then act_return False
       else act_bind (act_get (he_budgetCapError env)) (\<lambda>e.
         case e of
           None \<Rightarrow> act_return False
         | Some msg \<Rightarrow>
             act_then (change (\<lambda>h. h\<lparr>h_pendingBudgetCapTrip := Some msg\<rparr>)) (act_return True)))"

definition takeBudgetCapTrip :: "('o, js_string option) harness_io" where
  "takeBudgetCapTrip =
     act_bind (ask h_pendingBudgetCapTrip) (\<lambda>e.
       act_then (change (\<lambda>h. h\<lparr>h_pendingBudgetCapTrip := None\<rparr>)) (act_return e))"

subsection \<open>The run of the agent loop\<close>

text \<open>One call of the loop into the harness; \<open>prepareNextTurn\<close> replaces the state of the turn.\<close>

definition answer_request ::
  "'o harness_env \<Rightarrow> turn_state \<Rightarrow> loop_request \<Rightarrow> ('o, loop_answer \<times> turn_state) harness_io" where
  "answer_request env ts req =
     (case req of
        LoopEmits e \<Rightarrow> act_then (handleAgentEvent env e) (act_return (AnswerDone, ts))
      | LoopGetsSteering \<Rightarrow>
          act_bind (drainQueuedMessages env SteerQueue) (\<lambda>ms. act_return (AnswerMessages ms, ts))
      | LoopGetsFollowUp \<Rightarrow>
          act_bind (drainQueuedMessages env FollowUpQueue) (\<lambda>ms. act_return (AnswerMessages ms, ts))
      | LoopPreparesNext \<Rightarrow>
          act_then (flushPendingSessionWrites env)
            (act_bind (createTurnState env) (\<lambda>ts'. act_return (AnswerTurn ts', ts')))
      | LoopShouldStop m \<Rightarrow>
          act_bind (budgetCapStopsLoop env m) (\<lambda>b. act_return (AnswerStop b, ts))
      | _ \<Rightarrow> act_return (AnswerDone, ts))"

text \<open>A call that throws is answered with the error, which the loop may handle or throw on.\<close>

definition loop_body ::
  "'o harness_env \<Rightarrow> loop_answer \<times> turn_state
     \<Rightarrow> ('o, (loop_answer \<times> turn_state) + (agent_message list thrown \<times> turn_state)) harness_io" where
  "loop_body env = (\<lambda>(answer, ts).
     act_bind (act_query (he_loopNext env answer)) (\<lambda>req.
       case req of
         LoopReturned ms \<Rightarrow> act_return (Inr (Inr ms, ts))
       | LoopThrew msg \<Rightarrow> act_return (Inr (Inl msg, ts))
       | _ \<Rightarrow>
           act_bind
             (act_catch (answer_request env ts req) (\<lambda>msg. act_return (AnswerThrown msg, ts)))
             (\<lambda>v. act_return (Inl v))))"

definition run_loop :: "'o harness_env \<Rightarrow> turn_state \<Rightarrow> ('o, agent_message list thrown \<times> turn_state) harness_io" where
  "run_loop env ts = act_loop (loop_body env) (AnswerDone, ts)"

definition harness_run_aborted :: "harness \<Rightarrow> bool" where
  "harness_run_aborted h \<longleftrightarrow> h_runAbortController h = Some True"

definition run_with_failure :: "'o harness_env \<Rightarrow> turn_state \<Rightarrow> ('o, agent_message list) harness_io" where
  "run_with_failure env ts =
     act_bind (run_loop env ts) (\<lambda>(r, ts').
       case r of
         Inr ms \<Rightarrow> act_return ms
       | Inl msg \<Rightarrow>
           act_bind (ask harness_run_aborted) (\<lambda>aborted.
             act_catch (emitRunFailure env (ts_model ts') msg aborted)
               (\<lambda>_. act_throw (str ''Agent run failed and failure reporting failed''))))"

fun assistant_of :: "agent_message \<Rightarrow> assistant_message option" where
  "assistant_of (LlmMessage (LAssistant a)) = Some a"
| "assistant_of _ = None"

definition last_assistant :: "agent_message list \<Rightarrow> assistant_message option" where
  "last_assistant ms = (case List.map_filter assistant_of (rev ms) of [] \<Rightarrow> None | a # _ \<Rightarrow> Some a)"

definition finish_turn :: "string \<Rightarrow> agent_message list \<Rightarrow> ('o, assistant_message) harness_io" where
  "finish_turn label ms =
     act_bind takeBudgetCapTrip (\<lambda>trip.
       case trip of
         Some msg \<Rightarrow> act_throw msg
       | None \<Rightarrow>
           (case last_assistant ms of
              Some a \<Rightarrow> act_return a
            | None \<Rightarrow> act_throw (str ''AgentHarness '' @ str label @ str '' completed without an assistant message'')))"

text \<open>The part of \<open>executeTurn\<close> and \<open>executeContinueTurn\<close> after the hook; the trace notes the phase.\<close>

definition run_turn ::
  "'o harness_env \<Rightarrow> string \<Rightarrow> agent_message list \<Rightarrow> turn_state \<Rightarrow> js_string \<Rightarrow> ('o, assistant_message) harness_io" where
  "run_turn env label prompts ts systemPrompt =
     act_then (change (\<lambda>h. h\<lparr>h_runAbortController := Some False, h_pendingBudgetCapTrip := None\<rparr>))
       (act_bind (ask h_phase) (\<lambda>phase.
         act_then (act_emit (\<lambda>_ w. w) (TurnBegan phase prompts))
           (act_finally
             (act_then (act_call (\<lambda>w. (Inr (), he_loopStart env prompts ts systemPrompt w)))
               (act_bind (run_with_failure env ts) (finish_turn label)))
             (act_finally (flushPendingSessionWrites env)
               (change (\<lambda>h. h\<lparr>h_runAbortController := None\<rparr>))))))"

definition hook_messages :: "(agent_message list option \<times> js_string option) option \<Rightarrow> agent_message list" where
  "hook_messages r = (case r of Some (Some ms, _) \<Rightarrow> ms | _ \<Rightarrow> [])"

definition hook_system_prompt :: "(agent_message list option \<times> js_string option) option \<Rightarrow> turn_state \<Rightarrow> js_string" where
  "hook_system_prompt r ts = (case r of Some (_, Some s) \<Rightarrow> s | _ \<Rightarrow> ts_systemPrompt ts)"

definition executeTurn ::
  "'o harness_env \<Rightarrow> turn_state \<Rightarrow> js_string \<Rightarrow> user_block list \<Rightarrow> ('o, assistant_message) harness_io" where
  "executeTurn env ts text images =
     act_bind (act_get (he_now env)) (\<lambda>now.
     act_bind (drain_queue env NextTurnQueue QueueAll) (\<lambda>queued.
     act_bind (act_call (he_beforeAgentStart env text images ts)) (\<lambda>r.
       run_turn env ''prompt'' (queued @ [user_message text images now] @ hook_messages r) ts
         (hook_system_prompt r ts))))"

definition executeContinueTurn :: "'o harness_env \<Rightarrow> turn_state \<Rightarrow> ('o, assistant_message) harness_io" where
  "executeContinueTurn env ts =
     act_bind (drain_queue env NextTurnQueue QueueAll) (\<lambda>queued.
     act_bind (act_call (he_beforeAgentStart env [] [] ts)) (\<lambda>r.
       run_turn env ''continue'' (queued @ hook_messages r) ts (hook_system_prompt r ts)))"

subsection \<open>Compaction\<close>

fun compaction_error_message :: "compaction_error \<Rightarrow> js_string" where
  "compaction_error_message (CompactionError code msg) = msg"

definition details_json :: "js_string list \<times> js_string list \<Rightarrow> json" where
  "details_json d = JObj [(str ''readFiles'', JArr (map JStr (fst d))), (str ''modifiedFiles'', JArr (map JStr (snd d)))]"

definition made_outcome :: "compaction_result \<Rightarrow> compact_outcome" where
  "made_outcome r =
     \<lparr>co_summary = cr_summary r, co_firstKeptEntryId = cr_firstKeptEntryId r, co_tokensBefore = cr_tokensBefore r,
      co_details = Some (details_json (cr_details r))\<rparr>"

text \<open>The compaction the model makes: None when it was aborted or is empty.\<close>

definition summarize_branch ::
  "'o harness_env \<Rightarrow> compaction_preparation \<Rightarrow> model_ref \<Rightarrow> js_string option \<Rightarrow> ('o, compact_outcome option) harness_io" where
  "summarize_branch env prep model custom =
     act_bind (act_call (he_auth env model)) (\<lambda>authorized.
       if \<not> authorized then act_throw (str ''No auth available for compaction'')
       else
         act_bind (ask h_thinkingLevel) (\<lambda>level.
         act_bind (act_get (he_now env)) (\<lambda>now.
         act_bind (act_query (he_summarizers env)) (\<lambda>(history, prefix).
           case compact history prefix now prep (he_limits env model) custom (Some (level_name level)) of
             Inl err \<Rightarrow>
               (case err of CompactionError code msg \<Rightarrow>
                  if code = CompactionAborted then act_return None else act_throw msg)
           | Inr r \<Rightarrow>
               act_return (if cr_summary r = [] then None else Some (made_outcome r))))))"

definition store_compaction ::
  "'o harness_env \<Rightarrow> bool \<Rightarrow> compact_outcome \<Rightarrow> bool \<Rightarrow> ('o, unit) harness_io" where
  "store_compaction env fromHook c provided =
     act_bind (write_entry env (ECompaction (co_summary c) (co_firstKeptEntryId c) (co_tokensBefore c)
                                  (co_details c) provided)) (\<lambda>i.
     act_bind (act_call (he_getEntry env i)) (\<lambda>entry.
       case entry of
         Some e \<Rightarrow> if is_compaction (e_body e) then emitOwn env (SessionCompacted e fromHook) else act_return ()
       | None \<Rightarrow> act_return ()))"

definition compact_prepared ::
  "'o harness_env \<Rightarrow> bool \<Rightarrow> model_ref \<Rightarrow> session_entry list \<Rightarrow> compaction_preparation \<Rightarrow> js_string option
     \<Rightarrow> ('o, compact_outcome option) harness_io" where
  "compact_prepared env fromHook model entries prep custom =
     act_bind (act_call (he_beforeCompact env prep entries custom)) (\<lambda>r.
       let (cancel, provided) = (case r of Some cp \<Rightarrow> cp | None \<Rightarrow> (False, None))
       in if cancel then act_throw (str ''Compaction cancelled'')
          else
            act_bind (case provided of Some c \<Rightarrow> act_return (Some c) | None \<Rightarrow> summarize_branch env prep model custom)
              (\<lambda>c. case c of
                 None \<Rightarrow> act_return None
               | Some c \<Rightarrow>
                   act_then (store_compaction env fromHook c (provided \<noteq> None)) (act_return (Some c))))"

definition doCompact :: "'o harness_env \<Rightarrow> bool \<Rightarrow> js_string option \<Rightarrow> ('o, compact_outcome option) harness_io" where
  "doCompact env fromHook custom =
     act_bind (ask h_model) (\<lambda>model.
     act_bind (act_try (act_call (he_getBranch env))) (\<lambda>branch.
       case branch of
         Inl _ \<Rightarrow> act_return None
       | Inr entries \<Rightarrow>
           act_bind (ask h_compactionSettings) (\<lambda>settings.
             case prepareCompaction (he_dateParse env) entries settings of
               Inl err \<Rightarrow> act_throw (compaction_error_message err)
             | Inr None \<Rightarrow> act_return None
             | Inr (Some prep) \<Rightarrow> compact_prepared env fromHook model entries prep custom)))"

definition harness_compact :: "'o harness_env \<Rightarrow> js_string option \<Rightarrow> ('o, compact_outcome option) harness_io" where
  "harness_compact env custom =
     act_bind (ask h_phase) (\<lambda>phase.
       if phase \<noteq> PhaseIdle then act_throw (str ''compact() requires idle harness'')
       else
         act_then (change (\<lambda>h. h\<lparr>h_phase := PhaseCompaction\<rparr>))
           (act_finally (doCompact env True custom) (change (\<lambda>h. h\<lparr>h_phase := PhaseIdle\<rparr>))))"

definition runAutoCompaction :: "'o harness_env \<Rightarrow> ('o, unit) harness_io" where
  "runAutoCompaction env =
     act_bind (ask (\<lambda>h. (cs_enabled (h_compactionSettings h), h_model h))) (\<lambda>(enabled, model).
       if \<not> enabled then act_return ()
       else
         act_bind (read_context env) (\<lambda>ctx.
         act_bind (ask h_compactionSettings) (\<lambda>settings.
           if shouldCompact (cu_tokens (estimateContextTokens (ctx_messages ctx)))
                (ml_contextWindow (he_limits env model)) settings
           then act_void (doCompact env False None)
           else act_return ())))"

subsection \<open>Continuations\<close>

definition or_null :: "json option \<Rightarrow> json" where
  "or_null v = (case v of Some x \<Rightarrow> x | None \<Rightarrow> JNull)"

fun turn_end_name :: "turn_end_kind \<Rightarrow> js_string" where
  "turn_end_name EndStop = str ''stop''"
| "turn_end_name EndPause = str ''pause''"
| "turn_end_name EndContinue = str ''continue''"
| "turn_end_name EndBudgetLimited = str ''budget_limited''"

definition turn_end_json :: "turn_end_kind \<Rightarrow> nat \<Rightarrow> js_string option \<Rightarrow> js_string option \<Rightarrow> json option \<Rightarrow> json" where
  "turn_end_json kind cnt reason preview pay =
     JObj [(str ''decision'', JStr (turn_end_name kind)), (str ''continuation_count'', JNum (int cnt)),
           (str ''reason'', or_null (map_option JStr reason)),
           (str ''next_prompt_preview'', or_null (map_option JStr preview)),
           (str ''payload'', or_null pay)]"

definition recordTurnEndDecision ::
  "'o harness_env \<Rightarrow> turn_end_kind \<Rightarrow> nat \<Rightarrow> js_string option \<Rightarrow> js_string option \<Rightarrow> json option \<Rightarrow> ('o, unit) harness_io" where
  "recordTurnEndDecision env kind cnt reason preview pay =
     act_then
       (act_catch
         (act_void (write_entry env (ECustom (str ''turn_end_decision'') (Some (turn_end_json kind cnt reason preview pay)))))
         (\<lambda>msg. tell env (PersistenceError (str ''turn_end_decision'')
                            (str ''turn_end_decision append failed: '' @ msg))))
       (tell env (TurnEnded kind cnt reason preview))"

definition cap_reason :: "nat \<Rightarrow> nat \<Rightarrow> js_string" where
  "cap_reason cnt cap = str ''continuation cap reached: '' @ show_nat cnt @ str '' >= '' @ show_nat cap"

definition ask_turn_end ::
  "'o harness_env \<Rightarrow> (agent_message list \<Rightarrow> nat \<Rightarrow> js_string option \<Rightarrow> 'o harness_world
       \<Rightarrow> turn_end_decision thrown \<times> 'o harness_world)
     \<Rightarrow> nat \<Rightarrow> js_string option \<Rightarrow> ('o, turn_end_decision) harness_io" where
  "ask_turn_end env hook cnt lastUserPrompt =
     act_bind (createTurnState env) (\<lambda>postTurnState.
       act_then (change (\<lambda>h. h\<lparr>h_activeHookAbortController := Some False\<rparr>))
         (act_finally
           (act_logged (hook (ts_messages postTurnState) cnt lastUserPrompt) (TurnEndAsked cnt))
           (change (\<lambda>h. h\<lparr>h_activeHookAbortController := None\<rparr>))))"

text \<open>The continuing cycle: the caps are checked again and the context may be compacted.\<close>

definition continue_turn ::
  "'o harness_env \<Rightarrow> nat \<Rightarrow> js_string \<Rightarrow> json option \<Rightarrow> ('o, assistant_message) harness_io" where
  "continue_turn env cnt text pay =
     act_then (recordTurnEndDecision env EndContinue cnt None (Some (previewForBanner text 80)) pay)
       (act_then (checkBudgetCap env)
         (act_then (runAutoCompaction env)
           (act_bind (createTurnState env) (\<lambda>ts. executeTurn env ts text []))))"

definition continuation_body ::
  "'o harness_env \<Rightarrow> nat \<times> js_string option \<times> assistant_message
     \<Rightarrow> ('o, (nat \<times> js_string option \<times> assistant_message) + assistant_message) harness_io" where
  "continuation_body env = (\<lambda>(cnt, lastUserPrompt, message).
     case he_onTurnEnd env of
       None \<Rightarrow> act_return (Inr message)
     | Some hook \<Rightarrow>
         if cnt \<ge> he_turnContinuationCap env then
           act_then (recordTurnEndDecision env EndBudgetLimited cnt
                       (Some (cap_reason cnt (he_turnContinuationCap env))) None None)
             (act_return (Inr message))
         else
           act_bind (ask_turn_end env hook cnt lastUserPrompt) (\<lambda>decision.
             case td_action decision of
               TurnNoop \<Rightarrow> act_return (Inr message)
             | TurnStop \<Rightarrow>
                 act_then (recordTurnEndDecision env EndStop cnt None None (td_payload decision))
                   (act_return (Inr message))
             | TurnPause reason \<Rightarrow>
                 act_then (recordTurnEndDecision env EndPause cnt (Some reason) None (td_payload decision))
                   (act_return (Inr message))
             | TurnContinue text \<Rightarrow>
                 act_bind (continue_turn env (Suc cnt) text (td_payload decision)) (\<lambda>message'.
                   act_return (Inl (Suc cnt, Some text, message')))))"

datatype first_turn = FirstPrompt js_string "user_block list" | FirstContinue

definition runTurnWithContinuation ::
  "'o harness_env \<Rightarrow> turn_state \<Rightarrow> first_turn \<Rightarrow> js_string option \<Rightarrow> ('o, assistant_message) harness_io" where
  "runTurnWithContinuation env ts first lastUserPrompt =
     act_bind
       (case first of
          FirstPrompt text images \<Rightarrow> executeTurn env ts text images
        | FirstContinue \<Rightarrow> executeContinueTurn env ts)
       (\<lambda>message. act_loop (continuation_body env) (0, lastUserPrompt, message))"

subsection \<open>Prompts\<close>

text \<open>What \<open>prompt\<close>, \<open>skill\<close>, \<open>promptFromTemplate\<close> and \<open>continue\<close> share.\<close>

definition guarded_turn :: "'o harness_env \<Rightarrow> (turn_state \<Rightarrow> ('o, 'a) harness_io) \<Rightarrow> ('o, 'a) harness_io" where
  "guarded_turn env turn =
     act_bind (ask h_phase) (\<lambda>phase.
       if phase \<noteq> PhaseIdle then act_throw (str ''AgentHarness is busy'')
       else
         act_then (change (\<lambda>h. h\<lparr>h_phase := PhaseTurn, h_runPromise := True\<rparr>))
           (act_finally
             (act_catch
               (act_then (checkBudgetCap env)
                 (act_then (runAutoCompaction env) (act_bind (createTurnState env) turn)))
               (\<lambda>msg. act_then (change (\<lambda>h. h\<lparr>h_phase := PhaseIdle\<rparr>)) (act_throw msg)))
             (change (\<lambda>h. h\<lparr>h_runPromise := False\<rparr>))))"

definition nonempty_text :: "js_string \<Rightarrow> js_string option" where
  "nonempty_text s = (if s = [] then None else Some s)"

definition harness_prompt :: "'o harness_env \<Rightarrow> js_string \<Rightarrow> user_block list \<Rightarrow> ('o, assistant_message) harness_io" where
  "harness_prompt env text images =
     guarded_turn env (\<lambda>ts. runTurnWithContinuation env ts (FirstPrompt text images) (nonempty_text text))"

definition harness_skill :: "'o harness_env \<Rightarrow> js_string \<Rightarrow> js_string option \<Rightarrow> ('o, assistant_message) harness_io" where
  "harness_skill env name instructions =
     guarded_turn env (\<lambda>ts.
       case find (\<lambda>s. sk_name s = name) (resource_skills (ts_resources ts)) of
         None \<Rightarrow> act_throw (str ''Unknown skill: '' @ name)
       | Some s \<Rightarrow> executeTurn env ts (formatSkillInvocation s instructions) [])"

definition harness_promptFromTemplate ::
  "'o harness_env \<Rightarrow> js_string \<Rightarrow> (js_string \<times> json) list \<Rightarrow> ('o, assistant_message) harness_io" where
  "harness_promptFromTemplate env name vars =
     guarded_turn env (\<lambda>ts.
       case registry_get (case hr_promptTemplates (ts_resources ts) of Some ps \<Rightarrow> ps | None \<Rightarrow> []) name of
         None \<Rightarrow> act_throw (str ''Unknown prompt template: '' @ name)
       | Some t \<Rightarrow>
           runTurnWithContinuation env ts (FirstPrompt (interpolate t vars) []) (nonempty_text (interpolate t vars)))"

fun user_text :: "agent_message \<Rightarrow> js_string" where
  "user_text (LlmMessage (LUser (Plain s) now)) = s"
| "user_text (LlmMessage (LUser (Blocks bs) now)) =
     js_join [10] (List.map_filter (\<lambda>b. case b of UText t \<Rightarrow> Some t | _ \<Rightarrow> None) bs)"
| "user_text _ = []"

definition lastUserTextFromMessages :: "agent_message list \<Rightarrow> js_string option" where
  "lastUserTextFromMessages ms = find (\<lambda>t. t \<noteq> []) (map user_text (rev ms))"

definition harness_continue :: "'o harness_env \<Rightarrow> ('o, assistant_message) harness_io" where
  "harness_continue env =
     guarded_turn env (\<lambda>ts.
       runTurnWithContinuation env ts FirstContinue (lastUserTextFromMessages (ts_messages ts)))"

subsection \<open>Abort\<close>

definition abort_flag :: "bool option \<Rightarrow> bool option" where
  "abort_flag c = map_option (\<lambda>_. True) c"

text \<open>Every step is tried; several errors are reported together.\<close>

definition error_of :: "unit thrown \<Rightarrow> js_string list" where
  "error_of r = (case r of Inl msg \<Rightarrow> [msg] | Inr _ \<Rightarrow> [])"

definition harness_abort :: "'o harness_env \<Rightarrow> ('o, agent_message list \<times> agent_message list) harness_io" where
  "harness_abort env =
     act_bind (ask (\<lambda>h. (h_steerQueue h, h_followUpQueue h))) (\<lambda>(clearedSteer, clearedFollowUp).
     act_then (change (\<lambda>h. h\<lparr>h_steerQueue := [], h_followUpQueue := [],
                 h_runAbortController := abort_flag (h_runAbortController h),
                 h_activeHookAbortController := abort_flag (h_activeHookAbortController h)\<rparr>))
     (act_bind (act_try (emitQueueUpdate env)) (\<lambda>r1.
      act_bind (act_try (act_call (he_waitForIdle env))) (\<lambda>r2.
      act_bind (act_try (emitOwn env (HarnessAborted clearedSteer clearedFollowUp))) (\<lambda>r3.
        case error_of r1 @ error_of r2 @ error_of r3 of
          [] \<Rightarrow> act_return (clearedSteer, clearedFollowUp)
        | [e] \<Rightarrow> act_throw e
        | _ \<Rightarrow> act_throw (str ''Abort completed with errors''))))))"

end
