(* ===== verification/HarnessProps.thy ===== *)
theory HarnessProps
  imports Harness
begin

text \<open>
  Laws of the turns of the harness: a traversal for every relation between states that the calls
  and the changes of a turn keep (locale \<open>turn_relation\<close>), the trace of a prompt (phases, pending
  writes and the number of turns), and that a prompt returns when each run of the agent loop does.
\<close>

subsection \<open>Preconditions and relations of the added combinators\<close>

lemma wp_finally [wp_rules]:
  "wp (act_finally m f) Q s =
     wp m (\<lambda>r s'. wp f (\<lambda>r' s''. case r' of Inl msg \<Rightarrow> Q (Inl msg) s'' | Inr x \<Rightarrow> Q r s'') s') s"
  by (auto simp: wp_def act_finally_def split: option.splits sum.splits)

lemma wp_try [wp_rules]: "wp (act_try m) Q s = wp m (\<lambda>r s'. Q (Inr r) s') s"
  by (auto simp: wp_def act_try_def split: option.splits)

lemma wp_logged_step [wp_rules]:
  "wp (act_logged f step) Q s =
     (case f (world s) of (r, w) \<Rightarrow> Q r \<lparr>world = w, events = events s @ [step r]\<rparr>)"
  by (auto simp: wp_def act_logged_def split: prod.splits)

lemma wp_query [wp_rules]:
  "wp (act_query f) Q s = (case f (world s) of (x, w) \<Rightarrow> Q (Inr x) (s\<lparr>world := w\<rparr>))"
  by (auto simp: act_query_def wp_call split: prod.splits)

lemma wp_change [wp_rules]: "wp (change f) Q s = Q (Inr ()) (s\<lparr>world := on_harness f (world s)\<rparr>)"
  by (simp add: change_def wp_call)

lemma wp_ask [wp_rules]: "wp (ask f) Q s = Q (Inr (f (hw_harness (world s)))) s"
  by (simp add: ask_def wp_get)

lemma wp_void [wp_rules]:
  "wp (act_void m) Q s = wp m (\<lambda>r s'. Q (case r of Inl msg \<Rightarrow> Inl msg | Inr x \<Rightarrow> Inr ()) s') s"
  by (auto simp: act_void_def act_bind_def act_return_def wp_def split: option.splits sum.splits)

lemma act_then_assoc: "act_then m (act_then n k) = act_then (act_then m n) k"
  by (auto simp: act_then_def act_bind_def fun_eq_iff split: option.splits sum.splits)

context action_relation
begin

lemma keeps_finally:
  assumes "keeps R m" "keeps R f"
  shows "keeps R (act_finally m f)"
  unfolding keeps_def wp_finally
proof (rule allI, rule wp_mono)
  show "wp m (\<lambda>r. R s) s" for s using assms(1) by (simp add: keeps_def)
  show "wp f (\<lambda>r' s''. case r' of Inl msg \<Rightarrow> R s s'' | Inr x \<Rightarrow> R s s'') s'" if "R s s'" for s s'
    by (rule wp_mono [OF wp_after [OF assms(2) that]]) (simp split: sum.splits)
qed

lemma keeps_try: "keeps R m \<Longrightarrow> keeps R (act_try m)"
  by (simp add: keeps_def wp_try)

lemma keeps_void: "keeps R m \<Longrightarrow> keeps R (act_void m)"
  by (simp add: keeps_def wp_void)

lemma keeps_case:
  "keeps R a \<Longrightarrow> keeps R b \<Longrightarrow> keeps R (if c then a else b)"
  "keeps R a \<Longrightarrow> (\<And>x. keeps R (f x)) \<Longrightarrow> keeps R (case v of None \<Rightarrow> a | Some x \<Rightarrow> f x)"
  "(\<And>x. keeps R (g x)) \<Longrightarrow> (\<And>y. keeps R (h y)) \<Longrightarrow> keeps R (case u of Inl x \<Rightarrow> g x | Inr y \<Rightarrow> h y)"
  "(\<And>x y. keeps R (p x y)) \<Longrightarrow> keeps R (case q of (x, y) \<Rightarrow> p x y)"
  "keeps R a \<Longrightarrow> (\<And>x xs. keeps R (l x xs)) \<Longrightarrow> keeps R (case ys of [] \<Rightarrow> a | x # xs \<Rightarrow> l x xs)"
  by (simp_all split: option.split sum.split prod.split list.split)

lemmas keeps_more = keeps_rules keeps_finally keeps_try keeps_void keeps_case

end

subsection \<open>The traversal of a turn\<close>

text \<open>A change of the harness that leaves the phase and only takes from the pending writes.\<close>

definition harmless :: "(harness \<Rightarrow> harness) \<Rightarrow> bool" where
  "harmless f \<longleftrightarrow> (\<forall>h. h_phase (f h) = h_phase h \<and> (\<exists>k. h_pendingSessionWrites (f h) = drop k (h_pendingSessionWrites h)))"

definition phase_idle :: "harness \<Rightarrow> harness" where
  "phase_idle h = h\<lparr>h_phase := PhaseIdle\<rparr>"

lemma harmlessI:
  "(\<And>h. h_phase (f h) = h_phase h) \<Longrightarrow>
   (\<And>h. h_pendingSessionWrites (f h) = h_pendingSessionWrites h
      \<or> h_pendingSessionWrites (f h) = tl (h_pendingSessionWrites h)) \<Longrightarrow> harmless f"
  unfolding harmless_def by (metis drop0 drop_Suc)

lemma harmless_changes [simp]:
  "harmless (set_queue q ms)"
  "harmless (\<lambda>h. set_queue q (ms @ queue_of q h) h)"
  "harmless (\<lambda>h. h\<lparr>h_pendingSessionWrites := tl (h_pendingSessionWrites h)\<rparr>)"
  "harmless (\<lambda>h. h\<lparr>h_pendingBudgetCapTrip := t\<rparr>)"
  "harmless (\<lambda>h. h\<lparr>h_runAbortController := c\<rparr>)"
  "harmless (\<lambda>h. h\<lparr>h_activeHookAbortController := c\<rparr>)"
  "harmless (\<lambda>h. h\<lparr>h_runAbortController := c, h_pendingBudgetCapTrip := t\<rparr>)"
  by (rule harmlessI; cases q; simp)+

locale turn_relation = action_relation R
  for R :: "('o harness_world, harness_step) eff_state \<Rightarrow> ('o harness_world, harness_step) eff_state \<Rightarrow> bool" +
  fixes env :: "'o harness_env"
  assumes K_own: "keeps R (emitOwn env oe)"
    and K_any: "(\<And>ms. ae \<noteq> AgentEnd ms) \<Longrightarrow> keeps R (emitAny env ae)"
    and K_end: "keeps R (act_then (change (\<lambda>h. h\<lparr>h_phase := PhaseIdle\<rparr>)) (emitAny env (AgentEnd ms)))"
    and K_write: "keeps R (write_entry env b)"
    and K_tell: "keeps R (tell env he)"
    and K_change: "harmless f \<Longrightarrow> keeps R (change f)"
    and K_calls: "keeps R (act_call (he_getBranch env))" "keeps R (act_call (he_getEntry env i))"
      "keeps R (act_call (he_sessionId env))" "keeps R (act_call (he_beforeAgentStart env t imgs ts))"
      "keeps R (act_call (he_beforeCompact env prep es c))" "keeps R (act_call (he_auth env m))"
      "keeps R (act_query (he_summarizers env))" "keeps R (act_call (\<lambda>w. (Inr (), he_recordCost env u w)))"
    and K_prompt: "he_systemPrompt env = Some (Inr sp) \<Longrightarrow> keeps R (act_call sp)"
    and K_hook: "he_onTurnEnd env = Some hook \<Longrightarrow> keeps R (act_logged (hook tms n p) (TurnEndAsked n))"
begin

lemma keeps_ask: "keeps R (ask f)"
  by (simp add: keeps_def wp_ask R_refl)

lemmas keeps_turn = keeps_more keeps_ask K_own K_write K_tell K_calls

lemma keeps_queue_update: "keeps R (emitQueueUpdate env)"
  unfolding emitQueueUpdate_def by (intro keeps_turn)

lemma keeps_drain_queue: "keeps R (drain_queue env q mode)"
  unfolding drain_queue_def Let_def by (intro keeps_turn keeps_queue_update K_change harmless_changes)

lemma keeps_drain: "keeps R (drainQueuedMessages env q)"
  unfolding drainQueuedMessages_def by (intro keeps_turn keeps_drain_queue)

lemma keeps_flush_write: "keeps R (flush_write env b)"
  unfolding flush_write_def by (cases b; simp; intro keeps_turn)

lemma keeps_flush: "keeps R (flushPendingSessionWrites env)"
  unfolding flushPendingSessionWrites_def flush_body_def
  by (intro keeps_turn keeps_flush_write K_change harmless_changes)

lemma keeps_record_cost: "keeps R (record_cost env m)"
  unfolding record_cost_def by (auto intro!: keeps_turn split: agent_message.split llm_message.split)

lemma keeps_end_event:
  "keeps R (act_then (change (\<lambda>h. h\<lparr>h_phase := PhaseIdle\<rparr>)) (act_then (emitAny env (AgentEnd ms)) k))" if "keeps R k"
  unfolding act_then_assoc by (intro keeps_then K_end that)

lemma keeps_handle: "keeps R (handleAgentEvent env e)"
  unfolding handleAgentEvent_def
  by (cases e; simp; intro keeps_end_event keeps_turn keeps_flush keeps_record_cost K_any; simp)

lemma keeps_failure: "keeps R (emitRunFailure env model msg ab)"
  unfolding emitRunFailure_def Let_def by (intro keeps_turn keeps_handle)

lemma keeps_context: "keeps R (read_context env)"
  unfolding read_context_def by (intro keeps_turn)

lemma keeps_system_prompt: "keeps R (turn_system_prompt env r)"
  unfolding turn_system_prompt_def
  by (cases "he_systemPrompt env"; simp split: sum.split) (auto intro: keeps_turn K_prompt)

lemma keeps_turn_state: "keeps R (createTurnState env)"
  unfolding createTurnState_def by (intro keeps_turn keeps_context keeps_system_prompt)

lemma keeps_budget: "keeps R (checkBudgetCap env)" "keeps R (budgetCapStopsLoop env m)" "keeps R takeBudgetCapTrip"
  unfolding checkBudgetCap_def budgetCapStopsLoop_def takeBudgetCapTrip_def
  by (intro keeps_turn K_change harmless_changes)+

lemma keeps_answer: "keeps R (answer_request env ts req)"
  unfolding answer_request_def
  by (cases req; simp; intro keeps_turn keeps_handle keeps_drain keeps_flush keeps_turn_state keeps_budget)

lemma keeps_finish: "keeps R (finish_turn label ms)"
  unfolding finish_turn_def by (intro keeps_turn keeps_budget)

lemma keeps_compact: "keeps R (doCompact env fromHook custom)"
  unfolding doCompact_def compact_prepared_def summarize_branch_def store_compaction_def Let_def
  by (intro keeps_turn) (auto intro!: keeps_turn split: compaction_error.split)

lemma keeps_auto: "keeps R (runAutoCompaction env)"
  unfolding runAutoCompaction_def by (intro keeps_turn keeps_context keeps_compact)

lemma keeps_record: "keeps R (recordTurnEndDecision env kind cnt reason preview pay)"
  unfolding recordTurnEndDecision_def by (intro keeps_turn)

lemma keeps_ask_turn_end:
  "he_onTurnEnd env = Some hook \<Longrightarrow> keeps R (ask_turn_end env hook cnt p)"
  unfolding ask_turn_end_def by (intro keeps_turn keeps_turn_state K_change harmless_changes K_hook)

lemma keeps_run_loop:
  assumes "\<And>a. keeps R (act_query (he_loopNext env a))"
  shows "keeps R (run_loop env ts)"
  unfolding run_loop_def loop_body_def
  by (intro keeps_turn assms)
    (auto intro!: keeps_turn keeps_answer split: loop_request.split prod.split)

lemma keeps_run_with_failure:
  assumes "\<And>a. keeps R (act_query (he_loopNext env a))"
  shows "keeps R (run_with_failure env ts)"
  unfolding run_with_failure_def by (intro keeps_turn keeps_run_loop assms keeps_failure)

end

subsection \<open>Sequential environments and the trace of a turn\<close>

text \<open>What a function of the environment does to the world, as a relation T.\<close>

definition call_keeps :: "('w \<Rightarrow> 'w \<Rightarrow> bool) \<Rightarrow> ('w \<Rightarrow> 'a \<times> 'w) \<Rightarrow> bool" where
  "call_keeps T f \<longleftrightarrow> (\<forall>w. T w (snd (f w)))"

definition env_calls :: "('o harness_world \<Rightarrow> 'o harness_world \<Rightarrow> bool) \<Rightarrow> 'o harness_env \<Rightarrow> bool" where
  "env_calls T env \<longleftrightarrow>
     (\<forall>e. call_keeps T (he_publish env e)) \<and> (\<forall>e. call_keeps T (he_forward env e))
     \<and> (\<forall>b. call_keeps T (he_append env b)) \<and> call_keeps T (he_getBranch env)
     \<and> (\<forall>i. call_keeps T (he_getEntry env i)) \<and> call_keeps T (he_sessionId env)
     \<and> (\<forall>u w. T w (he_recordCost env u w)) \<and> (\<forall>e w. T w (he_listen env e w))
     \<and> (\<forall>t i ts. call_keeps T (he_beforeAgentStart env t i ts))
     \<and> (\<forall>p es c. call_keeps T (he_beforeCompact env p es c)) \<and> (\<forall>m. call_keeps T (he_auth env m))
     \<and> call_keeps T (he_summarizers env)
     \<and> (\<forall>hook ms n p. he_onTurnEnd env = Some hook \<longrightarrow> call_keeps T (hook ms n p))
     \<and> (\<forall>sp. he_systemPrompt env = Some (Inr sp) \<longrightarrow> call_keeps T sp)"

text \<open>No other call of the harness runs while one is awaited.\<close>

definition same_harness :: "'o harness_world \<Rightarrow> 'o harness_world \<Rightarrow> bool" where
  "same_harness w w' \<longleftrightarrow> hw_harness w' = hw_harness w"

definition sequential :: "'o harness_env \<Rightarrow> bool" where
  "sequential env \<longleftrightarrow> env_calls same_harness env
     \<and> (\<forall>ps ts sp w. same_harness w (he_loopStart env ps ts sp w)) \<and> (\<forall>a. call_keeps same_harness (he_loopNext env a))"

definition agent_ended :: "harness_step list \<Rightarrow> bool" where
  "agent_ended trace \<longleftrightarrow> (\<exists>ms r. Forwarded (AgentEnd ms) r \<in> set trace)"

definition phase_after :: "harness_phase \<Rightarrow> harness_step list \<Rightarrow> harness_phase" where
  "phase_after ph trace = (if agent_ended trace then PhaseIdle else ph)"

fun is_turn :: "harness_step \<Rightarrow> bool" where
  "is_turn (TurnBegan _ _) = True"
| "is_turn _ = False"

definition turns :: "harness_step list \<Rightarrow> nat" where
  "turns trace = length (filter is_turn trace)"

text \<open>Every turn begins in the phase that the trace before it has left.\<close>

definition turn_phases :: "harness_phase \<Rightarrow> harness_step list \<Rightarrow> bool" where
  "turn_phases ph trace \<longleftrightarrow>
     (\<forall>before p ps after. trace = before @ TurnBegan p ps # after \<longrightarrow> p = phase_after ph before)"

lemma agent_ended_append [simp]: "agent_ended (xs @ ys) \<longleftrightarrow> agent_ended xs \<or> agent_ended ys"
  by (auto simp: agent_ended_def)

lemma agent_ended_simps [simp]:
  "\<not> agent_ended []" "\<not> agent_ended [Published oe u]" "\<not> agent_ended [Wrote b v]" "\<not> agent_ended [Told he]"
  "\<not> agent_ended [TurnBegan p ps]" "\<not> agent_ended [TurnEndAsked n d]" "agent_ended [Forwarded (AgentEnd ms) u]"
  "agent_ended [Forwarded ae u] \<longleftrightarrow> (\<exists>ms. ae = AgentEnd ms)"
  by (auto simp: agent_ended_def)

lemma phase_after_append [simp]: "phase_after ph (xs @ ys) = phase_after (phase_after ph xs) ys"
  by (simp add: phase_after_def)

lemma turns_append [simp]: "turns (xs @ ys) = turns xs + turns ys" "turns [] = 0"
  by (simp_all add: turns_def)

lemma turn_phases_Nil [simp]: "turn_phases ph []"
  by (simp add: turn_phases_def)

lemma turn_phases_single [simp]:
  "turn_phases ph [x] \<longleftrightarrow> (case x of TurnBegan p ps \<Rightarrow> p = ph | _ \<Rightarrow> True)"
  by (auto simp: turn_phases_def phase_after_def Cons_eq_append_conv split: harness_step.split)

lemma turn_phases_append:
  assumes "turn_phases ph xs" "turn_phases (phase_after ph xs) ys"
  shows "turn_phases ph (xs @ ys)"
  unfolding turn_phases_def
proof (intro allI impI)
  fix before p ps after
  assume "xs @ ys = before @ TurnBegan p ps # after"
  then consider (left) zs where "xs = before @ TurnBegan p ps # zs" "after = zs @ ys"
    | (right) zs where "before = xs @ zs" "ys = zs @ TurnBegan p ps # after"
    by (fastforce simp: append_eq_append_conv2 append_eq_Cons_conv)
  then show "p = phase_after ph before"
    using assms by cases (auto simp: turn_phases_def)
qed

definition progress ::
  "nat \<Rightarrow> ('o harness_world, harness_step) eff_state \<Rightarrow> ('o harness_world, harness_step) eff_state \<Rightarrow> bool" where
  "progress n s s' \<longleftrightarrow>
     (\<exists>new k. events s' = events s @ new \<and> turns new \<le> n
        \<and> h_phase (hw_harness (world s')) = phase_after (h_phase (hw_harness (world s))) new
        \<and> turn_phases (h_phase (hw_harness (world s))) new
        \<and> h_pendingSessionWrites (hw_harness (world s')) = drop k (h_pendingSessionWrites (hw_harness (world s))))"

lemma progress_refl: "progress n s s"
  unfolding progress_def by (intro exI [of _ "[]"] exI [of _ 0]) (simp add: phase_after_def)

lemma progress_trans:
  assumes "progress m s s'" "progress n s' s''"
  shows "progress (m + n) s s''"
proof -
  obtain new k new' k' where
    "events s' = events s @ new" "turns new \<le> m"
    "h_phase (hw_harness (world s')) = phase_after (h_phase (hw_harness (world s))) new"
    "turn_phases (h_phase (hw_harness (world s))) new"
    "h_pendingSessionWrites (hw_harness (world s')) = drop k (h_pendingSessionWrites (hw_harness (world s)))"
    and "events s'' = events s' @ new'" "turns new' \<le> n"
    "h_phase (hw_harness (world s'')) = phase_after (h_phase (hw_harness (world s'))) new'"
    "turn_phases (h_phase (hw_harness (world s'))) new'"
    "h_pendingSessionWrites (hw_harness (world s'')) = drop k' (h_pendingSessionWrites (hw_harness (world s')))"
    using assms unfolding progress_def by blast
  then show ?thesis
    unfolding progress_def
    by (intro exI [of _ "new @ new'"] exI [of _ "k' + k"]) (simp add: turn_phases_append add_mono)
qed

lemma progress_mono: "progress m s s' \<Longrightarrow> m \<le> n \<Longrightarrow> progress n s s'"
  by (auto simp: progress_def intro: order_trans)

text \<open>One step of the trace, and a step that leaves none.\<close>

lemma progress_step:
  assumes "events s' = events s @ [e]" "\<not> is_turn e"
    and "h_phase (hw_harness (world s')) = phase_after (h_phase (hw_harness (world s))) [e]"
    and "h_pendingSessionWrites (hw_harness (world s')) = h_pendingSessionWrites (hw_harness (world s))"
  shows "progress 0 s s'"
  unfolding progress_def using assms
  by (intro exI [of _ "[e]"] exI [of _ 0]) (auto simp: turns_def split: harness_step.split)

lemma progress_silent:
  assumes "events s' = events s" "h_phase (hw_harness (world s')) = h_phase (hw_harness (world s))"
    and "\<exists>k. h_pendingSessionWrites (hw_harness (world s')) = drop k (h_pendingSessionWrites (hw_harness (world s)))"
  shows "progress 0 s s'"
  unfolding progress_def using assms by (auto simp: phase_after_def intro!: exI [of _ "[]"])

definition traced ::
  "'o harness_env \<Rightarrow> ('o harness_world, harness_step) eff_state \<Rightarrow> ('o harness_world, harness_step) eff_state \<Rightarrow> bool" where
  "traced env s s' \<longleftrightarrow> (sequential env \<longrightarrow> progress 0 s s')"

lemma traced_logged:
  assumes "sequential env \<Longrightarrow> call_keeps same_harness f"
    and "\<And>r. \<not> is_turn (step r) \<and> \<not> agent_ended [step r]"
  shows "keeps (traced env) (act_logged f step)"
  using assms
  by (auto simp: keeps_def wp_logged_step traced_def call_keeps_def same_harness_def phase_after_def
      intro!: progress_step split: prod.split) (metis snd_conv)+

lemma traced_call:
  assumes "sequential env \<Longrightarrow> call_keeps same_harness f"
  shows "keeps (traced env) (act_call f)"
  using assms
  by (auto simp: keeps_def wp_call traced_def call_keeps_def same_harness_def
      intro!: progress_silent exI [of _ 0] split: prod.split) (metis snd_conv)+

lemma traced_query:
  assumes "sequential env \<Longrightarrow> call_keeps same_harness f"
  shows "keeps (traced env) (act_query f)"
  unfolding act_query_def
  by (rule traced_call) (use assms in \<open>auto simp: call_keeps_def\<close>)

lemma traced_change: "harmless f \<Longrightarrow> keeps (traced env) (change f)"
  by (auto simp: keeps_def wp_change traced_def harmless_def on_harness_def intro!: progress_silent)

lemma traced_end:
  "keeps (traced env) (act_then (change (\<lambda>h. h\<lparr>h_phase := PhaseIdle\<rparr>)) (emitAny env (AgentEnd ms)))"
proof -
  have "traced env s \<lparr>world = snd out, events = events s @ [Forwarded (AgentEnd ms) (fst out)]\<rparr>"
    if out: "out = he_forward env (AgentEnd ms) (on_harness (\<lambda>h. h\<lparr>h_phase := PhaseIdle\<rparr>) (world s))"
    for s :: "('a harness_world, harness_step) eff_state" and out
    unfolding traced_def
  proof
    assume "sequential env"
    then have "hw_harness (snd out) = (hw_harness (world s))\<lparr>h_phase := PhaseIdle\<rparr>"
      by (simp add: out sequential_def env_calls_def call_keeps_def same_harness_def on_harness_def)
    then show "progress 0 s \<lparr>world = snd out, events = events s @ [Forwarded (AgentEnd ms) (fst out)]\<rparr>"
      by (intro progress_step [of _ _ "Forwarded (AgentEnd ms) (fst out)"]) (simp_all add: phase_after_def)
  qed
  then show ?thesis
    by (simp add: keeps_def wp_then wp_change emitAny_def wp_logged_step case_prod_unfold)
qed

lemma traced_tell: "keeps (traced env) (tell env he)"
  by (auto simp: keeps_def tell_def wp_emit traced_def sequential_def env_calls_def same_harness_def phase_after_def
      intro!: progress_step)

interpretation tr: turn_relation "traced env" env for env :: "'o harness_env"
proof unfold_locales
  show "traced env s s" for s by (simp add: traced_def progress_refl)
  show "traced env s s'' " if "traced env s s'" "traced env s' s''" for s s' s''
    using that progress_trans [of 0 s s' 0 s''] by (simp add: traced_def)
  show "keeps (traced env) (emitAny env ae)" if "\<And>ms. ae \<noteq> AgentEnd ms" for ae
    unfolding emitAny_def using that by (intro traced_logged) (auto simp: sequential_def env_calls_def)
  show "keeps (traced env) (act_call (\<lambda>w. (Inr (), he_recordCost env u w)))" for u
    by (rule traced_call) (simp add: sequential_def env_calls_def call_keeps_def)
qed (auto simp: emitOwn_def write_entry_def traced_end traced_tell traced_change sequential_def env_calls_def
    intro!: traced_logged traced_call traced_query)

subsection \<open>How many turns a prompt takes\<close>

abbreviation pending :: "('o harness_world, harness_step) eff_state \<Rightarrow> entry_body list" where
  "pending s \<equiv> h_pendingSessionWrites (hw_harness (world s))"

lemma wp_traced: "keeps (traced env) m \<Longrightarrow> sequential env \<Longrightarrow> wp m (\<lambda>r. progress 0 s) s"
  by (auto simp: keeps_def traced_def)

lemma progress_pending: "progress n s s' \<Longrightarrow> pending s = [] \<Longrightarrow> pending s' = []"
  by (auto simp: progress_def)

definition turn_post ::
  "nat \<Rightarrow> ('o harness_world, harness_step) eff_state \<Rightarrow> 'a thrown \<Rightarrow> ('o harness_world, harness_step) eff_state \<Rightarrow> bool" where
  "turn_post n s r s' \<longleftrightarrow> progress n s s' \<and> ((\<exists>x. r = Inr x) \<longrightarrow> pending s' = [])"

text \<open>An action that takes at most n turns and has written what was pending when it returns.\<close>

definition takes :: "nat \<Rightarrow> 'o harness_env \<Rightarrow> ('o, 'a) harness_io \<Rightarrow> bool" where
  "takes n env m \<longleftrightarrow> (sequential env \<longrightarrow> (\<forall>s. wp m (turn_post n s) s))"

lemma takes_bind:
  assumes m: "keeps (traced env) m" and f: "\<And>x. takes n env (f x)"
  shows "takes n env (act_bind m f)"
  unfolding takes_def wp_bind
proof (intro impI allI, rule wp_mono)
  show "wp m (\<lambda>r. progress 0 s) s" if "sequential env" for s by (rule wp_traced [OF m that])
  show "case r of Inl msg \<Rightarrow> turn_post n s (Inl msg) s' | Inr x \<Rightarrow> wp (f x) (turn_post n s) s'"
    if "sequential env" and p: "progress 0 s s'" for s r s'
  proof (cases r)
    case (Inl msg)
    then show ?thesis using progress_mono [OF p] by (simp add: turn_post_def)
  next
    case (Inr x)
    have "wp (f x) (turn_post n s') s'" using f that by (simp add: takes_def)
    then have "wp (f x) (turn_post n s) s'"
      by (rule wp_mono) (use progress_trans [OF p] in \<open>auto simp: turn_post_def\<close>)
    then show ?thesis using Inr by simp
  qed
qed

lemma takes_then: "keeps (traced env) m \<Longrightarrow> takes n env k \<Longrightarrow> takes n env (act_then m k)"
  unfolding act_then_def by (rule takes_bind)

lemma takes_throw: "takes n env (act_throw msg)"
  by (simp add: takes_def wp_throw turn_post_def progress_refl)

lemma wp_flush_empties: "wp (flushPendingSessionWrites env) (\<lambda>r s'. r = Inr () \<longrightarrow> pending s' = []) s"
  unfolding flushPendingSessionWrites_def
proof (rule wp_loop [where I = "\<lambda>v s. True"])
  have any: "wp m (\<lambda>r s'. True) s'" for m :: "('a harness_world, harness_step, 'x) action" and s'
    by (simp add: wp_def split: option.split)
  show "wp (flush_body env v) (\<lambda>r s'. case r of Inl msg \<Rightarrow> Inl msg = Inr () \<longrightarrow> pending s' = []
      | Inr nxt \<Rightarrow> (case nxt of Inl v' \<Rightarrow> True | Inr x \<Rightarrow> Inr x = Inr () \<longrightarrow> pending s' = [])) s'" for v s'
    by (cases "pending s'")
      (auto simp: flush_body_def wp_rules intro!: wp_mono [OF any] split: sum.split)
qed simp

lemma loop_next_traced: "keeps (traced env) (act_query (he_loopNext env a))"
  by (rule traced_query) (simp add: sequential_def)

lemma run_turn_body_traced:
  "keeps (traced env) (act_then (act_call (\<lambda>w. (Inr (), he_loopStart env prompts ts sp w)))
     (act_bind (run_with_failure env ts) (finish_turn label)))"
  by (intro tr.keeps_turn tr.keeps_run_with_failure tr.keeps_finish loop_next_traced traced_call)
    (simp add: sequential_def call_keeps_def)

lemma takes_cleanup:
  assumes "keeps (traced env) m"
  shows "takes 0 env (act_finally m (act_finally (flushPendingSessionWrites env)
           (change (\<lambda>h. h\<lparr>h_runAbortController := None\<rparr>))))"
  unfolding takes_def
proof (intro impI allI)
  fix s
  let ?c = "act_finally (flushPendingSessionWrites env) (change (\<lambda>h. h\<lparr>h_runAbortController := None\<rparr>))"
  assume seq: "sequential env"
  have c: "keeps (traced env) ?c"
    by (intro tr.keeps_turn tr.keeps_flush traced_change harmless_changes)
  have e: "wp ?c (\<lambda>r s''. r = Inr () \<longrightarrow> pending s'' = []) s'" for s'
    unfolding wp_finally wp_change
    by (rule wp_mono [OF wp_flush_empties]) (auto simp: on_harness_def)
  show "wp (act_finally m ?c) (turn_post 0 s) s"
    unfolding wp_finally [of m]
  proof (rule wp_mono [OF wp_traced [OF assms seq]])
    fix r s' assume p: "progress 0 s s'"
    show "wp ?c (\<lambda>r' s''. case r' of Inl msg \<Rightarrow> turn_post 0 s (Inl msg) s'' | Inr x \<Rightarrow> turn_post 0 s r s'') s'"
      by (rule wp_mono [OF wp_conj [OF wp_traced [OF c seq] e]])
        (use progress_trans [OF p] in \<open>auto simp: turn_post_def split: sum.split\<close>)
  qed
qed

lemma run_turn_takes: "takes 1 env (run_turn env label prompts ts sp)"
  unfolding takes_def
proof (intro impI allI)
  fix s :: "('a harness_world, harness_step) eff_state"
  assume seq: "sequential env"
  define s1 where "s1 = \<lparr>world = on_harness (\<lambda>h. h\<lparr>h_runAbortController := Some False, h_pendingBudgetCapTrip := None\<rparr>) (world s),
      events = events s @ [TurnBegan (h_phase (hw_harness (world s))) prompts]\<rparr>"
  have s1: "progress 1 s s1"
    unfolding progress_def s1_def
    by (intro exI [of _ "[TurnBegan (h_phase (hw_harness (world s))) prompts]"] exI [of _ 0])
      (simp add: turns_def on_harness_def phase_after_def)
  let ?m = "act_finally
      (act_then (act_call (\<lambda>w. (Inr (), he_loopStart env prompts ts sp w)))
        (act_bind (run_with_failure env ts) (finish_turn label)))
      (act_finally (flushPendingSessionWrites env) (change (\<lambda>h. h\<lparr>h_runAbortController := None\<rparr>)))"
  have "takes 0 env ?m" by (rule takes_cleanup [OF run_turn_body_traced])
  then have "wp ?m (turn_post 0 s1) s1"
    unfolding takes_def using seq by blast
  then have "wp ?m (turn_post 1 s) s1"
    by (rule wp_mono) (use progress_trans [OF s1, of 0] in \<open>auto simp: turn_post_def\<close>)
  then show "wp (run_turn env label prompts ts sp) (turn_post 1 s) s"
    unfolding run_turn_def wp_then wp_bind wp_change wp_ask wp_emit sum.case
    by (simp add: s1_def on_harness_def wp_then wp_bind wp_finally wp_change)
qed

lemma before_start_traced: "keeps (traced env) (act_get g)" by (rule tr.keeps_basic)

lemma executeTurn_takes: "takes 1 env (executeTurn env ts text images)"
  unfolding executeTurn_def
  by (intro takes_bind run_turn_takes before_start_traced tr.keeps_drain_queue tr.K_calls)

lemma executeContinueTurn_takes: "takes 1 env (executeContinueTurn env ts)"
  unfolding executeContinueTurn_def
  by (intro takes_bind run_turn_takes tr.keeps_drain_queue tr.K_calls)

lemma continue_turn_takes: "takes 1 env (continue_turn env cnt text pay)"
  unfolding continue_turn_def
  by (intro takes_then takes_bind executeTurn_takes tr.keeps_record tr.keeps_budget tr.keeps_auto tr.keeps_turn_state)

subsection \<open>Continuations\<close>

definition continuation_post ::
  "'o harness_env \<Rightarrow> nat \<Rightarrow> ('o harness_world, harness_step) eff_state
     \<Rightarrow> ((nat \<times> 'p \<times> 'm) + 'm) thrown \<Rightarrow> ('o harness_world, harness_step) eff_state \<Rightarrow> bool" where
  "continuation_post env cnt s r s' \<longleftrightarrow>
     (case r of
        Inl msg \<Rightarrow> cnt \<le> he_turnContinuationCap env \<longrightarrow> progress (if cnt < he_turnContinuationCap env then 1 else 0) s s'
      | Inr (Inl (cnt', v)) \<Rightarrow> cnt' = Suc cnt \<and> cnt < he_turnContinuationCap env \<and> progress 1 s s' \<and> pending s' = []
      | Inr (Inr x) \<Rightarrow> progress 0 s s')"

lemma continuation_step:
  assumes seq: "sequential env"
  shows "wp (continuation_body env (cnt, lp, message)) (continuation_post env cnt s) s"
proof (cases "he_onTurnEnd env")
  case None
  then show ?thesis by (simp add: continuation_body_def wp_return continuation_post_def progress_refl)
next
  case (Some hook)
  have ended: "wp (act_then (recordTurnEndDecision env kind cnt reason None pay) (act_return (Inr message)))
      (continuation_post env cnt s) s'"
    if "progress 0 s s'" for kind reason pay s'
    unfolding wp_then
    by (rule wp_mono [OF wp_traced [OF tr.keeps_record seq]])
      (use progress_trans [OF that] in
        \<open>auto simp: wp_return continuation_post_def intro: progress_mono split: sum.split\<close>)
  show ?thesis
  proof (cases "cnt \<ge> he_turnContinuationCap env")
    case True
    then show ?thesis using Some ended [OF progress_refl] by (simp add: continuation_body_def)
  next
    case below: False
    have next_turn: "wp (act_bind (continue_turn env (Suc cnt) words pay) (\<lambda>m. act_return (Inl (Suc cnt, Some words, m))))
        (continuation_post env cnt s) s'" if p: "progress 0 s s'" for words pay s'
      unfolding wp_bind
      by (rule wp_mono [OF continue_turn_takes [unfolded takes_def, rule_format, OF seq]])
        (use progress_trans [OF p] below in
          \<open>auto simp: wp_return continuation_post_def turn_post_def split: sum.split\<close>)
    have "wp (act_bind (ask_turn_end env hook cnt lp) (\<lambda>decision.
             case td_action decision of
               TurnNoop \<Rightarrow> act_return (Inr message)
             | TurnStop \<Rightarrow>
                 act_then (recordTurnEndDecision env EndStop cnt None None (td_payload decision))
                   (act_return (Inr message))
             | TurnPause reason \<Rightarrow>
                 act_then (recordTurnEndDecision env EndPause cnt (Some reason) None (td_payload decision))
                   (act_return (Inr message))
             | TurnContinue text \<Rightarrow>
                 act_bind (continue_turn env (Suc cnt) text (td_payload decision)) (\<lambda>message'.
                   act_return (Inl (Suc cnt, Some text, message')))))
        (continuation_post env cnt s) s"
      unfolding wp_bind [of "ask_turn_end env hook cnt lp"]
      by (rule wp_mono [OF wp_traced [OF tr.keeps_ask_turn_end [OF Some] seq]])
        (use ended next_turn below in \<open>auto simp: wp_return continuation_post_def intro: progress_mono
          split: sum.split turn_end_action.split\<close>)
    then show ?thesis using Some below by (simp add: continuation_body_def)
  qed
qed

lemma continuation_takes:
  assumes seq: "sequential env" and p: "progress 1 s0 s" "pending s = []"
  shows "wp (act_loop (continuation_body env) (0, lp, message)) (turn_post (1 + he_turnContinuationCap env) s0) s"
proof (rule wp_loop [where I = "\<lambda>v s. fst v \<le> he_turnContinuationCap env \<and> progress (1 + fst v) s0 s \<and> pending s = []"])
  show "fst (0, lp, message) \<le> he_turnContinuationCap env \<and> progress (1 + fst (0, lp, message)) s0 s \<and> pending s = []"
    using p by simp
next
  let ?cap = "he_turnContinuationCap env"
  fix v :: "nat \<times> js_string option \<times> assistant_message" and s
  assume I: "fst v \<le> ?cap \<and> progress (1 + fst v) s0 s \<and> pending s = []"
  obtain cnt lp m where v: "v = (cnt, lp, m)" by (cases v)
  have I: "cnt \<le> ?cap" "progress (1 + cnt) s0 s" "pending s = []" using I v by auto
  have after: "progress (1 + ?cap) s0 s'" if "progress k s s'" "k \<le> ?cap - cnt" for k s'
    using progress_mono [OF progress_trans [OF I(2) that(1)]] that(2) I(1) by simp
  show "wp (continuation_body env v) (\<lambda>r s'. case r of Inl msg \<Rightarrow> turn_post (1 + ?cap) s0 (Inl msg) s'
      | Inr nxt \<Rightarrow> (case nxt of Inl v' \<Rightarrow> fst v' \<le> ?cap \<and> progress (1 + fst v') s0 s' \<and> pending s' = []
          | Inr x \<Rightarrow> turn_post (1 + ?cap) s0 (Inr x) s')) s"
    unfolding v
  proof (rule wp_mono [OF continuation_step [OF seq]])
    fix r s' assume c: "continuation_post env cnt s r s'"
    show "case r of Inl msg \<Rightarrow> turn_post (1 + ?cap) s0 (Inl msg) s'
      | Inr nxt \<Rightarrow> (case nxt of Inl v' \<Rightarrow> fst v' \<le> ?cap \<and> progress (1 + fst v') s0 s' \<and> pending s' = []
          | Inr x \<Rightarrow> turn_post (1 + ?cap) s0 (Inr x) s')"
      using c I(1) after progress_trans [OF I(2), of 1 s'] progress_pending [OF _ I(3)]
      by (auto simp: continuation_post_def turn_post_def split: sum.splits if_splits)
  qed
qed

lemma runTurnWithContinuation_takes:
  "takes (1 + he_turnContinuationCap env) env (runTurnWithContinuation env ts first lp)"
  unfolding takes_def
proof (intro impI allI)
  fix s assume seq: "sequential env"
  have first: "takes 1 env (case first of FirstPrompt text images \<Rightarrow> executeTurn env ts text images
        | FirstContinue \<Rightarrow> executeContinueTurn env ts)"
    by (cases first) (simp_all only: first_turn.case executeTurn_takes executeContinueTurn_takes)
  show "wp (runTurnWithContinuation env ts first lp) (turn_post (1 + he_turnContinuationCap env) s) s"
    unfolding runTurnWithContinuation_def wp_bind
    by (rule wp_mono [OF first [unfolded takes_def, rule_format, OF seq]])
      (auto simp: turn_post_def intro: progress_mono
        intro!: wp_mono [OF continuation_takes [OF seq], unfolded turn_post_def] split: sum.split)
qed

text \<open>What a call of \<open>prompt\<close> and its like has done when it settles.\<close>

definition prompt_settled ::
  "nat \<Rightarrow> ('o harness_world, harness_step) eff_state \<Rightarrow> 'a thrown \<Rightarrow> ('o harness_world, harness_step) eff_state \<Rightarrow> bool" where
  "prompt_settled n s r s' \<longleftrightarrow>
     (\<exists>new. events s' = events s @ new \<and> turns new \<le> n \<and> turn_phases PhaseTurn new
        \<and> \<not> h_runPromise (hw_harness (world s'))
        \<and> (case r of
             Inl msg \<Rightarrow> h_phase (hw_harness (world s')) = PhaseIdle
           | Inr x \<Rightarrow> pending s' = [] \<and> h_phase (hw_harness (world s')) = phase_after PhaseTurn new))"

lemma guarded_turn_settles:
  assumes seq: "sequential env" and idle: "h_phase (hw_harness (world s)) = PhaseIdle"
    and turn: "\<And>ts. takes n env (turn ts)"
  shows "wp (guarded_turn env turn) (prompt_settled n s) s"
proof -
  define s1 where "s1 = s\<lparr>world := on_harness (\<lambda>h. h\<lparr>h_phase := PhaseTurn, h_runPromise := True\<rparr>) (world s)\<rparr>"
  have s1: "events s1 = events s" "h_phase (hw_harness (world s1)) = PhaseTurn"
    by (simp_all add: s1_def on_harness_def)
  have "takes n env (act_then (checkBudgetCap env)
      (act_then (runAutoCompaction env) (act_bind (createTurnState env) turn)))"
    by (intro takes_then takes_bind turn tr.keeps_budget tr.keeps_auto tr.keeps_turn_state)
  then have body: "wp (act_then (checkBudgetCap env)
      (act_then (runAutoCompaction env) (act_bind (createTurnState env) turn))) (turn_post n s1) s1"
    unfolding takes_def using seq by blast
  have "wp (act_finally
             (act_catch
               (act_then (checkBudgetCap env)
                 (act_then (runAutoCompaction env) (act_bind (createTurnState env) turn)))
               (\<lambda>msg. act_then (change (\<lambda>h. h\<lparr>h_phase := PhaseIdle\<rparr>)) (act_throw msg)))
             (change (\<lambda>h. h\<lparr>h_runPromise := False\<rparr>))) (prompt_settled n s) s1"
    unfolding wp_finally wp_catch wp_change wp_then [of "change f" for f] wp_throw
    by (rule wp_mono [OF body])
      (auto simp: turn_post_def progress_def prompt_settled_def s1 on_harness_def split: sum.split)
  then show ?thesis
    using idle
    unfolding guarded_turn_def wp_bind wp_ask sum.case
    by (simp add: wp_then [of "change f" for f] wp_change s1_def)
qed

subsection \<open>A prompt returns\<close>

text \<open>
  The agent loop comes to an end: what it still has to do, a number \<open>\<mu>\<close> of the world outside,
  decreases at each of its calls and is not increased by what the harness calls.
\<close>

definition final_request :: "loop_request \<Rightarrow> bool" where
  "final_request req \<longleftrightarrow> (case req of LoopReturned ms \<Rightarrow> True | LoopThrew msg \<Rightarrow> True | _ \<Rightarrow> False)"

definition less_work :: "('o \<Rightarrow> nat) \<Rightarrow> 'o harness_world \<Rightarrow> 'o harness_world \<Rightarrow> bool" where
  "less_work \<mu> w w' \<longleftrightarrow> \<mu> (hw_outside w') \<le> \<mu> (hw_outside w)"

definition loop_ends :: "('o \<Rightarrow> nat) \<Rightarrow> 'o harness_env \<Rightarrow> bool" where
  "loop_ends \<mu> env \<longleftrightarrow> env_calls (less_work \<mu>) env
     \<and> (\<forall>a w. final_request (fst (he_loopNext env a w))
           \<or> \<mu> (hw_outside (snd (he_loopNext env a w))) < \<mu> (hw_outside w))"

definition working ::
  "('o \<Rightarrow> nat) \<Rightarrow> 'o harness_env \<Rightarrow> ('o harness_world, harness_step) eff_state \<Rightarrow> ('o harness_world, harness_step) eff_state \<Rightarrow> bool"
where
  "working \<mu> env s s' \<longleftrightarrow> (loop_ends \<mu> env \<longrightarrow> less_work \<mu> (world s) (world s'))"

lemma working_logged:
  "(loop_ends \<mu> env \<Longrightarrow> call_keeps (less_work \<mu>) f) \<Longrightarrow> keeps (working \<mu> env) (act_logged f step)"
  by (auto simp: keeps_def wp_logged_step working_def call_keeps_def split: prod.split) (metis snd_conv)

lemma working_call:
  "(loop_ends \<mu> env \<Longrightarrow> call_keeps (less_work \<mu>) f) \<Longrightarrow> keeps (working \<mu> env) (act_call f)"
  by (auto simp: keeps_def wp_call working_def call_keeps_def split: prod.split) (metis snd_conv)

lemma working_change: "keeps (working \<mu> env) (change f)"
  by (simp add: keeps_def wp_change working_def less_work_def on_harness_def)

lemma working_any: "keeps (working \<mu> env) (emitAny env e)"
  unfolding emitAny_def by (rule working_logged) (simp add: loop_ends_def env_calls_def)

interpretation wa: action_relation "working \<mu> env" for \<mu> :: "'o \<Rightarrow> nat" and env :: "'o harness_env"
  by unfold_locales (auto simp: working_def less_work_def intro: order_trans)

interpretation wk: turn_relation "working \<mu> env" env for \<mu> :: "'o \<Rightarrow> nat" and env :: "'o harness_env"
proof unfold_locales
  show "keeps (working \<mu> env) (act_call (\<lambda>w. (Inr (), he_recordCost env u w)))" for u
    by (rule working_call) (simp add: loop_ends_def env_calls_def call_keeps_def)
  show "keeps (working \<mu> env) (act_query (he_summarizers env))"
    unfolding act_query_def
    by (rule working_call) (simp add: loop_ends_def env_calls_def call_keeps_def)
  show "keeps (working \<mu> env) (tell env he)" for he
    by (auto simp: keeps_def tell_def wp_emit working_def loop_ends_def env_calls_def)
qed (auto simp: emitOwn_def write_entry_def working_any working_change loop_ends_def env_calls_def
    intro!: working_logged working_call wa.keeps_then)

definition total :: "('w, 'e, 'a) action \<Rightarrow> bool" where
  "total m \<longleftrightarrow> (\<forall>s. returns m s)"

lemma wp_any: "wp m (\<lambda>r s'. True) s"
  by (simp add: wp_def split: option.split)

lemma total_basic:
  "total (act_return x)" "total (act_throw msg)" "total (act_call f)" "total (act_get g)"
  "total (act_emit sink e)" "total (act_lift r)" "total (act_logged h step)" "total (act_query q)"
  by (simp_all add: total_def act_query_def) (simp add: returns_def act_logged_def split: prod.split)

lemma total_harness: "total (change f)" "total (ask g)" "total (tell env e)" "total (emitOwn env oe)"
  "total (emitAny env ae)" "total (write_entry env b)"
  by (simp_all add: change_def ask_def tell_def emitOwn_def emitAny_def write_entry_def total_basic)

lemma total_bind: "total m \<Longrightarrow> (\<And>x. total (f x)) \<Longrightarrow> total (act_bind m f)"
  unfolding total_def
  by (intro allI returns_bind) (auto intro: wp_mono [OF wp_any] split: sum.split)

lemma total_then: "total m \<Longrightarrow> total n \<Longrightarrow> total (act_then m n)"
  unfolding act_then_def by (rule total_bind)

lemma total_catch: "total m \<Longrightarrow> (\<And>msg. total (h msg)) \<Longrightarrow> total (act_catch m h)"
  unfolding total_def
  by (intro allI returns_catch) (auto intro: wp_mono [OF wp_any] split: sum.split)

lemma total_finally: "total m \<Longrightarrow> total f \<Longrightarrow> total (act_finally m f)"
  unfolding total_def returns_def act_finally_def
  by (auto split: option.split sum.split) (metis option.distinct(1))

lemma total_try: "total m \<Longrightarrow> total (act_try m)"
  by (auto simp: total_def returns_def act_try_def split: option.split)

lemma total_void: "total m \<Longrightarrow> total (act_void m)"
  unfolding act_void_def by (intro total_bind total_basic)

lemma total_case:
  "total a \<Longrightarrow> total b \<Longrightarrow> total (if c then a else b)"
  "total a \<Longrightarrow> (\<And>x. total (f x)) \<Longrightarrow> total (case v of None \<Rightarrow> a | Some x \<Rightarrow> f x)"
  "(\<And>x. total (g x)) \<Longrightarrow> (\<And>y. total (h y)) \<Longrightarrow> total (case u of Inl x \<Rightarrow> g x | Inr y \<Rightarrow> h y)"
  "(\<And>x y. total (p x y)) \<Longrightarrow> total (case q of (x, y) \<Rightarrow> p x y)"
  "total a \<Longrightarrow> (\<And>x xs. total (l x xs)) \<Longrightarrow> total (case ys of [] \<Rightarrow> a | x # xs \<Rightarrow> l x xs)"
  by (simp_all split: option.split sum.split prod.split list.split)

lemmas total_rules = total_basic total_harness total_bind total_then total_catch total_finally total_try
  total_void total_case

lemma total_flush_write: "total (flush_write env b)"
  unfolding flush_write_def by (cases b; simp; intro total_rules)

text \<open>Each round of the flush takes one write from those pending.\<close>

lemma flush_write_traced: "sequential env \<Longrightarrow> wp (flush_write env b) (\<lambda>r s'. hw_harness (world s') = hw_harness (world s)) s"
  by (cases b)
    (auto simp: flush_write_def wp_rules write_entry_def sequential_def env_calls_def call_keeps_def same_harness_def
      case_prod_unfold split: sum.split)

lemma total_flush:
  assumes seq: "sequential env"
  shows "total (flushPendingSessionWrites env)"
  unfolding total_def flushPendingSessionWrites_def
proof
  fix s
  show "returns (act_loop (flush_body env) ()) s"
  proof (rule loop_returns [where I = "\<lambda>v s. True" and M = "\<lambda>v s. length (pending s)"])
    have "total (flush_body env v)" for v
      unfolding flush_body_def by (intro total_rules total_flush_write)
    then show "returns (flush_body env v) s" for v s by (simp add: total_def)
    show "wp (flush_body env v) (\<lambda>r s'. case r of Inl msg \<Rightarrow> True
        | Inr nxt \<Rightarrow> (case nxt of Inl v' \<Rightarrow> True \<and> length (pending s') < length (pending s) | Inr x \<Rightarrow> True)) s" for v s
      by (cases "pending s")
        (auto simp: flush_body_def wp_rules on_harness_def
          intro!: wp_mono [OF flush_write_traced [OF seq]] split: sum.split)
  qed simp
qed


lemma total_queues:
  "total (emitQueueUpdate env)" "total (drain_queue env q mode)" "total (drainQueuedMessages env q)"
  unfolding drainQueuedMessages_def drain_queue_def emitQueueUpdate_def Let_def by (intro total_rules)+

lemma total_state: "total (read_context env)" "total (createTurnState env)"
  unfolding createTurnState_def turn_system_prompt_def read_context_def by (intro total_rules)+

lemma total_handle:
  assumes "sequential env"
  shows "total (handleAgentEvent env e)"
proof -
  have "total (record_cost env m)" for m
    unfolding record_cost_def by (auto intro!: total_rules split: agent_message.split llm_message.split)
  then show ?thesis
    unfolding handleAgentEvent_def
    by (cases e; simp; intro total_rules total_flush [OF assms]; simp)
qed

lemma total_failure: "sequential env \<Longrightarrow> total (emitRunFailure env model msg ab)"
  unfolding emitRunFailure_def Let_def by (intro total_rules total_handle)

lemma total_budget: "total (checkBudgetCap env)" "total (budgetCapStopsLoop env m)" "total takeBudgetCapTrip"
  unfolding checkBudgetCap_def budgetCapStopsLoop_def takeBudgetCapTrip_def by (intro total_rules)+

lemma total_answer: "sequential env \<Longrightarrow> total (answer_request env ts req)"
  unfolding answer_request_def
  by (cases req; simp; intro total_rules total_handle total_queues total_flush total_state total_budget)

lemma total_compact: "total (doCompact env fromHook custom)"
  unfolding doCompact_def compact_prepared_def summarize_branch_def store_compaction_def Let_def
  by (intro total_rules) (auto intro!: total_rules split: compaction_error.split)

lemma total_auto: "total (runAutoCompaction env)"
  unfolding runAutoCompaction_def by (intro total_rules total_state total_compact)

lemma total_record: "total (recordTurnEndDecision env kind cnt reason preview pay)"
  unfolding recordTurnEndDecision_def by (intro total_rules)

lemma total_ask_turn_end: "total (ask_turn_end env hook cnt p)"
  unfolding ask_turn_end_def by (intro total_rules total_state)

lemma total_loop_body: "sequential env \<Longrightarrow> total (loop_body env v)"
  unfolding loop_body_def
  by (cases v) (auto intro!: total_rules total_answer split: loop_request.split)

text \<open>A call that is not the last leaves less work.\<close>

lemma loop_body_work:
  assumes ends: "loop_ends \<mu> env"
  shows "wp (loop_body env (ans, ts)) (\<lambda>r s'. case r of
      Inr (Inl v') \<Rightarrow> \<mu> (hw_outside (world s')) < \<mu> (hw_outside (world s)) | _ \<Rightarrow> True) s"
proof -
  obtain req w where n: "he_loopNext env ans (world s) = (req, w)" by fastforce
  let ?s = "s\<lparr>world := w\<rparr>"
  let ?k = "act_bind (act_catch (answer_request env ts req) (\<lambda>msg. act_return (AnswerThrown msg, ts)))
      (\<lambda>v. act_return (Inl v))"
  have "keeps (working \<mu> env) ?k"
    by (intro wk.keeps_turn wk.keeps_answer)
  from this [unfolded keeps_def, rule_format, of ?s]
  have k: "wp ?k (\<lambda>r s'. \<mu> (hw_outside (world s')) \<le> \<mu> (hw_outside w)) ?s"
    by (rule wp_mono) (use ends in \<open>simp add: working_def less_work_def\<close>)
  have less: "\<not> final_request req \<Longrightarrow> \<mu> (hw_outside w) < \<mu> (hw_outside (world s))"
    using ends n unfolding loop_ends_def by (metis fst_conv snd_conv)
  show ?thesis
  proof (cases "final_request req")
    case True
    then show ?thesis
      unfolding loop_body_def prod.case wp_bind [of "act_query f" for f] wp_query n sum.case
      by (cases req) (simp_all add: final_request_def wp_return)
  next
    case False
    have "wp ?k (\<lambda>r s'. case r of Inr (Inl v') \<Rightarrow> \<mu> (hw_outside (world s')) < \<mu> (hw_outside (world s)) | _ \<Rightarrow> True) ?s"
      by (rule wp_mono [OF k]) (use less [OF False] in \<open>auto split: sum.split\<close>)
    then show ?thesis
      using False
      unfolding loop_body_def prod.case wp_bind [of "act_query f" for f] wp_query n sum.case
      by (cases req) (simp_all add: final_request_def)
  qed
qed

lemma total_run_loop:
  assumes "sequential env" "loop_ends \<mu> env"
  shows "total (run_loop env ts)"
  unfolding total_def run_loop_def
proof
  fix s
  show "returns (act_loop (loop_body env) (AnswerDone, ts)) s"
  proof (rule loop_returns [where I = "\<lambda>v s. True" and M = "\<lambda>v s. \<mu> (hw_outside (world s))"])
    show "returns (loop_body env v) s" for v s
      using total_loop_body [OF assms(1)] by (simp add: total_def)
    show "wp (loop_body env v) (\<lambda>r s'. case r of Inl msg \<Rightarrow> True
        | Inr nxt \<Rightarrow> (case nxt of Inl v' \<Rightarrow> True \<and> \<mu> (hw_outside (world s')) < \<mu> (hw_outside (world s))
            | Inr x \<Rightarrow> True)) s" for v s
      by (cases v) (auto intro!: wp_mono [OF loop_body_work [OF assms(2)]] split: sum.splits)
  qed simp
qed

lemma total_run_turn:
  assumes "sequential env" "loop_ends \<mu> env"
  shows "total (run_turn env label prompts ts sp)"
  unfolding run_turn_def run_with_failure_def finish_turn_def
  by (intro total_rules total_run_loop [OF assms] total_failure assms(1) total_budget total_flush)

lemma total_turns:
  assumes "sequential env" "loop_ends \<mu> env"
  shows "total (executeTurn env ts words images)" "total (executeContinueTurn env ts)"
    "total (continue_turn env cnt words pay)"
  unfolding continue_turn_def executeTurn_def executeContinueTurn_def
  by (intro total_rules total_queues total_run_turn [OF assms] total_record total_budget total_auto total_state)+

lemma total_continuation:
  assumes "sequential env" "loop_ends \<mu> env"
  shows "total (act_loop (continuation_body env) v)"
  unfolding total_def
proof
  fix s
  show "returns (act_loop (continuation_body env) v) s"
  proof (rule loop_returns [where I = "\<lambda>v s. True"
        and M = "\<lambda>v s. he_turnContinuationCap env - fst v"])
    have "total (continuation_body env v)" for v
      unfolding continuation_body_def
      by (cases v) (auto intro!: total_rules total_record total_ask_turn_end total_turns [OF assms]
          split: turn_end_action.split option.split)
    then show "returns (continuation_body env v) s" for v s by (simp add: total_def)
    show "wp (continuation_body env v) (\<lambda>r s'. case r of Inl msg \<Rightarrow> True
        | Inr nxt \<Rightarrow> (case nxt of Inl v' \<Rightarrow> True \<and> he_turnContinuationCap env - fst v' < he_turnContinuationCap env - fst v
            | Inr x \<Rightarrow> True)) s" for v s
      by (cases v) (auto intro!: wp_mono [OF continuation_step [OF assms(1)]]
          simp: continuation_post_def split: sum.splits)
  qed simp
qed

lemma total_guarded:
  assumes "sequential env" "loop_ends \<mu> env"
  shows "total (guarded_turn env (\<lambda>ts. runTurnWithContinuation env ts first lp))"
  unfolding guarded_turn_def runTurnWithContinuation_def
  by (intro total_rules total_budget total_auto total_state)
    (auto intro: total_turns [OF assms] total_continuation [OF assms] split: first_turn.split)

text \<open>
  C7: When no other call runs meanwhile and every run of the agent loop comes to an end, a prompt to
  an idle harness settles.  It has run at most one turn more than the cap of continuations; every
  turn began in the phase the trace before it left, idle once an agent_end was published; the run
  promise is cleared.  When it throws the harness is idle; when it returns all pending writes
  are in the session.
\<close>
theorem harness_prompt_settles:
  assumes "sequential env" and "loop_ends \<mu> env"
    and "h_phase (hw_harness (world s)) = PhaseIdle"
  shows "\<exists>r s'. harness_prompt env words images s = Some (r, s')
    \<and> prompt_settled (1 + he_turnContinuationCap env) s r s'"
proof -
  have "returns (harness_prompt env words images) s"
    using total_guarded [OF assms(1,2)] by (simp add: harness_prompt_def total_def)
  moreover have "wp (harness_prompt env words images) (prompt_settled (1 + he_turnContinuationCap env) s) s"
    unfolding harness_prompt_def
    by (rule guarded_turn_settles [OF assms(1,3) runTurnWithContinuation_takes])
  ultimately show ?thesis by (rule returns_wp)
qed

text \<open>An environment whose loop ends the run at once.\<close>

definition demo_answer :: assistant_message where
  "demo_answer =
     \<lparr>a_content = [AText (str ''ok'')], a_api = str ''api'', a_provider = str ''p'', a_model = str ''m'', a_usage = None,
      a_stopReason = StopEnd, a_errorMessage = None, a_timestamp = Some 0\<rparr>"

definition demo_harness_env :: "nat harness_env" where
  "demo_harness_env =
     \<lparr>he_now = \<lambda>w. Some 0, he_dateParse = \<lambda>t. None,
      he_limits = \<lambda>m. \<lparr>ml_maxTokens = 1000, ml_contextWindow = 8000, ml_reasoning = False\<rparr>,
      he_systemPrompt = Some (Inl (str ''base'')), he_listen = \<lambda>e w. w, he_publish = \<lambda>e w. (Inr (), w),
      he_forward = \<lambda>e w. (Inr (), w), he_append = \<lambda>b w. (Inr (str ''i''), w), he_getBranch = \<lambda>w. (Inr [], w),
      he_getEntry = \<lambda>i w. (Inr None, w), he_sessionId = \<lambda>w. (Inr (str ''s''), w), he_recordCost = \<lambda>u w. w,
      he_budgetCapError = \<lambda>w. None, he_beforeAgentStart = \<lambda>t i ts w. (Inr None, w),
      he_loopStart = \<lambda>ps ts sp w. w\<lparr>hw_outside := 1\<rparr>,
      he_loopNext = \<lambda>a w. if hw_outside w = 0 then (LoopReturned [AssistantMsg demo_answer], w)
                            else (LoopEmits (AgentEnd [AssistantMsg demo_answer]), w\<lparr>hw_outside := hw_outside w - 1\<rparr>),
      he_onTurnEnd = Some (\<lambda>ms n p w. (Inr \<lparr>td_action = TurnContinue (str ''go on''), td_payload = None\<rparr>, w)),
      he_turnContinuationCap = 1, he_beforeCompact = \<lambda>p es c w. (Inr None, w), he_auth = \<lambda>m w. (Inr True, w),
      he_summarizers = \<lambda>w. ((\<lambda>n q. demo_answer, \<lambda>n q. demo_answer), w), he_waitForIdle = \<lambda>w. (Inr (), w),
      he_reloadSkills = None, he_catalogModel = \<lambda>p i. None\<rparr>"

definition demo_harness :: "nat harness_world" where
  "demo_harness =
     \<lparr>hw_harness = new_AgentHarness
        \<lparr>ho_model = DEFAULT_MODEL, ho_thinkingLevel = None, ho_tools = None, ho_activeToolNames = None,
         ho_resources = None, ho_steeringMode = None, ho_followUpMode = None, ho_compaction = None,
         ho_triggerRuntime = new_TriggerRuntime None None\<rparr>,
      hw_outside = 0\<rparr>"

lemma demo_env_sequential: "sequential demo_harness_env"
  by (auto simp: sequential_def env_calls_def call_keeps_def same_harness_def demo_harness_env_def)

lemma demo_env_ends: "loop_ends id demo_harness_env"
  by (auto simp: loop_ends_def env_calls_def call_keeps_def less_work_def final_request_def demo_harness_env_def)

theorem harness_prompt_settles_witness:
  "\<exists>r s'. harness_prompt demo_harness_env (str ''hi'') [] \<lparr>world = demo_harness, events = []\<rparr> = Some (r, s')
    \<and> prompt_settled 2 \<lparr>world = demo_harness, events = []\<rparr> r s'"
  using harness_prompt_settles [OF demo_env_sequential demo_env_ends,
      of "\<lparr>world = demo_harness, events = []\<rparr>" "str ''hi''" "[]"]
  by (simp add: demo_harness_def demo_harness_env_def numeral_2_eq_2)

text \<open>A turn that continues after the end of a run begins, and stays, idle: \<open>prompt\<close> is accepted meanwhile.\<close>

lemma continuation_begins_idle:
  assumes "prompt_settled n s r s'"
    and "events s' = events s @ before @ TurnBegan p ps # after" and "agent_ended before"
  shows "p = PhaseIdle"
proof -
  have "turn_phases PhaseTurn (before @ TurnBegan p ps # after)"
    using assms(1,2) by (auto simp: prompt_settled_def)
  then have "p = phase_after PhaseTurn before" unfolding turn_phases_def by blast
  then show ?thesis using assms(3) by (simp add: phase_after_def)
qed

subsection \<open>Messages that wait\<close>

lemma queue_of_set [simp]: "queue_of q (set_queue q ms h) = ms"
  by (cases q) simp_all



text \<open>A hook that throws before the run loses the messages that waited for it.\<close>

lemma failed_hook_loses_messages:
  assumes "sequential env" and "\<And>e w. fst (he_publish env e w) = Inr ()"
    and "\<And>w. fst (he_beforeAgentStart env words images ts w) = Inl msg"
    and "h_nextTurnQueue (hw_harness (world s)) \<noteq> []"
  shows "wp (executeTurn env ts words images) (\<lambda>r s'. r = Inl msg \<and> h_nextTurnQueue (hw_harness (world s')) = []
           \<and> (\<exists>e. events s' = events s @ [Published e (Inr ())])) s"
proof -
  have same: "\<And>e w. hw_harness (snd (he_publish env e w)) = hw_harness w"
    "\<And>w. hw_harness (snd (he_beforeAgentStart env words images ts w)) = hw_harness w"
    using assms(1) by (simp_all add: sequential_def env_calls_def call_keeps_def same_harness_def)
  show ?thesis
    using assms(2-4)
    by (simp add: executeTurn_def drain_queue_def Let_def wp_rules emitQueueUpdate_def emitOwn_def on_harness_def
        case_prod_unfold same)
qed

end
