(* ===== verification/EditDiff.thy ===== *)
theory EditDiff
  imports JsText
begin

text \<open>
  \<open>packages/coding-agent/src/core/tools/edit-diff.ts\<close>: finding the old texts of a batch of
  edits in a file, exactly or after normalization, replacing them all, and the diff that is
  shown.  \<open>String.prototype.normalize("NFKC")\<close> is the argument \<open>nfkc\<close>; \<open>Diff.diffLines\<close> is
  represented by the parts it returns.
\<close>

subsection \<open>Line endings\<close>

definition detectLineEnding :: "js_string \<Rightarrow> js_string" where
  "detectLineEnding content =
     (case (index_from [13, 10] content 0, index_from [10] content 0) of
        (_, None) \<Rightarrow> [10]
      | (None, _) \<Rightarrow> [10]
      | (Some crlfIdx, Some lfIdx) \<Rightarrow> if crlfIdx < lfIdx then [13, 10] else [10])"

definition normalizeToLF :: "js_string \<Rightarrow> js_string" where
  "normalizeToLF text = replace_all [13] [10] (replace_all [13, 10] [10] text)"

definition restoreLineEndings :: "js_string \<Rightarrow> js_string \<Rightarrow> js_string" where
  "restoreLineEndings text ending = (if ending = [13, 10] then replace_all [10] [13, 10] text else text)"

subsection \<open>Fuzzy matching\<close>

definition smart_char :: "nat \<Rightarrow> nat" where
  "smart_char c =
     (if c \<in> {0x2018, 0x2019, 0x201a, 0x201b} then 39
      else if c \<in> {0x201c, 0x201d, 0x201e, 0x201f} then 34
      else if c \<in> {0x2010, 0x2011, 0x2012, 0x2013, 0x2014, 0x2015, 0x2212} then 45
      else if c = 0xa0 \<or> (0x2002 \<le> c \<and> c \<le> 0x200a) \<or> c \<in> {0x202f, 0x205f, 0x3000} then 32
      else c)"

text \<open>All of the normalization that follows NFKC.\<close>

definition tidy :: "js_string \<Rightarrow> js_string" where
  "tidy text = map smart_char (js_join [10] (map trim_end (js_split 10 text)))"

definition normalizeForFuzzyMatch :: "(js_string \<Rightarrow> js_string) \<Rightarrow> js_string \<Rightarrow> js_string" where
  "normalizeForFuzzyMatch nfkc text = tidy (nfkc text)"

record fuzzy_match_result =
  found :: bool
  match_at :: int
  matchLength :: nat
  usedFuzzyMatch :: bool
  contentForReplacement :: js_string

record edit =
  oldText :: js_string
  newText :: js_string

record matched_edit =
  editIndex :: nat
  matchIndex :: nat
  editLength :: nat
  replacement :: js_string

record applied_edits =
  baseContent :: js_string
  newContent :: js_string

definition fuzzyFindText :: "(js_string \<Rightarrow> js_string) \<Rightarrow> js_string \<Rightarrow> js_string \<Rightarrow> fuzzy_match_result" where
  "fuzzyFindText nfkc content old =
     (case index_from old content 0 of
        Some i \<Rightarrow> \<lparr>found = True, match_at = int i, matchLength = length old, usedFuzzyMatch = False,
                   contentForReplacement = content\<rparr>
      | None \<Rightarrow>
          (let fuzzyContent = normalizeForFuzzyMatch nfkc content;
               fuzzyOldText = normalizeForFuzzyMatch nfkc old
           in case index_from fuzzyOldText fuzzyContent 0 of
                None \<Rightarrow> \<lparr>found = False, match_at = - 1, matchLength = 0, usedFuzzyMatch = False,
                         contentForReplacement = content\<rparr>
              | Some i \<Rightarrow> \<lparr>found = True, match_at = int i, matchLength = length fuzzyOldText,
                           usedFuzzyMatch = True, contentForReplacement = fuzzyContent\<rparr>))"

definition stripBom :: "js_string \<Rightarrow> js_string \<times> js_string" where
  "stripBom content = (if starts_with [0xfeff] content then ([0xfeff], drop 1 content) else ([], content))"

text \<open>\<open>split\<close> with a string: the empty separator gives the code units.\<close>

function split_string :: "js_string \<Rightarrow> js_string \<Rightarrow> js_string list" where
  "split_string sep s =
     (if sep = [] then map (\<lambda>c. [c]) s
      else (case split_first sep s of None \<Rightarrow> [s] | Some (a, b) \<Rightarrow> a # split_string sep b))"
  by pat_completeness auto

termination split_string
  by (relation "measure (\<lambda>(sep, s). length s)") (auto dest: split_first_shorter)

declare split_string.simps [simp del]

definition countFuzzyOccurrences :: "(js_string \<Rightarrow> js_string) \<Rightarrow> js_string \<Rightarrow> js_string \<Rightarrow> int" where
  "countFuzzyOccurrences nfkc content old =
     int (length (split_string (normalizeForFuzzyMatch nfkc old) (normalizeForFuzzyMatch nfkc content))) - 1"

subsection \<open>Errors\<close>

definition getNotFoundError :: "js_string \<Rightarrow> nat \<Rightarrow> nat \<Rightarrow> js_string" where
  "getNotFoundError path i n =
     (if n = 1
      then str ''Could not find the exact text in '' @ path
           @ str ''. The old text must match exactly including all whitespace and newlines.''
      else str ''Could not find edits['' @ show_nat i @ str ''] in '' @ path
           @ str ''. The oldText must match exactly including all whitespace and newlines.'')"

definition getDuplicateError :: "js_string \<Rightarrow> nat \<Rightarrow> nat \<Rightarrow> int \<Rightarrow> js_string" where
  "getDuplicateError path i n occurrences =
     (if n = 1
      then str ''Found '' @ show_int occurrences @ str '' occurrences of the text in '' @ path
           @ str ''. The text must be unique. Please provide more context to make it unique.''
      else str ''Found '' @ show_int occurrences @ str '' occurrences of edits['' @ show_nat i @ str ''] in ''
           @ path @ str ''. Each oldText must be unique. Please provide more context to make it unique.'')"

definition getEmptyOldTextError :: "js_string \<Rightarrow> nat \<Rightarrow> nat \<Rightarrow> js_string" where
  "getEmptyOldTextError path i n =
     (if n = 1 then str ''oldText must not be empty in '' @ path @ str ''.''
      else str ''edits['' @ show_nat i @ str ''].oldText must not be empty in '' @ path @ str ''.'')"

definition getNoChangeError :: "js_string \<Rightarrow> nat \<Rightarrow> js_string" where
  "getNoChangeError path n =
     (if n = 1
      then str ''No changes made to '' @ path
           @ str ''. The replacement produced identical content. This might indicate an issue with special characters or the text not existing as expected.''
      else str ''No changes made to '' @ path @ str ''. The replacements produced identical content.'')"

definition overlap_error :: "js_string \<Rightarrow> matched_edit \<Rightarrow> matched_edit \<Rightarrow> js_string" where
  "overlap_error path previous current =
     str ''edits['' @ show_nat (editIndex previous) @ str ''] and edits['' @ show_nat (editIndex current)
     @ str ''] overlap in '' @ path @ str ''. Merge them into one edit or target disjoint regions.''"

subsection \<open>Applying edits\<close>

fun first_empty :: "edit list \<Rightarrow> nat \<Rightarrow> nat option" where
  "first_empty [] i = None"
| "first_empty (e # es) i = (if length (oldText e) = 0 then Some i else first_empty es (Suc i))"

fun match_edits ::
  "(js_string \<Rightarrow> js_string) \<Rightarrow> js_string \<Rightarrow> js_string \<Rightarrow> nat \<Rightarrow> nat \<Rightarrow> edit list
     \<Rightarrow> js_string + matched_edit list" where
  "match_edits nfkc base path n i [] = Inr []"
| "match_edits nfkc base path n i (e # es) =
     (let m = fuzzyFindText nfkc base (oldText e);
          occurrences = countFuzzyOccurrences nfkc base (oldText e)
      in if \<not> found m then Inl (getNotFoundError path i n)
         else if occurrences > 1 then Inl (getDuplicateError path i n occurrences)
         else (case match_edits nfkc base path n (Suc i) es of
                 Inl err \<Rightarrow> Inl err
               | Inr ms \<Rightarrow> Inr (\<lparr>editIndex = i, matchIndex = nat (match_at m), editLength = matchLength m,
                                 replacement = newText e\<rparr> # ms)))"

fun first_overlap :: "matched_edit list \<Rightarrow> (matched_edit \<times> matched_edit) option" where
  "first_overlap (p # c # ms) =
     (if matchIndex p + editLength p > matchIndex c then Some (p, c) else first_overlap (c # ms))"
| "first_overlap _ = None"

definition splice :: "matched_edit \<Rightarrow> js_string \<Rightarrow> js_string" where
  "splice m content =
     take (matchIndex m) content @ replacement m @ drop (matchIndex m + editLength m) content"

definition normalize_edit :: "edit \<Rightarrow> edit" where
  "normalize_edit e = \<lparr>oldText = normalizeToLF (oldText e), newText = normalizeToLF (newText e)\<rparr>"

definition applyEditsToNormalizedContent ::
  "(js_string \<Rightarrow> js_string) \<Rightarrow> js_string \<Rightarrow> edit list \<Rightarrow> js_string \<Rightarrow> js_string + applied_edits" where
  "applyEditsToNormalizedContent nfkc content edits path =
     (let normalizedEdits = map normalize_edit edits;
          n = length normalizedEdits
      in case first_empty normalizedEdits 0 of
           Some i \<Rightarrow> Inl (getEmptyOldTextError path i n)
         | None \<Rightarrow>
             (let initialMatches = map (\<lambda>e. fuzzyFindText nfkc content (oldText e)) normalizedEdits;
                  base = (if list_ex usedFuzzyMatch initialMatches
                          then normalizeForFuzzyMatch nfkc content else content)
              in case match_edits nfkc base path n 0 normalizedEdits of
                   Inl err \<Rightarrow> Inl err
                 | Inr matched \<Rightarrow>
                     (let sorted_edits = sort_key matchIndex matched
                      in case first_overlap sorted_edits of
                           Some (p, c) \<Rightarrow> Inl (overlap_error path p c)
                         | None \<Rightarrow>
                             (let new = foldr splice sorted_edits base
                              in if base = new then Inl (getNoChangeError path n)
                                 else Inr \<lparr>baseContent = base, newContent = new\<rparr>))))"


subsection \<open>What line endings become\<close>

lemma replace_all_Nil [simp]: "replace_all old new [] = []"
  by (subst replace_all.simps) simp

lemma replace_all_Cons:
  assumes "old \<noteq> []"
  shows "replace_all old new (d # s) =
    (if starts_with old (d # s) then new @ replace_all old new (drop (length old) (d # s))
     else d # replace_all old new s)"
proof (cases "starts_with old (d # s)")
  case True
  then show ?thesis using assms by (subst replace_all.simps) simp
next
  case False
  then show ?thesis using assms
    by (subst (1 2) replace_all.simps) (auto split: option.splits)
qed

lemma replace_char: "replace_all [c] new s = concat (map (\<lambda>d. if d = c then new else [d]) s)"
  by (induction s) (simp_all add: replace_all_Cons starts_with_def)

fun crlf_to_lf :: "js_string \<Rightarrow> js_string" where
  "crlf_to_lf [] = []"
| "crlf_to_lf (c # s) = (if c = 13 \<and> starts_with [10] s then crlf_to_lf s else c # crlf_to_lf s)"

lemma crlf_to_lf_newline:
  "take (Suc 0) s = [10] \<Longrightarrow> crlf_to_lf s = 10 # crlf_to_lf (drop (Suc 0) s)"
  by (cases s) auto

lemma replace_crlf: "replace_all [13, 10] [10] s = crlf_to_lf s"
proof (induction s rule: length_induct)
  case (1 s)
  show ?case
  proof (cases s)
    case (Cons c t)
    then show ?thesis using 1
      by (cases t) (auto simp: replace_all_Cons starts_with_def crlf_to_lf_newline)
  qed simp
qed

lemma replace_cr: "replace_all [13] [10] s = map (\<lambda>c. if c = 13 then 10 else c) s"
  by (induction s) (simp_all add: replace_char)

lemma normalizeToLF_alt: "normalizeToLF s = map (\<lambda>c. if c = 13 then 10 else c) (crlf_to_lf s)"
  by (simp add: normalizeToLF_def replace_crlf replace_cr)

lemma normalizeToLF_no_cr: "13 \<notin> set (normalizeToLF s)"
  by (auto simp: normalizeToLF_alt)

lemma map_cr_id: "13 \<notin> set s \<Longrightarrow> map (\<lambda>c. if c = 13 then 10 else c) s = s"
  by (induction s) auto

lemma crlf_to_lf_id: "13 \<notin> set s \<Longrightarrow> crlf_to_lf s = s"
  by (induction s) auto

lemma normalizeToLF_id: "13 \<notin> set s \<Longrightarrow> normalizeToLF s = s"
  by (simp add: normalizeToLF_alt crlf_to_lf_id map_cr_id)

definition to_crlf :: "js_string \<Rightarrow> js_string" where
  "to_crlf s = concat (map (\<lambda>d. if d = 10 then [13, 10] else [d]) s)"

lemma to_crlf_simps [simp]:
  "to_crlf [] = []" "to_crlf (c # s) = (if c = 10 then [13, 10] else [c]) @ to_crlf s"
  "to_crlf (s @ t) = to_crlf s @ to_crlf t"
  by (simp_all add: to_crlf_def)

lemma restoreLineEndings_crlf: "restoreLineEndings s [13, 10] = to_crlf s"
  by (simp add: restoreLineEndings_def to_crlf_def replace_char)

lemma restoreLineEndings_lf: "restoreLineEndings s [10] = s"
  by (simp add: restoreLineEndings_def)

lemma crlf_to_lf_to_crlf: "13 \<notin> set s \<Longrightarrow> crlf_to_lf (to_crlf s) = s"
  by (induction s) (auto simp: starts_with_def)

lemma normalize_restored: "13 \<notin> set s \<Longrightarrow> ending \<in> {[10], [13, 10]} \<Longrightarrow>
    normalizeToLF (restoreLineEndings s ending) = s"
  by (auto simp: restoreLineEndings_crlf restoreLineEndings_lf normalizeToLF_alt crlf_to_lf_to_crlf
      crlf_to_lf_id map_cr_id)

lemma split_first_none_char: "c \<notin> set s \<Longrightarrow> c \<in> set sep \<Longrightarrow> split_first sep s = None"
  by (metis Un_iff not_None_eq set_append split_first_Some surj_pair)

lemma detect_lf: "13 \<notin> set s \<Longrightarrow> detectLineEnding s = [10]"
  by (auto simp: detectLineEnding_def index_from_def split_first_none_char split: option.splits)

lemma split_first_char_cases:
  "split_first sep (c # s) = None \<Longrightarrow> split_first sep s = None"
  by (auto split: if_splits option.splits)

lemma split_first_crlf: "10 \<in> set s \<Longrightarrow> 13 \<notin> set s \<Longrightarrow>
   \<exists>a b. split_first [13, 10] (to_crlf s) = Some (a, b) \<and> split_first [10] (to_crlf s) = Some (a @ [13], b)"
proof (induction s)
  case (Cons c s)
  show ?case
  proof (cases "c = 10")
    case True
    then show ?thesis by (simp add: starts_with_def)
  next
    case False
    then obtain a b where "split_first [13, 10] (to_crlf s) = Some (a, b)"
        "split_first [10] (to_crlf s) = Some (a @ [13], b)" using Cons by auto
    then show ?thesis using False Cons.prems by (simp add: starts_with_def)
  qed
qed simp

lemma detect_crlf: "10 \<in> set s \<Longrightarrow> 13 \<notin> set s \<Longrightarrow> detectLineEnding (to_crlf s) = [13, 10]"
  using split_first_crlf [of s] by (auto simp: detectLineEnding_def index_from_def)


subsection \<open>Normalizing twice\<close>

lemma smart_char_newline [simp]: "smart_char c = 10 \<longleftrightarrow> c = 10"
  by (auto simp: smart_char_def)

lemma smart_char_space: "\<not> js_space c \<Longrightarrow> \<not> js_space (smart_char c)"
  by (auto simp: smart_char_def js_space_def)

lemma smart_char_idem [simp]: "smart_char (smart_char c) = smart_char c"
  by (simp add: smart_char_def)

lemma js_split_map_smart: "js_split 10 (map smart_char s) = map (map smart_char) (js_split 10 s)"
  by (induction s) (auto split: list.splits)

lemma trim_end_subset: "set (trim_end s) \<subseteq> set s"
  by (auto simp: trim_end_def dest: set_dropWhileD)

lemma trim_end_smart: "trim_end (map smart_char (trim_end s)) = map smart_char (trim_end s)"
proof -
  have "dropWhile js_space (map smart_char (dropWhile js_space t)) = map smart_char (dropWhile js_space t)" for t
    by (induction t) (auto simp: smart_char_space)
  from this [of "rev s"] show ?thesis by (simp add: trim_end_def rev_map)
qed

lemma tidy_idem: "tidy (tidy s) = tidy s"
proof -
  have "js_split 10 (js_join [10] (map trim_end (js_split 10 s))) = map trim_end (js_split 10 s)"
    by (rule js_split_join) (use trim_end_subset js_split_no_sep in \<open>fastforce\<close>)+
  then have e: "map trim_end (js_split 10 (tidy s)) = map (map smart_char) (map trim_end (js_split 10 s))"
    by (simp add: tidy_def js_split_map_smart trim_end_smart)
  have j: "js_join [10] (map (map smart_char) ls) = map smart_char (js_join [10] ls)" for ls
    by (induction "[10 :: nat]" ls rule: js_join.induct) (auto simp: smart_char_def)
  have "tidy (tidy s) = map smart_char (map smart_char (js_join [10] (map trim_end (js_split 10 s))))"
    by (simp only: tidy_def [of "tidy s"] e j)
  then show ?thesis by (simp add: tidy_def)
qed

subsection \<open>Occurrences\<close>

lemma split_first_complete: "s = a @ sep @ b \<Longrightarrow> split_first sep s \<noteq> None"
proof (induction a arbitrary: s)
  case Nil
  then have "starts_with sep s" by (simp add: starts_with_def)
  then show ?case by (cases s) (auto simp: starts_with_def [of _ "[]"])
next
  case (Cons c a)
  then show ?case by (auto split: option.splits)
qed

lemma split_first_earliest:
  assumes "s = a @ sep @ b"
  obtains a' b' where "split_first sep s = Some (a', b')" "length a' \<le> length a"
proof -
  obtain a' b' where *: "split_first sep s = Some (a', b')"
    using split_first_complete [OF assms] by auto
  have "length a' \<le> length a"
    using split_first_first [OF *, of "length a"] assms by (fastforce simp: starts_with_def)
  then show ?thesis using * that by blast
qed

lemma split_string_Some:
  "split_first sep s = Some (a, b) \<Longrightarrow> sep \<noteq> [] \<Longrightarrow> split_string sep s = a # split_string sep b"
  by (subst split_string.simps) simp

lemma split_string_not_Nil: "sep \<noteq> [] \<Longrightarrow> split_string sep s \<noteq> []"
  by (subst split_string.simps) (auto split: option.splits)

lemma split_string_twice:
  assumes "sep \<noteq> []" "s = a @ sep @ b @ sep @ c"
  shows "length (split_string sep s) \<ge> 3"
proof -
  obtain a' b' where *: "split_first sep s = Some (a', b')" "length a' \<le> length a"
    using split_first_earliest [of s a sep "b @ sep @ c"] assms by auto
  have "b' = drop (length a' + length sep) s"
    using split_first_Some [OF *(1)] by simp
  then have "b' = drop (length a' + length sep) (a @ sep @ b) @ sep @ c"
    using assms(2) *(2) by simp
  then have "split_first sep b' \<noteq> None" by (rule split_first_complete)
  then obtain a2 b2 where "split_first sep b' = Some (a2, b2)" by auto
  then have "split_string sep s = a' # a2 # split_string sep b2"
    using split_string_Some *(1) assms(1) by metis
  then show ?thesis
    using split_string_not_Nil [OF assms(1), of b2] by (simp add: Suc_le_eq)
qed

lemma single_occurrence:
  "countFuzzyOccurrences nfkc s old \<le> 1 \<Longrightarrow> f = normalizeForFuzzyMatch nfkc old \<Longrightarrow> f \<noteq> [] \<Longrightarrow>
     normalizeForFuzzyMatch nfkc s \<noteq> a @ f @ b @ f @ c"
  using split_string_twice [of f "normalizeForFuzzyMatch nfkc s" a b c]
  by (auto simp: countFuzzyOccurrences_def)


subsection \<open>Replacing disjoint pieces of a text\<close>

text \<open>A text made of gaps with pieces between them.\<close>

fun weave :: "js_string list \<Rightarrow> js_string list \<Rightarrow> js_string" where
  "weave (g # gs) (p # ps) = g @ p @ weave gs ps"
| "weave gs [] = concat gs"
| "weave [] (p # ps) = []"

fun fits :: "nat \<Rightarrow> matched_edit list \<Rightarrow> js_string \<Rightarrow> bool" where
  "fits pos [] base = (pos \<le> length base)"
| "fits pos (m # ms) base = (pos \<le> matchIndex m \<and> fits (matchIndex m + editLength m) ms base)"

fun gaps :: "nat \<Rightarrow> matched_edit list \<Rightarrow> js_string \<Rightarrow> js_string list" where
  "gaps pos [] base = [drop pos base]"
| "gaps pos (m # ms) base =
     take (matchIndex m - pos) (drop pos base) # gaps (matchIndex m + editLength m) ms base"

definition matched_text :: "js_string \<Rightarrow> matched_edit \<Rightarrow> js_string" where
  "matched_text base m = take (editLength m) (drop (matchIndex m) base)"

lemma length_gaps: "length (gaps pos ms base) = Suc (length ms)"
  by (induction ms arbitrary: pos) auto

lemma fits_bound: "fits pos ms base \<Longrightarrow> pos \<le> length base"
  by (induction ms arbitrary: pos) fastforce+

lemma weave_matched: "fits pos ms base \<Longrightarrow> weave (gaps pos ms base) (map (matched_text base) ms) = drop pos base"
proof (induction ms arbitrary: pos)
  case (Cons m ms)
  let ?i = "matchIndex m" and ?n = "editLength m"
  have "drop pos base = take (?i - pos) (drop pos base) @ drop ?i base"
    using Cons.prems append_take_drop_id [of "?i - pos" "drop pos base"] by (simp add: add.commute)
  moreover have "drop ?i base = matched_text base m @ drop (?i + ?n) base"
    using append_take_drop_id [of ?n "drop ?i base"] by (simp add: matched_text_def add.commute)
  ultimately show ?case using Cons by simp
qed simp

lemma splice_weave: "fits pos ms base \<Longrightarrow>
    foldr splice ms base = take pos base @ weave (gaps pos ms base) (map replacement ms)"
proof (induction ms arbitrary: pos)
  case (Cons m ms)
  let ?i = "matchIndex m" and ?j = "matchIndex m + editLength m"
  have IH: "foldr splice ms base = take ?j base @ weave (gaps ?j ms base) (map replacement ms)"
    and le: "pos \<le> ?i" "?j \<le> length base" using Cons fits_bound by auto
  then have "foldr splice (m # ms) base =
      take ?i base @ replacement m @ weave (gaps ?j ms base) (map replacement ms)"
    by (simp add: splice_def min_def)
  moreover have "take ?i base = take pos base @ take (?i - pos) (drop pos base)"
    using le(1) take_add [of pos "?i - pos" base] by simp
  ultimately show ?case by simp
qed simp

lemma fits_sorted:
  "first_overlap ms = None \<Longrightarrow> \<forall>m \<in> set ms. matchIndex m + editLength m \<le> length base \<Longrightarrow>
     pos \<le> length base \<Longrightarrow> (ms \<noteq> [] \<longrightarrow> pos \<le> matchIndex (hd ms)) \<Longrightarrow> fits pos ms base"
proof (induction ms arbitrary: pos rule: first_overlap.induct)
  case (1 p c ms)
  then show ?case by (auto split: if_splits)
qed auto

subsection \<open>What the matches are\<close>

definition located :: "(js_string \<Rightarrow> js_string) \<Rightarrow> js_string \<Rightarrow> js_string \<Rightarrow> js_string" where
  "located nfkc base old = (if js_includes base old then old else normalizeForFuzzyMatch nfkc old)"

definition edit_matches :: "(js_string \<Rightarrow> js_string) \<Rightarrow> js_string \<Rightarrow> edit \<Rightarrow> matched_edit \<Rightarrow> bool" where
  "edit_matches nfkc base e m \<longleftrightarrow>
     matchIndex m + editLength m \<le> length base
     \<and> matched_text base m = located nfkc base (oldText e)
     \<and> replacement m = newText e \<and> countFuzzyOccurrences nfkc base (oldText e) \<le> 1"

lemma index_from_0: "index_from sub s 0 = map_option (\<lambda>(a, b). length a) (split_first sub s)"
  by (simp add: index_from_def split: option.splits)

lemma index_from_matched:
  "index_from sub s 0 = Some i \<Longrightarrow> i + length sub \<le> length s \<and> take (length sub) (drop i s) = sub"
  by (auto simp: index_from_0 dest!: split_first_Some)

lemma fuzzyFindText_matched:
  assumes "found (fuzzyFindText nfkc base old)"
    and "usedFuzzyMatch (fuzzyFindText nfkc base old) \<Longrightarrow> normalizeForFuzzyMatch nfkc base = base"
  shows "nat (match_at (fuzzyFindText nfkc base old)) + matchLength (fuzzyFindText nfkc base old) \<le> length base
    \<and> take (matchLength (fuzzyFindText nfkc base old)) (drop (nat (match_at (fuzzyFindText nfkc base old))) base)
        = located nfkc base old"
proof (cases "index_from old base 0")
  case None
  let ?f = "normalizeForFuzzyMatch nfkc old"
  have l: "located nfkc base old = ?f"
    using None by (simp add: located_def js_includes_def index_from_0)
  obtain i where i: "index_from ?f (normalizeForFuzzyMatch nfkc base) 0 = Some i"
    using assms(1) None by (auto simp: fuzzyFindText_def Let_def split: option.splits)
  then have r: "fuzzyFindText nfkc base old = \<lparr>found = True, match_at = int i, matchLength = length ?f,
      usedFuzzyMatch = True, contentForReplacement = normalizeForFuzzyMatch nfkc base\<rparr>"
    using None by (simp add: fuzzyFindText_def)
  then have "normalizeForFuzzyMatch nfkc base = base" using assms(2) by simp
  then show ?thesis using index_from_matched [of ?f base i] i by (simp add: r l)
next
  case (Some i)
  then show ?thesis using index_from_matched [OF Some]
    by (auto simp: fuzzyFindText_def located_def js_includes_def index_from_0)
qed

lemma match_edits_matches:
  assumes "\<forall>e \<in> set es. usedFuzzyMatch (fuzzyFindText nfkc base (oldText e)) \<longrightarrow>
      normalizeForFuzzyMatch nfkc base = base"
    and "match_edits nfkc base path n i es = Inr ms"
  shows "list_all2 (edit_matches nfkc base) es ms"
  using assms
proof (induction es arbitrary: i ms)
  case (Cons e es)
  from Cons.prems(2) obtain ms' where ms': "match_edits nfkc base path n (Suc i) es = Inr ms'"
      and f: "found (fuzzyFindText nfkc base (oldText e))"
      and c: "countFuzzyOccurrences nfkc base (oldText e) \<le> 1"
      and ms: "ms = \<lparr>editIndex = i, matchIndex = nat (match_at (fuzzyFindText nfkc base (oldText e))),
         editLength = matchLength (fuzzyFindText nfkc base (oldText e)), replacement = newText e\<rparr> # ms'"
    by (auto simp: Let_def split: if_splits sum.splits)
  have "edit_matches nfkc base e (hd ms)"
    using fuzzyFindText_matched [OF f] Cons.prems(1) c ms by (simp add: edit_matches_def matched_text_def)
  then show ?case using Cons.IH [OF _ ms'] Cons.prems(1) ms by simp
qed simp


lemma matches_pieces:
  assumes "list_all2 (edit_matches nfkc base) es ms"
  shows "map (\<lambda>m. (matched_text base m, replacement m)) ms =
      map (\<lambda>e. (located nfkc base (oldText e), newText e)) es"
    and "\<forall>m \<in> set ms. matchIndex m + editLength m \<le> length base"
    and "\<forall>e \<in> set es. countFuzzyOccurrences nfkc base (oldText e) \<le> 1"
  using assms by (induction rule: list_all2_induct) (auto simp: edit_matches_def)

lemma fuzzy_only_when_missing:
  "usedFuzzyMatch (fuzzyFindText nfkc content old) \<Longrightarrow> \<not> js_includes content old"
  by (auto simp: fuzzyFindText_def js_includes_def index_from_0 split: option.splits)

lemma missing_not_found:
  "\<not> js_includes content old \<Longrightarrow> \<not> usedFuzzyMatch (fuzzyFindText nfkc content old) \<Longrightarrow>
     \<not> found (fuzzyFindText nfkc content old)"
  by (auto simp: fuzzyFindText_def js_includes_def index_from_0 Let_def split: option.splits)

lemma match_edits_found:
  "match_edits nfkc base path n i es = Inr ms \<Longrightarrow> e \<in> set es \<Longrightarrow> found (fuzzyFindText nfkc base (oldText e))"
  by (induction es arbitrary: i ms) (auto simp: Let_def split: if_splits sum.splits)

definition edit_base :: "(js_string \<Rightarrow> js_string) \<Rightarrow> js_string \<Rightarrow> edit list \<Rightarrow> js_string" where
  "edit_base nfkc content edits =
     (if list_all (\<lambda>e. js_includes content (normalizeToLF (oldText e))) edits
      then content else normalizeForFuzzyMatch nfkc content)"

lemma applied_cases:
  assumes "applyEditsToNormalizedContent nfkc content edits path = Inr r"
    and stable: "edit_base nfkc content edits \<noteq> content \<Longrightarrow> nfkc (tidy (nfkc content)) = tidy (nfkc content)"
  obtains ms where "list_all2 (edit_matches nfkc (baseContent r)) (map normalize_edit edits) ms"
    "first_overlap (sort_key matchIndex ms) = None"
    "newContent r = foldr splice (sort_key matchIndex ms) (baseContent r)"
    "baseContent r \<noteq> newContent r" "baseContent r = edit_base nfkc content edits"
proof -
  let ?es = "map normalize_edit edits"
  let ?fuzzy = "list_ex usedFuzzyMatch (map (\<lambda>e. fuzzyFindText nfkc content (oldText e)) ?es)"
  let ?base = "if ?fuzzy then normalizeForFuzzyMatch nfkc content else content"
  from assms(1) obtain ms where ms: "match_edits nfkc ?base path (length ?es) 0 ?es = Inr ms"
      and r: "first_overlap (sort_key matchIndex ms) = None"
        "newContent r = foldr splice (sort_key matchIndex ms) (baseContent r)"
        "baseContent r \<noteq> newContent r" "baseContent r = ?base"
    by (auto simp: applyEditsToNormalizedContent_def Let_def split: option.splits sum.splits if_splits)
  have base: "?base = edit_base nfkc content edits"
  proof (cases ?fuzzy)
    case True
    then show ?thesis using fuzzy_only_when_missing
      by (fastforce simp: edit_base_def list_ex_iff list_all_iff normalize_edit_def)
  next
    case False
    have "js_includes content (oldText (normalize_edit e))" if "e \<in> set edits" for e
      using missing_not_found match_edits_found [OF ms, of "normalize_edit e"] False that
      by (fastforce simp: list_ex_iff)
    then have "list_all (\<lambda>e. js_includes content (normalizeToLF (oldText e))) edits"
      by (simp add: list_all_iff normalize_edit_def)
    then show ?thesis using False by (simp add: edit_base_def)
  qed
  have "\<forall>e \<in> set ?es. usedFuzzyMatch (fuzzyFindText nfkc ?base (oldText e)) \<longrightarrow>
      normalizeForFuzzyMatch nfkc ?base = ?base"
  proof (cases ?fuzzy)
    case True
    have "normalizeForFuzzyMatch nfkc (normalizeForFuzzyMatch nfkc content) = normalizeForFuzzyMatch nfkc content"
    proof (cases "normalizeForFuzzyMatch nfkc content = content")
      case False
      then have "nfkc (tidy (nfkc content)) = tidy (nfkc content)" using stable base True by simp
      then show ?thesis by (simp add: normalizeForFuzzyMatch_def tidy_idem)
    qed simp
    then show ?thesis using True by simp
  next
    case False
    then show ?thesis by (simp add: list_ex_iff)
  qed
  from match_edits_matches [OF this ms] show ?thesis using that r base by simp
qed

lemma applied_pieces:
  assumes "applyEditsToNormalizedContent nfkc content edits path = Inr r"
    and "edit_base nfkc content edits \<noteq> content \<Longrightarrow> nfkc (tidy (nfkc content)) = tidy (nfkc content)"
  obtains gs ps where "length gs = Suc (length ps)"
    "mset ps = mset (map (\<lambda>e. (located nfkc (baseContent r) (normalizeToLF (oldText e)),
                                normalizeToLF (newText e))) edits)"
    "baseContent r = weave gs (map fst ps)" "newContent r = weave gs (map snd ps)"
    "baseContent r = edit_base nfkc content edits" "baseContent r \<noteq> newContent r"
    "\<And>e. e \<in> set edits \<Longrightarrow> countFuzzyOccurrences nfkc (baseContent r) (normalizeToLF (oldText e)) \<le> 1"
proof -
  obtain ms where ms: "list_all2 (edit_matches nfkc (baseContent r)) (map normalize_edit edits) ms"
      and o: "first_overlap (sort_key matchIndex ms) = None"
      and new: "newContent r = foldr splice (sort_key matchIndex ms) (baseContent r)"
      and b: "baseContent r \<noteq> newContent r" "baseContent r = edit_base nfkc content edits"
    by (rule applied_cases [OF assms])
  let ?base = "baseContent r"
  let ?ms = "sort_key matchIndex ms"
  let ?ps = "map (\<lambda>m. (matched_text ?base m, replacement m)) ?ms"
  note p = matches_pieces [OF ms]
  have fits: "fits 0 ?ms ?base" using p(2) by (intro fits_sorted [OF o]) auto
  have "mset ?ps = mset (map (\<lambda>m. (matched_text ?base m, replacement m)) ms)" by simp
  then have "mset ?ps = mset (map (\<lambda>e. (located nfkc ?base (normalizeToLF (oldText e)), normalizeToLF (newText e))) edits)"
    unfolding p(1) by (simp add: normalize_edit_def comp_def)
  moreover have "?base = weave (gaps 0 ?ms ?base) (map fst ?ps)"
    using weave_matched [OF fits] by (simp add: comp_def)
  moreover have "newContent r = weave (gaps 0 ?ms ?base) (map snd ?ps)"
    using splice_weave [OF fits] new by (simp add: comp_def)
  moreover have "countFuzzyOccurrences nfkc ?base (normalizeToLF (oldText e)) \<le> 1" if "e \<in> set edits" for e
    using p(3) that by (auto simp: normalize_edit_def)
  moreover have "length (gaps 0 ?ms ?base) = Suc (length ?ps)" by (simp add: length_gaps)
  ultimately show ?thesis using that b by blast
qed

text \<open>
  C9: An accepted batch of edits replaces every old text by its new text and nothing else.  The
  base is the content itself when every old text occurs in it, and its normalized form otherwise;
  it consists of gaps and, between them, of the old texts of all edits in the order of the file
  (normalized where they do not occur as they are), and the new content has the same gaps with the
  new texts between them.  No old text has two disjoint occurrences in the normalized base.
\<close>

theorem applied_edits_replace:
  assumes "nfkc (tidy (nfkc content)) = tidy (nfkc content)"
    and "applyEditsToNormalizedContent nfkc content edits path = Inr r"
  shows "baseContent r = edit_base nfkc content edits \<and> baseContent r \<noteq> newContent r
    \<and> (\<exists>gs ps. length gs = Suc (length ps)
         \<and> mset ps = mset (map (\<lambda>e. (located nfkc (baseContent r) (normalizeToLF (oldText e)),
                                      normalizeToLF (newText e))) edits)
         \<and> baseContent r = weave gs (map fst ps) \<and> newContent r = weave gs (map snd ps))
    \<and> (\<forall>e \<in> set edits. \<forall>a b c f. f = normalizeForFuzzyMatch nfkc (normalizeToLF (oldText e)) \<longrightarrow> f \<noteq> [] \<longrightarrow>
         normalizeForFuzzyMatch nfkc (baseContent r) \<noteq> a @ f @ b @ f @ c)"
proof -
  obtain gs ps where "length gs = Suc (length ps)"
    "mset ps = mset (map (\<lambda>e. (located nfkc (baseContent r) (normalizeToLF (oldText e)),
                                normalizeToLF (newText e))) edits)"
    "baseContent r = weave gs (map fst ps)" "newContent r = weave gs (map snd ps)"
    and b: "baseContent r = edit_base nfkc content edits" "baseContent r \<noteq> newContent r"
    and c: "\<And>e. e \<in> set edits \<Longrightarrow> countFuzzyOccurrences nfkc (baseContent r) (normalizeToLF (oldText e)) \<le> 1"
    by (rule applied_pieces [OF assms(2,1)]) (rule that)
  then show ?thesis
    by (intro conjI exI [of _ gs] exI [of _ ps] ballI allI impI b single_occurrence) auto
qed


text \<open>A run with a ligature, a curly quote and two edits given out of order.\<close>

definition demo_nfkc :: "js_string \<Rightarrow> js_string" where
  "demo_nfkc s = concat (map (\<lambda>c. if c = 0xfb01 then str ''fi'' else [c]) s)"

definition demo_content :: js_string where
  "demo_content = [0xfb01, 0x2019, 10] @ str ''b''"

definition demo_edits :: "edit list" where
  "demo_edits = [\<lparr>oldText = str ''b'', newText = str ''c''\<rparr>, \<lparr>oldText = str ''fi'' @ [39], newText = [13, 10]\<rparr>]"

lemma demo_normal:
  "normalizeForFuzzyMatch demo_nfkc demo_content = [102, 105, 39, 10, 98]"
  "normalizeForFuzzyMatch demo_nfkc [102, 105, 39, 10, 98] = [102, 105, 39, 10, 98]"
  "normalizeForFuzzyMatch demo_nfkc [102, 105, 39] = [102, 105, 39]"
  "normalizeForFuzzyMatch demo_nfkc [98] = [98]"
  by (simp_all add: normalizeForFuzzyMatch_def demo_content_def demo_nfkc_def str_def tidy_def
      smart_char_def trim_end_def js_space_def)

lemma demo_occurrences:
  "split_string [102, 105, 39] [102, 105, 39, 10, 98] = [[], [10, 98]]"
  "split_string [98] [102, 105, 39, 10, 98] = [[102, 105, 39, 10], []]"
  by (simp_all add: split_string.simps [of "[_, _, _]"] split_string.simps [of "[98]"] starts_with_def)

lemma demo_normalized_edits: "map normalize_edit demo_edits =
    [\<lparr>oldText = [98], newText = [99]\<rparr>, \<lparr>oldText = [102, 105, 39], newText = [10]\<rparr>]"
  by (simp add: demo_edits_def normalize_edit_def normalizeToLF_alt str_def starts_with_def)

lemma demo_applied:
  "applyEditsToNormalizedContent demo_nfkc demo_content demo_edits [] =
     Inr \<lparr>baseContent = [102, 105, 39, 10, 98], newContent = [10, 10, 99]\<rparr>"
  using demo_normal
  by (simp add: applyEditsToNormalizedContent_def demo_normalized_edits fuzzyFindText_def Let_def
      index_from_0 starts_with_def demo_content_def str_def countFuzzyOccurrences_def
      demo_occurrences splice_def)

lemma applied_edits_replace_witness:
  "\<exists>gs ps. length gs = Suc (length ps) \<and> length ps = 2
     \<and> [102, 105, 39, 10, 98] = weave gs (map fst ps) \<and> [10, 10, 99] = weave gs (map snd ps)"
proof -
  have "demo_nfkc (tidy (demo_nfkc demo_content)) = tidy (demo_nfkc demo_content)"
    using demo_normal(1) by (simp add: normalizeForFuzzyMatch_def) (simp add: demo_nfkc_def)
  from applied_edits_replace [OF this demo_applied, THEN conjunct2, THEN conjunct2, THEN conjunct1]
  obtain gs ps where gs: "length gs = Suc (length ps)" "[102, 105, 39, 10, 98] = weave gs (map fst ps)"
      "[10, 10, 99] = weave gs (map snd ps)"
    and ps: "mset ps = mset (map (\<lambda>e. (located demo_nfkc [102, 105, 39, 10, 98] (normalizeToLF (oldText e)),
        normalizeToLF (newText e))) demo_edits)"
    unfolding applied_edits.simps by (elim exE conjE)
  have "length ps = 2" using arg_cong [OF ps, of size] by (simp add: demo_edits_def)
  with gs show ?thesis by blast
qed


subsection \<open>Two old texts that are found wrongly\<close>

lemma blank_old_text_at_start:
  assumes "index_from old content 0 = None" "normalizeForFuzzyMatch nfkc old = []"
  shows "found (fuzzyFindText nfkc content old)" "match_at (fuzzyFindText nfkc content old) = 0"
    "matchLength (fuzzyFindText nfkc content old) = 0"
proof -
  have "index_from [] s 0 = Some 0" for s
    by (cases s) (auto simp: index_from_def starts_with_def)
  then show "found (fuzzyFindText nfkc content old)" "match_at (fuzzyFindText nfkc content old) = 0"
    "matchLength (fuzzyFindText nfkc content old) = 0"
    using assms by (simp_all add: fuzzyFindText_def Let_def)
qed

lemma overlapping_counted_once:
  "countFuzzyOccurrences (\<lambda>s. s) (str ''aaa'') (str ''aa'') = 1"
  by (simp add: countFuzzyOccurrences_def normalizeForFuzzyMatch_def tidy_def smart_char_def trim_end_def
      js_space_def str_def split_string.simps [of "[_, _]"] starts_with_def)

end
