(* ===== verification/DiffText.thy ===== *)
theory DiffText
  imports EditDiff
begin

text \<open>
  \<open>generateDiffString\<close> of \<open>packages/coding-agent/src/core/tools/edit-diff.ts\<close>: the diff with line
  numbers that the edit tool shows.  The parts that \<open>Diff.diffLines\<close> returns are the argument
  \<open>parts\<close>.
\<close>

record diff_part =
  part_value :: js_string
  part_added :: bool
  part_removed :: bool

record diff_state =
  diff_output :: "js_string list"
  oldLineNum :: nat
  newLineNum :: nat
  lastWasChange :: bool
  firstChangedLine :: "nat option"

definition is_change :: "diff_part \<Rightarrow> bool" where
  "is_change p \<longleftrightarrow> part_added p \<or> part_removed p"

definition lines_of :: "js_string \<Rightarrow> js_string list" where
  "lines_of s = (let raw = js_split 10 s in if List.last raw = [] then butlast raw else raw)"

definition pad_start :: "nat \<Rightarrow> js_string \<Rightarrow> js_string" where
  "pad_start w s = replicate (w - length s) 32 @ s"

definition numbered :: "nat \<Rightarrow> nat \<Rightarrow> nat \<Rightarrow> js_string \<Rightarrow> js_string" where
  "numbered sign w n line = sign # pad_start w (show_nat n) @ 32 # line"

definition skipped_mark :: "nat \<Rightarrow> js_string" where
  "skipped_mark w = 32 # pad_start w [] @ str '' ...''"

definition push_added :: "nat \<Rightarrow> js_string \<Rightarrow> diff_state \<Rightarrow> diff_state" where
  "push_added w line st =
     st\<lparr>diff_output := diff_output st @ [numbered 43 w (newLineNum st) line], newLineNum := newLineNum st + 1\<rparr>"

definition push_removed :: "nat \<Rightarrow> js_string \<Rightarrow> diff_state \<Rightarrow> diff_state" where
  "push_removed w line st =
     st\<lparr>diff_output := diff_output st @ [numbered 45 w (oldLineNum st) line], oldLineNum := oldLineNum st + 1\<rparr>"

definition push_context :: "nat \<Rightarrow> js_string \<Rightarrow> diff_state \<Rightarrow> diff_state" where
  "push_context w line st =
     st\<lparr>diff_output := diff_output st @ [numbered 32 w (oldLineNum st) line],
        oldLineNum := oldLineNum st + 1, newLineNum := newLineNum st + 1\<rparr>"

definition skip_lines :: "nat \<Rightarrow> diff_state \<Rightarrow> diff_state" where
  "skip_lines k st = st\<lparr>oldLineNum := oldLineNum st + k, newLineNum := newLineNum st + k\<rparr>"

definition push_skipped :: "nat \<Rightarrow> nat \<Rightarrow> diff_state \<Rightarrow> diff_state" where
  "push_skipped w k st = skip_lines k (st\<lparr>diff_output := diff_output st @ [skipped_mark w]\<rparr>)"

definition change_part :: "nat \<Rightarrow> diff_part \<Rightarrow> js_string list \<Rightarrow> diff_state \<Rightarrow> diff_state" where
  "change_part w p raw st =
     (let st1 = (if firstChangedLine st = None then st\<lparr>firstChangedLine := Some (newLineNum st)\<rparr> else st);
          st2 = fold (if part_added p then push_added w else push_removed w) raw st1
      in st2\<lparr>lastWasChange := True\<rparr>)"

definition context_part :: "nat \<Rightarrow> nat \<Rightarrow> bool \<Rightarrow> js_string list \<Rightarrow> diff_state \<Rightarrow> diff_state" where
  "context_part w contextLines nextPartIsChange raw st =
     (let hasLeadingChange = lastWasChange st;
          hasTrailingChange = nextPartIsChange;
          st1 =
            (if hasLeadingChange \<and> hasTrailingChange then
               (if length raw \<le> contextLines * 2 then fold (push_context w) raw st
                else
                  (let leadingLines = take contextLines raw;
                       trailingLines = drop (length raw - contextLines) raw;
                       skippedLines = length raw - length leadingLines - length trailingLines
                   in fold (push_context w) trailingLines
                        (push_skipped w skippedLines (fold (push_context w) leadingLines st))))
             else if hasLeadingChange then
               (let shownLines = take contextLines raw;
                    skippedLines = length raw - length shownLines;
                    st2 = fold (push_context w) shownLines st
                in if skippedLines > 0 then push_skipped w skippedLines st2 else st2)
             else if hasTrailingChange then
               (let skippedLines = length raw - contextLines;
                    st2 = (if skippedLines > 0 then push_skipped w skippedLines st else st)
                in fold (push_context w) (drop skippedLines raw) st2)
             else skip_lines (length raw) st)
      in st1\<lparr>lastWasChange := False\<rparr>)"

fun diff_loop :: "nat \<Rightarrow> nat \<Rightarrow> diff_part list \<Rightarrow> diff_state \<Rightarrow> diff_state" where
  "diff_loop w contextLines [] st = st"
| "diff_loop w contextLines (p # ps) st =
     (let raw = lines_of (part_value p)
      in diff_loop w contextLines ps
           (if is_change p then change_part w p raw st
            else context_part w contextLines (ps \<noteq> [] \<and> is_change (hd ps)) raw st))"

definition diff_start :: diff_state where
  "diff_start = \<lparr>diff_output = [], oldLineNum = 1, newLineNum = 1, lastWasChange = False, firstChangedLine = None\<rparr>"

definition lineNumWidth :: "js_string \<Rightarrow> js_string \<Rightarrow> nat" where
  "lineNumWidth before after =
     length (show_nat (max (length (js_split 10 before)) (length (js_split 10 after))))"

definition generateDiffString ::
  "diff_part list \<Rightarrow> js_string \<Rightarrow> js_string \<Rightarrow> nat \<Rightarrow> js_string \<times> nat option" where
  "generateDiffString parts before after contextLines =
     (let st = diff_loop (lineNumWidth before after) contextLines parts diff_start
      in (js_join [10] (diff_output st), firstChangedLine st))"

subsection \<open>Lines\<close>

lemma lines_of_Nil [simp]: "lines_of [] = []"
  by (simp add: lines_of_def)

lemma js_split_append_newline: "js_split 10 (s @ 10 # t) = js_split 10 s @ js_split 10 t"
  by (induction s) (auto split: list.splits)

lemma lines_of_append: "s = [] \<or> List.last s = 10 \<Longrightarrow> lines_of (s @ t) = lines_of s @ lines_of t"
proof (cases "s = []")
  case False
  assume "s = [] \<or> List.last s = 10"
  then obtain s' where s: "s = s' @ [10]" using False by (metis append_butlast_last_id)
  have "lines_of s = js_split 10 s'" by (simp add: lines_of_def s js_split_append_newline Let_def)
  moreover have "lines_of (s @ t) = js_split 10 s' @ lines_of t"
    by (simp add: lines_of_def s js_split_append_newline Let_def butlast_append)
  ultimately show ?thesis by simp
qed simp

lemma lines_of_prefix: "\<exists>r. js_split 10 s = lines_of s @ r"
  by (simp add: lines_of_def Let_def) (metis append_butlast_last_id js_split_not_Nil)

subsection \<open>What diffLines returns\<close>

fun old_text :: "diff_part list \<Rightarrow> js_string" where
  "old_text [] = []"
| "old_text (p # ps) = (if part_added p then [] else part_value p) @ old_text ps"

fun new_text :: "diff_part list \<Rightarrow> js_string" where
  "new_text [] = []"
| "new_text (p # ps) = (if part_removed p then [] else part_value p) @ new_text ps"

text \<open>
  Parts are not empty, are not both added and removed, and start at the start of a line of every
  text they belong to; \<open>u\<close> and \<open>v\<close> are the old and the new text of the parts before.
\<close>

definition line_end :: "js_string \<Rightarrow> bool" where
  "line_end s \<longleftrightarrow> s = [] \<or> List.last s = 10"

fun aligned :: "js_string \<Rightarrow> js_string \<Rightarrow> diff_part list \<Rightarrow> bool" where
  "aligned u v [] = True"
| "aligned u v (p # ps) =
     (part_value p \<noteq> [] \<and> \<not> (part_added p \<and> part_removed p)
      \<and> (part_added p \<or> line_end u) \<and> (part_removed p \<or> line_end v)
      \<and> aligned (u @ old_text [p]) (v @ new_text [p]) ps)"

lemma old_text_append [simp]: "old_text (ps @ qs) = old_text ps @ old_text qs"
  by (induction ps) auto

lemma new_text_append [simp]: "new_text (ps @ qs) = new_text ps @ new_text qs"
  by (induction ps) auto

lemma aligned_ends:
  "aligned u v ps \<Longrightarrow> line_end u \<or> old_text ps = []"
  "aligned u v ps \<Longrightarrow> line_end v \<or> new_text ps = []"
  by (induction ps arbitrary: u v) (auto split: if_splits)

lemma lines_of_at_end: "line_end u \<or> r = [] \<Longrightarrow> \<exists>t. js_split 10 (u @ r) = lines_of u @ t"
proof (cases "r = []")
  case False
  assume "line_end u \<or> r = []"
  then have "lines_of (u @ r) = lines_of u @ lines_of r" using False by (simp add: line_end_def lines_of_append)
  then show ?thesis using lines_of_prefix [of "u @ r"] by auto
qed (simp add: lines_of_prefix)

text \<open>The number of a line of a text.\<close>

definition line_at :: "js_string \<Rightarrow> nat \<Rightarrow> js_string \<Rightarrow> bool" where
  "line_at s k l \<longleftrightarrow> 1 \<le> k \<and> k \<le> length (js_split 10 s) \<and> js_split 10 s ! (k - 1) = l"

lemma line_at_part:
  assumes "line_end u" "line_end (u @ x) \<or> r = []" "(k, l) \<in> set (enumerate (Suc (length (lines_of u))) (lines_of x))"
  shows "line_at (u @ x @ r) k l"
proof -
  obtain t where "js_split 10 (u @ x @ r) = lines_of (u @ x) @ t"
    using lines_of_at_end [OF assms(2)] by auto
  moreover have "lines_of (u @ x) = lines_of u @ lines_of x"
    using assms(1) by (simp add: line_end_def lines_of_append)
  moreover obtain i where "i < length (lines_of x)" "k = Suc (length (lines_of u)) + i" "l = lines_of x ! i"
    using assms(3) by (auto simp: in_set_enumerate_eq intro: that [of "k - Suc (length (lines_of u))"])
  ultimately show ?thesis by (simp add: line_at_def nth_append)
qed

subsection \<open>Runs of pushes\<close>

lemma fold_push_added: "fold (push_added w) ls st =
    st\<lparr>diff_output := diff_output st @ map (\<lambda>(k, l). numbered 43 w k l) (enumerate (newLineNum st) ls),
       newLineNum := newLineNum st + length ls\<rparr>"
  by (induction ls arbitrary: st) (simp_all add: push_added_def)

lemma fold_push_removed: "fold (push_removed w) ls st =
    st\<lparr>diff_output := diff_output st @ map (\<lambda>(k, l). numbered 45 w k l) (enumerate (oldLineNum st) ls),
       oldLineNum := oldLineNum st + length ls\<rparr>"
  by (induction ls arbitrary: st) (simp_all add: push_removed_def)

lemma fold_push_context: "fold (push_context w) ls st =
    st\<lparr>diff_output := diff_output st @ map (\<lambda>(k, l). numbered 32 w k l) (enumerate (oldLineNum st) ls),
       oldLineNum := oldLineNum st + length ls, newLineNum := newLineNum st + length ls\<rparr>"
  by (induction ls arbitrary: st) (simp_all add: push_context_def)

lemmas push_folds = fold_push_added fold_push_removed fold_push_context

lemma enumerate_take_subset: "set (enumerate n (take k xs)) \<subseteq> set (enumerate n xs)"
  by (auto simp: in_set_enumerate_eq)

lemma enumerate_drop_subset: "set (enumerate (n + k) (drop k xs)) \<subseteq> set (enumerate n xs)"
  by (auto simp: in_set_enumerate_eq)

lemma change_part_effect:
  "change_part w p raw st = \<lparr>diff_output = diff_output st @
      (if part_added p then map (\<lambda>(k, l). numbered 43 w k l) (enumerate (newLineNum st) raw)
       else map (\<lambda>(k, l). numbered 45 w k l) (enumerate (oldLineNum st) raw)),
     oldLineNum = (if part_added p then oldLineNum st else oldLineNum st + length raw),
     newLineNum = (if part_added p then newLineNum st + length raw else newLineNum st),
     lastWasChange = True,
     firstChangedLine = (case firstChangedLine st of None \<Rightarrow> Some (newLineNum st) | Some k \<Rightarrow> Some k)\<rparr>"
  by (cases st) (auto simp: change_part_def push_folds Let_def split: option.splits)


definition context_lines :: "nat \<Rightarrow> nat \<Rightarrow> js_string list \<Rightarrow> js_string set" where
  "context_lines w n raw = insert (skipped_mark w) ((\<lambda>(k, l). numbered 32 w k l) ` set (enumerate n raw))"

lemma context_lines_take: "(\<lambda>(k, l). numbered 32 w k l) ` set (enumerate n (take j raw)) \<subseteq> context_lines w n raw"
  using enumerate_take_subset [of n j raw] by (auto simp: context_lines_def)

lemma context_lines_drop:
  "(\<lambda>(k, l). numbered 32 w k l) ` set (enumerate (n + j) (drop j raw)) \<subseteq> context_lines w n raw"
  using enumerate_drop_subset [of n j raw] by (auto simp: context_lines_def)

lemma skipped_mark_context: "skipped_mark w \<in> context_lines w n raw"
  by (simp add: context_lines_def)

lemma context_part_effect:
  "\<exists>es. context_part w c next raw st =
     \<lparr>diff_output = diff_output st @ es, oldLineNum = oldLineNum st + length raw,
      newLineNum = newLineNum st + length raw, lastWasChange = False, firstChangedLine = firstChangedLine st\<rparr>
     \<and> set es \<subseteq> context_lines w (oldLineNum st) raw"
proof -
  let ?all = "\<lambda>n ls. map (\<lambda>(k, l). numbered 32 w k l) (enumerate n ls)"
  let ?n = "oldLineNum st"
  let ?es =
    "if lastWasChange st \<and> next then
       (if length raw \<le> c * 2 then ?all ?n raw
        else ?all ?n (take c raw) @ [skipped_mark w] @ ?all (?n + (length raw - c)) (drop (length raw - c) raw))
     else if lastWasChange st then
       ?all ?n (take c raw) @ (if length raw - length (take c raw) > 0 then [skipped_mark w] else [])
     else if next then
       (if length raw - c > 0 then [skipped_mark w] else []) @ ?all (?n + (length raw - c)) (drop (length raw - c) raw)
     else []"
  have "context_part w c next raw st =
     \<lparr>diff_output = diff_output st @ ?es, oldLineNum = ?n + length raw,
      newLineNum = newLineNum st + length raw, lastWasChange = False, firstChangedLine = firstChangedLine st\<rparr>"
    by (cases st) (auto simp: context_part_def push_folds push_skipped_def skip_lines_def Let_def min_def)
  moreover have "set ?es \<subseteq> context_lines w ?n raw"
    using context_lines_take [of w ?n c raw] context_lines_drop [of w ?n 0 raw]
      context_lines_drop [of w ?n "length raw - c" raw] skipped_mark_context [of w ?n raw]
    by (simp only: set_append list.set set_map add_0_right drop_0 split: if_split) blast
  ultimately show ?thesis by blast
qed


subsection \<open>What one part shows\<close>

definition shown :: "nat \<Rightarrow> js_string \<Rightarrow> js_string \<Rightarrow> js_string \<Rightarrow> bool" where
  "shown w before after s \<longleftrightarrow> s = skipped_mark w
     \<or> (\<exists>k l. s = numbered 43 w k l \<and> line_at after k l)
     \<or> (\<exists>k l. s = numbered 45 w k l \<and> line_at before k l)
     \<or> (\<exists>k l. s = numbered 32 w k l \<and> line_at before k l \<and> l \<in> set (js_split 10 after))"

lemma shown_change:
  "line_at after k l \<Longrightarrow> shown w before after (numbered 43 w k l)"
  "line_at before k l \<Longrightarrow> shown w before after (numbered 45 w k l)"
  by (auto simp: shown_def)

definition at_text :: "js_string \<Rightarrow> js_string \<Rightarrow> diff_state \<Rightarrow> bool" where
  "at_text u v st \<longleftrightarrow> oldLineNum st = Suc (length (lines_of u)) \<and> newLineNum st = Suc (length (lines_of v))"

definition diff_step :: "nat \<Rightarrow> nat \<Rightarrow> diff_part \<Rightarrow> diff_part list \<Rightarrow> diff_state \<Rightarrow> diff_state" where
  "diff_step w c p ps st =
     (if is_change p then change_part w p (lines_of (part_value p)) st
      else context_part w c (ps \<noteq> [] \<and> is_change (hd ps)) (lines_of (part_value p)) st)"

lemma diff_loop_step: "diff_loop w c (p # ps) st = diff_loop w c ps (diff_step w c p ps st)"
  by (simp add: diff_step_def)

lemma line_end_lines: "line_end u \<Longrightarrow> lines_of (u @ x) = lines_of u @ lines_of x"
  by (simp add: line_end_def lines_of_append)

lemma diff_step_at:
  assumes "at_text u v st" "aligned u v (p # ps)"
  shows "at_text (u @ old_text [p]) (v @ new_text [p]) (diff_step w c p ps st)"
  using assms context_part_effect [of w c "ps \<noteq> [] \<and> is_change (hd ps)" "lines_of (part_value p)" st]
  by (auto simp: at_text_def diff_step_def change_part_effect is_change_def line_end_lines)

lemma diff_step_first:
  "firstChangedLine (diff_step w c p ps st) =
     (if is_change p \<and> firstChangedLine st = None then Some (newLineNum st) else firstChangedLine st)"
  using context_part_effect [of w c "ps \<noteq> [] \<and> is_change (hd ps)" "lines_of (part_value p)" st]
  by (auto simp: diff_step_def change_part_effect split: option.splits)

lemma diff_step_change:
  "part_added p \<Longrightarrow> diff_output (diff_step w c p ps st) = diff_output st @
     map (\<lambda>(k, l). numbered 43 w k l) (enumerate (newLineNum st) (lines_of (part_value p)))"
  "part_removed p \<Longrightarrow> \<not> part_added p \<Longrightarrow> diff_output (diff_step w c p ps st) = diff_output st @
     map (\<lambda>(k, l). numbered 45 w k l) (enumerate (oldLineNum st) (lines_of (part_value p)))"
  by (simp_all add: diff_step_def is_change_def change_part_effect)

lemma diff_step_context:
  "\<not> is_change p \<Longrightarrow> \<exists>es. diff_output (diff_step w c p ps st) = diff_output st @ es
     \<and> set es \<subseteq> context_lines w (oldLineNum st) (lines_of (part_value p))"
  using context_part_effect [of w c "ps \<noteq> [] \<and> is_change (hd ps)" "lines_of (part_value p)" st]
  by (auto simp: diff_step_def)

lemma context_lines_shown:
  assumes "line_end u" "line_end v" "line_end (u @ x) \<or> r = []" "line_end (v @ x) \<or> t = []"
    and "s \<in> context_lines w (Suc (length (lines_of u))) (lines_of x)"
  shows "shown w (u @ x @ r) (v @ x @ t) s"
proof (cases "s = skipped_mark w")
  case False
  then obtain k l where s: "s = numbered 32 w k l"
      and kl: "(k, l) \<in> set (enumerate (Suc (length (lines_of u))) (lines_of x))"
    using assms(5) by (auto simp: context_lines_def)
  then have "(k - Suc (length (lines_of u)) + Suc (length (lines_of v)), l)
      \<in> set (enumerate (Suc (length (lines_of v))) (lines_of x))"
    by (auto simp: in_set_enumerate_eq)
  from line_at_part [OF assms(2,4) this] have "l \<in> set (js_split 10 (v @ x @ t))"
    by (auto simp: line_at_def)
  then show ?thesis using line_at_part [OF assms(1,3) kl] s by (auto simp: shown_def)
qed (simp add: shown_def)

lemma diff_step_shown:
  assumes "at_text u v st" "aligned u v (p # ps)"
  shows "\<exists>es. diff_output (diff_step w c p ps st) = diff_output st @ es
    \<and> (\<forall>s \<in> set es. shown w (u @ old_text (p # ps)) (v @ new_text (p # ps)) s)"
proof -
  let ?x = "part_value p"
  have al: "aligned (u @ old_text [p]) (v @ new_text [p]) ps" using assms(2) by simp
  note e = aligned_ends [OF al]
  consider "part_added p" "\<not> part_removed p" | "part_removed p" "\<not> part_added p" | "\<not> is_change p"
    using assms(2) by (auto simp: is_change_def)
  then show ?thesis
  proof cases
    case 1
    then have "line_at (v @ ?x @ new_text ps) k l"
      if "(k, l) \<in> set (enumerate (newLineNum st) (lines_of ?x))" for k l
      using line_at_part [of v ?x "new_text ps"] assms e(2) that by (simp add: at_text_def)
    then show ?thesis using 1 by (auto simp: diff_step_change intro: shown_change)
  next
    case 2
    then have "line_at (u @ ?x @ old_text ps) k l"
      if "(k, l) \<in> set (enumerate (oldLineNum st) (lines_of ?x))" for k l
      using line_at_part [of u ?x "old_text ps"] assms e(1) that by (simp add: at_text_def)
    then show ?thesis using 2 by (auto simp: diff_step_change intro: shown_change)
  next
    case 3
    then have n: "\<not> part_added p" "\<not> part_removed p" by (auto simp: is_change_def)
    obtain es where "diff_output (diff_step w c p ps st) = diff_output st @ es"
        "set es \<subseteq> context_lines w (oldLineNum st) (lines_of ?x)"
      using diff_step_context [OF 3] by blast
    then show ?thesis
      using context_lines_shown [of u v ?x "old_text ps" "new_text ps"] assms e n
      by (intro exI [of _ es]) (auto simp: at_text_def)
  qed
qed


subsection \<open>The whole diff\<close>

lemma diff_step_grows: "\<exists>es. diff_output (diff_step w c p ps st) = diff_output st @ es"
  using diff_step_change [of p w c ps st] diff_step_context [of p w c ps st]
  by (cases "part_added p"; cases "part_removed p") (auto simp: is_change_def)

lemma diff_loop_grows: "set (diff_output st) \<subseteq> set (diff_output (diff_loop w c ps st))"
proof (induction ps arbitrary: st)
  case (Cons p ps)
  have "set (diff_output st) \<subseteq> set (diff_output (diff_step w c p ps st))"
    using diff_step_grows [of w c p ps st] by auto
  also have "\<dots> \<subseteq> set (diff_output (diff_loop w c (p # ps) st))"
    unfolding diff_loop_step by (rule Cons.IH)
  finally show ?case .
qed simp

lemma diff_loop_shown:
  "at_text u v st \<Longrightarrow> aligned u v ps \<Longrightarrow>
   \<forall>s \<in> set (diff_output st). shown w (u @ old_text ps) (v @ new_text ps) s \<Longrightarrow>
   \<forall>s \<in> set (diff_output (diff_loop w c ps st)). shown w (u @ old_text ps) (v @ new_text ps) s"
proof (induction ps arbitrary: u v st)
  case (Cons p ps)
  let ?st = "diff_step w c p ps st" and ?u = "u @ old_text [p]" and ?v = "v @ new_text [p]"
  have u: "u @ old_text (p # ps) = ?u @ old_text ps" "v @ new_text (p # ps) = ?v @ new_text ps" by simp_all
  have "\<forall>s \<in> set (diff_output ?st). shown w (u @ old_text (p # ps)) (v @ new_text (p # ps)) s"
    using diff_step_shown [OF Cons.prems(1,2), of w c] Cons.prems(3) by auto
  moreover have "aligned ?u ?v ps" using Cons.prems(2) by simp
  ultimately show ?case
    using Cons.IH [OF diff_step_at [OF Cons.prems(1,2)]] unfolding diff_loop_step u by blast
qed simp

text \<open>The lines of a text \<open>x\<close> that follows \<open>u\<close>, numbered.\<close>

definition change_lines :: "nat \<Rightarrow> nat \<Rightarrow> js_string \<Rightarrow> js_string \<Rightarrow> js_string set" where
  "change_lines sign w u x =
     (\<lambda>(k, l). numbered sign w k l) ` set (enumerate (Suc (length (lines_of u))) (lines_of x))"

lemma diff_step_change_lines:
  assumes "at_text u v st" "\<not> (part_added p \<and> part_removed p)"
  shows "part_added p \<longrightarrow> change_lines 43 w v (part_value p) \<subseteq> set (diff_output (diff_step w c p ps st))"
    and "part_removed p \<longrightarrow> change_lines 45 w u (part_value p) \<subseteq> set (diff_output (diff_step w c p ps st))"
  using diff_step_change [of p w c ps st] assms by (auto simp: change_lines_def at_text_def)

lemma diff_loop_changes:
  "at_text u v st \<Longrightarrow> aligned u v (xs @ p # ps) \<Longrightarrow>
     (part_added p \<longrightarrow>
        change_lines 43 w (v @ new_text xs) (part_value p) \<subseteq> set (diff_output (diff_loop w c (xs @ p # ps) st)))
     \<and> (part_removed p \<longrightarrow>
        change_lines 45 w (u @ old_text xs) (part_value p) \<subseteq> set (diff_output (diff_loop w c (xs @ p # ps) st)))"
proof (induction xs arbitrary: u v st)
  case Nil
  have "\<not> (part_added p \<and> part_removed p)" using Nil by simp
  from diff_step_change_lines [OF Nil(1) this, of w c ps]
    diff_loop_grows [of "diff_step w c p ps st" w c ps]
  show ?case by (simp add: diff_loop_step del: diff_loop.simps) blast
next
  case (Cons x xs)
  have "aligned (u @ old_text [x]) (v @ new_text [x]) (xs @ p # ps)" using Cons.prems(2) by simp
  moreover have "at_text (u @ old_text [x]) (v @ new_text [x]) (diff_step w c x (xs @ p # ps) st)"
    using diff_step_at [of u v st x "xs @ p # ps"] Cons.prems by simp
  ultimately show ?case using Cons.IH [of "u @ old_text [x]" "v @ new_text [x]"]
    by (simp add: diff_loop_step del: diff_loop.simps)
qed

lemma first_kept: "firstChangedLine st = Some k \<Longrightarrow> firstChangedLine (diff_loop w c ps st) = Some k"
  by (induction ps arbitrary: st) (simp_all add: diff_loop_step diff_step_first del: diff_loop.simps(2))

lemma diff_loop_first:
  "at_text u v st \<Longrightarrow> aligned u v (xs @ p # ps) \<Longrightarrow> firstChangedLine st = None \<Longrightarrow>
   \<forall>q \<in> set xs. \<not> is_change q \<Longrightarrow> is_change p \<Longrightarrow>
   firstChangedLine (diff_loop w c (xs @ p # ps) st) = Some (Suc (length (lines_of (v @ new_text xs))))"
proof (induction xs arbitrary: u v st)
  case Nil
  then show ?case
    by (simp add: diff_loop_step first_kept diff_step_first at_text_def del: diff_loop.simps)
next
  case (Cons x xs)
  have "aligned (u @ old_text [x]) (v @ new_text [x]) (xs @ p # ps)" using Cons.prems(2) by simp
  moreover have "at_text (u @ old_text [x]) (v @ new_text [x]) (diff_step w c x (xs @ p # ps) st)"
    using diff_step_at [of u v st x "xs @ p # ps"] Cons.prems by simp
  ultimately show ?case using Cons.IH [of "u @ old_text [x]" "v @ new_text [x]"] Cons.prems
    by (simp add: diff_loop_step diff_step_first del: diff_loop.simps)
qed

text \<open>
  C33: The diff that is shown numbers its lines correctly and shows every change.  Every line of it
  is an ellipsis, an added line with its number in the new text, a removed line with its number in
  the old text, or a line of both texts with its number in the old one; all lines of every added
  and every removed part are in it, with their numbers; and the first changed line is the line of
  the new text at which the first change stands.
\<close>

theorem diff_shows_changes:
  assumes "aligned [] [] parts" and "w = lineNumWidth (old_text parts) (new_text parts)"
  shows "\<exists>ls first. generateDiffString parts (old_text parts) (new_text parts) c = (js_join [10] ls, first)
    \<and> (\<forall>s \<in> set ls. shown w (old_text parts) (new_text parts) s)
    \<and> (\<forall>xs p ps. parts = xs @ p # ps \<longrightarrow>
        (part_added p \<longrightarrow> change_lines 43 w (new_text xs) (part_value p) \<subseteq> set ls)
        \<and> (part_removed p \<longrightarrow> change_lines 45 w (old_text xs) (part_value p) \<subseteq> set ls)
        \<and> (is_change p \<longrightarrow> (\<forall>q \<in> set xs. \<not> is_change q) \<longrightarrow>
            first = Some (Suc (length (lines_of (new_text xs))))))"
proof (intro exI conjI allI impI)
  let ?st = "diff_loop w c parts diff_start"
  have start: "at_text [] [] diff_start" "firstChangedLine diff_start = None" "diff_output diff_start = []"
    by (simp_all add: at_text_def diff_start_def)
  show "generateDiffString parts (old_text parts) (new_text parts) c =
      (js_join [10] (diff_output ?st), firstChangedLine ?st)"
    using assms(2) by (simp add: generateDiffString_def Let_def)
  show "\<forall>s \<in> set (diff_output ?st). shown w (old_text parts) (new_text parts) s"
    using diff_loop_shown [OF start(1) assms(1)] start(3) by simp
  fix xs p ps
  assume parts: "parts = xs @ p # ps"
  note ch = diff_loop_changes [OF start(1), of xs p ps w c]
  show "part_added p \<Longrightarrow> change_lines 43 w (new_text xs) (part_value p) \<subseteq> set (diff_output ?st)"
    "part_removed p \<Longrightarrow> change_lines 45 w (old_text xs) (part_value p) \<subseteq> set (diff_output ?st)"
    using ch assms(1) parts by simp_all
  show "is_change p \<Longrightarrow> \<forall>q \<in> set xs. \<not> is_change q \<Longrightarrow>
      firstChangedLine ?st = Some (Suc (length (lines_of (new_text xs))))"
    using diff_loop_first [OF start(1), of xs p ps w c] start(2) assms(1) parts by simp
qed

definition demo_parts :: "diff_part list" where
  "demo_parts =
     [\<lparr>part_value = str ''a'' @ [10], part_added = False, part_removed = False\<rparr>,
      \<lparr>part_value = str ''b'', part_added = False, part_removed = True\<rparr>,
      \<lparr>part_value = str ''c'' @ [10], part_added = True, part_removed = False\<rparr>]"

lemma diff_shows_changes_witness:
  "\<exists>ls first. generateDiffString demo_parts (old_text demo_parts) (new_text demo_parts) 4 = (js_join [10] ls, first)
    \<and> str ''-2 b'' \<in> set ls \<and> first = Some 2"
proof -
  have "aligned [] [] demo_parts" by (simp add: demo_parts_def line_end_def)
  moreover have "1 = lineNumWidth (old_text demo_parts) (new_text demo_parts)"
    by (simp add: lineNumWidth_def demo_parts_def str_def show_nat.simps)
  ultimately have t: "\<exists>ls first. generateDiffString demo_parts (old_text demo_parts) (new_text demo_parts) 4
        = (js_join [10] ls, first)
    \<and> (\<forall>s \<in> set ls. shown 1 (old_text demo_parts) (new_text demo_parts) s)
    \<and> (\<forall>xs p ps. demo_parts = xs @ p # ps \<longrightarrow>
        (part_added p \<longrightarrow> change_lines 43 1 (new_text xs) (part_value p) \<subseteq> set ls)
        \<and> (part_removed p \<longrightarrow> change_lines 45 1 (old_text xs) (part_value p) \<subseteq> set ls)
        \<and> (is_change p \<longrightarrow> (\<forall>q \<in> set xs. \<not> is_change q) \<longrightarrow>
            first = Some (Suc (length (lines_of (new_text xs))))))"
    by (rule diff_shows_changes)
  obtain ls first where
    ls: "generateDiffString demo_parts (old_text demo_parts) (new_text demo_parts) 4 = (js_join [10] ls, first)"
    and p: "\<forall>xs p ps. demo_parts = xs @ p # ps \<longrightarrow>
        (part_added p \<longrightarrow> change_lines 43 1 (new_text xs) (part_value p) \<subseteq> set ls)
        \<and> (part_removed p \<longrightarrow> change_lines 45 1 (old_text xs) (part_value p) \<subseteq> set ls)
        \<and> (is_change p \<longrightarrow> (\<forall>q \<in> set xs. \<not> is_change q) \<longrightarrow>
            first = Some (Suc (length (lines_of (new_text xs)))))"
    using t by (elim exE conjE) (rule that)
  have "str ''-2 b'' \<in> set ls \<and> first = Some 2"
    using p [rule_format, of "take 1 demo_parts" "demo_parts ! 1" "drop 2 demo_parts"]
    by (simp add: demo_parts_def change_lines_def lines_of_def str_def is_change_def numbered_def
        pad_start_def show_nat.simps Let_def)
  with ls show ?thesis by blast
qed

end
