(* ===== verification/EditTool.thy ===== *)
theory EditTool
  imports DiffText Effects Utf8
begin

text \<open>
  The edit tool of the coding agent: \<open>tools/edit.ts\<close> without its rendering, \<open>tools/path-utils.ts\<close>
  as far as the tool uses it, \<open>tools/os-error.ts\<close>, and \<open>computeEditsDiff\<close> of
  \<open>tools/edit-diff.ts\<close>.  The operations on files are functions of the world that may fail;
  reading gives the decoded text.  The mutation queue under which the bodies run is in the theory
  \<open>FileQueue\<close>.
\<close>

subsection \<open>Errors of the operating system\<close>

record os_error =
  err_code :: "js_string option"
  err_errno :: "int option"
  err_message :: js_string

definition LIBC_ERROR_MESSAGES :: "(js_string \<times> js_string) list" where
  "LIBC_ERROR_MESSAGES =
     [(str ''EPERM'', str ''Operation not permitted''),
      (str ''ENOENT'', str ''No such file or directory''),
      (str ''ESRCH'', str ''No such process''),
      (str ''EINTR'', str ''Interrupted system call''),
      (str ''EIO'', str ''Input/output error''),
      (str ''ENXIO'', str ''No such device or address''),
      (str ''EBADF'', str ''Bad file descriptor''),
      (str ''EAGAIN'', str ''Resource temporarily unavailable''),
      (str ''ENOMEM'', str ''Cannot allocate memory''),
      (str ''EACCES'', str ''Permission denied''),
      (str ''EFAULT'', str ''Bad address''),
      (str ''EBUSY'', str ''Device or resource busy''),
      (str ''EEXIST'', str ''File exists''),
      (str ''EXDEV'', str ''Invalid cross-device link''),
      (str ''ENODEV'', str ''No such device''),
      (str ''ENOTDIR'', str ''Not a directory''),
      (str ''EISDIR'', str ''Is a directory''),
      (str ''EINVAL'', str ''Invalid argument''),
      (str ''ENFILE'', str ''Too many open files in system''),
      (str ''EMFILE'', str ''Too many open files''),
      (str ''ENOTTY'', str ''Inappropriate ioctl for device''),
      (str ''ETXTBSY'', str ''Text file busy''),
      (str ''EFBIG'', str ''File too large''),
      (str ''ENOSPC'', str ''No space left on device''),
      (str ''ESPIPE'', str ''Illegal seek''),
      (str ''EROFS'', str ''Read-only file system''),
      (str ''EMLINK'', str ''Too many links''),
      (str ''ENAMETOOLONG'', str ''File name too long''),
      (str ''ENOSYS'', str ''Function not implemented''),
      (str ''ENOTEMPTY'', str ''Directory not empty''),
      (str ''ELOOP'', str ''Too many levels of symbolic links''),
      (str ''ENOTSUP'', str ''Operation not supported''),
      (str ''ECANCELED'', str ''Operation canceled'')]"

definition formatOsError :: "os_error \<Rightarrow> js_string" where
  "formatOsError e =
     (case (err_code e, err_errno e) of
        (Some code, Some errno) \<Rightarrow>
          (case map_of LIBC_ERROR_MESSAGES code of
             Some message \<Rightarrow> message @ str '' (os error '' @ show_int \<bar>errno\<bar> @ str '')''
           | None \<Rightarrow> err_message e)
      | _ \<Rightarrow> err_message e)"

definition access_error :: "os_error \<Rightarrow> js_string" where
  "access_error e =
     (case err_code e of Some code \<Rightarrow> str ''Error code: '' @ code | None \<Rightarrow> str ''Error: '' @ err_message e)"

subsection \<open>The environment\<close>

record 'w edit_os =
  op_access :: "js_string \<Rightarrow> 'w \<Rightarrow> (os_error + unit) \<times> 'w"
  op_readFile :: "js_string \<Rightarrow> 'w \<Rightarrow> (os_error + js_string) \<times> 'w"
  op_writeFile :: "js_string \<Rightarrow> js_string \<Rightarrow> 'w \<Rightarrow> (os_error + unit) \<times> 'w"
  op_aborted :: "'w \<Rightarrow> bool"
  os_homedir :: js_string
  os_resolvePath :: "js_string \<Rightarrow> js_string \<Rightarrow> js_string"
  os_nfkc :: "js_string \<Rightarrow> js_string"
  os_diffLines :: "js_string \<Rightarrow> js_string \<Rightarrow> diff_part list"

subsection \<open>Paths\<close>

definition normalizeUnicodeSpaces :: "js_string \<Rightarrow> js_string" where
  "normalizeUnicodeSpaces =
     map (\<lambda>c. if c = 0xa0 \<or> (0x2000 \<le> c \<and> c \<le> 0x200a) \<or> c \<in> {0x202f, 0x205f, 0x3000} then 32 else c)"

definition normalizeAtPrefix :: "js_string \<Rightarrow> js_string" where
  "normalizeAtPrefix filePath = (if starts_with (str ''@'') filePath then drop 1 filePath else filePath)"

definition expandPath :: "'w edit_os \<Rightarrow> js_string \<Rightarrow> js_string" where
  "expandPath os filePath =
     (let normalized = normalizeUnicodeSpaces (normalizeAtPrefix filePath)
      in if normalized = str ''~'' then os_homedir os
         else if starts_with (str ''~/'') normalized then os_homedir os @ drop 1 normalized
         else normalized)"

text \<open>\<open>isAbsolute\<close> of POSIX paths.\<close>

definition resolveToCwd :: "'w edit_os \<Rightarrow> js_string \<Rightarrow> js_string \<Rightarrow> js_string" where
  "resolveToCwd os filePath cwd =
     (let expanded = expandPath os filePath
      in if starts_with (str ''/'') expanded then expanded else os_resolvePath os cwd expanded)"

subsection \<open>Counting and replacing\<close>

function count_from :: "js_string \<Rightarrow> js_string \<Rightarrow> nat \<Rightarrow> nat" where
  "count_from haystack needle i =
     (if needle = [] then 0
      else (case index_from needle haystack i of
              None \<Rightarrow> 0
            | Some at \<Rightarrow> Suc (count_from haystack needle (at + length needle))))"
  by pat_completeness auto

lemma index_from_bound:
  assumes "index_from sub s i = Some at" "sub \<noteq> []"
  shows "i \<le> at" "at + length sub \<le> length s"
proof -
  obtain a b where "split_first sub (drop i s) = Some (a, b)" and at: "at = i + length a"
    using assms(1) by (auto simp: index_from_def split: option.splits)
  then have "length (drop i s) = length a + length sub + length b"
    by (drule_tac split_first_Some) simp
  moreover have "length sub > 0" using assms(2) by simp
  ultimately show "i \<le> at" "at + length sub \<le> length s"
    using at unfolding length_drop by linarith+
qed

lemma index_from_advances:
  "sub \<noteq> [] \<Longrightarrow> index_from sub s i = Some at \<Longrightarrow> length s + 1 - (at + length sub) < length s + 1 - i"
  using index_from_bound [of sub s i at] by (cases sub) auto

termination count_from
  by (relation "measure (\<lambda>(haystack, needle, i). length haystack + 1 - i)") (use index_from_advances in \<open>simp_all\<close>)

declare count_from.simps [simp del]

definition countOccurrences :: "js_string \<Rightarrow> js_string \<Rightarrow> nat" where
  "countOccurrences haystack needle =
     (if needle = [] then length (chars haystack) + 1 else count_from haystack needle 0)"

definition replaceAllOccurrences :: "js_string \<Rightarrow> js_string \<Rightarrow> js_string \<Rightarrow> js_string" where
  "replaceAllOccurrences haystack needle new =
     (if needle \<noteq> [] then js_join new (split_string needle haystack)
      else if haystack = [] then new
      else new @ js_join new (chars haystack) @ new)"

definition replaceFirstOccurrence :: "js_string \<Rightarrow> js_string \<Rightarrow> js_string \<Rightarrow> js_string" where
  "replaceFirstOccurrence haystack needle new =
     (if needle = [] then new @ haystack
      else (case index_from needle haystack 0 of
              None \<Rightarrow> haystack
            | Some at \<Rightarrow> take at haystack @ new @ drop (at + length needle) haystack))"

definition rustLines :: "js_string \<Rightarrow> js_string list" where
  "rustLines s =
     (if s = [] then []
      else (let parts = js_split 10 s;
                parts = (if List.last parts = [] then butlast parts else parts)
            in map (\<lambda>line. if ends_with [13] line then butlast line else line) parts))"

definition renderDiffPreview :: "js_string \<Rightarrow> js_string \<Rightarrow> js_string" where
  "renderDiffPreview old new =
     str ''--- before'' @ [10]
     @ concat (map (\<lambda>line. str ''- '' @ line @ [10]) (take 10 (rustLines old)))
     @ str ''+++ after'' @ [10]
     @ concat (map (\<lambda>line. str ''+ '' @ line @ [10]) (take 10 (rustLines new)))"

subsection \<open>Results and inputs\<close>

datatype edit_details =
    OracleDetails js_string nat bool
  | BatchDetails js_string "nat option"

record edit_result =
  result_text :: js_string
  result_details :: edit_details

record edit_input =
  input_path :: js_string
  old_string :: js_string
  new_string :: js_string
  replace_all_flag :: "bool option"

definition act_checked :: "'w edit_os \<Rightarrow> ('w, 'e, unit) action" where
  "act_checked os =
     act_bind (act_get (op_aborted os)) (\<lambda>b. if b then act_throw (str ''Operation aborted'') else act_return ())"

text \<open>A call whose failure is turned into an error of the tool.\<close>

definition act_io :: "('w \<Rightarrow> (os_error + 'a) \<times> 'w) \<Rightarrow> (os_error \<Rightarrow> js_string) \<Rightarrow> ('w, 'e, 'a) action" where
  "act_io f message =
     act_call (\<lambda>w. case f w of (Inl e, w') \<Rightarrow> (Inl (message e), w') | (Inr x, w') \<Rightarrow> (Inr x, w'))"

definition executeOracleEdit :: "'w edit_os \<Rightarrow> js_string \<Rightarrow> edit_input \<Rightarrow> ('w, 'e, edit_result) action" where
  "executeOracleEdit os cwd input =
     (let path = input_path input;
          replaceAll = (case replace_all_flag input of Some b \<Rightarrow> b | None \<Rightarrow> False)
      in if old_string input = new_string input
         then act_throw (str ''old_string must differ from new_string'')
         else
           (let absolutePath = resolveToCwd os path cwd
            in act_then (act_checked os)
              (act_bind (act_io (op_readFile os absolutePath) (\<lambda>e. str ''read '' @ path @ str '': '' @ formatOsError e))
                (\<lambda>body. act_then (act_checked os)
                  (let occurrences = countOccurrences body (old_string input)
                   in if occurrences = 0 then act_throw (str ''old_string not found in '' @ path)
                      else if occurrences > 1 \<and> \<not> replaceAll
                      then act_throw (str ''old_string matched '' @ show_nat occurrences @ str '' times in '' @ path
                             @ str ''; pass replace_all=true to replace every occurrence, or include more surrounding context to make it unique'')
                      else
                        (let newBody = (if replaceAll then replaceAllOccurrences body (old_string input) (new_string input)
                                        else replaceFirstOccurrence body (old_string input) (new_string input))
                         in act_then (act_io (op_writeFile os absolutePath newBody)
                                (\<lambda>e. str ''write '' @ path @ str '': '' @ formatOsError e))
                              (act_then (act_checked os)
                                (act_return
                                  \<lparr>result_text = str ''Edited '' @ path @ str '' ('' @ show_nat occurrences
                                     @ str '' replacement'' @ (if occurrences = 1 then [] else str ''s'') @ str '').''
                                     @ [10] @ renderDiffPreview (old_string input) (new_string input),
                                   result_details = OracleDetails path occurrences replaceAll\<rparr>))))))))"

subsection \<open>The batch form\<close>

definition batch_body :: "'w edit_os \<Rightarrow> js_string \<Rightarrow> js_string \<Rightarrow> edit list \<Rightarrow> ('w, 'e, edit_result) action" where
  "batch_body os absolutePath path edits =
     act_then (act_io (op_access os absolutePath)
         (\<lambda>e. str ''Could not edit file: '' @ path @ str ''. '' @ access_error e @ str ''.''))
      (act_then (act_checked os)
        (act_bind (act_io (op_readFile os absolutePath) err_message)
          (\<lambda>rawContent. act_then (act_checked os)
            (let (bom, text) = stripBom rawContent;
                 originalEnding = detectLineEnding text;
                 normalizedContent = normalizeToLF text
             in act_bind (act_lift (applyEditsToNormalizedContent (os_nfkc os) normalizedContent edits path))
                 (\<lambda>r. act_then (act_checked os)
                   (let finalContent = bom @ restoreLineEndings (newContent r) originalEnding
                    in act_then (act_io (op_writeFile os absolutePath finalContent) err_message)
                        (act_then (act_checked os)
                          (let (diff, first) = generateDiffString (os_diffLines os (baseContent r) (newContent r))
                                                 (baseContent r) (newContent r) 4
                           in act_return
                                \<lparr>result_text = str ''Successfully replaced '' @ show_nat (length edits)
                                    @ str '' block(s) in '' @ path @ str ''.'',
                                 result_details = BatchDetails diff first\<rparr>))))))))"

text \<open>
  The promise of the batch form is rejected by the listener of the signal, at once: an abort that
  happened before the body settled decides the outcome.
\<close>

definition until_aborted :: "'w edit_os \<Rightarrow> ('w, 'e, 'a) action \<Rightarrow> ('w, 'e, 'a) action" where
  "until_aborted os m =
     act_bind (act_catch (act_bind m (\<lambda>x. act_then (act_checked os) (act_return x)))
       (\<lambda>msg. act_then (act_checked os) (act_throw msg))) act_return"

definition executeBatchEdit :: "'w edit_os \<Rightarrow> js_string \<Rightarrow> js_string \<Rightarrow> edit list \<Rightarrow> ('w, 'e, edit_result) action" where
  "executeBatchEdit os cwd path edits =
     (if edits = []
      then act_throw (str ''Edit tool input is invalid. edits must contain at least one replacement.'')
      else act_then (act_checked os)
             (until_aborted os (batch_body os (resolveToCwd os path cwd) path edits)))"

definition computeEditsDiff ::
  "'w edit_os \<Rightarrow> js_string \<Rightarrow> js_string \<Rightarrow> edit list \<Rightarrow> ('w, 'e, js_string + (js_string \<times> nat option)) action" where
  "computeEditsDiff os cwd path edits =
     (let absolutePath = resolveToCwd os path cwd
      in act_catch
           (act_then (act_io (op_access os absolutePath)
               (\<lambda>e. str ''Could not edit file: '' @ path @ str ''. '' @ access_error e @ str ''.''))
             (act_bind (act_io (op_readFile os absolutePath) err_message)
               (\<lambda>rawContent. act_bind
                  (act_lift (applyEditsToNormalizedContent (os_nfkc os) (normalizeToLF (snd (stripBom rawContent))) edits path))
                  (\<lambda>r. act_return (Inr (generateDiffString (os_diffLines os (baseContent r) (newContent r))
                                         (baseContent r) (newContent r) 4))))))
           (\<lambda>msg. act_return (Inl msg)))"

end
