(* ===== verification/EditProps.thy ===== *)
theory EditProps
  imports EditTool
begin

text \<open>
  What the edit tool writes: the single edit replaces the occurrences it counted, and the batch
  form keeps everything between the old texts, the byte order mark and the line endings.
\<close>

subsection \<open>Occurrences as gaps\<close>

lemma weave_join: "gs \<noteq> [] \<Longrightarrow> weave gs (replicate (length gs - 1) sep) = js_join sep gs"
  by (induction sep gs rule: js_join.induct) auto

lemma split_string_None:
  "split_first sep s = None \<Longrightarrow> sep \<noteq> [] \<Longrightarrow> split_string sep s = [s]"
  by (subst split_string.simps) simp

lemma join_split_string: "sep \<noteq> [] \<Longrightarrow> js_join sep (split_string sep s) = s"
proof (induction s rule: length_induct)
  case (1 s)
  show ?case
  proof (cases "split_first sep s")
    case None
    then show ?thesis using 1(2) by (simp add: split_string_None)
  next
    case (Some ab)
    then obtain a b where ab: "split_first sep s = Some (a, b)" by (cases ab) simp
    then have "js_join sep (split_string sep b) = b"
      using 1 split_first_shorter by blast
    then show ?thesis
      using split_string_Some [OF ab 1(2)] split_string_not_Nil [OF 1(2)] split_first_Some [OF ab]
      by (simp add: js_join_Cons_not_Nil)
  qed
qed

lemma before_first: "split_first sep s = Some (a, b) \<Longrightarrow> sep \<noteq> [] \<Longrightarrow> split_first sep a = None"
proof (rule ccontr)
  assume ab: "split_first sep s = Some (a, b)" and "sep \<noteq> []" "split_first sep a \<noteq> None"
  then obtain x y where "split_first sep a = Some (x, y)" by auto
  then have a: "a = x @ sep @ y" by (rule split_first_Some)
  then have "\<not> starts_with sep (drop (length x) s)"
    using split_first_first [OF ab, of "length x"] \<open>sep \<noteq> []\<close> by simp
  then show False using split_first_Some [OF ab] a by (simp add: starts_with_def)
qed

lemma split_string_pieces: "sep \<noteq> [] \<Longrightarrow> g \<in> set (split_string sep s) \<Longrightarrow> \<not> js_includes g sep"
proof (induction s arbitrary: g rule: length_induct)
  case (1 s)
  show ?case
  proof (cases "split_first sep s")
    case None
    then show ?thesis using 1(2,3) by (simp add: split_string_None js_includes_def)
  next
    case (Some ab)
    then obtain a b where ab: "split_first sep s = Some (a, b)" by (cases ab) simp
    then show ?thesis
      using 1 split_first_shorter [OF ab] split_string_Some [OF ab 1(2)] before_first [OF ab 1(2)]
      by (auto simp: js_includes_def)
  qed
qed

lemma count_from_split:
  "needle \<noteq> [] \<Longrightarrow> Suc (count_from s needle i) = length (split_string needle (drop i s))"
proof (induction s needle i rule: count_from.induct)
  case (1 s needle i)
  show ?case
  proof (cases "split_first needle (drop i s)")
    case None
    then show ?thesis using 1(2)
      by (subst count_from.simps) (simp add: index_from_def split_string_None)
  next
    case (Some ab)
    then obtain a b where ab: "split_first needle (drop i s) = Some (a, b)" by (cases ab) simp
    then have ix: "index_from needle s i = Some (i + length a)" by (simp add: index_from_def)
    have "drop (i + length a + length needle) s = b"
      using split_first_Some [OF ab] by (metis add.assoc append_eq_conv_conj drop_drop add.commute)
    then show ?thesis
      using 1(1) [OF 1(2) ix] 1(2) ix split_string_Some [OF ab 1(2)]
      by (subst count_from.simps) simp
  qed
qed

lemma weave_around:
  "cs \<noteq> [] \<Longrightarrow> weave ([] # cs @ [[]]) (replicate (Suc (length cs)) r) = r @ js_join r cs @ r"
proof -
  assume "cs \<noteq> []"
  have j: "js_join r (cs @ [[]]) = js_join r cs @ r"
    using \<open>cs \<noteq> []\<close> by (induction r cs rule: js_join.induct) auto
  show ?thesis using weave_join [of "[] # cs @ [[]]" r] \<open>cs \<noteq> []\<close> j
    by (simp add: js_join_Cons_not_Nil)
qed

lemma join_Nil: "js_join [] ls = concat ls"
  by (induction "[] :: js_string" ls rule: js_join.induct) auto

lemma occurrences_weave:
  obtains gs where "length gs = Suc (countOccurrences s old)"
    "s = weave gs (replicate (countOccurrences s old) old)"
    "replaceAllOccurrences s old new = weave gs (replicate (countOccurrences s old) new)"
    "countOccurrences s old = 1 \<Longrightarrow> replaceFirstOccurrence s old new = weave gs [new]"
    "old \<noteq> [] \<Longrightarrow> \<forall>g \<in> set gs. \<not> js_includes g old"
proof (cases "old = []")
  case True
  let ?gs = "[] # chars s @ [[]]"
  have n: "countOccurrences s old = Suc (length (chars s))" using True by (simp add: countOccurrences_def)
  have w: "weave ?gs (replicate (Suc (length (chars s))) r) = (if s = [] then r else r @ js_join r (chars s) @ r)" for r
    using weave_around [of "chars s" r] concat_chars [of s] by (cases "chars s") auto
  show ?thesis
  proof (rule that [of ?gs])
    show "s = weave ?gs (replicate (countOccurrences s old) old)"
      using w [of "[]"] True n by (simp add: join_Nil concat_chars split: if_splits)
    show "replaceAllOccurrences s old new = weave ?gs (replicate (countOccurrences s old) new)"
      using w [of new] True n by (simp add: replaceAllOccurrences_def)
    show "replaceFirstOccurrence s old new = weave ?gs [new]" if "countOccurrences s old = 1"
      using that n True concat_chars [of s] by (simp add: replaceFirstOccurrence_def)
  qed (use n True in simp_all)
next
  case False
  let ?gs = "split_string old s"
  have n: "length ?gs = Suc (countOccurrences s old)"
    using False count_from_split [OF False, of s 0] by (simp add: countOccurrences_def)
  have w: "weave ?gs (replicate (countOccurrences s old) r) = js_join r ?gs" for r
    using weave_join [of ?gs r] n by fastforce
  show ?thesis
  proof (rule that [of ?gs])
    show "replaceFirstOccurrence s old new = weave ?gs [new]" if one: "countOccurrences s old = 1"
    proof (cases "split_first old s")
      case None
      then show ?thesis using n one False by (simp add: split_string_None)
    next
      case (Some ab)
      then obtain a b where ab: "split_first old s = Some (a, b)" by (cases ab) simp
      have "length (split_string old b) = 1" using n one split_string_Some [OF ab False] by simp
      then have "split_string old b = [b]"
        using join_split_string [OF False, of b] by (cases "split_string old b") auto
      then show ?thesis using ab split_string_Some [OF ab False] False split_first_Some [OF ab]
        by (simp add: replaceFirstOccurrence_def index_from_0)
    qed
  qed (use n w False join_split_string split_string_pieces in \<open>simp_all add: replaceAllOccurrences_def\<close>)
qed

subsection \<open>The single edit\<close>

lemma wp_checked: "wp (act_checked os) Q s =
    (if op_aborted os (world s) then Q (Inl (str ''Operation aborted'')) s else Q (Inr ()) s)"
  by (simp add: act_checked_def wp_rules)

lemma wp_io: "wp (act_io f message) Q s =
    (case f (world s) of (Inl e, w) \<Rightarrow> Q (Inl (message e)) (s\<lparr>world := w\<rparr>) | (Inr x, w) \<Rightarrow> Q (Inr x) (s\<lparr>world := w\<rparr>))"
  by (auto simp: act_io_def wp_rules split: prod.splits sum.splits)

lemmas edit_wp = wp_rules wp_checked wp_io

text \<open>What a single edit of the content \<open>body\<close> writes.\<close>

definition oracle_body :: "edit_input \<Rightarrow> js_string \<Rightarrow> js_string" where
  "oracle_body input body =
     (if replace_all_flag input = Some True then replaceAllOccurrences body (old_string input) (new_string input)
      else replaceFirstOccurrence body (old_string input) (new_string input))"

definition oracle_refused :: "edit_input \<Rightarrow> js_string \<Rightarrow> bool" where
  "oracle_refused input body \<longleftrightarrow> countOccurrences body (old_string input) = 0
     \<or> countOccurrences body (old_string input) > 1 \<and> replace_all_flag input \<noteq> Some True"

definition edit_refusal :: "'w edit_os \<Rightarrow> js_string \<Rightarrow> edit_input \<Rightarrow> 'w \<Rightarrow> 'w \<Rightarrow> bool" where
  "edit_refusal os p input w w' \<longleftrightarrow>
     (let (read, w1) = op_readFile os p w in
        w' = w \<and> (old_string input = new_string input \<or> op_aborted os w)
        \<or> w' = w1 \<and> (op_aborted os w1 \<or> (\<exists>e. read = Inl e) \<or> (\<exists>body. read = Inr body \<and> oracle_refused input body)))"

definition edit_written :: "'w edit_os \<Rightarrow> js_string \<Rightarrow> edit_input \<Rightarrow> nat \<Rightarrow> js_string \<Rightarrow> 'w \<Rightarrow> edit_result thrown \<Rightarrow> 'w \<Rightarrow> bool" where
  "edit_written os p input n new w1 r w' \<longleftrightarrow>
     (\<exists>written. op_writeFile os p new w1 = (written, w')
        \<and> (case r of
             Inl _ \<Rightarrow> (\<exists>e. written = Inl e) \<or> op_aborted os w'
           | Inr res \<Rightarrow> written = Inr () \<and> \<not> op_aborted os w'
               \<and> result_details res = OracleDetails (input_path input) n (replace_all_flag input = Some True)))"

lemma oracle_cases:
  "wp (executeOracleEdit os cwd input)
     (\<lambda>r s'. let p = resolveToCwd os (input_path input) cwd in
        (\<exists>msg. r = Inl msg) \<and> edit_refusal os p input (world s) (world s')
        \<or> (\<exists>body w1. op_readFile os p (world s) = (Inr body, w1) \<and> \<not> oracle_refused input body
             \<and> edit_written os p input (countOccurrences body (old_string input)) (oracle_body input body) w1 r (world s'))) s"
  by (auto simp: executeOracleEdit_def Let_def edit_wp oracle_body_def oracle_refused_def edit_refusal_def
      edit_written_def split: prod.splits sum.splits option.splits if_splits)

lemma oracle_body_weave:
  assumes "\<not> oracle_refused input body"
  shows "\<exists>n gs. 1 \<le> n \<and> (replace_all_flag input \<noteq> Some True \<longrightarrow> n = 1)
    \<and> n = countOccurrences body (old_string input) \<and> length gs = Suc n
    \<and> (old_string input \<noteq> [] \<longrightarrow> (\<forall>g \<in> set gs. \<not> js_includes g (old_string input)))
    \<and> body = weave gs (replicate n (old_string input))
    \<and> oracle_body input body = weave gs (replicate n (new_string input))"
proof -
  let ?n = "countOccurrences body (old_string input)"
  obtain gs where gs: "length gs = Suc ?n" "body = weave gs (replicate ?n (old_string input))"
    "replaceAllOccurrences body (old_string input) (new_string input) = weave gs (replicate ?n (new_string input))"
    "?n = 1 \<Longrightarrow> replaceFirstOccurrence body (old_string input) (new_string input) = weave gs [new_string input]"
    "old_string input \<noteq> [] \<Longrightarrow> \<forall>g \<in> set gs. \<not> js_includes g (old_string input)"
    by (rule occurrences_weave [of body "old_string input" "new_string input"]) (rule that)
  have n: "1 \<le> ?n" "replace_all_flag input \<noteq> Some True \<longrightarrow> ?n = 1"
    using assms by (auto simp: oracle_refused_def)
  have "oracle_body input body = weave gs (replicate ?n (new_string input))"
    using gs(3,4) n(2) by (cases "replace_all_flag input = Some True") (simp_all add: oracle_body_def)
  with gs(1,2,5) n show ?thesis by (intro exI [of _ ?n] exI [of _ gs]) auto
qed

lemma act_checked_returns: "returns (act_checked os) s"
  by (simp add: returns_def act_checked_def act_bind_def act_get_def act_throw_def act_return_def split: sum.splits)

lemma act_io_returns: "returns (act_io f message) s"
  by (simp add: act_io_def)

lemma returns_if: "(b \<Longrightarrow> returns m s) \<Longrightarrow> (\<not> b \<Longrightarrow> returns n s) \<Longrightarrow> returns (if b then m else n) s"
  by simp

lemmas edit_returns = act_checked_returns act_io_returns returns_basic

lemma oracle_returns: "returns (executeOracleEdit os cwd input) s"
  unfolding executeOracleEdit_def Let_def
  by (intro returns_if returns_then returns_bind edit_returns)
    (auto simp: edit_wp edit_returns split: prod.splits sum.splits intro!: returns_if returns_then returns_bind)


subsection \<open>The batch form\<close>

lemma batch_cases:
  "wp (executeBatchEdit os cwd path edits)
     (\<lambda>r s'. let p = resolveToCwd os path cwd; (acc, w1) = op_access os p (world s); (read, w2) = op_readFile os p w1 in
        (\<exists>msg. r = Inl msg) \<and> world s' \<in> {world s, w1, w2}
        \<or> (\<exists>raw bom held ae written. read = Inr raw \<and> stripBom raw = (bom, held)
             \<and> applyEditsToNormalizedContent (os_nfkc os) (normalizeToLF held) edits path = Inr ae
             \<and> op_writeFile os p (bom @ restoreLineEndings (newContent ae) (detectLineEnding held)) w2 = (written, world s')
             \<and> (case r of Inl _ \<Rightarrow> (\<exists>e. written = Inl e) \<or> op_aborted os (world s')
                        | Inr res \<Rightarrow> written = Inr () \<and> \<not> op_aborted os (world s')))) s"
  by (auto simp: executeBatchEdit_def batch_body_def until_aborted_def Let_def edit_wp
      split: prod.splits sum.splits if_splits)

lemma batch_returns: "returns (executeBatchEdit os cwd path edits) s"
  unfolding executeBatchEdit_def until_aborted_def batch_body_def Let_def
  by (intro returns_if returns_then returns_bind returns_catch edit_returns)
    (auto simp: edit_wp edit_returns split: prod.splits sum.splits
      intro!: returns_if returns_then returns_bind returns_catch)

lemma restore_append: "restoreLineEndings (x @ y) e = restoreLineEndings x e @ restoreLineEndings y e"
  by (simp add: restoreLineEndings_def replace_char)

lemma restore_Nil [simp]: "restoreLineEndings [] e = []"
  by (simp add: restoreLineEndings_def)

lemma restore_concat: "restoreLineEndings (concat gs) e = concat (map (\<lambda>g. restoreLineEndings g e) gs)"
  by (induction gs) (simp_all add: restore_append)

lemma restore_weave:
  "restoreLineEndings (weave gs ps) e = weave (map (\<lambda>g. restoreLineEndings g e) gs) (map (\<lambda>p. restoreLineEndings p e) ps)"
  by (induction gs ps rule: weave.induct) (simp_all add: restore_append restore_concat)

text \<open>A text with line feeds that a file holds with one of the two line endings.\<close>

definition stored_as :: "js_string \<Rightarrow> js_string \<Rightarrow> js_string \<Rightarrow> js_string \<Rightarrow> bool" where
  "stored_as bom t ending raw \<longleftrightarrow>
     raw = bom @ restoreLineEndings t ending \<and> 13 \<notin> set t
     \<and> (ending = [10] \<or> ending = [13, 10] \<and> 10 \<in> set t)
     \<and> (bom = [0xfeff] \<or> bom = [] \<and> (t = [] \<or> hd t \<noteq> 0xfeff))"

lemma restore_no_bom:
  assumes "t = [] \<or> hd t \<noteq> 0xfeff" "ending \<in> {[10], [13, 10]}"
  shows "\<not> starts_with [0xfeff] (restoreLineEndings t ending)"
proof (cases t)
  case (Cons c u)
  then have "c \<noteq> 0xfeff" using assms(1) by simp
  then have "\<not> starts_with [0xfeff] (c # x)" "\<not> starts_with [0xfeff] (13 # y)" for x y
    by (simp_all add: starts_with_def)
  then show ?thesis using Cons assms(2)
    by (auto simp: restoreLineEndings_lf restoreLineEndings_crlf split: if_splits)
qed (simp add: starts_with_def)

lemma stored_read:
  assumes "stored_as bom t ending raw"
  shows "stripBom raw = (bom, restoreLineEndings t ending)"
    and "detectLineEnding (restoreLineEndings t ending) = ending"
    and "normalizeToLF (restoreLineEndings t ending) = t"
proof -
  have e: "ending \<in> {[10], [13, 10]}" and cr: "13 \<notin> set t" using assms by (auto simp: stored_as_def)
  show "detectLineEnding (restoreLineEndings t ending) = ending"
    using assms by (auto simp: stored_as_def restoreLineEndings_lf restoreLineEndings_crlf detect_lf detect_crlf)
  show "normalizeToLF (restoreLineEndings t ending) = t" by (rule normalize_restored [OF cr e])
  have "bom = [] \<Longrightarrow> \<not> starts_with [0xfeff] (restoreLineEndings t ending)"
    using assms e by (intro restore_no_bom) (auto simp: stored_as_def)
  then show "stripBom raw = (bom, restoreLineEndings t ending)"
    using assms by (auto simp: stored_as_def stripBom_def starts_with_def)
qed

lemma all_exact:
  assumes "\<forall>e \<in> set edits. js_includes t (normalizeToLF (oldText e))"
  shows "edit_base nfkc t edits = t"
    and "map (\<lambda>e. (located nfkc t (normalizeToLF (oldText e)), normalizeToLF (newText e))) edits =
         map (\<lambda>e. (normalizeToLF (oldText e), normalizeToLF (newText e))) edits"
  using assms by (simp_all add: edit_base_def list_all_iff located_def)

lemma batch_write:
  assumes "stored_as bom t ending raw" "stripBom raw = (bom', held)"
    and "\<forall>e \<in> set edits. js_includes t (normalizeToLF (oldText e))"
    and "applyEditsToNormalizedContent nfkc (normalizeToLF held) edits path = Inr ae"
  shows "\<exists>gs ps. length gs = Suc (length ps)
    \<and> mset ps = mset (map (\<lambda>e. (normalizeToLF (oldText e), normalizeToLF (newText e))) edits)
    \<and> raw = bom @ weave (map (\<lambda>g. restoreLineEndings g ending) gs) (map (\<lambda>p. restoreLineEndings (fst p) ending) ps)
    \<and> bom' @ restoreLineEndings (newContent ae) (detectLineEnding held) =
        bom @ weave (map (\<lambda>g. restoreLineEndings g ending) gs) (map (\<lambda>p. restoreLineEndings (snd p) ending) ps)"
proof -
  note r = stored_read [OF assms(1)]
  have c: "bom' = bom" "held = restoreLineEndings t ending" using r(1) assms(2) by simp_all
  have ae: "applyEditsToNormalizedContent nfkc t edits path = Inr ae" using assms(4) r(3) c by simp
  have base: "edit_base nfkc t edits = t" by (rule all_exact(1) [OF assms(3)])
  obtain gs ps where gs: "length gs = Suc (length ps)"
    "mset ps = mset (map (\<lambda>e. (located nfkc (baseContent ae) (normalizeToLF (oldText e)), normalizeToLF (newText e))) edits)"
    "baseContent ae = weave gs (map fst ps)" "newContent ae = weave gs (map snd ps)"
    and b: "baseContent ae = edit_base nfkc t edits"
    by (rule applied_pieces [OF ae]) (use base in simp, rule that)
  have t: "baseContent ae = t" using b base by simp
  have raw: "raw = bom @ restoreLineEndings t ending" using assms(1) by (simp add: stored_as_def)
  have d: "detectLineEnding held = ending" using r(2) c(2) by simp
  show ?thesis
  proof (intro exI [of _ gs] exI [of _ ps] conjI gs(1))
    show "mset ps = mset (map (\<lambda>e. (normalizeToLF (oldText e), normalizeToLF (newText e))) edits)"
      using gs(2) unfolding t all_exact(2) [OF assms(3)] .
    show "raw = bom @ weave (map (\<lambda>g. restoreLineEndings g ending) gs) (map (\<lambda>p. restoreLineEndings (fst p) ending) ps)"
      using gs(3) unfolding raw t by (simp add: restore_weave comp_def)
    show "bom' @ restoreLineEndings (newContent ae) (detectLineEnding held) =
        bom @ weave (map (\<lambda>g. restoreLineEndings g ending) gs) (map (\<lambda>p. restoreLineEndings (snd p) ending) ps)"
      unfolding c(1) d gs(4) by (simp add: restore_weave comp_def)
  qed
qed

text \<open>
  C10: A batch of edits whose old texts occur in a file with one kind of line ending and an optional
  byte order mark returns; it throws and leaves the file unwritten, or it writes once.  What it
  writes is the file with the old texts, stored with the line ending of the file, replaced by the
  new ones stored in the same way: the byte order mark and all text between the old texts are kept
  to the letter.  It succeeds exactly when the write does and no abort came before it settled.
\<close>

theorem batch_edit_keeps_rest:
  assumes "resolveToCwd os path cwd = p" and "op_access os p (world s) = (acc, w1)"
    and "op_readFile os p w1 = (Inr raw, w2)" and "stored_as bom t ending raw"
    and "\<forall>e \<in> set edits. js_includes t (normalizeToLF (oldText e))"
  shows "\<exists>r s'. executeBatchEdit os cwd path edits s = Some (r, s')
    \<and> ((\<exists>msg. r = Inl msg) \<and> world s' \<in> {world s, w1, w2}
       \<or> (\<exists>gs ps written. length gs = Suc (length ps)
            \<and> mset ps = mset (map (\<lambda>e. (normalizeToLF (oldText e), normalizeToLF (newText e))) edits)
            \<and> raw = bom @ weave (map (\<lambda>g. restoreLineEndings g ending) gs)
                                  (map (\<lambda>q. restoreLineEndings (fst q) ending) ps)
            \<and> op_writeFile os p (bom @ weave (map (\<lambda>g. restoreLineEndings g ending) gs)
                                              (map (\<lambda>q. restoreLineEndings (snd q) ending) ps)) w2 = (written, world s')
            \<and> (case r of Inl _ \<Rightarrow> (\<exists>e. written = Inl e) \<or> op_aborted os (world s')
                       | Inr res \<Rightarrow> written = Inr () \<and> \<not> op_aborted os (world s'))))"
proof (rule returns_wp [OF batch_returns], rule wp_mono [OF batch_cases], goal_cases)
  case (1 r s')
  have c: "(\<exists>msg. r = Inl msg) \<and> world s' \<in> {world s, w1, w2}
      \<or> (\<exists>bom' held ae written. stripBom raw = (bom', held)
           \<and> applyEditsToNormalizedContent (os_nfkc os) (normalizeToLF held) edits path = Inr ae
           \<and> op_writeFile os p (bom' @ restoreLineEndings (newContent ae) (detectLineEnding held)) w2 = (written, world s')
           \<and> (case r of Inl _ \<Rightarrow> (\<exists>e. written = Inl e) \<or> op_aborted os (world s')
                      | Inr res \<Rightarrow> written = Inr () \<and> \<not> op_aborted os (world s')))"
    using 1 assms(1-3) by (simp add: Let_def)
  then show ?case
  proof (elim disjE exE conjE, goal_cases)
    case (2 bom' held ae written)
    from batch_write [OF assms(4) 2(1) assms(5) 2(2)] obtain gs ps where
      gs: "length gs = Suc (length ps)"
        "mset ps = mset (map (\<lambda>e. (normalizeToLF (oldText e), normalizeToLF (newText e))) edits)"
        "raw = bom @ weave (map (\<lambda>g. restoreLineEndings g ending) gs) (map (\<lambda>q. restoreLineEndings (fst q) ending) ps)"
      and w: "bom' @ restoreLineEndings (newContent ae) (detectLineEnding held) =
        bom @ weave (map (\<lambda>g. restoreLineEndings g ending) gs) (map (\<lambda>q. restoreLineEndings (snd q) ending) ps)"
      by (elim exE conjE)
    show ?case by (intro disjI2 exI conjI) (rule gs 2(3) [unfolded w] 2(4))+
  qed blast
qed

text \<open>A file in memory with CRLF line endings.\<close>

definition demo_os :: "js_string edit_os" where
  "demo_os = \<lparr>op_access = (\<lambda>p w. (Inr (), w)), op_readFile = (\<lambda>p w. (Inr w, w)),
     op_writeFile = (\<lambda>p c w. (Inr (), c)), op_aborted = (\<lambda>w. False), os_homedir = [],
     os_resolvePath = (\<lambda>cwd p. cwd @ p), os_nfkc = (\<lambda>s. s), os_diffLines = (\<lambda>u v. [])\<rparr>"

lemma batch_edit_keeps_rest_witness:
  "\<exists>r s'. executeBatchEdit demo_os (str ''/'') (str ''f'') [\<lparr>oldText = str ''b'', newText = [10]\<rparr>]
      \<lparr>world = str ''a'' @ [13, 10] @ str ''b'', events = [] :: unit list\<rparr> = Some (r, s')
    \<and> ((\<exists>msg. r = Inl msg)
       \<or> (\<exists>gs. length gs = 2
        \<and> str ''a'' @ [13, 10] @ str ''b'' = weave (map (\<lambda>g. restoreLineEndings g [13, 10]) gs) [str ''b'']
        \<and> world s' = weave (map (\<lambda>g. restoreLineEndings g [13, 10]) gs) [[13, 10]]))"
proof -
  let ?edits = "[\<lparr>oldText = str ''b'', newText = [10]\<rparr>]" and ?raw = "str ''a'' @ [13, 10] @ str ''b''"
  let ?s = "\<lparr>world = ?raw, events = [] :: unit list\<rparr>"
  have 1: "resolveToCwd demo_os (str ''f'') (str ''/'') = str ''/f''"
    by (simp add: resolveToCwd_def expandPath_def normalizeAtPrefix_def normalizeUnicodeSpaces_def demo_os_def
        starts_with_def str_def)
  have 2: "op_access demo_os (str ''/f'') (world ?s) = (Inr (), ?raw)"
      "op_readFile demo_os (str ''/f'') ?raw = (Inr ?raw, ?raw)" by (simp_all add: demo_os_def)
  have 3: "stored_as [] (str ''a'' @ [10] @ str ''b'') [13, 10] ?raw"
    by (simp add: stored_as_def restoreLineEndings_crlf str_def)
  have 4: "\<forall>e \<in> set ?edits. js_includes (str ''a'' @ [10] @ str ''b'') (normalizeToLF (oldText e))"
    by (simp add: normalizeToLF_alt str_def js_includes_def starts_with_def)
  have n: "normalizeToLF (str ''b'') = str ''b''" "normalizeToLF [10] = [10]"
      "restoreLineEndings (str ''b'') [13, 10] = str ''b''" "restoreLineEndings [10] [13, 10] = [13, 10]"
    by (simp_all add: normalizeToLF_alt restoreLineEndings_crlf str_def)
  have one: "mset ps = mset [x] \<Longrightarrow> ps = [x]" for ps :: "(js_string \<times> js_string) list" and x by simp
  from batch_edit_keeps_rest [OF 1 2(1) 2(2) 3 4] show ?thesis
  proof (elim exE conjE disjE, goal_cases)
    case (2 r s' gs ps written)
    then have ps: "ps = [(str ''b'', [10])]" using one by (simp add: n)
    have "world s' = weave (map (\<lambda>g. restoreLineEndings g [13, 10]) gs) [[13, 10]]"
      using 2(5) by (simp add: demo_os_def ps n)
    then show ?case using 2(1,2,4) by (intro exI conjI disjI2 [OF exI [of _ gs]]) (simp_all add: ps n)
  qed blast
qed


end
