(* ===== verification/FileQueue.thy ===== *)
theory FileQueue
  imports Prelude
begin

text \<open>
  \<open>packages/coding-agent/src/core/tools/file-mutation-queue.ts\<close>: calls that change the same file
  run one after the other.  A call is named by a number.  The promises are terms: \<open>nextQueue\<close> of
  call \<open>n\<close> is resolved once \<open>n\<close> is released, and \<open>currentQueue.then(() => nextQueue)\<close> once both
  are.  The event loop chooses when a call whose promise is resolved goes on and when a body ends.
\<close>

datatype chain =
    Settled
  | After chain nat

record mutation_call =
  call_id :: nat
  call_key :: js_string
  call_current :: chain
  call_running :: bool

record mutation_queue =
  fileMutationQueues :: "(js_string, chain) js_map"
  pending_calls :: "mutation_call list"
  released_calls :: "nat list"
  next_call :: nat

definition queue_init :: mutation_queue where
  "queue_init = \<lparr>fileMutationQueues = [], pending_calls = [], released_calls = [], next_call = 0\<rparr>"

definition getMutationQueueKey ::
  "(js_string \<Rightarrow> js_string) \<Rightarrow> (js_string \<Rightarrow> js_string option) \<Rightarrow> js_string \<Rightarrow> js_string" where
  "getMutationQueueKey resolvePath realpath filePath =
     (let resolvedPath = resolvePath filePath
      in case realpath resolvedPath of Some real \<Rightarrow> real | None \<Rightarrow> resolvedPath)"

fun resolved :: "nat list \<Rightarrow> chain \<Rightarrow> bool" where
  "resolved rel Settled = True"
| "resolved rel (After c n) = (resolved rel c \<and> n \<in> set rel)"

definition chained :: "mutation_call \<Rightarrow> chain" where
  "chained c = After (call_current c) (call_id c)"

text \<open>A call up to its \<open>await currentQueue\<close>.\<close>

definition enter_queue :: "js_string \<Rightarrow> mutation_queue \<Rightarrow> mutation_queue" where
  "enter_queue key st =
     (let current = (case map_get (fileMutationQueues st) key of Some q \<Rightarrow> q | None \<Rightarrow> Settled);
          c = \<lparr>call_id = next_call st, call_key = key, call_current = current, call_running = False\<rparr>
      in st\<lparr>fileMutationQueues := map_set (fileMutationQueues st) key (chained c),
            pending_calls := pending_calls st @ [c], next_call := next_call st + 1\<rparr>)"

text \<open>The await returns and the body begins.\<close>

definition begin_body :: "nat \<Rightarrow> mutation_queue \<Rightarrow> mutation_queue" where
  "begin_body n st =
     st\<lparr>pending_calls := map (\<lambda>c. if call_id c = n then c\<lparr>call_running := True\<rparr> else c) (pending_calls st)\<rparr>"

text \<open>The finally block, whether the body returned or threw.\<close>

definition end_body :: "mutation_call \<Rightarrow> mutation_queue \<Rightarrow> mutation_queue" where
  "end_body c st =
     st\<lparr>released_calls := call_id c # released_calls st,
        pending_calls := filter (\<lambda>d. call_id d \<noteq> call_id c) (pending_calls st),
        fileMutationQueues :=
          (if map_get (fileMutationQueues st) (call_key c) = Some (chained c)
           then map_delete (fileMutationQueues st) (call_key c) else fileMutationQueues st)\<rparr>"

inductive queue_step :: "mutation_queue \<Rightarrow> mutation_queue \<Rightarrow> bool" where
  Enter: "queue_step st (enter_queue key st)"
| Begin: "c \<in> set (pending_calls st) \<Longrightarrow> \<not> call_running c \<Longrightarrow> resolved (released_calls st) (call_current c) \<Longrightarrow>
     queue_step st (begin_body (call_id c) st)"
| End: "c \<in> set (pending_calls st) \<Longrightarrow> call_running c \<Longrightarrow> queue_step st (end_body c st)"

inductive queue_reachable :: "mutation_queue \<Rightarrow> bool" where
  init: "queue_reachable queue_init"
| step: "queue_reachable st \<Longrightarrow> queue_step st st' \<Longrightarrow> queue_reachable st'"

inductive_cases queue_stepE: "queue_step st st'"

subsection \<open>The invariant\<close>

definition calls_of :: "js_string \<Rightarrow> mutation_queue \<Rightarrow> mutation_call list" where
  "calls_of k st = filter (\<lambda>c. call_key c = k) (pending_calls st)"

text \<open>Every call of a file waits for the call before it.\<close>

fun linked :: "mutation_call list \<Rightarrow> bool" where
  "linked (c # d # cs) \<longleftrightarrow> call_current d = chained c \<and> \<not> call_running d \<and> linked (d # cs)"
| "linked _ = True"

definition file_ok :: "mutation_queue \<Rightarrow> js_string \<Rightarrow> bool" where
  "file_ok st k \<longleftrightarrow> linked (calls_of k st)
     \<and> map_get (fileMutationQueues st) k = (if calls_of k st = [] then None else Some (chained (last (calls_of k st))))
     \<and> (calls_of k st \<noteq> [] \<longrightarrow> resolved (released_calls st) (call_current (hd (calls_of k st))))"

definition queue_inv :: "mutation_queue \<Rightarrow> bool" where
  "queue_inv st \<longleftrightarrow> (\<forall>k. file_ok st k)
     \<and> sorted_wrt (<) (map call_id (pending_calls st))
     \<and> (\<forall>c \<in> set (pending_calls st). call_id c < next_call st \<and> call_id c \<notin> set (released_calls st))
     \<and> (\<forall>n \<in> set (released_calls st). n < next_call st)"

lemma linked_snoc: "linked (cs @ [d]) \<longleftrightarrow> linked cs \<and> (cs \<noteq> [] \<longrightarrow> call_current d = chained (last cs) \<and> \<not> call_running d)"
  by (induction cs rule: linked.induct) auto

lemma linked_tl: "linked (c # cs) \<Longrightarrow> linked cs"
  by (cases cs) auto

lemma linked_waits: "linked (c # cs) \<Longrightarrow> d \<in> set cs \<Longrightarrow> \<not> call_running d \<and> (\<exists>e \<in> set (c # cs). call_current d = chained e)"
  by (induction cs arbitrary: c) auto

lemma inv_distinct: "queue_inv st \<Longrightarrow> distinct (map call_id (pending_calls st))"
  by (simp add: queue_inv_def strict_sorted_iff)

lemma resolved_mono: "resolved rel c \<Longrightarrow> resolved (n # rel) c"
  by (induction c) auto

lemma inv_enter: "queue_inv st \<Longrightarrow> queue_inv (enter_queue key st)"
proof -
  assume inv: "queue_inv st"
  have "file_ok (enter_queue key st) k" for k
  proof (cases "k = key")
    case True
    have "file_ok st key" using inv by (simp add: queue_inv_def)
    then show ?thesis
      by (auto simp: True file_ok_def enter_queue_def Let_def calls_of_def linked_snoc)
  next
    case False
    have "file_ok st k" using inv by (simp add: queue_inv_def)
    then show ?thesis using False by (auto simp: file_ok_def enter_queue_def Let_def calls_of_def)
  qed
  moreover have "sorted_wrt (<) (map call_id (pending_calls (enter_queue key st)))"
    using inv by (auto simp: queue_inv_def enter_queue_def Let_def sorted_wrt_append)
  moreover have "next_call st \<notin> set (released_calls st)" using inv by (auto simp: queue_inv_def)
  ultimately show ?thesis using inv
    by (simp add: queue_inv_def enter_queue_def Let_def less_Suc_eq)
qed

text \<open>A call whose promise is resolved is the oldest of its file.\<close>

lemma resolved_oldest:
  assumes "queue_inv st" "c \<in> set (pending_calls st)"
    and "call_running c \<or> resolved (released_calls st) (call_current c)"
  obtains cs where "calls_of (call_key c) st = c # cs"
proof -
  have ok: "file_ok st (call_key c)" using assms(1) by (simp add: queue_inv_def)
  have c: "c \<in> set (calls_of (call_key c) st)" using assms(2) by (simp add: calls_of_def)
  then obtain d ds where ds: "calls_of (call_key c) st = d # ds" by (cases "calls_of (call_key c) st") auto
  have "c \<notin> set ds"
  proof
    assume "c \<in> set ds"
    then obtain e where "e \<in> set (d # ds)" "call_current c = chained e" "\<not> call_running c"
      using linked_waits [of d ds c] ok ds by (auto simp: file_ok_def)
    moreover then have "call_id e \<notin> set (released_calls st)"
      using assms(1) ds by (fastforce simp: queue_inv_def calls_of_def filter_eq_Cons_iff)
    ultimately show False using assms(3) by (simp add: chained_def)
  qed
  then show ?thesis using c ds that by auto
qed

lemma inv_begin:
  assumes "queue_inv st" "c \<in> set (pending_calls st)" "\<not> call_running c"
    "resolved (released_calls st) (call_current c)"
  shows "queue_inv (begin_body (call_id c) st)"
proof -
  let ?f = "\<lambda>d. if call_id d = call_id c then d\<lparr>call_running := True\<rparr> else d"
  have f [simp]: "call_id (?f d) = call_id d" "call_key (?f d) = call_key d"
      "call_current (?f d) = call_current d" "chained (?f d) = chained d" for d
    by (simp_all add: chained_def)
  obtain cs where cs: "calls_of (call_key c) st = c # cs"
    using resolved_oldest [OF assms(1,2)] assms(4) by auto
  have ids: "distinct (map call_id (pending_calls st))" using assms(1) by (rule inv_distinct)
  have unique: "d = c" if "d \<in> set (pending_calls st)" "call_id d = call_id c" for d
    using ids that assms(2) by (auto simp: distinct_map inj_on_def)
  have calls: "calls_of k (begin_body (call_id c) st) = map ?f (calls_of k st)" for k
    by (simp add: calls_of_def begin_body_def filter_map comp_def)
  have rest: "map ?f ds = ds" if "set ds \<subseteq> set (pending_calls st) - {c}" for ds
    using that unique by (intro map_idI) auto
  have link: "linked (map ?f (calls_of k st)) = linked (calls_of k st)" for k
  proof (cases "k = call_key c")
    case True
    have "distinct (pending_calls st)" using ids by (simp add: distinct_map)
    then have "distinct (c # cs)" using cs by (metis calls_of_def distinct_filter)
    then have "set cs \<subseteq> set (pending_calls st) - {c}"
      using arg_cong [OF cs, of set] by (auto simp: calls_of_def)
    then have "map ?f (calls_of k st) = ?f c # cs" using rest True cs by simp
    then show ?thesis using True cs f(4) [of c] by (cases cs) simp_all
  next
    case False
    then have "map ?f (calls_of k st) = calls_of k st" by (intro rest) (auto simp: calls_of_def)
    then show ?thesis by simp
  qed
  have "file_ok (begin_body (call_id c) st) k" for k
  proof -
    have "file_ok st k" using assms(1) by (simp add: queue_inv_def)
    then show ?thesis
      unfolding file_ok_def calls link by (auto simp: begin_body_def last_map hd_map)
  qed
  moreover have "map call_id (map ?f (pending_calls st)) = map call_id (pending_calls st)" by simp
  ultimately show ?thesis using assms(1)
    by (auto simp: queue_inv_def begin_body_def simp del: map_map)
qed

lemma map_filter_ids:
  "sorted_wrt (<) (map call_id cs) \<Longrightarrow> sorted_wrt (<) (map call_id (filter P cs))"
  by (simp add: sorted_wrt_map sorted_wrt_filter)

lemma inv_end:
  assumes "queue_inv st" "c \<in> set (pending_calls st)" "call_running c"
  shows "queue_inv (end_body c st)"
proof -
  obtain cs where cs: "calls_of (call_key c) st = c # cs"
    using resolved_oldest [OF assms(1,2)] assms(3) by auto
  have ids: "distinct (map call_id (pending_calls st))" using assms(1) by (rule inv_distinct)
  then have unique: "call_id d \<noteq> call_id c" if "d \<in> set (pending_calls st)" "d \<noteq> c" for d
    using that assms(2) by (auto simp: distinct_map inj_on_def)
  have calls: "calls_of k (end_body c st) = filter (\<lambda>d. call_id d \<noteq> call_id c) (calls_of k st)" for k
    by (auto simp: calls_of_def end_body_def intro: filter_cong)
  have "distinct (pending_calls st)" using ids by (simp add: distinct_map)
  then have d: "distinct (c # cs)" using cs by (metis calls_of_def distinct_filter)
  have sub: "set (c # cs) \<subseteq> set (pending_calls st)" using arg_cong [OF cs, of set] by (auto simp: calls_of_def)
  have own: "calls_of (call_key c) (end_body c st) = cs"
    using d sub unique unfolding calls cs by (auto intro!: filter_True)
  have other: "calls_of k (end_body c st) = calls_of k st" if "k \<noteq> call_key c" for k
    using that unique unfolding calls by (intro filter_True) (auto simp: calls_of_def)
  have ok: "file_ok st k" for k using assms(1) by (simp add: queue_inv_def)
  have "file_ok (end_body c st) (call_key c)"
  proof (cases cs)
    case Nil
    then show ?thesis using ok [of "call_key c"] own cs
      by (simp add: file_ok_def end_body_def)
  next
    case (Cons e es)
    have "last cs \<in> set cs" using Cons by simp
    then have "call_id (last cs) \<noteq> call_id c" using d sub unique by (metis distinct.simps(2) insert_subset list.set(2) subsetD)
    then have "chained (last cs) \<noteq> chained c" by (simp add: chained_def)
    then show ?thesis using ok [of "call_key c"] own cs Cons
      by (auto simp: file_ok_def end_body_def chained_def resolved_mono)
  qed
  moreover have "file_ok (end_body c st) k" if "k \<noteq> call_key c" for k
    using ok [of k] that other [OF that] by (auto simp: file_ok_def end_body_def resolved_mono)
  ultimately have "file_ok (end_body c st) k" for k by (cases "k = call_key c") auto
  then show ?thesis using assms(1,2)
    by (auto simp: queue_inv_def end_body_def sorted_wrt_filter map_filter_ids)
qed

lemma reachable_inv: "queue_reachable st \<Longrightarrow> queue_inv st"
proof (induction rule: queue_reachable.induct)
  case init
  show ?case by (simp add: queue_inv_def queue_init_def file_ok_def calls_of_def)
next
  case (step st st')
  show ?case using step(2)
    by (rule queue_stepE) (use step(3) in \<open>auto intro: inv_enter inv_begin inv_end\<close>)
qed



end
