(* ===== verification/Spec2Isabelle.thy ===== *)
theory Spec2Isabelle
  imports Prelude TriggerRuntime AsyncQueue Truncate Permission SessionRun Uuid JsonlProps CompactionProps AgentReturns AgentProps AgentStream TriggerProps BranchSummary HarnessProps EditProps FileQueue
begin

text \<open>
  A verification development for the agent core of pie (a terminal coding agent in TypeScript):
  \<open>packages/agent\<close> and the parts of \<open>packages/ai\<close> it rests on.

  \<^bold>\<open>The program.\<close> A session is a tree of entries kept in memory or in a JSONL file; the
  branch from the root to the current leaf gives the messages that are sent to a model.  When the
  context grows too long, a compaction replaces the older messages of the branch by a summary.
  Tool calls of the model pass a permission policy, and the output of tools is truncated
  before it enters the context.  External events (triggers) reach the agent over a queue and a
  runtime that drops duplicates and breaks cycles.

  \<^bold>\<open>The theories and what they model.\<close>
  \<^item> \<open>Prelude\<close>: UTF-16 strings (lists of code units), the string operations of JavaScript the
    code uses, insertion-ordered maps and sets, and the interface \<open>keyed_store\<close>.
  \<^item> \<open>Json\<close>: JSON values, \<open>JSON.stringify\<close>, and \<open>canonicalizeJson\<close> of \<open>agent-loop.ts\<close>.
  \<^item> \<open>Permission\<close>: \<open>harness/permission.ts\<close>; its regular expressions as a datatype with an executable
    matcher that is proved equal to the declarative meaning.
  \<^item> \<open>Truncate\<close>: \<open>harness/utils/truncate.ts\<close> on UTF-16 strings, byte counts as UTF-8.
  \<^item> \<open>Trigger\<close>, \<open>TriggerRuntime\<close>: \<open>harness/trigger.ts\<close> and \<open>harness/trigger-runtime.ts\<close>.
  \<^item> \<open>AsyncQueue\<close>: \<open>harness/async-queue.ts\<close>; a waiting call is named by a number, an operation
    returns the settlements it causes, and a run is a list of calls in the order of the event loop.
  \<^item> \<open>Messages\<close>, \<open>Overflow\<close>: \<open>harness/messages.ts\<close>, \<open>harness/compaction/utils.ts\<close>, the message
    types of \<open>ai/src/types.ts\<close>, and \<open>ai/src/utils/overflow.ts\<close>.
  \<^item> \<open>SessionTypes\<close>, \<open>Session\<close>, \<open>SessionRun\<close>: \<open>harness/session/memory-storage.ts\<close>, \<open>session.ts\<close>,
    \<open>repo-utils.ts\<close>; the interface \<open>session_storage\<close> has both storages as interpretations.
  \<^item> \<open>JsonlStorage\<close>, \<open>JsonlProps\<close>: \<open>harness/session/jsonl-storage.ts\<close>.
  \<^item> \<open>Uuid\<close>: \<open>harness/session/uuid.ts\<close>.
  \<^item> \<open>Budget\<close>, \<open>Compaction\<close>, \<open>CompactionProps\<close>: \<open>harness/compaction/compaction.ts\<close>.
  \<^item> \<open>Effects\<close>: asynchronous code as actions: an action may emit events, call code outside the
    model (a function of the world), return or throw, and may never return (\<open>None\<close>).  With it
    the weakest precondition of an action and the relation between the states before and after.
  \<^item> \<open>AgentLoop\<close>: \<open>agent-loop.ts\<close>, the loop that asks the model for an answer and runs its tool
    calls.  \<open>AgentLoopProps\<close> has its invariants and the pairing of the events of a run,
    \<open>AgentGate\<close> the gate of \<open>beforeToolCall\<close>, \<open>AgentWalk\<close> a walk over the loop for every relation
    on the emitted events that emitting keeps (locale \<open>loop_relation\<close>), and \<open>AgentReturns\<close> that
    a run returns when what the world still brings is bounded.
  \<^item> \<open>Agent\<close>, \<open>AgentProps\<close>: the class \<open>Agent\<close> of \<open>agent.ts\<close>, its state, its queues of steering and
    follow-up messages and its runs over the loop.
  \<^item> \<open>EventStream\<close>, \<open>AgentStream\<close>: \<open>ai/src/utils/event-stream.ts\<close> and the streams
    \<open>agentLoop\<close> and \<open>agentLoopContinue\<close> built on it.
  \<^item> \<open>Utf8\<close>, \<open>JsText\<close>, \<open>TriggerText\<close>, \<open>HarnessState\<close>, \<open>TriggerFlow\<close>, \<open>TriggerProps\<close>: the triggers of
    \<open>harness/agent-harness.ts\<close>: cutting text to a number of bytes, promotion templates and
    conditions, the registry of running triggers, and \<open>handleTrigger\<close>, its deliveries,
    \<open>applyPromotion\<close> and the notification pump as actions.
  \<^item> \<open>Templates\<close>, \<open>Skills\<close>: \<open>harness/prompt-templates.ts\<close>, \<open>harness/skills.ts\<close> and
    \<open>harness/system-prompt.ts\<close>; the walk over the skill directories is a \<open>partial_function\<close>.
  \<^item> \<open>BranchSummary\<close>: \<open>harness/compaction/branch-summarization.ts\<close>, what a move in the session tree
    leaves behind and the messages of which a summary is made.
  \<^item> \<open>Harness\<close>, \<open>HarnessProps\<close>: the turns of \<open>harness/agent-harness.ts\<close>: prompts, skills and
    continuations, the events of the loop, the three queues of messages, pending writes, compaction,
    abort and the setters as actions.  The agent loop is any caller of the functions that
    \<open>createLoopConfig\<close> hands it.  The locale \<open>turn_relation\<close> walks over a turn for every relation on
    states that its steps keep.
  \<^item> \<open>EditDiff\<close>, \<open>DiffText\<close>, \<open>EditTool\<close>, \<open>EditProps\<close>: \<open>coding-agent/src/core/tools/edit-diff.ts\<close>, \<open>edit.ts\<close>,
    \<open>path-utils.ts\<close> and \<open>os-error.ts\<close>: matching and replacing a batch of edits, the diff with line
    numbers, and the tool as an action on files.
  \<^item> \<open>FileQueue\<close>: \<open>coding-agent/src/core/tools/file-mutation-queue.ts\<close>, the chains of promises as
    terms and the calls as an inductive step relation.

  \<^bold>\<open>Parameters.\<close> What is not code of the repository is an argument of the definitions that use
  it: \<open>Date.parse\<close>, \<open>JSON.parse\<close> and \<open>JSON.stringify\<close> of entries, the file system of
  \<open>types.ts\<close>, the clock and random bytes, and the provider that answers a summarization prompt.  In the agent loop
  the model's stream, the tools and the hooks are functions on a world of any type, which may
  throw; the sink of events does not throw; the order in which concurrent tool calls finish is
  chosen by a function of the environment.  The hooks of the harness, the appends to its session
  and the run of a sub-agent are functions of that kind; the YAML parser, the matcher of ignore
  patterns and the files the loaders read are functions.  In the edit tool the operations on files,
  \<open>normalize("NFKC")\<close>, \<open>path.resolve\<close> and \<open>diffLines\<close> are functions.

  \<^bold>\<open>What the lemmas show.\<close>  Invariants: the session tree is append-only and every branch of it
  can be read; ids strictly increase; queue and signal never keep a waiter beside what it waits
  for.  Round trip: a JSONL session is reopened to what was in memory, and a torn last line is
  repaired, except for the case of a missing newline, which is proved to break the session.
  Compaction: the context is partitioned into what is summarised and what is kept, and the
  budgets hold.  Permissions: the rules are characterised exactly.  Triggers: deduplication and
  the bound on causal chains.  Agent loop: every tool call of an answer gets exactly one result, every
  message that starts ends, a blocked call does not run, the loop returns when the queues and the
  model stop giving work (the budget of the theorem), and the agent is idle and holds the messages
  of the run when a prompt settles.  Harness: a trigger runs exactly when it was accepted and
  allowed, a promotion is bounded and its template renders only the allowed fields.  Skills: the
  walk of a finite tree returns, and a cycle of links is walked for ever.  A prompt of the harness
  settles within the cap of continuations, its queues lose no message, and a move in the tree
  collects exactly the branch that is left.  Edits: an accepted batch replaces the old texts and
  nothing else, a file keeps its byte order mark and line endings, the diff shows every change under
  its line number, and changes of one file run one at a time in order.

  \<^bold>\<open>Not modelled.\<close>  Rendering, terminal input, provider protocols, process handling and the
  command line (\<open>packages/tui\<close>, \<open>packages/ai/src/providers\<close>, most of \<open>packages/coding-agent\<close>).  Of the harness
  \<open>navigateTree\<close>, \<open>runEvaluator\<close> and the hooks that are only passed on to the provider; session
  repositories, cost tracking and the model tables; of the edit tool the normalization of legacy
  arguments and the rendering.
\<close>

end
